(* ===== verification/QtPrelude.thy ===== *)
theory QtPrelude
  imports Main "HOL-Library.Word" "HOL-Library.Char_ord" "HOL-Library.List_Lexorder"
    "HOL-Library.Product_Lexorder"
begin

section \<open>Prelude: status values, Go strings, decimal numbers\<close>

text \<open>
  What every component of the model shares. Go strings are byte strings, so a \<open>string\<close>
  (a list of 8-bit characters) is the model of Go's \<open>string\<close> and of \<open>[]byte\<close>. Times are
  integers (nanoseconds since the epoch, UTC), durations likewise. An error that a gRPC
  handler returns is a \<open>status\<close>: the code and the message literal of the source; where the
  source formats the message, the format string stands for it and its arguments are not
  substituted. The functions of \<open>strings\<close> and \<open>strconv\<close> that the code calls are defined
  here with the behaviour the Go standard library documents.
\<close>

named_theorems table_simps \<open>facts that compute the effect of a statement on the store\<close>
named_theorems frame_simps \<open>facts that say which part of the state an operation leaves alone\<close>
named_theorems wf_intros \<open>preservation facts of the well-formedness invariants\<close>

type_synonym time = int
type_synonym duration = int
type_synonym port = "16 word"
type_synonym err = string

definition second :: duration where "second = 1000000000"
definition minute :: duration where "minute = 60 * second"
definition hour :: duration where "hour = 60 * minute"

subsection \<open>Ports\<close>

lemma port_unat_less: "unat (p :: port) < 65536"
proof -
  have "unat p < 2 ^ LENGTH(16)" by (rule unsigned_less)
  then show ?thesis by simp
qed

lemma port_up: "unat (ucast (p :: port) :: 32 word) = unat p"
  using port_unat_less [of p] by (simp add: unsigned_ucast_eq take_bit_nat_eq_self)

lemma port_of_unat: "of_nat (unat (p :: port)) = p"
  by simp

lemma unat_port_of_nat: "n < 65536 \<Longrightarrow> unat (of_nat n :: port) = n"
  by (simp add: unat_of_nat take_bit_nat_eq_self)

lemma unat_suc32: "unat (p :: 32 word) < 65536 \<Longrightarrow> unat (p + 1) = Suc (unat p)"
  by (simp add: unat_word_ariths)

subsection \<open>gRPC status values\<close>

datatype code = InvalidArgument | Unauthenticated | PermissionDenied | NotFound
  | AlreadyExists | FailedPrecondition | ResourceExhausted | Internal | DeadlineExceeded | Unavailable

datatype status = Status (st_code: code) (st_msg: string)

type_synonym 'a rpc = "status + 'a"

definition is_ok :: "'e + 'a \<Rightarrow> bool" where
  "is_ok r = (case r of Inl _ \<Rightarrow> False | Inr _ \<Rightarrow> True)"

lemma is_ok_simps [simp]: "is_ok (Inl e) = False" "is_ok (Inr x) = True"
  by (simp_all add: is_ok_def)

subsection \<open>The functions of package strings the code uses\<close>

text \<open>\<open>strings.Split(s, sep)\<close> for a one-byte separator.\<close>

fun split_on :: "char \<Rightarrow> string \<Rightarrow> string list" where
  "split_on c [] = [[]]"
| "split_on c (x # xs) =
     (if x = c then [] # split_on c xs
      else (case split_on c xs of [] \<Rightarrow> [[x]] | y # ys \<Rightarrow> (x # y) # ys))"

text \<open>\<open>strings.SplitN(s, sep, 2)\<close>: \<open>None\<close> when the separator does not occur (one part).\<close>

fun split_two :: "char \<Rightarrow> string \<Rightarrow> (string \<times> string) option" where
  "split_two c [] = None"
| "split_two c (x # xs) =
     (if x = c then Some ([], xs)
      else (case split_two c xs of None \<Rightarrow> None | Some (a, b) \<Rightarrow> Some (x # a, b)))"

definition has_prefix :: "string \<Rightarrow> string \<Rightarrow> bool" where
  "has_prefix p s = (take (length p) s = p)"

text \<open>The white space of \<open>unicode.IsSpace\<close>, by its UTF-8 encoding: one, two or three bytes.\<close>

definition sp1 :: "nat \<Rightarrow> bool" where
  "sp1 a = ((9 \<le> a \<and> a \<le> 13) \<or> a = 32)"

definition sp2 :: "nat \<Rightarrow> nat \<Rightarrow> bool" where
  "sp2 a b = (a = 194 \<and> (b = 133 \<or> b = 160))"

definition sp3 :: "nat \<Rightarrow> nat \<Rightarrow> nat \<Rightarrow> bool" where
  "sp3 a b c =
     ((a = 225 \<and> b = 154 \<and> c = 128)
      \<or> (a = 226 \<and> b = 128 \<and> ((128 \<le> c \<and> c \<le> 138) \<or> c = 168 \<or> c = 169 \<or> c = 175))
      \<or> (a = 226 \<and> b = 129 \<and> c = 159)
      \<or> (a = 227 \<and> b = 128 \<and> c = 128))"

fun trim_left :: "string \<Rightarrow> string" where
  "trim_left [] = []"
| "trim_left [a] = (if sp1 (of_char a) then [] else [a])"
| "trim_left [a, b] =
     (if sp1 (of_char a) then trim_left [b]
      else if sp2 (of_char a) (of_char b) then [] else [a, b])"
| "trim_left (a # b # c # s) =
     (if sp1 (of_char a) then trim_left (b # c # s)
      else if sp2 (of_char a) (of_char b) then trim_left (c # s)
      else if sp3 (of_char a) (of_char b) (of_char c) then trim_left s
      else a # b # c # s)"

text \<open>The same on a reversed string, so the bytes of a rune come last byte first.\<close>

fun trim_left_rev :: "string \<Rightarrow> string" where
  "trim_left_rev [] = []"
| "trim_left_rev [a] = (if sp1 (of_char a) then [] else [a])"
| "trim_left_rev [b, a] =
     (if sp1 (of_char b) then trim_left_rev [a]
      else if sp2 (of_char a) (of_char b) then [] else [b, a])"
| "trim_left_rev (c # b # a # s) =
     (if sp1 (of_char c) then trim_left_rev (b # a # s)
      else if sp2 (of_char b) (of_char c) then trim_left_rev (a # s)
      else if sp3 (of_char a) (of_char b) (of_char c) then trim_left_rev s
      else c # b # a # s)"

definition trim_space :: "string \<Rightarrow> string" where
  "trim_space s = rev (trim_left_rev (rev (trim_left s)))"

text \<open>
  \<open>strings.ToLower\<close> as far as a comparison with an ASCII literal can see it: ASCII letters,
  and the two non-ASCII letters whose lower case is ASCII (U+0130 and the Kelvin sign).
\<close>

definition lower_byte :: "nat \<Rightarrow> nat" where
  "lower_byte n = (if 65 \<le> n \<and> n \<le> 90 then n + 32 else n)"

fun to_lower :: "string \<Rightarrow> string" where
  "to_lower [] = []"
| "to_lower (a # s) =
     (case s of
        b # t \<Rightarrow>
          if of_char a = (196::nat) \<and> of_char b = (176::nat) then CHR ''i'' # to_lower t
          else (case t of
              c # u \<Rightarrow>
                if of_char a = (226::nat) \<and> of_char b = (132::nat) \<and> of_char c = (170::nat)
                then CHR ''k'' # to_lower u
                else char_of (lower_byte (of_char a)) # to_lower s
            | [] \<Rightarrow> char_of (lower_byte (of_char a)) # to_lower s)
      | [] \<Rightarrow> char_of (lower_byte (of_char a)) # to_lower s)"

subsection \<open>Lemmas on splitting\<close>

lemma split_on_nonempty [simp]: "split_on c s \<noteq> []"
  by (induction s) (auto split: list.splits)

lemma split_on_no_sep: "c \<notin> set s \<Longrightarrow> split_on c s = [s]"
  by (induction s) auto

lemma split_on_append: "c \<notin> set a \<Longrightarrow> split_on c (a @ c # s) = a # split_on c s"
  by (induction a) auto

lemma split_on_parts: "p \<in> set (split_on c s) \<Longrightarrow> c \<notin> set p"
  by (induction s arbitrary: p) (auto split: if_splits list.splits)

fun join :: "char \<Rightarrow> string list \<Rightarrow> string" where
  "join c [] = []"
| "join c [p] = p"
| "join c (p # q # ps) = p @ c # join c (q # ps)"

lemma join_split_on: "join c (split_on c s) = s"
proof (induction s)
  case Nil
  then show ?case by simp
next
  case (Cons x s)
  obtain y ys where y: "split_on c s = y # ys"
    by (cases "split_on c s") auto
  have "join c (y # ys) = s" using Cons.IH y by simp
  then show ?case using y by (cases ys) auto
qed

lemma split_two_append: "c \<notin> set a \<Longrightarrow> split_two c (a @ c # b) = Some (a, b)"
  by (induction a) auto

lemma split_two_Some: "split_two c s = Some (a, b) \<Longrightarrow> s = a @ c # b \<and> c \<notin> set a"
  by (induction s arbitrary: a b) (auto split: if_splits option.splits)

lemma has_prefix_iff: "has_prefix p s \<longleftrightarrow> (\<exists>t. s = p @ t)"
  unfolding has_prefix_def by (metis append_eq_conv_conj append_take_drop_id)

lemma has_prefix_append [simp]: "has_prefix p (p @ t)"
  by (simp add: has_prefix_def)

subsection \<open>Lemmas on trimming\<close>

text \<open>A byte that no white-space rune starts or ends with; trimming stops there.\<close>

definition solid :: "char \<Rightarrow> bool" where
  "solid c = (33 \<le> (of_char c :: nat) \<and> (of_char c :: nat) < 128)"

lemma solid_not_space:
  assumes "solid c"
  shows "\<not> sp1 (of_char c)" "\<not> sp2 (of_char c) b" "\<not> sp2 a (of_char c)"
    "\<not> sp3 (of_char c) a b" "\<not> sp3 a b (of_char c)"
  using assms by (auto simp: solid_def sp1_def sp2_def sp3_def)

lemma trim_left_solid: "solid a \<Longrightarrow> trim_left (a # s) = a # s"
  by (cases "(a # s)" rule: trim_left.cases; simp add: solid_not_space)

lemma trim_left_rev_solid: "solid a \<Longrightarrow> trim_left_rev (a # s) = a # s"
  by (cases "(a # s)" rule: trim_left_rev.cases; simp add: solid_not_space)

lemma trim_space_solid:
  assumes "s \<noteq> []" "solid (hd s)" "solid (last s)"
  shows "trim_space s = s"
proof -
  obtain a t where s: "s = a # t" using assms(1) by (cases s) auto
  have l: "trim_left s = s" using assms(2) s by (simp add: trim_left_solid)
  obtain b u where r: "rev s = b # u" using assms(1) by (cases "rev s") auto
  have "last s = b" using r by (metis last_snoc rev.simps(2) rev_rev_ident)
  then have "trim_left_rev (rev s) = rev s" using assms(3) r by (simp add: trim_left_rev_solid)
  then show ?thesis by (simp add: trim_space_def l)
qed

lemma trim_space_all_solid: "list_all solid s \<Longrightarrow> trim_space s = s"
  by (cases "s = []") (simp add: trim_space_def, rule trim_space_solid, auto simp: list_all_iff)

subsection \<open>Decimal numbers: strconv.FormatUint and strconv.ParseUint\<close>

definition digit_char :: "nat \<Rightarrow> char" where
  "digit_char d = char_of (48 + d)"

definition is_digit :: "char \<Rightarrow> bool" where
  "is_digit c = (48 \<le> (of_char c :: nat) \<and> (of_char c :: nat) \<le> 57)"

definition digit_val :: "char \<Rightarrow> nat" where
  "digit_val c = of_char c - 48"

fun format_uint :: "nat \<Rightarrow> string" where
  "format_uint n =
     (if n < 10 then [digit_char n] else format_uint (n div 10) @ [digit_char (n mod 10)])"

declare format_uint.simps [simp del]

definition dec_value :: "string \<Rightarrow> nat" where
  "dec_value s = foldl (\<lambda>v c. 10 * v + digit_val c) 0 s"

text \<open>
  \<open>strconv.ParseUint(s, 10, bits)\<close>: \<open>None\<close> for a syntax or a range error. Base 10 takes
  neither a sign nor underscores; leading zeros are allowed.
\<close>

definition parse_uint :: "nat \<Rightarrow> string \<Rightarrow> nat option" where
  "parse_uint bits s =
     (if s = [] \<or> \<not> list_all is_digit s then None
      else if dec_value s < 2 ^ bits then Some (dec_value s) else None)"

lemma digit_char_props [simp]:
  assumes "d < 10"
  shows "is_digit (digit_char d)" "digit_val (digit_char d) = d" "solid (digit_char d)"
  using assms by (simp_all add: is_digit_def digit_val_def digit_char_def solid_def)

lemma format_uint_digits: "list_all is_digit (format_uint n)"
proof (induction n rule: format_uint.induct)
  case (1 n)
  then show ?case by (cases "n < 10") (simp_all add: format_uint.simps [of n])
qed

lemma format_uint_nonempty [simp]: "format_uint n \<noteq> []"
  by (subst format_uint.simps) simp

lemma is_digit_solid: "is_digit c \<Longrightarrow> solid c"
  by (simp add: is_digit_def solid_def)

lemma format_uint_solid: "list_all solid (format_uint n)"
  using format_uint_digits [of n] by (auto simp: list_all_iff is_digit_solid)

lemma dec_value_snoc: "dec_value (s @ [c]) = 10 * dec_value s + digit_val c"
  by (simp add: dec_value_def)

lemma dec_value_format [simp]: "dec_value (format_uint n) = n"
proof (induction n rule: format_uint.induct)
  case (1 n)
  show ?case
  proof (cases "n < 10")
    case True
    then show ?thesis by (simp add: format_uint.simps [of n] dec_value_def)
  next
    case False
    with 1 show ?thesis by (simp add: format_uint.simps [of n] dec_value_snoc)
  qed
qed

lemma parse_format_uint: "parse_uint bits (format_uint n) = (if n < 2 ^ bits then Some n else None)"
  using format_uint_digits [of n] by (simp add: parse_uint_def)

lemma parse_uint_bound: "parse_uint bits s = Some n \<Longrightarrow> n < 2 ^ bits"
  by (auto simp: parse_uint_def split: if_splits)

lemma format_uint_inj: "format_uint m = format_uint n \<Longrightarrow> m = n"
  by (metis dec_value_format)

lemma format_uint_no_sep: "\<not> is_digit c \<Longrightarrow> c \<notin> set (format_uint n)"
  using format_uint_digits [of n] by (auto simp: list_all_iff)

subsection \<open>Sorting\<close>

lemma sort_key_set_unique:
  fixes f :: "'a \<Rightarrow> 'k::linorder"
  assumes "distinct (map f xs)" "distinct (map f ys)" "set xs = set ys"
  shows "sort_key f xs = sort_key f ys"
proof (rule map_sorted_distinct_set_unique [where f = f])
  show "inj_on f (set (sort_key f xs) \<union> set (sort_key f ys))"
    using assms by (simp add: distinct_map)
  show "distinct (map f (sort_key f xs))" "distinct (map f (sort_key f ys))"
    using assms(1,2) by (simp_all add: distinct_map)
qed (use assms in simp_all)

end
