(* ===== verification/Store.thy ===== *)
theory Store
  imports QtPrelude
begin

section \<open>Tables with soft delete, and the cursor paging over them\<close>

text \<open>
  The control plane keeps its state in SQLite tables with an AUTOINCREMENT primary key and a
  \<open>deleted_at\<close> column (internal/migration/files, internal/model/base.go). A table is the list
  of its rows in primary-key order with the largest key ever given out. The operations are the
  shapes of statement the DAOs use: append a row, first live match, all live matches, a page of
  live matches after a cursor, update the live matches, soft-delete the live matches, and save
  a whole row by its key. The locale \<open>keyset_pager\<close> is the contract of a paged list: under it
  a client that follows the cursors sees every row once, in order, and stops.
\<close>

record row =
  ID :: nat

record srow = row +
  CreatedAt :: time
  DeletedAt :: "time option"

record base = srow +
  UpdatedAt :: time

record 'r table =
  rows :: "'r list"
  seq :: nat

definition tbl_empty :: "'r table" where
  "tbl_empty = \<lparr>rows = [], seq = 0\<rparr>"

definition live :: "'a srow_scheme \<Rightarrow> bool" where
  "live r = (DeletedAt r = None)"

text \<open>A new row gets the next key; \<open>mk\<close> makes the row from it.\<close>

definition tbl_append :: "(nat \<Rightarrow> 'r) \<Rightarrow> 'r table \<Rightarrow> 'r \<times> 'r table" where
  "tbl_append mk t =
     (let i = Suc (seq t); r = mk i in (r, t\<lparr>rows := rows t @ [r], seq := i\<rparr>))"

definition first_live :: "('a srow_scheme \<Rightarrow> bool) \<Rightarrow> 'a srow_scheme table \<Rightarrow> 'a srow_scheme option" where
  "first_live P t = find (\<lambda>r. live r \<and> P r) (rows t)"

definition select_live :: "('a srow_scheme \<Rightarrow> bool) \<Rightarrow> 'a srow_scheme table \<Rightarrow> 'a srow_scheme list" where
  "select_live P t = filter (\<lambda>r. live r \<and> P r) (rows t)"

definition count_live :: "('a srow_scheme \<Rightarrow> bool) \<Rightarrow> 'a srow_scheme table \<Rightarrow> nat" where
  "count_live P t = length (select_live P t)"

definition page_live ::
  "('a srow_scheme \<Rightarrow> bool) \<Rightarrow> nat option \<Rightarrow> nat \<Rightarrow> 'a srow_scheme table \<Rightarrow> 'a srow_scheme list" where
  "page_live P after n t =
     take n (filter (\<lambda>r. case after of None \<Rightarrow> True | Some c \<Rightarrow> c < ID r) (select_live P t))"

definition update_live ::
  "('a srow_scheme \<Rightarrow> bool) \<Rightarrow> ('a srow_scheme \<Rightarrow> 'a srow_scheme) \<Rightarrow> 'a srow_scheme table
     \<Rightarrow> 'a srow_scheme table" where
  "update_live P f t = t\<lparr>rows := map (\<lambda>r. if live r \<and> P r then f r else r) (rows t)\<rparr>"

definition delete_live ::
  "time \<Rightarrow> ('a srow_scheme \<Rightarrow> bool) \<Rightarrow> 'a srow_scheme table \<Rightarrow> 'a srow_scheme table" where
  "delete_live now P t = update_live P (\<lambda>r. r\<lparr>DeletedAt := Some now\<rparr>) t"

text \<open>
  A partial unique index \<open>ON t(key) WHERE deleted_at IS NULL\<close>: whether a live row other than
  the one with key \<open>i\<close> already holds \<open>k\<close>.
\<close>

definition conflicts :: "('a srow_scheme \<Rightarrow> 'k) \<Rightarrow> 'k \<Rightarrow> nat \<Rightarrow> 'a srow_scheme table \<Rightarrow> bool" where
  "conflicts key k i t = (\<exists>r\<in>set (rows t). live r \<and> ID r \<noteq> i \<and> key r = k)"

text \<open>GORM's Save of a row whose primary key is set: replace the row, or insert it if absent.\<close>

definition tbl_save :: "'a srow_scheme \<Rightarrow> 'a srow_scheme table \<Rightarrow> 'a srow_scheme table" where
  "tbl_save r t =
     (if \<exists>x\<in>set (rows t). ID x = ID r
      then t\<lparr>rows := map (\<lambda>x. if ID x = ID r then r else x) (rows t)\<rparr>
      else t\<lparr>rows := rows t @ [r], seq := max (seq t) (ID r)\<rparr>)"

text \<open>The columns GORM fills on Create and on Save or Update.\<close>

definition stamp_new :: "time \<Rightarrow> nat \<Rightarrow> 'a base_scheme \<Rightarrow> 'a base_scheme" where
  "stamp_new now i r = r\<lparr>ID := i, CreatedAt := now, DeletedAt := None, UpdatedAt := now\<rparr>"

definition touch :: "time \<Rightarrow> 'a base_scheme \<Rightarrow> 'a base_scheme" where
  "touch now r = r\<lparr>UpdatedAt := now\<rparr>"

subsection \<open>Well-formed tables\<close>

definition tbl_wf :: "'a row_scheme table \<Rightarrow> bool" where
  "tbl_wf t \<longleftrightarrow> sorted_wrt (<) (map ID (rows t)) \<and> (\<forall>r\<in>set (rows t). 0 < ID r \<and> ID r \<le> seq t)"

definition uniq_live :: "('a srow_scheme \<Rightarrow> 'k) \<Rightarrow> 'a srow_scheme table \<Rightarrow> bool" where
  "uniq_live key t \<longleftrightarrow>
     (\<forall>r\<in>set (rows t). \<forall>r'\<in>set (rows t). live r \<longrightarrow> live r' \<longrightarrow> key r = key r' \<longrightarrow> ID r = ID r')"

lemma stamp_new_fields [simp]:
  "ID (stamp_new now i r) = i" "CreatedAt (stamp_new now i r) = now"
  "DeletedAt (stamp_new now i r) = None" "UpdatedAt (stamp_new now i r) = now"
  "live (stamp_new now i r)" "base.more (stamp_new now i r) = base.more r"
  by (simp_all add: stamp_new_def live_def)

lemma touch_fields [simp]:
  "ID (touch now r) = ID r" "CreatedAt (touch now r) = CreatedAt r"
  "DeletedAt (touch now r) = DeletedAt r" "base.more (touch now r) = base.more r"
  "live (touch now r) = live r"
  by (simp_all add: touch_def live_def)

lemma tbl_empty_simps [simp]: "rows tbl_empty = []" "seq tbl_empty = 0"
  by (simp_all add: tbl_empty_def)

lemma tbl_append_simps [table_simps]:
  "fst (tbl_append mk t) = mk (Suc (seq t))"
  "rows (snd (tbl_append mk t)) = rows t @ [mk (Suc (seq t))]"
  "seq (snd (tbl_append mk t)) = Suc (seq t)"
  by (simp_all add: tbl_append_def Let_def)

lemma update_live_simps [table_simps]:
  "rows (update_live P f t) = map (\<lambda>r. if live r \<and> P r then f r else r) (rows t)"
  "seq (update_live P f t) = seq t"
  by (simp_all add: update_live_def)

lemma delete_live_simps [table_simps]:
  "rows (delete_live now P t) =
     map (\<lambda>r. if live r \<and> P r then r\<lparr>DeletedAt := Some now\<rparr> else r) (rows t)"
  "seq (delete_live now P t) = seq t"
  by (simp_all add: delete_live_def table_simps)

lemma first_live_Some:
  "first_live P t = Some r \<Longrightarrow> r \<in> set (rows t) \<and> live r \<and> P r"
  by (auto simp: first_live_def find_Some_iff)

lemma first_live_None: "first_live P t = None \<longleftrightarrow> (\<forall>r\<in>set (rows t). live r \<longrightarrow> \<not> P r)"
  by (auto simp: first_live_def find_None_iff)

lemma set_select_live: "set (select_live P t) = {r \<in> set (rows t). live r \<and> P r}"
  by (auto simp: select_live_def)

lemma count_live_0_iff: "count_live P t = 0 \<longleftrightarrow> (\<forall>r\<in>set (rows t). live r \<longrightarrow> \<not> P r)"
  by (auto simp: count_live_def select_live_def filter_empty_conv)

lemma tbl_wf_empty [simp, wf_intros]: "tbl_wf tbl_empty"
  by (simp add: tbl_wf_def)

lemma tbl_wf_append [wf_intros]:
  assumes "tbl_wf t" "ID (mk (Suc (seq t))) = Suc (seq t)"
  shows "tbl_wf (snd (tbl_append mk t))"
  using assms by (fastforce simp: tbl_wf_def table_simps sorted_wrt_append)

lemma map_ID_update: "(\<And>r. ID (f r) = ID r) \<Longrightarrow> map ID (map (\<lambda>r. if Q r then f r else r) xs) = map ID xs"
  by (induction xs) auto

lemma tbl_wf_update [wf_intros]:
  assumes "tbl_wf t" "\<And>r. ID (f r) = ID r"
  shows "tbl_wf (update_live P f t)"
  using assms map_ID_update [of f "\<lambda>r. live r \<and> P r" "rows t"]
  by (auto simp: tbl_wf_def table_simps simp del: map_map)

lemma tbl_wf_delete [wf_intros]: "tbl_wf t \<Longrightarrow> tbl_wf (delete_live now P t)"
  by (simp add: delete_live_def tbl_wf_update)

lemma tbl_wf_inj: "tbl_wf t \<Longrightarrow> r \<in> set (rows t) \<Longrightarrow> r' \<in> set (rows t) \<Longrightarrow> ID r = ID r' \<Longrightarrow> r = r'"
  unfolding tbl_wf_def by (metis distinct_map inj_onD strict_sorted_iff)

lemma first_live_ID:
  assumes "tbl_wf t" "r \<in> set (rows t)" "live r"
  shows "first_live (\<lambda>x. ID x = ID r) t = Some r"
proof -
  obtain x where x: "first_live (\<lambda>x. ID x = ID r) t = Some x"
    using assms by (cases "first_live (\<lambda>x. ID x = ID r) t") (auto simp: first_live_None)
  with first_live_Some [OF x] assms tbl_wf_inj show ?thesis by metis
qed

text \<open>Under a unique key, a search by that key finds the row that holds it.\<close>

lemma first_live_key:
  assumes "tbl_wf t" "uniq_live key t" "r \<in> set (rows t)" "live r" "key r = k"
  shows "first_live (\<lambda>x. key x = k) t = Some r"
proof -
  obtain x where x: "first_live (\<lambda>x. key x = k) t = Some x"
    using assms by (cases "first_live (\<lambda>x. key x = k) t") (auto simp: first_live_None)
  from first_live_Some [OF x] have "x \<in> set (rows t)" "live x" "key x = k" by auto
  with assms have "ID x = ID r" unfolding uniq_live_def by metis
  with \<open>x \<in> set (rows t)\<close> assms(1,3) have "x = r" by (metis tbl_wf_inj)
  with x show ?thesis by simp
qed

lemma uniq_live_row:
  assumes "tbl_wf t" "uniq_live key t" "r \<in> set (rows t)" "live r" "r' \<in> set (rows t)" "live r'"
    "key r = key r'"
  shows "r = r'"
proof -
  have "Some r = Some r'"
    unfolding first_live_key [OF assms(1-4,7), symmetric]
    by (rule first_live_key [OF assms(1,2,5,6) refl])
  then show ?thesis by (rule option.inject [THEN iffD1])
qed

lemma tbl_save_rows:
  assumes "\<exists>x\<in>set (rows t). ID x = ID r"
  shows "rows (tbl_save r t) = map (\<lambda>x. if ID x = ID r then r else x) (rows t)"
    and "seq (tbl_save r t) = seq t"
  using assms by (simp_all add: tbl_save_def)

lemma tbl_wf_save [wf_intros]:
  assumes "tbl_wf t" "\<exists>x\<in>set (rows t). ID x = ID r"
  shows "tbl_wf (tbl_save r t)"
proof -
  have "map ID (rows (tbl_save r t)) = map ID (rows t)"
    unfolding tbl_save_rows(1) [OF assms(2)] by (induction "rows t") auto
  moreover have "\<forall>x\<in>set (rows (tbl_save r t)). 0 < ID x \<and> ID x \<le> seq t"
    using assms unfolding tbl_save_rows(1) [OF assms(2)] by (auto simp: tbl_wf_def)
  ultimately show ?thesis
    using assms(1) tbl_save_rows(2) [OF assms(2)] by (simp add: tbl_wf_def)
qed

lemma uniq_live_append [wf_intros]:
  assumes "uniq_live key t" "\<not> conflicts key (key (mk (Suc (seq t)))) 0 t" "tbl_wf t"
  shows "uniq_live key (snd (tbl_append mk t))"
proof -
  have "key r \<noteq> key (mk (Suc (seq t)))" if "r \<in> set (rows t)" "live r" for r
    using assms(2,3) that unfolding conflicts_def tbl_wf_def by (metis less_nat_zero_code)
  then show ?thesis
    using assms(1) unfolding uniq_live_def table_simps
    by (metis Un_iff empty_iff insert_iff list.set(1,2) set_append)
qed

lemma uniq_live_map:
  assumes "uniq_live key t" "\<And>r. r \<in> set (rows t) \<Longrightarrow> key (g r) = key r \<and> ID (g r) = ID r"
    "\<And>r. r \<in> set (rows t) \<Longrightarrow> live (g r) \<Longrightarrow> live r" "rows t' = map g (rows t)"
  shows "uniq_live key t'"
  unfolding uniq_live_def assms(4)
proof (intro ballI impI)
  fix a b
  assume ab: "a \<in> set (map g (rows t))" "b \<in> set (map g (rows t))" "live a" "live b" "key a = key b"
  then obtain x y where xy: "x \<in> set (rows t)" "y \<in> set (rows t)" "a = g x" "b = g y"
    by auto
  have "live x" "live y" using assms(3) [OF xy(1)] assms(3) [OF xy(2)] ab(3,4) xy(3,4) by simp_all
  moreover have "key x = key y" using assms(2) [OF xy(1)] assms(2) [OF xy(2)] ab(5) xy(3,4) by simp
  ultimately have "ID x = ID y" using assms(1) xy(1,2) unfolding uniq_live_def by blast
  then show "ID a = ID b" using assms(2) [OF xy(1)] assms(2) [OF xy(2)] xy(3,4) by simp
qed

lemma uniq_live_update [wf_intros]:
  assumes "uniq_live key t" "\<And>r. key (f r) = key r" "\<And>r. ID (f r) = ID r"
    "\<And>r. live (f r) \<Longrightarrow> live r"
  shows "uniq_live key (update_live P f t)"
  by (rule uniq_live_map [OF assms(1) _ _ update_live_simps(1)])
    (use assms(2-4) in \<open>auto split: if_splits\<close>)

lemma uniq_live_delete [wf_intros]:
  assumes "uniq_live key t" "\<And>r. key (r\<lparr>DeletedAt := Some now\<rparr>) = key r"
  shows "uniq_live key (delete_live now P t)"
  unfolding delete_live_def
  by (rule uniq_live_update [OF assms]) (simp_all add: live_def)

lemma uniq_live_save [wf_intros]:
  assumes "uniq_live key t" "\<not> conflicts key (key r) (ID r) t" "\<exists>x\<in>set (rows t). ID x = ID r"
  shows "uniq_live key (tbl_save r t)"
  unfolding uniq_live_def tbl_save_rows(1) [OF assms(3)]
proof (intro ballI impI)
  let ?g = "\<lambda>x. if ID x = ID r then r else x"
  fix a b
  assume ab: "a \<in> set (map ?g (rows t))" "b \<in> set (map ?g (rows t))"
    "live a" "live b" "key a = key b"
  have old: "x = r \<or> (x \<in> set (rows t) \<and> ID x \<noteq> ID r)" if "x \<in> set (map ?g (rows t))" for x
    using that by auto
  show "ID a = ID b"
    using old [OF ab(1)] old [OF ab(2)] ab(3-5) assms(1,2)
    unfolding uniq_live_def conflicts_def by metis
qed

lemma tbl_wf_snoc:
  "tbl_wf t \<Longrightarrow> rows t' = rows t @ [r] \<Longrightarrow> seq t' = Suc (seq t) \<Longrightarrow> ID r = Suc (seq t) \<Longrightarrow> tbl_wf t'"
  by (fastforce simp: tbl_wf_def sorted_wrt_append)

lemma uniq_live_snoc:
  assumes "uniq_live key t" "rows t' = rows t @ [r]" "\<not> conflicts key (key r) 0 t" "tbl_wf t"
  shows "uniq_live key t'"
proof -
  have "key x \<noteq> key r" if "x \<in> set (rows t)" "live x" for x
    using assms(3,4) that unfolding conflicts_def tbl_wf_def by (metis less_nat_zero_code)
  then show ?thesis
    using assms(1) unfolding uniq_live_def assms(2)
    by (metis Un_iff empty_iff insert_iff list.set(1,2) set_append)
qed

lemma delete_live_survivor:
  assumes "x \<in> set (rows (delete_live now0 Q t))" "live x"
  shows "x \<in> set (rows t) \<and> \<not> Q x"
proof -
  obtain y where y: "y \<in> set (rows t)" "x = (if live y \<and> Q y then y\<lparr>DeletedAt := Some now0\<rparr> else y)"
    using assms(1) unfolding delete_live_simps by auto
  then have "\<not> (live y \<and> Q y)" using assms(2) by (auto simp: live_def)
  then have "x = y" using y(2) by (simp only: if_False)
  then show ?thesis using y(1) assms(2) \<open>\<not> (live y \<and> Q y)\<close> by simp
qed

subsection \<open>Cursor paging\<close>

definition clamp_page_size :: "int \<Rightarrow> nat" where
  "clamp_page_size n = (if n \<le> 0 then 50 else if n > 1000 then 1000 else nat n)"

lemma clamp_page_size_bounds: "0 < clamp_page_size n" "clamp_page_size n \<le> 1000"
  by (auto simp: clamp_page_size_def)

text \<open>What a client does: fetch a page, stop on an empty one, go on after its last key.\<close>

fun crawl :: "nat \<Rightarrow> (nat option \<Rightarrow> 'r list) \<Rightarrow> ('r \<Rightarrow> nat) \<Rightarrow> nat option \<Rightarrow> 'r list option" where
  "crawl 0 fetch key cur = None"
| "crawl (Suc fuel) fetch key cur =
     (case fetch cur of
        [] \<Rightarrow> Some []
      | r # rs \<Rightarrow> map_option ((@) (r # rs)) (crawl fuel fetch key (Some (key (last (r # rs))))))"

locale keyset_pager =
  fixes wf :: "'s \<Rightarrow> bool"
    and universe :: "'s \<Rightarrow> 'r list"
    and fetch :: "'s \<Rightarrow> nat \<Rightarrow> nat option \<Rightarrow> 'r list"
    and key :: "'r \<Rightarrow> nat"
    and before :: "nat \<Rightarrow> nat \<Rightarrow> bool"
  assumes before_trans: "before i j \<Longrightarrow> before j k \<Longrightarrow> before i k"
    and before_irrefl: "\<not> before i i"
    and universe_sorted: "wf s \<Longrightarrow> sorted_wrt before (map key (universe s))"
    and fetch_first: "wf s \<Longrightarrow> fetch s n None = take n (universe s)"
    and fetch_after: "wf s \<Longrightarrow> r \<in> set (universe s) \<Longrightarrow>
      fetch s n (Some (key r)) = take n (filter (\<lambda>x. before (key r) (key x)) (universe s))"
begin

lemma filter_after_prefix:
  assumes "wf s" "universe s = xs @ r # ys"
  shows "filter (\<lambda>x. before (key r) (key x)) (universe s) = ys"
proof -
  have srt: "sorted_wrt before (map key (xs @ r # ys))"
    using universe_sorted [OF assms(1)] assms(2) by simp
  have "\<forall>x\<in>set xs. \<not> before (key r) (key x)"
  proof
    fix x assume "x \<in> set xs"
    then have "before (key x) (key r)" using srt by (auto simp: sorted_wrt_append)
    then show "\<not> before (key r) (key x)" using before_trans before_irrefl by metis
  qed
  then have "filter (\<lambda>x. before (key r) (key x)) xs = []"
    by (simp add: filter_empty_conv)
  moreover have "filter (\<lambda>x. before (key r) (key x)) ys = ys"
    using srt by (auto simp: sorted_wrt_append)
  ultimately show ?thesis using assms(2) before_irrefl by simp
qed

lemma crawl_rest:
  assumes "wf s" "0 < n" "universe s = xs @ ys" "length ys < fuel"
    and cur: "fetch s n cur = take n ys"
  shows "crawl fuel (fetch s n) key cur = Some ys"
  using assms(3-5)
proof (induction fuel arbitrary: xs ys cur)
  case 0
  then show ?case by simp
next
  case (Suc fuel)
  show ?case
  proof (cases ys)
    case Nil
    with Suc.prems show ?thesis by simp
  next
    case (Cons y ys')
    obtain p ps where p: "take n ys = p # ps" using Cons assms(2) by (cases n) auto
    let ?l = "last (p # ps)"
    have split: "p # ps = butlast (p # ps) @ [?l]" by simp
    have u: "universe s = (xs @ butlast (p # ps)) @ ?l # drop n ys"
      using Suc.prems(1) p split append_take_drop_id [of n ys]
      by (metis append.assoc append_Cons append_Nil)
    have f: "fetch s n (Some (key ?l)) = take n (drop n ys)"
      using filter_after_prefix [OF assms(1) u] u
      by (subst fetch_after [OF assms(1)]) auto
    have "crawl fuel (fetch s n) key (Some (key ?l)) = Some (drop n ys)"
      using Suc.prems(2) Cons assms(2) f u
      by (intro Suc.IH [where xs = "(xs @ butlast (p # ps)) @ [?l]"]) auto
    then show ?thesis
      using Suc.prems(3) p append_take_drop_id [of n ys] by simp
  qed
qed

text \<open>The contract's consequence: the crawl ends and returns every row once, in order.\<close>

lemma crawl_all:
  assumes "wf s" "0 < n" "length (universe s) < fuel"
  shows "crawl fuel (fetch s n) key None = Some (universe s)"
  using assms by (intro crawl_rest [where xs = "[]"]) (simp_all add: fetch_first)

end

lemma sorted_wrt_filter_map: "sorted_wrt Q (map f xs) \<Longrightarrow> sorted_wrt Q (map f (filter P xs))"
  by (simp add: sorted_wrt_map sorted_wrt_filter)

interpretation live_pages: keyset_pager "tbl_wf :: 'a srow_scheme table \<Rightarrow> bool"
  "select_live P" "\<lambda>t n cur. page_live P cur n t" ID "(<)"
  by unfold_locales
    (auto simp: tbl_wf_def select_live_def page_live_def intro: sorted_wrt_filter_map)

end
