(* ===== verification/Schema.thy ===== *)
theory Schema
  imports Store
begin

section \<open>The rows of the control-plane database and the environment of a request\<close>

text \<open>
  One record per model of internal/model (which the SQL migration spells out as a table), and
  the database as the record of its tables. Columns that hold Go's typed strings (status, mode,
  backend, role, proto) stay strings, with the source's constants named below. Two columns hold
  JSON text: \<open>lan_cidrs_json\<close> is kept as the list it encodes (\<open>None\<close> for the empty text), and
  \<open>extra_json\<close> as the map it encodes.

  What a request takes from outside is an \<open>env\<close>: the clock, the random bytes, bcrypt (a
  third-party package, so two functions the model only passes on), and for each SQL statement,
  named by the error prefix its DAO wraps it in, whether the driver fails it. A failed statement
  leaves the database as it was.
\<close>

definition ProjectStatusActive :: string where "ProjectStatusActive = ''active''"
definition ProjectStatusDisabled :: string where "ProjectStatusDisabled = ''disabled''"
definition BackendRathole :: string where "BackendRathole = ''rathole''"
definition BackendNetbird :: string where "BackendNetbird = ''netbird''"
definition SiteModeEndpoint :: string where "SiteModeEndpoint = ''endpoint''"
definition SiteModeSubnet :: string where "SiteModeSubnet = ''subnet''"
definition ProjectRoleOwner :: string where "ProjectRoleOwner = ''owner''"
definition ProjectRoleOperator :: string where "ProjectRoleOperator = ''operator''"
definition ProjectRoleViewer :: string where "ProjectRoleViewer = ''viewer''"
definition SiteStatusPending :: string where "SiteStatusPending = ''pending''"
definition SiteStatusOnline :: string where "SiteStatusOnline = ''online''"
definition SiteStatusOffline :: string where "SiteStatusOffline = ''offline''"
definition ProtoTCP :: string where "ProtoTCP = ''tcp''"
definition ProtoUDP :: string where "ProtoUDP = ''udp''"

lemmas status_consts =
  ProjectStatusActive_def ProjectStatusDisabled_def SiteStatusPending_def SiteStatusOnline_def
  SiteStatusOffline_def

record operator_row = base +
  op_email :: string
  op_password_hash :: string
  op_is_admin :: bool

record session_row = base +
  se_operator_id :: nat
  se_token_hash :: string
  se_issued_at :: time
  se_expires_at :: time
  se_revoked_at :: "time option"
  se_user_agent :: string
  se_source_ip :: string

record project_row = base +
  pr_slug :: string
  pr_name :: string
  pr_default_mode :: string
  pr_backend :: string
  pr_relay_port_range :: string
  pr_status :: string

record access_row = base +
  ac_operator_id :: nat
  ac_project_id :: nat
  ac_role :: string

record site_row = base +
  si_project_id :: nat
  si_name :: string
  si_lan_cidrs :: "string list option"
  si_mode :: string
  si_backend :: string
  si_status :: string
  si_last_seen_at :: "time option"
  si_hostname :: string
  si_os :: string
  si_agent_version :: string

record agent_token_row = base +
  at_site_id :: nat
  at_token_hash :: string
  at_expires_at :: "time option"
  at_last_used_at :: "time option"

record service_row = base +
  sv_site_id :: nat
  sv_name :: string
  sv_target_addr :: string
  sv_target_port :: port
  sv_proto :: string
  sv_relay_port :: "port option"

record sa_token_row = srow +
  sa_operator_id :: nat
  sa_token_hash :: string
  sa_description :: string
  sa_expires_at :: "time option"
  sa_last_used_at :: "time option"
  sa_revoked_at :: "time option"

datatype extra_val = EStr string | ENat nat | EInt int | EBool bool | EStrs "string list"

type_synonym extra = "(string \<times> extra_val) list"

record audit_row = row +
  au_ts :: time
  au_project_id :: "nat option"
  au_operator_id :: "nat option"
  au_action :: string
  au_target :: string
  au_source_ip :: string
  au_extra :: extra

record db =
  t_operators :: "operator_row table"
  t_sessions :: "session_row table"
  t_projects :: "project_row table"
  t_accesses :: "access_row table"
  t_sites :: "site_row table"
  t_agent_tokens :: "agent_token_row table"
  t_services :: "service_row table"
  t_audit_logs :: "audit_row table"
  t_sa_tokens :: "sa_token_row table"

text \<open>The two kinds of update keep the other columns, and the row live.\<close>

lemma touch_columns [simp]:
  "op_email (touch t (r0 :: operator_row)) = op_email r0"
  "op_password_hash (touch t (r1 :: operator_row)) = op_password_hash r1"
  "op_is_admin (touch t (r2 :: operator_row)) = op_is_admin r2"
  "se_operator_id (touch t (r3 :: session_row)) = se_operator_id r3"
  "se_token_hash (touch t (r4 :: session_row)) = se_token_hash r4"
  "se_issued_at (touch t (r5 :: session_row)) = se_issued_at r5"
  "se_expires_at (touch t (r6 :: session_row)) = se_expires_at r6"
  "se_revoked_at (touch t (r7 :: session_row)) = se_revoked_at r7"
  "se_user_agent (touch t (r8 :: session_row)) = se_user_agent r8"
  "se_source_ip (touch t (r9 :: session_row)) = se_source_ip r9"
  "pr_slug (touch t (r10 :: project_row)) = pr_slug r10"
  "pr_name (touch t (r11 :: project_row)) = pr_name r11"
  "pr_default_mode (touch t (r12 :: project_row)) = pr_default_mode r12"
  "pr_backend (touch t (r13 :: project_row)) = pr_backend r13"
  "pr_relay_port_range (touch t (r14 :: project_row)) = pr_relay_port_range r14"
  "pr_status (touch t (r15 :: project_row)) = pr_status r15"
  "ac_operator_id (touch t (r16 :: access_row)) = ac_operator_id r16"
  "ac_project_id (touch t (r17 :: access_row)) = ac_project_id r17"
  "ac_role (touch t (r18 :: access_row)) = ac_role r18"
  "si_project_id (touch t (r19 :: site_row)) = si_project_id r19"
  "si_name (touch t (r20 :: site_row)) = si_name r20"
  "si_lan_cidrs (touch t (r21 :: site_row)) = si_lan_cidrs r21"
  "si_mode (touch t (r22 :: site_row)) = si_mode r22"
  "si_backend (touch t (r23 :: site_row)) = si_backend r23"
  "si_status (touch t (r24 :: site_row)) = si_status r24"
  "si_last_seen_at (touch t (r25 :: site_row)) = si_last_seen_at r25"
  "si_hostname (touch t (r26 :: site_row)) = si_hostname r26"
  "si_os (touch t (r27 :: site_row)) = si_os r27"
  "si_agent_version (touch t (r28 :: site_row)) = si_agent_version r28"
  "at_site_id (touch t (r29 :: agent_token_row)) = at_site_id r29"
  "at_token_hash (touch t (r30 :: agent_token_row)) = at_token_hash r30"
  "at_expires_at (touch t (r31 :: agent_token_row)) = at_expires_at r31"
  "at_last_used_at (touch t (r32 :: agent_token_row)) = at_last_used_at r32"
  "sv_site_id (touch t (r33 :: service_row)) = sv_site_id r33"
  "sv_name (touch t (r34 :: service_row)) = sv_name r34"
  "sv_target_addr (touch t (r35 :: service_row)) = sv_target_addr r35"
  "sv_target_port (touch t (r36 :: service_row)) = sv_target_port r36"
  "sv_proto (touch t (r37 :: service_row)) = sv_proto r37"
  "sv_relay_port (touch t (r38 :: service_row)) = sv_relay_port r38"
  by (simp_all add: touch_def)

lemma live_columns [simp]:
  "live ((r0 :: operator_row)\<lparr>op_email := x0\<rparr>) = live r0"
  "live ((r1 :: operator_row)\<lparr>op_password_hash := x1\<rparr>) = live r1"
  "live ((r2 :: operator_row)\<lparr>op_is_admin := x2\<rparr>) = live r2"
  "live ((r3 :: session_row)\<lparr>se_operator_id := x3\<rparr>) = live r3"
  "live ((r4 :: session_row)\<lparr>se_token_hash := x4\<rparr>) = live r4"
  "live ((r5 :: session_row)\<lparr>se_issued_at := x5\<rparr>) = live r5"
  "live ((r6 :: session_row)\<lparr>se_expires_at := x6\<rparr>) = live r6"
  "live ((r7 :: session_row)\<lparr>se_revoked_at := x7\<rparr>) = live r7"
  "live ((r8 :: session_row)\<lparr>se_user_agent := x8\<rparr>) = live r8"
  "live ((r9 :: session_row)\<lparr>se_source_ip := x9\<rparr>) = live r9"
  "live ((r10 :: project_row)\<lparr>pr_slug := x10\<rparr>) = live r10"
  "live ((r11 :: project_row)\<lparr>pr_name := x11\<rparr>) = live r11"
  "live ((r12 :: project_row)\<lparr>pr_default_mode := x12\<rparr>) = live r12"
  "live ((r13 :: project_row)\<lparr>pr_backend := x13\<rparr>) = live r13"
  "live ((r14 :: project_row)\<lparr>pr_relay_port_range := x14\<rparr>) = live r14"
  "live ((r15 :: project_row)\<lparr>pr_status := x15\<rparr>) = live r15"
  "live ((r16 :: access_row)\<lparr>ac_operator_id := x16\<rparr>) = live r16"
  "live ((r17 :: access_row)\<lparr>ac_project_id := x17\<rparr>) = live r17"
  "live ((r18 :: access_row)\<lparr>ac_role := x18\<rparr>) = live r18"
  "live ((r19 :: site_row)\<lparr>si_project_id := x19\<rparr>) = live r19"
  "live ((r20 :: site_row)\<lparr>si_name := x20\<rparr>) = live r20"
  "live ((r21 :: site_row)\<lparr>si_lan_cidrs := x21\<rparr>) = live r21"
  "live ((r22 :: site_row)\<lparr>si_mode := x22\<rparr>) = live r22"
  "live ((r23 :: site_row)\<lparr>si_backend := x23\<rparr>) = live r23"
  "live ((r24 :: site_row)\<lparr>si_status := x24\<rparr>) = live r24"
  "live ((r25 :: site_row)\<lparr>si_last_seen_at := x25\<rparr>) = live r25"
  "live ((r26 :: site_row)\<lparr>si_hostname := x26\<rparr>) = live r26"
  "live ((r27 :: site_row)\<lparr>si_os := x27\<rparr>) = live r27"
  "live ((r28 :: site_row)\<lparr>si_agent_version := x28\<rparr>) = live r28"
  "live ((r29 :: agent_token_row)\<lparr>at_site_id := x29\<rparr>) = live r29"
  "live ((r30 :: agent_token_row)\<lparr>at_token_hash := x30\<rparr>) = live r30"
  "live ((r31 :: agent_token_row)\<lparr>at_expires_at := x31\<rparr>) = live r31"
  "live ((r32 :: agent_token_row)\<lparr>at_last_used_at := x32\<rparr>) = live r32"
  "live ((r33 :: service_row)\<lparr>sv_site_id := x33\<rparr>) = live r33"
  "live ((r34 :: service_row)\<lparr>sv_name := x34\<rparr>) = live r34"
  "live ((r35 :: service_row)\<lparr>sv_target_addr := x35\<rparr>) = live r35"
  "live ((r36 :: service_row)\<lparr>sv_target_port := x36\<rparr>) = live r36"
  "live ((r37 :: service_row)\<lparr>sv_proto := x37\<rparr>) = live r37"
  "live ((r38 :: service_row)\<lparr>sv_relay_port := x38\<rparr>) = live r38"
  "live ((r39 :: sa_token_row)\<lparr>sa_operator_id := x39\<rparr>) = live r39"
  "live ((r40 :: sa_token_row)\<lparr>sa_token_hash := x40\<rparr>) = live r40"
  "live ((r41 :: sa_token_row)\<lparr>sa_description := x41\<rparr>) = live r41"
  "live ((r42 :: sa_token_row)\<lparr>sa_expires_at := x42\<rparr>) = live r42"
  "live ((r43 :: sa_token_row)\<lparr>sa_last_used_at := x43\<rparr>) = live r43"
  "live ((r44 :: sa_token_row)\<lparr>sa_revoked_at := x44\<rparr>) = live r44"
  by (simp_all add: live_def)

definition db_empty :: db where
  "db_empty = \<lparr>t_operators = tbl_empty, t_sessions = tbl_empty, t_projects = tbl_empty,
     t_accesses = tbl_empty, t_sites = tbl_empty, t_agent_tokens = tbl_empty,
     t_services = tbl_empty, t_audit_logs = tbl_empty, t_sa_tokens = tbl_empty\<rparr>"

record env =
  now :: time
  fault :: "string \<Rightarrow> bool"
  rnd :: "string option"
  bcrypt_hash :: "string \<Rightarrow> string option"
  bcrypt_ok :: "string \<Rightarrow> string \<Rightarrow> bool"

datatype dao_error = ErrNotFound | ErrUnique | ErrIO | ErrInvalidPageToken
  | ErrPortRangeExhausted | ErrMissingID | ErrNoRows | ErrInvalidToken | ErrRandom | ErrParse err

text \<open>dao.IsNotFound and grpcsvc.isUniqueConstraintErr.\<close>

definition is_not_found :: "dao_error \<Rightarrow> bool" where
  "is_not_found x = (x = ErrNotFound)"

definition is_unique_constraint_err :: "dao_error \<Rightarrow> bool" where
  "is_unique_constraint_err x = (x = ErrUnique)"

lemma dao_error_tests [simp]:
  "is_not_found ErrNotFound" "\<not> is_not_found ErrIO" "is_unique_constraint_err ErrUnique"
  "\<not> is_unique_constraint_err ErrIO"
  by (simp_all add: is_not_found_def is_unique_constraint_err_def)

text \<open>A column default, applied by GORM when the field is the empty string.\<close>

definition or_default :: "string \<Rightarrow> string \<Rightarrow> string" where
  "or_default s d = (if s = [] then d else s)"

text \<open>The page token of the List methods: empty, or a decimal 64-bit cursor.\<close>

definition cursor_of :: "string \<Rightarrow> dao_error + nat option" where
  "cursor_of tok =
     (if tok = [] then Inr None
      else (case parse_uint 64 tok of None \<Rightarrow> Inl ErrInvalidPageToken | Some n \<Rightarrow> Inr (Some n)))"

definition next_page_token :: "'a row_scheme list \<Rightarrow> string" where
  "next_page_token page = (if page = [] then [] else format_uint (ID (last page)))"

lemma cursor_of_Nil [simp]: "cursor_of [] = Inr None"
  by (simp add: cursor_of_def)

lemma cursor_of_format: "n < 2 ^ 64 \<Longrightarrow> cursor_of (format_uint n) = Inr (Some n)"
  by (simp add: cursor_of_def parse_format_uint)

text \<open>
  A client that follows the page tokens of a List RPC until an empty one. Over a table it is the
  \<open>crawl\<close> of the cursors those tokens stand for.
\<close>

fun crawl_rpc :: "nat \<Rightarrow> (string \<Rightarrow> ('a list \<times> string) option) \<Rightarrow> string \<Rightarrow> 'a list option" where
  "crawl_rpc 0 call tok = None"
| "crawl_rpc (Suc fuel) call tok =
     (case call tok of
        None \<Rightarrow> None
      | Some (items, next) \<Rightarrow>
          if next = [] then Some items else map_option ((@) items) (crawl_rpc fuel call next))"

definition token_of :: "nat option \<Rightarrow> string" where
  "token_of cur = (case cur of None \<Rightarrow> [] | Some c \<Rightarrow> format_uint c)"

lemma cursor_of_token_of: "(case cur of None \<Rightarrow> True | Some c \<Rightarrow> c < 2 ^ 64) \<Longrightarrow> cursor_of (token_of cur) = Inr cur"
  by (cases cur) (simp_all add: token_of_def cursor_of_format)

lemma crawl_rpc_crawl:
  assumes "\<And>cur. (case cur of None \<Rightarrow> True | Some c \<Rightarrow> c < 2 ^ 64) \<Longrightarrow>
      call (token_of cur) = Some (map conv (fetch cur), next_page_token (fetch cur))"
    and "\<And>cur r. r \<in> set (fetch cur) \<Longrightarrow> ID r < 2 ^ 64"
    and "crawl fuel fetch ID cur = Some xs" "case cur of None \<Rightarrow> True | Some c \<Rightarrow> c < 2 ^ 64"
  shows "crawl_rpc fuel call (token_of cur) = Some (map conv xs)"
  using assms(3,4)
proof (induction fuel arbitrary: cur xs)
  case 0
  then show ?case by simp
next
  case (Suc fuel)
  show ?case
  proof (cases "fetch cur")
    case Nil
    then show ?thesis using Suc.prems assms(1) [OF Suc.prems(2)] by (simp add: next_page_token_def)
  next
    case (Cons r rs)
    let ?l = "last (r # rs)"
    obtain ys where ys: "crawl fuel fetch ID (Some (ID ?l)) = Some ys" "xs = (r # rs) @ ys"
      using Suc.prems(1) Cons by auto
    have "?l \<in> set (fetch cur)" unfolding Cons by (rule last_in_set) simp
    then have "ID ?l < 2 ^ 64" by (rule assms(2))
    then have "crawl_rpc fuel call (token_of (Some (ID ?l))) = Some (map conv ys)"
      using Suc.IH [OF ys(1)] by simp
    then show ?thesis
      using Suc.prems assms(1) [OF Suc.prems(2)] ys(2) unfolding Cons
      by (simp add: next_page_token_def token_of_def)
  qed
qed

lemma page_live_subset: "set (page_live P cur n t) \<subseteq> set (rows t)"
  by (auto simp: page_live_def select_live_def dest: in_set_takeD split: option.splits)

lemma tbl_wf_ID_bound: "tbl_wf t \<Longrightarrow> seq t < 2 ^ 64 \<Longrightarrow> r \<in> set (rows t) \<Longrightarrow> ID r < 2 ^ 64"
  by (auto simp: tbl_wf_def)

text \<open>
  The completeness of a List RPC over live rows: whatever the page size, following the tokens
  returns every matching live row once, in key order, and ends.
\<close>

lemma crawl_rpc_live:
  assumes wf: "tbl_wf t" and bound: "seq t < 2 ^ 64"
    and call: "\<And>tok cur. cursor_of tok = Inr cur \<Longrightarrow>
      call tok = Some (map conv (page_live P cur (clamp_page_size n) t),
                       next_page_token (page_live P cur (clamp_page_size n) t))"
    and fuel: "length (select_live P t) < fuel"
  shows "crawl_rpc fuel call [] = Some (map conv (select_live P t))"
proof -
  have "crawl fuel (\<lambda>cur. page_live P cur (clamp_page_size n) t) ID None = Some (select_live P t)"
    by (rule live_pages.crawl_all [OF wf clamp_page_size_bounds(1) fuel])
  moreover have "ID r < 2 ^ 64" if "r \<in> set (page_live P cur (clamp_page_size n) t)" for r cur
    using that page_live_subset [of P cur "clamp_page_size n" t] tbl_wf_ID_bound [OF wf bound] by blast
  ultimately have "crawl_rpc fuel call (token_of None) = Some (map conv (select_live P t))"
    by (intro crawl_rpc_crawl) (blast intro: call cursor_of_token_of, blast, blast, simp)
  then show ?thesis by (simp add: token_of_def)
qed

text \<open>The tables' own invariant: keys in order, and the unique indexes of the migration.\<close>

definition db_wf :: "db \<Rightarrow> bool" where
  "db_wf d \<longleftrightarrow>
     tbl_wf (t_operators d) \<and> tbl_wf (t_sessions d) \<and> tbl_wf (t_projects d) \<and>
     tbl_wf (t_accesses d) \<and> tbl_wf (t_sites d) \<and> tbl_wf (t_agent_tokens d) \<and>
     tbl_wf (t_services d) \<and> tbl_wf (t_audit_logs d) \<and> tbl_wf (t_sa_tokens d) \<and>
     uniq_live op_email (t_operators d) \<and>
     uniq_live se_token_hash (t_sessions d) \<and>
     uniq_live pr_slug (t_projects d) \<and>
     uniq_live (\<lambda>r. (ac_operator_id r, ac_project_id r)) (t_accesses d) \<and>
     uniq_live (\<lambda>r. (si_project_id r, si_name r)) (t_sites d) \<and>
     uniq_live at_site_id (t_agent_tokens d) \<and>
     uniq_live at_token_hash (t_agent_tokens d) \<and>
     uniq_live (\<lambda>r. (sv_site_id r, sv_name r)) (t_services d) \<and>
     uniq_live sa_token_hash (t_sa_tokens d)"

lemma db_wf_empty: "db_wf db_empty"
  by (simp add: db_wf_def db_empty_def uniq_live_def)

lemma db_wfD:
  assumes "db_wf d"
  shows "tbl_wf (t_operators d)" "tbl_wf (t_sessions d)" "tbl_wf (t_projects d)"
    "tbl_wf (t_accesses d)" "tbl_wf (t_sites d)" "tbl_wf (t_agent_tokens d)"
    "tbl_wf (t_services d)" "tbl_wf (t_audit_logs d)" "tbl_wf (t_sa_tokens d)"
    "uniq_live op_email (t_operators d)" "uniq_live se_token_hash (t_sessions d)"
    "uniq_live pr_slug (t_projects d)"
    "uniq_live (\<lambda>r. (ac_operator_id r, ac_project_id r)) (t_accesses d)"
    "uniq_live (\<lambda>r. (si_project_id r, si_name r)) (t_sites d)"
    "uniq_live at_site_id (t_agent_tokens d)" "uniq_live at_token_hash (t_agent_tokens d)"
    "uniq_live (\<lambda>r. (sv_site_id r, sv_name r)) (t_services d)"
    "uniq_live sa_token_hash (t_sa_tokens d)"
  using assms by (simp_all add: db_wf_def)

text \<open>Replacing one table keeps the rest.\<close>

lemma db_wf_set_table:
  assumes "db_wf d"
  shows "tbl_wf to \<Longrightarrow> uniq_live op_email to \<Longrightarrow> db_wf (d\<lparr>t_operators := to\<rparr>)"
    and "tbl_wf tp \<Longrightarrow> uniq_live pr_slug tp \<Longrightarrow> db_wf (d\<lparr>t_projects := tp\<rparr>)"
    and "tbl_wf ta \<Longrightarrow> uniq_live (\<lambda>r. (ac_operator_id r, ac_project_id r)) ta \<Longrightarrow>
      db_wf (d\<lparr>t_accesses := ta\<rparr>)"
    and "tbl_wf ts \<Longrightarrow> uniq_live (\<lambda>r. (si_project_id r, si_name r)) ts \<Longrightarrow> db_wf (d\<lparr>t_sites := ts\<rparr>)"
    and "tbl_wf tv \<Longrightarrow> uniq_live (\<lambda>r. (sv_site_id r, sv_name r)) tv \<Longrightarrow> db_wf (d\<lparr>t_services := tv\<rparr>)"
    and "tbl_wf tk \<Longrightarrow> uniq_live sa_token_hash tk \<Longrightarrow> db_wf (d\<lparr>t_sa_tokens := tk\<rparr>)"
    and "tbl_wf tg \<Longrightarrow> uniq_live at_site_id tg \<Longrightarrow> uniq_live at_token_hash tg \<Longrightarrow>
      db_wf (d\<lparr>t_agent_tokens := tg\<rparr>)"
    and "tbl_wf te \<Longrightarrow> uniq_live se_token_hash te \<Longrightarrow> db_wf (d\<lparr>t_sessions := te\<rparr>)"
  using assms by (simp_all add: db_wf_def)

end
