(* ===== verification/Token.thy ===== *)
theory Token
  imports QtPrelude
begin

unbundle bit_operations_syntax

section \<open>Bearer tokens (internal/auth/token.go)\<close>

text \<open>
  IssueToken and HashToken, with the two encodings and the hash of the Go standard library
  they call written out: SHA-256, hexadecimal, and the unpadded URL-safe base64. Randomness
  is an argument (the 32 bytes \<open>rand.Read\<close> delivers, or \<open>None\<close> when it fails). The lemmas
  give the length and the alphabet of a raw token and that distinct random bytes give distinct
  raw tokens.
\<close>

subsection \<open>SHA-256 on 32-bit words\<close>

type_synonym w32 = "32 word"

definition sha_ch :: "w32 \<Rightarrow> w32 \<Rightarrow> w32 \<Rightarrow> w32" where
  "sha_ch x y z = ((x AND y) XOR (NOT x AND z))"
definition sha_maj :: "w32 \<Rightarrow> w32 \<Rightarrow> w32 \<Rightarrow> w32" where
  "sha_maj x y z = ((x AND y) XOR (x AND z) XOR (y AND z))"
definition sha_S0 :: "w32 \<Rightarrow> w32" where
  "sha_S0 x = (word_rotr 2 x XOR word_rotr 13 x XOR word_rotr 22 x)"
definition sha_S1 :: "w32 \<Rightarrow> w32" where
  "sha_S1 x = (word_rotr 6 x XOR word_rotr 11 x XOR word_rotr 25 x)"
definition sha_s0 :: "w32 \<Rightarrow> w32" where
  "sha_s0 x = (word_rotr 7 x XOR word_rotr 18 x XOR drop_bit 3 x)"
definition sha_s1 :: "w32 \<Rightarrow> w32" where
  "sha_s1 x = (word_rotr 17 x XOR word_rotr 19 x XOR drop_bit 10 x)"

text \<open>The round constants, two to a number.\<close>

definition halves :: "int list \<Rightarrow> w32 list" where
  "halves ns = concat (map (\<lambda>n. [of_int (n div 4294967296), of_int n]) ns)"

definition sha_K :: "w32 list" where
  "sha_K = halves [
    0x428a2f9871374491, 0xb5c0fbcfe9b5dba5, 0x3956c25b59f111f1, 0x923f82a4ab1c5ed5,
    0xd807aa9812835b01, 0x243185be550c7dc3, 0x72be5d7480deb1fe, 0x9bdc06a7c19bf174,
    0xe49b69c1efbe4786, 0x0fc19dc6240ca1cc, 0x2de92c6f4a7484aa, 0x5cb0a9dc76f988da,
    0x983e5152a831c66d, 0xb00327c8bf597fc7, 0xc6e00bf3d5a79147, 0x06ca635114292967,
    0x27b70a852e1b2138, 0x4d2c6dfc53380d13, 0x650a7354766a0abb, 0x81c2c92e92722c85,
    0xa2bfe8a1a81a664b, 0xc24b8b70c76c51a3, 0xd192e819d6990624, 0xf40e3585106aa070,
    0x19a4c1161e376c08, 0x2748774c34b0bcb5, 0x391c0cb34ed8aa4a, 0x5b9cca4f682e6ff3,
    0x748f82ee78a5636f, 0x84c878148cc70208, 0x90befffaa4506ceb, 0xbef9a3f7c67178f2]"

type_synonym sha_state = "w32 \<times> w32 \<times> w32 \<times> w32 \<times> w32 \<times> w32 \<times> w32 \<times> w32"

definition sha_H0 :: sha_state where
  "sha_H0 = (0x6a09e667, 0xbb67ae85, 0x3c6ef372, 0xa54ff53a, 0x510e527f, 0x9b05688c,
             0x1f83d9ab, 0x5be0cd19)"

text \<open>The message schedule: 48 more words after the 16 of the block.\<close>

fun sha_extend :: "nat \<Rightarrow> w32 list \<Rightarrow> w32 list" where
  "sha_extend 0 ws = ws"
| "sha_extend (Suc n) ws =
     (let t = length ws in
      sha_extend n (ws @ [sha_s1 (ws ! (t - 2)) + ws ! (t - 7) + sha_s0 (ws ! (t - 15))
                          + ws ! (t - 16)]))"

fun sha_round :: "sha_state \<Rightarrow> w32 \<times> w32 \<Rightarrow> sha_state" where
  "sha_round (a, b, c, d, e, f, g, h) (k, w) =
     (let t1 = h + sha_S1 e + sha_ch e f g + k + w;
          t2 = sha_S0 a + sha_maj a b c
      in (t1 + t2, a, b, c, d + t1, e, f, g))"

fun sha_add :: "sha_state \<Rightarrow> sha_state \<Rightarrow> sha_state" where
  "sha_add (a, b, c, d, e, f, g, h) (a', b', c', d', e', f', g', h') =
     (a + a', b + b', c + c', d + d', e + e', f + f', g + g', h + h')"

definition sha_compress :: "sha_state \<Rightarrow> w32 list \<Rightarrow> sha_state" where
  "sha_compress st block =
     sha_add st (foldl sha_round st (zip sha_K (sha_extend 48 block)))"

text \<open>Bytes are numbers below 256 here; the padding is 0x80, zeros, and the bit length.\<close>

fun be_words :: "nat list \<Rightarrow> w32 list" where
  "be_words (a # b # c # d # rest) =
     of_int (int a * 16777216 + int b * 65536 + int c * 256 + int d) # be_words rest"
| "be_words _ = []"

fun be_bytes :: "nat \<Rightarrow> nat \<Rightarrow> nat list" where
  "be_bytes 0 n = []"
| "be_bytes (Suc k) n = be_bytes k (n div 256) @ [n mod 256]"

definition sha_pad :: "nat list \<Rightarrow> nat list" where
  "sha_pad m = m @ [128] @ replicate ((119 - length m mod 64) mod 64) 0 @ be_bytes 8 (8 * length m)"

fun sha_blocks :: "nat \<Rightarrow> sha_state \<Rightarrow> w32 list \<Rightarrow> sha_state" where
  "sha_blocks 0 st ws = st"
| "sha_blocks (Suc n) st ws = sha_blocks n (sha_compress st (take 16 ws)) (drop 16 ws)"

definition sha256 :: "string \<Rightarrow> nat list" where
  "sha256 s =
     (let ws = be_words (sha_pad (map of_char s))
      in case sha_blocks (length ws div 16) sha_H0 ws of
           (a, b, c, d, e, f, g, h) \<Rightarrow>
             concat (map (\<lambda>w. be_bytes 4 (unat w)) [a, b, c, d, e, f, g, h]))"

subsection \<open>Hexadecimal and base64\<close>

definition hex_digit :: "nat \<Rightarrow> char" where
  "hex_digit n = (if n < 10 then char_of (48 + n) else char_of (87 + n))"

definition hex_encode :: "nat list \<Rightarrow> string" where
  "hex_encode bs = concat (map (\<lambda>b. [hex_digit (b div 16), hex_digit (b mod 16)]) bs)"

definition b64_char :: "nat \<Rightarrow> char" where
  "b64_char n =
     (if n < 26 then char_of (65 + n)
      else if n < 52 then char_of (71 + n)
      else if n < 62 then char_of (n - 4)
      else if n = 62 then CHR ''-'' else CHR ''_'')"

text \<open>\<open>base64.RawURLEncoding\<close>: three bytes give four characters, no padding at the end.\<close>

fun b64_sextets :: "nat list \<Rightarrow> nat list" where
  "b64_sextets [] = []"
| "b64_sextets [a] = [a div 4, (a mod 4) * 16]"
| "b64_sextets [a, b] = [a div 4, (a mod 4) * 16 + b div 16, (b mod 16) * 4]"
| "b64_sextets (a # b # c # rest) =
     a div 4 # ((a mod 4) * 16 + b div 16) # ((b mod 16) * 4 + c div 64) # c mod 64
     # b64_sextets rest"

definition b64_encode :: "string \<Rightarrow> string" where
  "b64_encode bs = map b64_char (b64_sextets (map of_char bs))"

subsection \<open>IssueToken and HashToken\<close>

definition tokenBytes :: nat where "tokenBytes = 32"

definition hash_token :: "string \<Rightarrow> string" where
  "hash_token raw = hex_encode (sha256 raw)"

definition issue_token :: "string option \<Rightarrow> err + (string \<times> string)" where
  "issue_token rnd =
     (case rnd of
        None \<Rightarrow> Inl ''auth: random read: %w''
      | Some bs \<Rightarrow>
          (let raw = b64_encode (take tokenBytes bs) in Inr (raw, hash_token raw)))"

subsection \<open>Facts about raw tokens\<close>

definition b64_ok :: "char \<Rightarrow> bool" where
  "b64_ok c = (is_digit c \<or> (65 \<le> (of_char c :: nat) \<and> (of_char c :: nat) \<le> 90)
     \<or> (97 \<le> (of_char c :: nat) \<and> (of_char c :: nat) \<le> 122) \<or> c = CHR ''-'' \<or> c = CHR ''_'')"

lemma b64_char_ok: "n < 64 \<Longrightarrow> b64_ok (b64_char n)"
  by (auto simp: b64_char_def b64_ok_def is_digit_def)

lemma b64_ok_solid: "b64_ok c \<Longrightarrow> solid c"
  by (auto simp: b64_ok_def solid_def is_digit_def)

definition b64_index :: "char \<Rightarrow> nat" where
  "b64_index c =
     (let n = of_char c in
      if n = 45 then 62 else if n = 95 then 63 else if n \<le> 57 then n + 4
      else if n \<le> 90 then n - 65 else n - 71)"

lemma b64_index_char [simp]: "n < 64 \<Longrightarrow> b64_index (b64_char n) = n"
  by (simp add: b64_char_def b64_index_def Let_def; arith)

lemma b64_char_inj: "m < 64 \<Longrightarrow> n < 64 \<Longrightarrow> b64_char m = b64_char n \<Longrightarrow> m = n"
  by (metis b64_index_char)

lemma b64_sextets_less: "\<forall>b\<in>set bs. b < 256 \<Longrightarrow> \<forall>x\<in>set (b64_sextets bs). x < 64"
  by (induction bs rule: b64_sextets.induct) auto

lemma length_b64_sextets: "length (b64_sextets bs) = (4 * length bs + 2) div 3"
  by (induction bs rule: b64_sextets.induct) auto

lemma b64_pair_inj:
  fixes a b c d :: nat
  assumes "a div k = b div k" "(a mod k) * m + c = (b mod k) * m + d" "c < m" "d < m"
  shows "a = b \<and> c = d"
proof -
  have "((a mod k) * m + c) div m = a mod k" "((b mod k) * m + d) div m = b mod k"
    using assms(3,4) by simp_all
  then have k: "a mod k = b mod k" using assms(2) by simp
  then have "c = d" using assms(2) by simp
  moreover have "a = b" using assms(1) k by (metis div_mult_mod_eq)
  ultimately show ?thesis by simp
qed

lemma byte_div_less: "(b::nat) < 256 \<Longrightarrow> b div 16 < 16" "(b::nat) < 256 \<Longrightarrow> b div 64 < 4"
  by simp_all

lemma b64_sextets_inj:
  assumes "length as = length bs" "\<forall>a\<in>set as. a < 256" "\<forall>b\<in>set bs. b < 256"
    "b64_sextets as = b64_sextets bs"
  shows "as = bs"
  using assms
proof (induction as arbitrary: bs rule: b64_sextets.induct)
  case 1
  then show ?case by simp
next
  case (2 a)
  then obtain b where "bs = [b]" by (cases bs) auto
  with 2 show ?case
    using b64_pair_inj [of a 4 b 16 0 0] by auto
next
  case (3 a b)
  then obtain c d where bs: "bs = [c, d]" by (cases bs; cases "tl bs") auto
  have "a = c \<and> b div 16 = d div 16"
    using 3 bs by (intro b64_pair_inj [where k = 4 and m = 16]) (auto simp: byte_div_less)
  moreover have "b mod 16 = d mod 16" using 3 bs by auto
  ultimately have "a = c" "b = d" by (auto) (metis div_mult_mod_eq)
  then show ?case by (simp add: bs)
next
  case (4 a b c rest)
  then obtain d e f rest' where bs: "bs = d # e # f # rest'"
    by (cases bs; cases "tl bs"; cases "tl (tl bs)") auto
  have p: "a = d \<and> b div 16 = e div 16"
    using 4 bs by (intro b64_pair_inj [where k = 4 and m = 16]) (auto simp: byte_div_less)
  have q: "b = e \<and> c div 64 = f div 64"
    using 4 bs p by (intro b64_pair_inj [where k = 16 and m = 4]) (auto simp: byte_div_less)
  have "c mod 64 = f mod 64" using 4 bs by auto
  then have "c = f" using q by (metis div_mult_mod_eq)
  moreover have "rest = rest'" using 4 bs by auto
  ultimately show ?case using p q by (simp add: bs)
qed

lemma of_char_less: "(of_char c :: nat) < 256"
  by (rule nat_of_char_less_256)

lemma b64_encode_inj:
  assumes len: "length as = length bs" and eq: "b64_encode as = b64_encode bs"
  shows "as = bs"
proof -
  let ?A = "b64_sextets (map of_char as)" and ?B = "b64_sextets (map of_char bs)"
  have lt: "\<forall>x\<in>set ?A. x < 64" "\<forall>x\<in>set ?B. x < 64"
    by (rule b64_sextets_less, simp add: of_char_less)+
  have "inj_on b64_char (set ?A \<union> set ?B)"
    using lt by (auto simp: inj_on_def intro!: b64_char_inj)
  then have "?A = ?B"
    using eq by (auto simp: b64_encode_def dest: map_inj_on)
  then have "map of_char as = (map of_char bs :: nat list)"
    by (rule b64_sextets_inj [rotated 3]) (use len of_char_less in auto)
  then show ?thesis by (rule map_injective) (simp add: inj_def)
qed

lemma b64_encode_ok: "list_all b64_ok (b64_encode bs)"
proof -
  have "\<forall>x\<in>set (b64_sextets (map of_char bs)). x < 64"
    by (rule b64_sextets_less) (simp add: of_char_less)
  then show ?thesis by (auto simp: b64_encode_def list_all_iff b64_char_ok)
qed

lemma b64_encode_solid: "list_all solid (b64_encode bs)"
  using b64_encode_ok [of bs] by (auto simp: list_all_iff b64_ok_solid)

lemma length_b64_encode: "length (b64_encode bs) = (4 * length bs + 2) div 3"
  by (simp add: b64_encode_def length_b64_sextets)

text \<open>
  A raw session or agent token made from 32 random bytes has 43 characters of the URL-safe
  base64 alphabet, its stored hash is HashToken of it, and no two sources of randomness that
  differ in those bytes give the same raw token: the token keeps all 256 bits.
\<close>

theorem issue_token_raw:
  assumes "length bs = tokenBytes" and "length cs = tokenBytes"
  shows "\<exists>raw. issue_token (Some bs) = Inr (raw, hash_token raw) \<and> length raw = 43 \<and>
      list_all b64_ok raw \<and>
      (issue_token (Some cs) = issue_token (Some bs) \<longrightarrow> cs = bs)"
  using assms b64_encode_ok [of bs] b64_encode_inj [of cs bs]
  by (auto simp: issue_token_def Let_def tokenBytes_def length_b64_encode)

theorem issue_token_raw_witness:
  "\<exists>raw. issue_token (Some (replicate 32 CHR ''a'')) = Inr (raw, hash_token raw) \<and> length raw = 43"
  using issue_token_raw [of "replicate 32 CHR ''a''" "replicate 32 CHR ''b''"]
  by (auto simp: tokenBytes_def)

end
