(* ===== verification/DaoSite.thy ===== *)
theory DaoSite
  imports Schema Token
begin

section \<open>SiteDAO and SiteAgentTokenDAO (internal/dao/site.go)\<close>

text \<open>
  The queries on sites, with the heartbeat columns and the stale sweep, and the long-lived
  credential of a site's agent: issue (which rotates) and validation.
\<close>

definition site_create :: "env \<Rightarrow> site_row \<Rightarrow> db \<Rightarrow> (dao_error + site_row) \<times> db" where
  "site_create e s d =
     (let s = s\<lparr>si_status := or_default (si_status s) SiteStatusPending,
                si_mode := or_default (si_mode s) SiteModeEndpoint\<rparr> in
      if fault e ''dao: create site'' then (Inl ErrIO, d)
      else if conflicts (\<lambda>r. (si_project_id r, si_name r)) (si_project_id s, si_name s) 0 (t_sites d)
      then (Inl ErrUnique, d)
      else
        (let (r, t) = tbl_append (\<lambda>i. stamp_new (now e) i s) (t_sites d)
         in (Inr r, d\<lparr>t_sites := t\<rparr>)))"

definition site_find_by_name :: "env \<Rightarrow> nat \<Rightarrow> string \<Rightarrow> db \<Rightarrow> dao_error + site_row" where
  "site_find_by_name e project_id name d =
     (if fault e ''dao: find site by name'' then Inl ErrIO
      else (case first_live (\<lambda>s. si_project_id s = project_id \<and> si_name s = name) (t_sites d) of
          None \<Rightarrow> Inl ErrNotFound
        | Some s \<Rightarrow> Inr s))"

definition site_find_by_id :: "env \<Rightarrow> nat \<Rightarrow> db \<Rightarrow> dao_error + site_row" where
  "site_find_by_id e i d =
     (if fault e ''dao: find site by id'' then Inl ErrIO
      else (case first_live (\<lambda>s. ID s = i) (t_sites d) of None \<Rightarrow> Inl ErrNotFound | Some s \<Rightarrow> Inr s))"

text \<open>Empty fields of a heartbeat leave the stored value; last_seen_at is always set.\<close>

definition set_agent_meta ::
  "time \<Rightarrow> string \<Rightarrow> string \<Rightarrow> string \<Rightarrow> string list \<Rightarrow> site_row \<Rightarrow> site_row" where
  "set_agent_meta t hostname os_name agent_version lan_cidrs s =
     (touch t s)\<lparr>si_last_seen_at := Some t,
       si_hostname := (if hostname \<noteq> [] then hostname else si_hostname s),
       si_os := (if os_name \<noteq> [] then os_name else si_os s),
       si_agent_version := (if agent_version \<noteq> [] then agent_version else si_agent_version s),
       si_lan_cidrs := (if lan_cidrs \<noteq> [] then Some lan_cidrs else si_lan_cidrs s)\<rparr>"

definition site_update_agent_meta ::
  "env \<Rightarrow> nat \<Rightarrow> string \<Rightarrow> string \<Rightarrow> string \<Rightarrow> string list \<Rightarrow> db \<Rightarrow> (dao_error + unit) \<times> db" where
  "site_update_agent_meta e site_id hostname os_name agent_version lan_cidrs d =
     (if fault e ''dao: update agent meta'' then (Inl ErrIO, d)
      else (Inr (), d\<lparr>t_sites := update_live (\<lambda>s. ID s = site_id)
              (set_agent_meta (now e) hostname os_name agent_version lan_cidrs) (t_sites d)\<rparr>))"

definition site_set_status :: "env \<Rightarrow> nat \<Rightarrow> string \<Rightarrow> db \<Rightarrow> (dao_error + unit) \<times> db" where
  "site_set_status e site_id st d =
     (if fault e ''dao: set site status'' then (Inl ErrIO, d)
      else (Inr (), d\<lparr>t_sites := update_live (\<lambda>s. ID s = site_id)
              (\<lambda>s. (touch (now e) s)\<lparr>si_status := st\<rparr>) (t_sites d)\<rparr>))"

text \<open>The WHERE clause of MarkStaleOffline.\<close>

definition is_stale :: "time \<Rightarrow> site_row \<Rightarrow> bool" where
  "is_stale threshold s =
     (si_status s = SiteStatusOnline \<and>
      (case si_last_seen_at s of None \<Rightarrow> False | Some t \<Rightarrow> t < threshold))"

definition mark_stale_offline :: "env \<Rightarrow> time \<Rightarrow> db \<Rightarrow> (dao_error + nat) \<times> db" where
  "mark_stale_offline e threshold d =
     (if fault e ''dao: mark stale offline'' then (Inl ErrIO, d)
      else (Inr (count_live (is_stale threshold) (t_sites d)),
            d\<lparr>t_sites := update_live (is_stale threshold)
                (\<lambda>s. (touch (now e) s)\<lparr>si_status := SiteStatusOffline\<rparr>) (t_sites d)\<rparr>))"

definition site_list_by_project ::
  "env \<Rightarrow> nat \<Rightarrow> int \<Rightarrow> string \<Rightarrow> db \<Rightarrow> dao_error + site_row list" where
  "site_list_by_project e project_id page_size page_token d =
     (case cursor_of page_token of
        Inl x \<Rightarrow> Inl x
      | Inr cur \<Rightarrow>
          if fault e ''dao: list sites'' then Inl ErrIO
          else Inr (page_live (\<lambda>s. si_project_id s = project_id) cur (clamp_page_size page_size)
                 (t_sites d)))"

definition NextSitePageToken :: "site_row list \<Rightarrow> string" where
  "NextSitePageToken page = next_page_token page"

definition site_update :: "env \<Rightarrow> site_row \<Rightarrow> db \<Rightarrow> (dao_error + unit) \<times> db" where
  "site_update e s d =
     (if ID s = 0 then (Inl ErrMissingID, d)
      else if fault e ''dao: update site'' then (Inl ErrIO, d)
      else if live s \<and> conflicts (\<lambda>r. (si_project_id r, si_name r)) (si_project_id s, si_name s)
                         (ID s) (t_sites d)
      then (Inl ErrUnique, d)
      else (Inr (), d\<lparr>t_sites := tbl_save (touch (now e) s) (t_sites d)\<rparr>))"

definition site_delete :: "env \<Rightarrow> nat \<Rightarrow> db \<Rightarrow> (dao_error + unit) \<times> db" where
  "site_delete e i d =
     (if fault e ''dao: delete site'' then (Inl ErrIO, d)
      else (Inr (), d\<lparr>t_sites := delete_live (now e) (\<lambda>s. ID s = i) (t_sites d)\<rparr>))"

definition count_services :: "env \<Rightarrow> nat \<Rightarrow> db \<Rightarrow> dao_error + nat" where
  "count_services e site_id d =
     (if fault e ''dao: count services'' then Inl ErrIO
      else Inr (count_live (\<lambda>v. sv_site_id v = site_id) (t_services d)))"

text \<open>
  Issue rotates in one transaction: the live token of the site is soft-deleted and the new one
  inserted; a failure of either statement rolls both back.
\<close>

definition site_token_issue ::
  "env \<Rightarrow> nat \<Rightarrow> duration \<Rightarrow> db \<Rightarrow> (dao_error + (agent_token_row \<times> string)) \<times> db" where
  "site_token_issue e site_id ttl d =
     (case issue_token (rnd e) of
        Inl _ \<Rightarrow> (Inl ErrRandom, d)
      | Inr (raw, hash) \<Rightarrow>
          (let t1 = delete_live (now e) (\<lambda>r. at_site_id r = site_id) (t_agent_tokens d);
               rec = \<lparr>ID = 0, CreatedAt = 0, DeletedAt = None, UpdatedAt = 0,
                      at_site_id = site_id, at_token_hash = hash,
                      at_expires_at = (if 0 < ttl then Some (now e + ttl) else None),
                      at_last_used_at = None\<rparr>
           in if fault e ''dao: issue site agent token'' then (Inl ErrIO, d)
              else if conflicts at_site_id site_id 0 t1 \<or> conflicts at_token_hash hash 0 t1
              then (Inl ErrUnique, d)
              else (let (r, t2) = tbl_append (\<lambda>i. stamp_new (now e) i rec) t1
                    in (Inr (r, raw), d\<lparr>t_agent_tokens := t2\<rparr>))))"

text \<open>The row a raw agent token stands for: live, with that hash, not expired.\<close>

definition not_expired :: "time \<Rightarrow> time option \<Rightarrow> bool" where
  "not_expired t exp = (case exp of None \<Rightarrow> True | Some x \<Rightarrow> t < x)"

definition agent_token_lookup :: "time \<Rightarrow> string \<Rightarrow> db \<Rightarrow> agent_token_row option" where
  "agent_token_lookup t raw d =
     first_live (\<lambda>r. at_token_hash r = hash_token raw \<and> not_expired t (at_expires_at r))
       (t_agent_tokens d)"

definition touch_agent_token :: "env \<Rightarrow> nat \<Rightarrow> db \<Rightarrow> db" where
  "touch_agent_token e i d =
     (if fault e ''dao: site token last_used_at update'' then d
      else d\<lparr>t_agent_tokens := update_live (\<lambda>r. ID r = i)
               (\<lambda>r. (touch (now e) r)\<lparr>at_last_used_at := Some (now e)\<rparr>) (t_agent_tokens d)\<rparr>)"

definition site_token_validate_raw :: "env \<Rightarrow> string \<Rightarrow> db \<Rightarrow> (dao_error + nat) \<times> db" where
  "site_token_validate_raw e raw d =
     (if fault e ''dao: site token lookup'' then (Inl ErrIO, d)
      else (case agent_token_lookup (now e) raw d of
          None \<Rightarrow> (Inl ErrInvalidToken, d)
        | Some r \<Rightarrow> (Inr (at_site_id r), touch_agent_token e (ID r) d)))"

subsection \<open>Lemmas\<close>

lemma site_find_by_name_Inr:
  "site_find_by_name e p n d = Inr s \<Longrightarrow>
     s \<in> set (rows (t_sites d)) \<and> live s \<and> si_project_id s = p \<and> si_name s = n"
  by (auto simp: site_find_by_name_def split: if_splits option.splits dest!: first_live_Some)

lemma site_find_by_id_Inr:
  "site_find_by_id e i d = Inr s \<Longrightarrow> s \<in> set (rows (t_sites d)) \<and> live s \<and> ID s = i"
  by (auto simp: site_find_by_id_def split: if_splits option.splits dest!: first_live_Some)

lemma agent_token_lookup_Some:
  "agent_token_lookup t raw d = Some r \<Longrightarrow>
     r \<in> set (rows (t_agent_tokens d)) \<and> live r \<and> at_token_hash r = hash_token raw \<and>
     not_expired t (at_expires_at r)"
  by (auto simp: agent_token_lookup_def dest!: first_live_Some)

lemma set_agent_meta_fields [simp]:
  "ID (set_agent_meta t h os v c s) = ID s" "live (set_agent_meta t h os v c s) = live s"
  "si_project_id (set_agent_meta t h os v c s) = si_project_id s"
  "si_name (set_agent_meta t h os v c s) = si_name s"
  "si_status (set_agent_meta t h os v c s) = si_status s"
  "si_last_seen_at (set_agent_meta t h os v c s) = Some t"
  by (simp_all add: set_agent_meta_def live_def touch_def)

lemma touch_agent_token_frame [frame_simps]:
  "t_operators (touch_agent_token e i d) = t_operators d"
  "t_sessions (touch_agent_token e i d) = t_sessions d"
  "t_projects (touch_agent_token e i d) = t_projects d"
  "t_accesses (touch_agent_token e i d) = t_accesses d"
  "t_sites (touch_agent_token e i d) = t_sites d"
  "t_services (touch_agent_token e i d) = t_services d"
  "t_audit_logs (touch_agent_token e i d) = t_audit_logs d"
  "t_sa_tokens (touch_agent_token e i d) = t_sa_tokens d"
  by (simp_all add: touch_agent_token_def)

end
