(* ===== verification/DaoOperator.thy ===== *)
theory DaoOperator
  imports Schema Token
begin

section \<open>Operators, grants, sessions, service-account tokens (internal/dao)\<close>

text \<open>
  OperatorDAO, OperatorProjectAccessDAO and SessionDAO (operator.go), and
  ServiceAccountTokenDAO (service_account.go).
\<close>

subsection \<open>OperatorDAO\<close>

definition operator_create ::
  "env \<Rightarrow> string \<Rightarrow> string \<Rightarrow> bool \<Rightarrow> db \<Rightarrow> (dao_error + operator_row) \<times> db" where
  "operator_create e email password_hash is_admin d =
     (let op = \<lparr>ID = 0, CreatedAt = 0, DeletedAt = None, UpdatedAt = 0, op_email = email,
                op_password_hash = password_hash, op_is_admin = is_admin\<rparr> in
      if fault e ''dao: create operator'' then (Inl ErrIO, d)
      else if conflicts op_email email 0 (t_operators d) then (Inl ErrUnique, d)
      else (let (r, t) = tbl_append (\<lambda>i. stamp_new (now e) i op) (t_operators d)
            in (Inr r, d\<lparr>t_operators := t\<rparr>)))"

definition operator_find_by_email :: "env \<Rightarrow> string \<Rightarrow> db \<Rightarrow> dao_error + operator_row" where
  "operator_find_by_email e email d =
     (if fault e ''dao: find operator by email'' then Inl ErrIO
      else (case first_live (\<lambda>x. op_email x = email) (t_operators d) of
          None \<Rightarrow> Inl ErrNotFound
        | Some op \<Rightarrow> Inr op))"

definition operator_find_by_id :: "env \<Rightarrow> nat \<Rightarrow> db \<Rightarrow> dao_error + operator_row" where
  "operator_find_by_id e i d =
     (if fault e ''dao: find operator by id'' then Inl ErrIO
      else (case first_live (\<lambda>x. ID x = i) (t_operators d) of
          None \<Rightarrow> Inl ErrNotFound
        | Some op \<Rightarrow> Inr op))"

definition operator_list :: "env \<Rightarrow> int \<Rightarrow> string \<Rightarrow> db \<Rightarrow> dao_error + operator_row list" where
  "operator_list e page_size page_token d =
     (case cursor_of page_token of
        Inl x \<Rightarrow> Inl x
      | Inr cur \<Rightarrow>
          if fault e ''dao: list operators'' then Inl ErrIO
          else Inr (page_live (\<lambda>_. True) cur (clamp_page_size page_size) (t_operators d)))"

definition NextOperatorPageToken :: "operator_row list \<Rightarrow> string" where
  "NextOperatorPageToken page = next_page_token page"

definition operator_update_is_admin :: "env \<Rightarrow> nat \<Rightarrow> bool \<Rightarrow> db \<Rightarrow> (dao_error + unit) \<times> db" where
  "operator_update_is_admin e i is_admin d =
     (if fault e ''dao: update operator is_admin'' then (Inl ErrIO, d)
      else
        (let d' = d\<lparr>t_operators := update_live (\<lambda>x. ID x = i)
                     (\<lambda>x. (touch (now e) x)\<lparr>op_is_admin := is_admin\<rparr>) (t_operators d)\<rparr>
         in if count_live (\<lambda>x. ID x = i) (t_operators d) = 0 then (Inl ErrNotFound, d')
            else (Inr (), d')))"

definition operator_update_password :: "env \<Rightarrow> nat \<Rightarrow> string \<Rightarrow> db \<Rightarrow> (dao_error + unit) \<times> db" where
  "operator_update_password e i hashed d =
     (if fault e ''dao: update operator password'' then (Inl ErrIO, d)
      else
        (let d' = d\<lparr>t_operators := update_live (\<lambda>x. ID x = i)
                     (\<lambda>x. (touch (now e) x)\<lparr>op_password_hash := hashed\<rparr>) (t_operators d)\<rparr>
         in if count_live (\<lambda>x. ID x = i) (t_operators d) = 0 then (Inl ErrNotFound, d')
            else (Inr (), d')))"

definition operator_delete :: "env \<Rightarrow> nat \<Rightarrow> db \<Rightarrow> (dao_error + unit) \<times> db" where
  "operator_delete e i d =
     (if fault e ''dao: delete operator'' then (Inl ErrIO, d)
      else (Inr (), d\<lparr>t_operators := delete_live (now e) (\<lambda>x. ID x = i) (t_operators d)\<rparr>))"

definition count_admins :: "env \<Rightarrow> db \<Rightarrow> dao_error + nat" where
  "count_admins e d =
     (if fault e ''dao: count admins'' then Inl ErrIO
      else Inr (count_live op_is_admin (t_operators d)))"

subsection \<open>OperatorProjectAccessDAO\<close>

text \<open>List: the live grants of the operator whose project is live, with its slug.\<close>

definition access_list :: "env \<Rightarrow> nat \<Rightarrow> db \<Rightarrow> dao_error + (access_row \<times> string) list" where
  "access_list e operator_id d =
     (if fault e ''dao: list operator project access'' then Inl ErrIO
      else Inr (concat (map
        (\<lambda>a. map (\<lambda>p. (a, pr_slug p)) (select_live (\<lambda>p. ID p = ac_project_id a) (t_projects d)))
        (select_live (\<lambda>a. ac_operator_id a = operator_id) (t_accesses d)))))"

definition access_grant ::
  "env \<Rightarrow> nat \<Rightarrow> nat \<Rightarrow> string \<Rightarrow> db \<Rightarrow> (dao_error + access_row) \<times> db" where
  "access_grant e operator_id project_id role d =
     (if fault e ''dao: lookup access'' then (Inl ErrIO, d)
      else
        (case first_live (\<lambda>a. ac_operator_id a = operator_id \<and> ac_project_id a = project_id)
                (t_accesses d) of
           Some existing \<Rightarrow>
             if ac_role existing \<noteq> role then
               (let existing = (touch (now e) existing)\<lparr>ac_role := role\<rparr> in
                if fault e ''dao: update access role'' then (Inl ErrIO, d)
                else (Inr existing, d\<lparr>t_accesses := tbl_save existing (t_accesses d)\<rparr>))
             else (Inr existing, d)
         | None \<Rightarrow>
             (let row = \<lparr>ID = 0, CreatedAt = 0, DeletedAt = None, UpdatedAt = 0,
                         ac_operator_id = operator_id, ac_project_id = project_id,
                         ac_role = or_default role ProjectRoleOperator\<rparr> in
              if fault e ''dao: create access'' then (Inl ErrIO, d)
              else if conflicts (\<lambda>r. (ac_operator_id r, ac_project_id r)) (operator_id, project_id) 0
                        (t_accesses d)
              then (Inl ErrUnique, d)
              else (let (r, t) = tbl_append (\<lambda>i. stamp_new (now e) i row) (t_accesses d)
                    in (Inr r, d\<lparr>t_accesses := t\<rparr>)))))"

definition access_revoke :: "env \<Rightarrow> nat \<Rightarrow> nat \<Rightarrow> db \<Rightarrow> (dao_error + unit) \<times> db" where
  "access_revoke e operator_id project_id d =
     (if fault e ''dao: revoke access'' then (Inl ErrIO, d)
      else (Inr (), d\<lparr>t_accesses := delete_live (now e)
              (\<lambda>a. ac_operator_id a = operator_id \<and> ac_project_id a = project_id)
              (t_accesses d)\<rparr>))"

subsection \<open>SessionDAO\<close>

definition session_issue ::
  "env \<Rightarrow> nat \<Rightarrow> duration \<Rightarrow> string \<Rightarrow> string \<Rightarrow> db \<Rightarrow> (dao_error + (session_row \<times> string)) \<times> db" where
  "session_issue e operator_id ttl user_agent source_ip d =
     (case issue_token (rnd e) of
        Inl _ \<Rightarrow> (Inl ErrRandom, d)
      | Inr (raw, hash) \<Rightarrow>
          (let rec = \<lparr>ID = 0, CreatedAt = 0, DeletedAt = None, UpdatedAt = 0,
                      se_operator_id = operator_id, se_token_hash = hash, se_issued_at = now e,
                      se_expires_at = now e + ttl, se_revoked_at = None,
                      se_user_agent = user_agent, se_source_ip = source_ip\<rparr>
           in if fault e ''dao: create session'' then (Inl ErrIO, d)
              else if conflicts se_token_hash hash 0 (t_sessions d) then (Inl ErrUnique, d)
              else (let (r, t) = tbl_append (\<lambda>i. stamp_new (now e) i rec) (t_sessions d)
                    in (Inr (r, raw), d\<lparr>t_sessions := t\<rparr>))))"

text \<open>The WHERE clause of Validate: that hash, not revoked, not expired.\<close>

definition session_active :: "time \<Rightarrow> string \<Rightarrow> session_row \<Rightarrow> bool" where
  "session_active t raw s =
     (se_token_hash s = hash_token raw \<and> se_revoked_at s = None \<and> t < se_expires_at s)"

definition session_validate :: "env \<Rightarrow> string \<Rightarrow> db \<Rightarrow> dao_error + operator_row" where
  "session_validate e raw d =
     (if fault e ''dao: session lookup'' then Inl ErrIO
      else (case first_live (session_active (now e) raw) (t_sessions d) of
          None \<Rightarrow> Inl ErrInvalidToken
        | Some sess \<Rightarrow>
            if fault e ''dao: session operator lookup'' then Inl ErrIO
            else (case first_live (\<lambda>x. ID x = se_operator_id sess) (t_operators d) of
                None \<Rightarrow> Inl ErrNotFound
              | Some op \<Rightarrow> Inr op)))"

text \<open>ValidateSessionRaw: the same test in one query, joined with the live operator.\<close>

definition session_validate_raw :: "env \<Rightarrow> string \<Rightarrow> db \<Rightarrow> dao_error + (nat \<times> bool)" where
  "session_validate_raw e raw d =
     (if fault e ''dao: session lookup'' then Inl ErrIO
      else
        (case first_live
            (\<lambda>s. session_active (now e) raw s \<and>
                 first_live (\<lambda>x. ID x = se_operator_id s) (t_operators d) \<noteq> None) (t_sessions d) of
           None \<Rightarrow> Inl ErrNotFound
         | Some s \<Rightarrow>
             (case first_live (\<lambda>x. ID x = se_operator_id s) (t_operators d) of
                None \<Rightarrow> Inl ErrNotFound
              | Some op \<Rightarrow> Inr (se_operator_id s, op_is_admin op))))"

definition session_revoke :: "env \<Rightarrow> nat \<Rightarrow> db \<Rightarrow> (dao_error + unit) \<times> db" where
  "session_revoke e session_id d =
     (if fault e ''dao: revoke session'' then (Inl ErrIO, d)
      else (Inr (), d\<lparr>t_sessions := update_live (\<lambda>s. ID s = session_id \<and> se_revoked_at s = None)
              (\<lambda>s. (touch (now e) s)\<lparr>se_revoked_at := Some (now e)\<rparr>) (t_sessions d)\<rparr>))"

definition session_revoke_by_token :: "env \<Rightarrow> string \<Rightarrow> db \<Rightarrow> (dao_error + unit) \<times> db" where
  "session_revoke_by_token e raw d =
     (if fault e ''dao: revoke by token'' then (Inl ErrIO, d)
      else (Inr (), d\<lparr>t_sessions :=
              update_live (\<lambda>s. se_token_hash s = hash_token raw \<and> se_revoked_at s = None)
              (\<lambda>s. (touch (now e) s)\<lparr>se_revoked_at := Some (now e)\<rparr>) (t_sessions d)\<rparr>))"

subsection \<open>ServiceAccountTokenDAO\<close>

definition SATokenPrefix :: string where "SATokenPrefix = ''qt_sat_''"

definition sa_stamp :: "time \<Rightarrow> nat \<Rightarrow> sa_token_row \<Rightarrow> sa_token_row" where
  "sa_stamp t i r = r\<lparr>ID := i, CreatedAt := t, DeletedAt := None\<rparr>"

definition sa_token_issue ::
  "env \<Rightarrow> nat \<Rightarrow> string \<Rightarrow> duration \<Rightarrow> db \<Rightarrow> (dao_error + (sa_token_row \<times> string)) \<times> db" where
  "sa_token_issue e operator_id description ttl d =
     (case rnd e of
        None \<Rightarrow> (Inl ErrRandom, d)
      | Some bs \<Rightarrow>
          (let raw = SATokenPrefix @ b64_encode (take 32 bs);
               hash = hash_token raw;
               rec = \<lparr>ID = 0, CreatedAt = 0, DeletedAt = None,
                      sa_operator_id = operator_id, sa_token_hash = hash,
                      sa_description = description,
                      sa_expires_at = (if 0 < ttl then Some (now e + ttl) else None),
                      sa_last_used_at = None, sa_revoked_at = None\<rparr>
           in if fault e ''dao: issue sa token'' then (Inl ErrIO, d)
              else if \<exists>r\<in>set (rows (t_sa_tokens d)). sa_token_hash r = hash then (Inl ErrUnique, d)
              else (let (r, t) = tbl_append (\<lambda>i. sa_stamp (now e) i rec) (t_sa_tokens d)
                    in (Inr (r, raw), d\<lparr>t_sa_tokens := t\<rparr>))))"

definition sa_active :: "time \<Rightarrow> string \<Rightarrow> sa_token_row \<Rightarrow> bool" where
  "sa_active t raw r =
     (sa_token_hash r = hash_token raw \<and> sa_revoked_at r = None \<and>
      (case sa_expires_at r of None \<Rightarrow> True | Some x \<Rightarrow> t < x))"

definition touch_sa_token :: "env \<Rightarrow> nat \<Rightarrow> db \<Rightarrow> db" where
  "touch_sa_token e i d =
     (if fault e ''dao: sa token last_used_at update'' then d
      else d\<lparr>t_sa_tokens := update_live (\<lambda>r. ID r = i)
               (\<lambda>r. r\<lparr>sa_last_used_at := Some (now e)\<rparr>) (t_sa_tokens d)\<rparr>)"

definition sa_token_validate_raw :: "env \<Rightarrow> string \<Rightarrow> db \<Rightarrow> (dao_error + nat) \<times> db" where
  "sa_token_validate_raw e raw d =
     (if fault e ''dao: sa token lookup'' then (Inl ErrIO, d)
      else (case first_live (sa_active (now e) raw) (t_sa_tokens d) of
          None \<Rightarrow> (Inl ErrNotFound, d)
        | Some r \<Rightarrow> (Inr (sa_operator_id r), touch_sa_token e (ID r) d)))"

definition sa_token_list_by_operator :: "env \<Rightarrow> nat \<Rightarrow> db \<Rightarrow> dao_error + sa_token_row list" where
  "sa_token_list_by_operator e operator_id d =
     (if fault e ''dao: list sa tokens'' then Inl ErrIO
      else Inr (select_live (\<lambda>r. sa_operator_id r = operator_id) (t_sa_tokens d)))"

definition sa_token_find_by_id :: "env \<Rightarrow> nat \<Rightarrow> db \<Rightarrow> dao_error + sa_token_row" where
  "sa_token_find_by_id e i d =
     (if fault e ''dao: find sa token'' then Inl ErrIO
      else (case first_live (\<lambda>r. ID r = i) (t_sa_tokens d) of
          None \<Rightarrow> Inl ErrNotFound
        | Some r \<Rightarrow> Inr r))"

definition sa_token_revoke :: "env \<Rightarrow> nat \<Rightarrow> db \<Rightarrow> (dao_error + unit) \<times> db" where
  "sa_token_revoke e i d =
     (if fault e ''dao: revoke sa token'' then (Inl ErrIO, d)
      else (Inr (), d\<lparr>t_sa_tokens := update_live (\<lambda>r. ID r = i \<and> sa_revoked_at r = None)
              (\<lambda>r. r\<lparr>sa_revoked_at := Some (now e)\<rparr>) (t_sa_tokens d)\<rparr>))"

subsection \<open>Lemmas\<close>

lemma operator_find_by_id_Inr:
  "operator_find_by_id e i d = Inr op \<Longrightarrow> op \<in> set (rows (t_operators d)) \<and> live op \<and> ID op = i"
  by (auto simp: operator_find_by_id_def split: if_splits option.splits dest!: first_live_Some)

lemma operator_find_by_email_Inr:
  "operator_find_by_email e m d = Inr op \<Longrightarrow>
     op \<in> set (rows (t_operators d)) \<and> live op \<and> op_email op = m"
  by (auto simp: operator_find_by_email_def split: if_splits option.splits dest!: first_live_Some)

lemma session_validate_Inr:
  assumes "session_validate e raw d = Inr op"
  shows "op \<in> set (rows (t_operators d)) \<and> live op \<and>
    (\<exists>s\<in>set (rows (t_sessions d)). live s \<and> session_active (now e) raw s \<and> se_operator_id s = ID op)"
proof -
  obtain s where "first_live (session_active (now e) raw) (t_sessions d) = Some s"
    "first_live (\<lambda>x. ID x = se_operator_id s) (t_operators d) = Some op"
    using assms by (auto simp: session_validate_def split: if_splits option.splits)
  then show ?thesis by (auto dest!: first_live_Some)
qed

lemma session_validate_raw_Inr:
  assumes "session_validate_raw e raw d = Inr (i, adm)"
  shows "\<exists>op s. op \<in> set (rows (t_operators d)) \<and> live op \<and> ID op = i \<and> op_is_admin op = adm \<and>
    s \<in> set (rows (t_sessions d)) \<and> live s \<and> session_active (now e) raw s \<and> se_operator_id s = i"
proof -
  obtain s op where "first_live
            (\<lambda>s. session_active (now e) raw s \<and>
                 first_live (\<lambda>x. ID x = se_operator_id s) (t_operators d) \<noteq> None) (t_sessions d) = Some s"
    "first_live (\<lambda>x. ID x = se_operator_id s) (t_operators d) = Some op"
    "i = se_operator_id s" "adm = op_is_admin op"
    using assms by (auto simp: session_validate_raw_def split: if_splits option.splits)
  then show ?thesis by (auto dest!: first_live_Some)
qed

lemma touch_sa_token_frame [frame_simps]:
  "t_operators (touch_sa_token e i d) = t_operators d"
  "t_sessions (touch_sa_token e i d) = t_sessions d"
  "t_projects (touch_sa_token e i d) = t_projects d"
  "t_accesses (touch_sa_token e i d) = t_accesses d"
  "t_sites (touch_sa_token e i d) = t_sites d"
  "t_services (touch_sa_token e i d) = t_services d"
  "t_audit_logs (touch_sa_token e i d) = t_audit_logs d"
  "t_agent_tokens (touch_sa_token e i d) = t_agent_tokens d"
  by (simp_all add: touch_sa_token_def)

end
