(* ===== verification/Credentials.thy ===== *)
theory Credentials
  imports DaoSite DaoOperator
begin

section \<open>The contract of the three token stores\<close>

text \<open>
  Operator sessions, agent tokens and service-account tokens follow one contract: a raw token is
  looked up by its hash, an issue makes one new token good for its owner until its expiry, and
  gives no other token a new meaning. The locale \<open>credential_store\<close> states it, its client lemmas
  follow a run of issues (and, in \<open>revocable_store\<close>, a revocation before it), and the three DAOs
  are its interpretations.
\<close>

definition session_owner :: "time \<Rightarrow> string \<Rightarrow> db \<Rightarrow> nat option" where
  "session_owner t raw d =
     map_option se_operator_id (first_live (session_active t raw) (t_sessions d))"

definition agent_owner :: "time \<Rightarrow> string \<Rightarrow> db \<Rightarrow> nat option" where
  "agent_owner t raw d = map_option at_site_id (agent_token_lookup t raw d)"

definition sa_owner :: "time \<Rightarrow> string \<Rightarrow> db \<Rightarrow> nat option" where
  "sa_owner t raw d = map_option sa_operator_id (first_live (sa_active t raw) (t_sa_tokens d))"

text \<open>The raw token an Issue method hands out, without the row.\<close>

definition raw_of :: "(dao_error + ('row \<times> string)) \<times> db \<Rightarrow> (dao_error + string) \<times> db" where
  "raw_of r = (case r of (Inl x, d) \<Rightarrow> (Inl x, d) | (Inr (row, raw), d) \<Rightarrow> (Inr raw, d))"

text \<open>A run of issues, with the tokens that came out: raw token, owner and expiry.\<close>

fun run_issues ::
  "(env \<Rightarrow> nat \<Rightarrow> duration \<Rightarrow> db \<Rightarrow> (dao_error + string) \<times> db) \<Rightarrow> (env \<times> nat \<times> duration) list \<Rightarrow> db
     \<Rightarrow> (string \<times> nat \<times> time) list \<times> db" where
  "run_issues issue [] d = ([], d)"
| "run_issues issue ((e, i, ttl) # rest) d =
     (case issue e i ttl d of
        (Inl x, d') \<Rightarrow> run_issues issue rest d'
      | (Inr raw, d') \<Rightarrow>
          (let (out, d'') = run_issues issue rest d' in ((raw, i, now e + ttl) # out, d'')))"

locale credential_store =
  fixes lookup :: "time \<Rightarrow> string \<Rightarrow> db \<Rightarrow> nat option"
    and issue :: "env \<Rightarrow> nat \<Rightarrow> duration \<Rightarrow> db \<Rightarrow> (dao_error + string) \<times> db"
  assumes lookup_hash: "hash_token raw = hash_token raw' \<Longrightarrow> lookup t raw d = lookup t raw' d"
    and issue_wf: "db_wf d \<Longrightarrow> db_wf (snd (issue e i ttl d))"
    and issue_fresh: "db_wf d \<Longrightarrow> issue e i ttl d = (Inr raw, d') \<Longrightarrow> 0 < ttl \<Longrightarrow>
      lookup t raw d' = (if t < now e + ttl then Some i else None)"
    and issue_failed: "issue e i ttl d = (Inl x, d') \<Longrightarrow> d' = d"
    and issue_others: "db_wf d \<Longrightarrow> issue e i ttl d = (Inr raw, d') \<Longrightarrow>
      hash_token raw' \<noteq> hash_token raw \<Longrightarrow> lookup t raw' d' = Some j \<Longrightarrow> lookup t raw' d = Some j"
begin

text \<open>A token accepted after a run was accepted before it, or came out of it and is in its time.\<close>

lemma run_issues_sound:
  assumes "db_wf d" "\<forall>(e, i, ttl)\<in>set reqs. 0 < ttl" "run_issues issue reqs d = (out, d')"
    "lookup t raw d' = Some j"
  shows "lookup t raw d = Some j \<or>
    (\<exists>raw' x. (raw', j, x) \<in> set out \<and> hash_token raw' = hash_token raw \<and> t < x)"
  using assms
proof (induction reqs arbitrary: d out)
  case Nil
  then show ?case by simp
next
  case (Cons q reqs)
  obtain e i ttl where q: "q = (e, i, ttl)" by (cases q)
  have pos: "0 < ttl" "\<forall>(e, i, ttl)\<in>set reqs. 0 < ttl" using Cons.prems(2) q by auto
  obtain r d1 where iss: "issue e i ttl d = (r, d1)" by (cases "issue e i ttl d")
  have wf1: "db_wf d1" using issue_wf [OF Cons.prems(1), of e i ttl] iss by simp
  show ?case
  proof (cases r)
    case (Inl x)
    then have "d1 = d" using iss issue_failed by simp
    then show ?thesis using Cons.IH [OF wf1 pos(2)] Cons.prems(3,4) iss Inl q by simp
  next
    case (Inr raw1)
    obtain out1 where run: "run_issues issue reqs d1 = (out1, d')"
      and out: "out = (raw1, i, now e + ttl) # out1"
      using Cons.prems(3) iss Inr q by (auto simp: Let_def split: prod.splits)
    from Cons.IH [OF wf1 pos(2) run Cons.prems(4)] show ?thesis
    proof
      assume l: "lookup t raw d1 = Some j"
      show ?thesis
      proof (cases "hash_token raw = hash_token raw1")
        case True
        have "lookup t raw1 d1 = Some j" using l lookup_hash [OF True, of t d1] by simp
        then have "i = j" "t < now e + ttl"
          using issue_fresh [OF Cons.prems(1) iss [unfolded Inr] pos(1), of t]
          by (auto split: if_splits)
        then show ?thesis using out True by force
      next
        case False
        then show ?thesis using issue_others [OF Cons.prems(1) iss [unfolded Inr] False l] by simp
      qed
    next
      assume "\<exists>raw' x. (raw', j, x) \<in> set out1 \<and> hash_token raw' = hash_token raw \<and> t < x"
      then show ?thesis using out by auto
    qed
  qed
qed

end

locale revocable_store = credential_store +
  fixes revoke :: "env \<Rightarrow> string \<Rightarrow> db \<Rightarrow> (dao_error + unit) \<times> db"
  assumes revoke_wf: "db_wf d \<Longrightarrow> db_wf (snd (revoke e raw d))"
    and revoke_kills: "revoke e raw d = (Inr (), d') \<Longrightarrow> lookup t raw d' = None"
    and revoke_others: "hash_token raw' \<noteq> hash_token raw \<Longrightarrow> revoke e raw d = (r, d') \<Longrightarrow>
      lookup t raw' d' = lookup t raw' d"
begin

text \<open>A revoked token stays dead through any later run that does not reissue its hash.\<close>

lemma revoked_stays_dead:
  assumes "db_wf d" "revoke e raw d = (Inr (), d1)" "\<forall>(e, i, ttl)\<in>set reqs. 0 < ttl"
    "run_issues issue reqs d1 = (out, d2)" "\<forall>(raw', i, x)\<in>set out. hash_token raw' \<noteq> hash_token raw"
  shows "lookup t raw d2 = None"
proof (rule ccontr)
  assume "lookup t raw d2 \<noteq> None"
  then obtain j where j: "lookup t raw d2 = Some j" by blast
  have wf1: "db_wf d1" using revoke_wf [OF assms(1), of e raw] assms(2) by simp
  from run_issues_sound [OF wf1 assms(3,4) j] show False
    using revoke_kills [OF assms(2)] assms(5) by fastforce
qed

end

subsection \<open>Searching a table a row was just added to\<close>

lemma find_snoc:
  "find Q (xs @ [y]) = (case find Q xs of Some r \<Rightarrow> Some r | None \<Rightarrow> if Q y then Some y else None)"
  by (induction xs) auto

lemma first_live_snoc:
  "rows t' = rows t @ [r] \<Longrightarrow> first_live P t' =
     (case first_live P t of Some x \<Rightarrow> Some x | None \<Rightarrow> (if live r \<and> P r then Some r else None))"
  by (simp add: first_live_def find_snoc)

text \<open>A new row under a free key: a search that needs the key finds it, another one does not.\<close>

lemma first_live_snoc_key:
  assumes "rows t' = rows t @ [r]" "live r" "\<not> conflicts key k 0 t" "tbl_wf t" "key r = k"
    "\<And>x. P x \<Longrightarrow> key x = k"
  shows "first_live P t' = (if P r then Some r else None)"
proof -
  have "first_live P t = None"
    using assms(3,4,6) unfolding first_live_None conflicts_def tbl_wf_def by fastforce
  then show ?thesis using assms(1,2) by (simp add: first_live_snoc)
qed

lemma first_live_snoc_other:
  assumes "rows t' = rows t @ [r]" "\<not> P r"
  shows "first_live P t' = first_live P t"
  using assms by (auto simp: first_live_snoc split: option.splits)

lemma first_live_unique:
  assumes "tbl_wf t" "uniq_live key t" "\<And>x. P x \<Longrightarrow> key x = k"
    "r \<in> set (rows t)" "live r" "P r"
  shows "first_live P t = Some r"
proof -
  obtain x where x: "first_live P t = Some x"
    using assms(4-6) by (cases "first_live P t") (auto simp: first_live_None)
  have "x \<in> set (rows t)" "live x" "P x" using first_live_Some [OF x] by auto
  then have "ID x = ID r" using assms(2-6) unfolding uniq_live_def by metis
  then have "x = r" using tbl_wf_inj [OF assms(1) \<open>x \<in> _\<close> assms(4)] by simp
  then show ?thesis using x by simp
qed

lemma first_live_map_same:
  assumes "rows t' = map g (rows t)" "\<And>x. x \<in> set (rows t) \<Longrightarrow> (live (g x) \<and> P (g x)) = (live x \<and> P x)"
    "\<And>x. x \<in> set (rows t) \<Longrightarrow> live x \<Longrightarrow> P x \<Longrightarrow> f (g x) = f x"
  shows "map_option f (first_live P t') = map_option f (first_live P t)"
proof -
  have "map_option f (find (\<lambda>x. live x \<and> P x) (map g xs)) = map_option f (find (\<lambda>x. live x \<and> P x) xs)"
    if "set xs \<subseteq> set (rows t)" for xs
    using that by (induction xs) (auto simp: assms(2,3))
  then show ?thesis by (simp add: first_live_def assms(1))
qed

subsection \<open>Sessions\<close>

lemma session_issue_Inr:
  assumes "raw_of (session_issue e i ttl ua ip d) = (Inr raw, d')"
  shows "\<exists>r. d' = d\<lparr>t_sessions := t_sessions d'\<rparr> \<and> rows (t_sessions d') = rows (t_sessions d) @ [r] \<and>
    seq (t_sessions d') = Suc (seq (t_sessions d)) \<and> ID r = Suc (seq (t_sessions d)) \<and> live r \<and>
    se_token_hash r = hash_token raw \<and> se_operator_id r = i \<and> se_expires_at r = now e + ttl \<and>
    se_revoked_at r = None \<and> \<not> conflicts se_token_hash (hash_token raw) 0 (t_sessions d)"
  using assms
  by (auto simp: session_issue_def raw_of_def issue_token_def Let_def tbl_append_def stamp_new_def
      live_def split: sum.splits prod.splits option.splits if_splits)

lemma session_issue_Inl: "raw_of (session_issue e i ttl ua ip d) = (Inl x, d') \<Longrightarrow> d' = d"
  by (auto simp: session_issue_def raw_of_def Let_def tbl_append_def
      split: sum.splits prod.splits option.splits if_splits)

lemma db_wf_sessions:
  assumes "db_wf d" "d' = d\<lparr>t_sessions := t\<rparr>" "tbl_wf t" "uniq_live se_token_hash t"
  shows "db_wf d'"
  using assms by (simp add: db_wf_def)

lemma session_issue_wf [wf_intros]:
  assumes "db_wf d" shows "db_wf (snd (session_issue e i ttl ua ip d))"
proof (cases "raw_of (session_issue e i ttl ua ip d)")
  case (Pair r d')
  have s: "snd (session_issue e i ttl ua ip d) = d'"
    using Pair by (auto simp: raw_of_def split: prod.splits sum.splits)
  show ?thesis
  proof (cases r)
    case (Inl x)
    then have "d' = d" using session_issue_Inl [of e i ttl ua ip d x d'] Pair by simp
    then show ?thesis using s assms by simp
  next
    case (Inr raw)
    from session_issue_Inr [OF Pair [unfolded Inr]] obtain r where
      r: "d' = d\<lparr>t_sessions := t_sessions d'\<rparr>" "rows (t_sessions d') = rows (t_sessions d) @ [r]"
        "seq (t_sessions d') = Suc (seq (t_sessions d))" "ID r = Suc (seq (t_sessions d))"
        "se_token_hash r = hash_token raw"
        "\<not> conflicts se_token_hash (hash_token raw) 0 (t_sessions d)"
      by blast
    show ?thesis unfolding s
      by (rule db_wf_sessions [OF assms r(1)])
        (rule tbl_wf_snoc [OF db_wfD(2) [OF assms] r(2-4)],
         rule uniq_live_snoc [OF db_wfD(11) [OF assms] r(2) _ db_wfD(2) [OF assms]],
         use r(5,6) in simp)
  qed
qed

lemma session_revoke_by_token_wf [wf_intros]:
  "db_wf d \<Longrightarrow> db_wf (snd (session_revoke_by_token e raw d))"
  by (auto simp: session_revoke_by_token_def db_wf_def intro!: tbl_wf_update uniq_live_update)

interpretation sessions: revocable_store session_owner
  "\<lambda>e i ttl d. raw_of (session_issue e i ttl ua ip d)" session_revoke_by_token
proof
  fix raw raw' t d
  assume "hash_token raw = hash_token raw'"
  then have "session_active t raw = session_active t raw'" by (simp add: session_active_def fun_eq_iff)
  then show "session_owner t raw d = session_owner t raw' d" by (simp add: session_owner_def)
next
  fix d e i ttl
  assume "db_wf d"
  then show "db_wf (snd (raw_of (session_issue e i ttl ua ip d)))"
    using session_issue_wf [of d e i ttl ua ip]
    by (auto simp: raw_of_def split: prod.splits sum.splits)
next
  fix d e i ttl raw d' t
  assume d: "db_wf d" and iss: "raw_of (session_issue e i ttl ua ip d) = (Inr raw, d')"
  from session_issue_Inr [OF iss] obtain r where
    r: "rows (t_sessions d') = rows (t_sessions d) @ [r]" "live r" "se_token_hash r = hash_token raw"
      "\<not> conflicts se_token_hash (hash_token raw) 0 (t_sessions d)" "se_operator_id r = i"
      "se_expires_at r = now e + ttl" "se_revoked_at r = None"
    by blast
  have "first_live (session_active t raw) (t_sessions d') = (if session_active t raw r then Some r else None)"
    by (rule first_live_snoc_key [OF r(1,2,4) db_wfD(2) [OF d] r(3)]) (simp add: session_active_def)
  then show "session_owner t raw d' = (if t < now e + ttl then Some i else None)"
    using r by (simp add: session_owner_def session_active_def)
next
  fix e i ttl d x d'
  assume "raw_of (session_issue e i ttl ua ip d) = (Inl x, d')"
  then show "d' = d" by (rule session_issue_Inl)
next
  fix d e i ttl raw d' raw' t j
  assume iss: "raw_of (session_issue e i ttl ua ip d) = (Inr raw, d')"
    and h: "hash_token raw' \<noteq> hash_token raw" and l: "session_owner t raw' d' = Some j"
  from session_issue_Inr [OF iss] obtain r where
    r: "rows (t_sessions d') = rows (t_sessions d) @ [r]" "se_token_hash r = hash_token raw"
    by blast
  have "first_live (session_active t raw') (t_sessions d') = first_live (session_active t raw') (t_sessions d)"
    by (rule first_live_snoc_other [OF r(1)]) (use r(2) h in \<open>simp add: session_active_def\<close>)
  then show "session_owner t raw' d = Some j" using l by (simp add: session_owner_def)
next
  fix d e raw
  assume "db_wf d"
  then show "db_wf (snd (session_revoke_by_token e raw d))" by (rule session_revoke_by_token_wf)
next
  fix e raw d d' t
  assume "session_revoke_by_token e raw d = (Inr (), d')"
  then have "first_live (session_active t raw) (t_sessions d') = None"
    by (auto simp: session_revoke_by_token_def first_live_None table_simps session_active_def
        split: if_splits)
  then show "session_owner t raw d' = None" by (simp add: session_owner_def)
next
  fix raw' raw e d r d' t
  assume h: "hash_token raw' \<noteq> hash_token raw" and r: "session_revoke_by_token e raw d = (r, d')"
  show "session_owner t raw' d' = session_owner t raw' d"
  proof (cases "fault e ''dao: revoke by token''")
    case True
    then show ?thesis using r by (simp add: session_revoke_by_token_def)
  next
    case False
    then have "rows (t_sessions d') = map (\<lambda>s. if live s \<and> se_token_hash s = hash_token raw \<and>
        se_revoked_at s = None then (touch (now e) s)\<lparr>se_revoked_at := Some (now e)\<rparr> else s)
        (rows (t_sessions d))"
      using r by (auto simp: session_revoke_by_token_def table_simps)
    then show ?thesis unfolding session_owner_def
      by (rule first_live_map_same) (use h in \<open>auto simp: session_active_def live_def touch_def\<close>)
  qed
qed

subsection \<open>Agent tokens\<close>

text \<open>
  Issuing an agent token also deletes the live token of its site, so the stored tokens after it
  are the old ones of other sites and the new one.
\<close>

lemma site_token_issue_Inr:
  assumes "raw_of (site_token_issue e i ttl d) = (Inr raw, d')"
  shows "\<exists>r t1. t1 = delete_live (now e) (\<lambda>r. at_site_id r = i) (t_agent_tokens d) \<and>
    d' = d\<lparr>t_agent_tokens := t_agent_tokens d'\<rparr> \<and> rows (t_agent_tokens d') = rows t1 @ [r] \<and>
    seq (t_agent_tokens d') = Suc (seq t1) \<and> ID r = Suc (seq t1) \<and> live r \<and>
    at_token_hash r = hash_token raw \<and> at_site_id r = i \<and>
    at_expires_at r = (if 0 < ttl then Some (now e + ttl) else None) \<and>
    \<not> conflicts at_token_hash (hash_token raw) 0 t1 \<and> \<not> conflicts at_site_id i 0 t1"
  using assms
  by (auto simp: site_token_issue_def raw_of_def issue_token_def Let_def tbl_append_def stamp_new_def
      live_def split: sum.splits prod.splits option.splits if_splits)

lemma site_token_issue_Inl: "raw_of (site_token_issue e i ttl d) = (Inl x, d') \<Longrightarrow> d' = d"
  by (auto simp: site_token_issue_def raw_of_def Let_def tbl_append_def
      split: sum.splits prod.splits option.splits if_splits)

lemma db_wf_agent_tokens:
  assumes "db_wf d" "d' = d\<lparr>t_agent_tokens := t\<rparr>" "tbl_wf t" "uniq_live at_site_id t"
    "uniq_live at_token_hash t"
  shows "db_wf d'"
  using assms by (simp add: db_wf_def)

lemma site_token_issue_wf [wf_intros]:
  assumes "db_wf d" shows "db_wf (snd (site_token_issue e i ttl d))"
proof (cases "raw_of (site_token_issue e i ttl d)")
  case (Pair r d')
  have s: "snd (site_token_issue e i ttl d) = d'"
    using Pair by (auto simp: raw_of_def split: prod.splits sum.splits)
  show ?thesis
  proof (cases r)
    case (Inl x)
    then have "d' = d" using site_token_issue_Inl [of e i ttl d x d'] Pair by simp
    then show ?thesis using s assms by simp
  next
    case (Inr raw)
    define t1 where "t1 = delete_live (now e) (\<lambda>r. at_site_id r = i) (t_agent_tokens d)"
    from site_token_issue_Inr [OF Pair [unfolded Inr]] obtain r where
      r: "d' = d\<lparr>t_agent_tokens := t_agent_tokens d'\<rparr>" "rows (t_agent_tokens d') = rows t1 @ [r]"
        "seq (t_agent_tokens d') = Suc (seq t1)" "ID r = Suc (seq t1)"
        "\<not> conflicts at_token_hash (at_token_hash r) 0 t1" "\<not> conflicts at_site_id (at_site_id r) 0 t1"
      unfolding t1_def by auto
    have t1: "tbl_wf t1" "uniq_live at_site_id t1" "uniq_live at_token_hash t1"
      using db_wfD [OF assms] by (auto simp: t1_def intro!: tbl_wf_delete uniq_live_delete)
    show ?thesis unfolding s
      by (rule db_wf_agent_tokens [OF assms r(1)])
        (rule tbl_wf_snoc [OF t1(1) r(2-4)], rule uniq_live_snoc [OF t1(2) r(2,6) t1(1)],
         rule uniq_live_snoc [OF t1(3) r(2,5) t1(1)])
  qed
qed

interpretation agent_tokens: credential_store agent_owner
  "\<lambda>e i ttl d. raw_of (site_token_issue e i ttl d)"
proof
  fix raw raw' t d
  assume "hash_token raw = hash_token raw'"
  then show "agent_owner t raw d = agent_owner t raw' d"
    by (simp add: agent_owner_def agent_token_lookup_def)
next
  fix d e i ttl
  assume "db_wf d"
  then show "db_wf (snd (raw_of (site_token_issue e i ttl d)))"
    using site_token_issue_wf [of d e i ttl] by (auto simp: raw_of_def split: prod.splits sum.splits)
next
  fix d e i ttl raw d' t
  assume d: "db_wf d" and iss: "raw_of (site_token_issue e i ttl d) = (Inr raw, d')" and "0 < ttl"
  define t1 where "t1 = delete_live (now e) (\<lambda>r. at_site_id r = i) (t_agent_tokens d)"
  from site_token_issue_Inr [OF iss] obtain r where
    r: "rows (t_agent_tokens d') = rows t1 @ [r]" "live r" "at_token_hash r = hash_token raw"
      "\<not> conflicts at_token_hash (hash_token raw) 0 t1" "at_site_id r = i"
      "at_expires_at r = Some (now e + ttl)"
    using \<open>0 < ttl\<close> unfolding t1_def by auto
  have "tbl_wf t1" unfolding t1_def using db_wfD(6) [OF d] by (rule tbl_wf_delete)
  from first_live_snoc_key [OF r(1,2,4) this r(3), of "\<lambda>r. at_token_hash r = hash_token raw \<and>
      not_expired t (at_expires_at r)"]
  show "agent_owner t raw d' = (if t < now e + ttl then Some i else None)"
    using r by (simp add: agent_owner_def agent_token_lookup_def not_expired_def)
next
  fix e i ttl d x d'
  assume "raw_of (site_token_issue e i ttl d) = (Inl x, d')"
  then show "d' = d" by (rule site_token_issue_Inl)
next
  fix d e i ttl raw d' raw' t j
  let ?P = "\<lambda>r. at_token_hash r = hash_token raw' \<and> not_expired t (at_expires_at r)"
  assume d: "db_wf d" and iss: "raw_of (site_token_issue e i ttl d) = (Inr raw, d')"
    and h: "hash_token raw' \<noteq> hash_token raw" and l: "agent_owner t raw' d' = Some j"
  define t1 where "t1 = delete_live (now e) (\<lambda>r. at_site_id r = i) (t_agent_tokens d)"
  from site_token_issue_Inr [OF iss] obtain r where
    r: "rows (t_agent_tokens d') = rows t1 @ [r]" "at_token_hash r = hash_token raw"
    unfolding t1_def by blast
  have "first_live ?P (t_agent_tokens d') = first_live ?P t1"
    by (rule first_live_snoc_other [OF r(1)]) (use r(2) h in simp)
  then obtain x where x: "first_live ?P t1 = Some x" "at_site_id x = j"
    using l by (auto simp: agent_owner_def agent_token_lookup_def)
  have "x \<in> set (rows (t_agent_tokens d))" "live x" "?P x"
    using first_live_Some [OF x(1)] by (auto simp: t1_def table_simps live_def split: if_splits)
  moreover have "first_live ?P (t_agent_tokens d) = Some x"
    by (rule first_live_unique [OF db_wfD(6) [OF d] db_wfD(16) [OF d], where k = "hash_token raw'"])
      (use calculation in auto)
  ultimately show "agent_owner t raw' d = Some j"
    using x(2) by (simp add: agent_owner_def agent_token_lookup_def)
qed

text \<open>Rotation: the tokens of the site from before an issue are dead after it.\<close>

lemma site_token_issue_rotates:
  assumes d: "db_wf d" and iss: "raw_of (site_token_issue e i ttl d) = (Inr raw, d')"
    and h: "hash_token old \<noteq> hash_token raw" and old: "agent_owner t old d = Some i"
  shows "agent_owner t' old d' = None"
proof (rule ccontr)
  assume "agent_owner t' old d' \<noteq> None"
  then obtain x where x: "first_live (\<lambda>r. at_token_hash r = hash_token old \<and>
      not_expired t' (at_expires_at r)) (t_agent_tokens d') = Some x"
    by (auto simp: agent_owner_def agent_token_lookup_def)
  define t1 where "t1 = delete_live (now e) (\<lambda>r. at_site_id r = i) (t_agent_tokens d)"
  from site_token_issue_Inr [OF iss] obtain r where
    r: "rows (t_agent_tokens d') = rows t1 @ [r]" "at_token_hash r = hash_token raw"
    unfolding t1_def by blast
  have "x \<in> set (rows t1)" "live x" "at_token_hash x = hash_token old"
  proof -
    have "x \<in> set (rows t1) \<or> x = r" "at_token_hash x = hash_token old" "live x"
      using first_live_Some [OF x] unfolding r(1) by auto
    moreover from this have "x \<noteq> r" using r(2) h by metis
    ultimately show "x \<in> set (rows t1)" "live x" "at_token_hash x = hash_token old" by simp_all
  qed
  then have x1: "x \<in> set (rows (t_agent_tokens d))" "at_site_id x \<noteq> i"
    using delete_live_survivor unfolding t1_def by blast+
  obtain y where "agent_token_lookup t old d = Some y" "at_site_id y = i"
    using old by (auto simp: agent_owner_def)
  then have "y \<in> set (rows (t_agent_tokens d))" "live y" "at_token_hash y = hash_token old"
    using agent_token_lookup_Some [of t old d y] by simp_all
  moreover have "at_token_hash x = at_token_hash y"
    using \<open>at_token_hash x = _\<close> calculation by (simp only:)
  ultimately have "ID x = ID y"
    using db_wfD(16) [OF d] x1(1) \<open>live x\<close> unfolding uniq_live_def by blast
  then have "x = y" using tbl_wf_inj [OF db_wfD(6) [OF d] x1(1)] \<open>y \<in> _\<close> by blast
  then show False using x1(2) \<open>at_site_id y = i\<close> by simp
qed

subsection \<open>Service-account tokens\<close>

lemma sa_token_issue_Inr:
  assumes "raw_of (sa_token_issue e i desc ttl d) = (Inr raw, d')"
  shows "\<exists>r. d' = d\<lparr>t_sa_tokens := t_sa_tokens d'\<rparr> \<and> rows (t_sa_tokens d') = rows (t_sa_tokens d) @ [r] \<and>
    seq (t_sa_tokens d') = Suc (seq (t_sa_tokens d)) \<and> ID r = Suc (seq (t_sa_tokens d)) \<and> live r \<and>
    sa_token_hash r = hash_token raw \<and> sa_operator_id r = i \<and>
    sa_expires_at r = (if 0 < ttl then Some (now e + ttl) else None) \<and>
    sa_revoked_at r = None \<and> \<not> conflicts sa_token_hash (hash_token raw) 0 (t_sa_tokens d)"
  using assms
  by (auto simp: sa_token_issue_def raw_of_def Let_def tbl_append_def sa_stamp_def live_def
      conflicts_def split: sum.splits prod.splits option.splits if_splits)

lemma sa_token_issue_Inl: "raw_of (sa_token_issue e i desc ttl d) = (Inl x, d') \<Longrightarrow> d' = d"
  by (auto simp: sa_token_issue_def raw_of_def Let_def tbl_append_def
      split: sum.splits prod.splits option.splits if_splits)

lemma sa_token_issue_wf [wf_intros]:
  assumes "db_wf d" shows "db_wf (snd (sa_token_issue e i desc ttl d))"
proof (cases "raw_of (sa_token_issue e i desc ttl d)")
  case (Pair r d')
  have s: "snd (sa_token_issue e i desc ttl d) = d'"
    using Pair by (auto simp: raw_of_def split: prod.splits sum.splits)
  show ?thesis
  proof (cases r)
    case (Inl x)
    then have "d' = d" using sa_token_issue_Inl [of e i desc ttl d x d'] Pair by simp
    then show ?thesis using s assms by simp
  next
    case (Inr raw)
    from sa_token_issue_Inr [OF Pair [unfolded Inr]] obtain r where
      r: "d' = d\<lparr>t_sa_tokens := t_sa_tokens d'\<rparr>" "rows (t_sa_tokens d') = rows (t_sa_tokens d) @ [r]"
        "seq (t_sa_tokens d') = Suc (seq (t_sa_tokens d))" "ID r = Suc (seq (t_sa_tokens d))"
        "\<not> conflicts sa_token_hash (sa_token_hash r) 0 (t_sa_tokens d)"
      by auto
    have "tbl_wf (t_sa_tokens d')" by (rule tbl_wf_snoc [OF db_wfD(9) [OF assms] r(2-4)])
    moreover have "uniq_live sa_token_hash (t_sa_tokens d')"
      by (rule uniq_live_snoc [OF db_wfD(18) [OF assms] r(2,5) db_wfD(9) [OF assms]])
    ultimately show ?thesis using assms unfolding s by (subst r(1)) (simp add: db_wf_def)
  qed
qed

interpretation sa_tokens: credential_store sa_owner
  "\<lambda>e i ttl d. raw_of (sa_token_issue e i desc ttl d)"
proof
  fix raw raw' t d
  assume "hash_token raw = hash_token raw'"
  then have "sa_active t raw = sa_active t raw'" by (simp add: sa_active_def fun_eq_iff)
  then show "sa_owner t raw d = sa_owner t raw' d" by (simp add: sa_owner_def)
next
  fix d e i ttl
  assume "db_wf d"
  then show "db_wf (snd (raw_of (sa_token_issue e i desc ttl d)))"
    using sa_token_issue_wf [of d e i desc ttl] by (auto simp: raw_of_def split: prod.splits sum.splits)
next
  fix d e i ttl raw d' t
  assume d: "db_wf d" and iss: "raw_of (sa_token_issue e i desc ttl d) = (Inr raw, d')" and "0 < ttl"
  from sa_token_issue_Inr [OF iss] \<open>0 < ttl\<close> obtain r where
    r: "rows (t_sa_tokens d') = rows (t_sa_tokens d) @ [r]" "live r" "sa_token_hash r = hash_token raw"
      "\<not> conflicts sa_token_hash (hash_token raw) 0 (t_sa_tokens d)" "sa_operator_id r = i"
      "sa_expires_at r = Some (now e + ttl)" "sa_revoked_at r = None"
    by auto
  have "first_live (sa_active t raw) (t_sa_tokens d') = (if sa_active t raw r then Some r else None)"
    by (rule first_live_snoc_key [OF r(1,2,4) db_wfD(9) [OF d] r(3)]) (simp add: sa_active_def)
  then show "sa_owner t raw d' = (if t < now e + ttl then Some i else None)"
    using r by (simp add: sa_owner_def sa_active_def)
next
  fix e i ttl d x d'
  assume "raw_of (sa_token_issue e i desc ttl d) = (Inl x, d')"
  then show "d' = d" by (rule sa_token_issue_Inl)
next
  fix d e i ttl raw d' raw' t j
  assume iss: "raw_of (sa_token_issue e i desc ttl d) = (Inr raw, d')"
    and h: "hash_token raw' \<noteq> hash_token raw" and l: "sa_owner t raw' d' = Some j"
  from sa_token_issue_Inr [OF iss] obtain r where
    r: "rows (t_sa_tokens d') = rows (t_sa_tokens d) @ [r]" "sa_token_hash r = hash_token raw"
    by blast
  have "first_live (sa_active t raw') (t_sa_tokens d') = first_live (sa_active t raw') (t_sa_tokens d)"
    by (rule first_live_snoc_other [OF r(1)]) (use r(2) h in \<open>simp add: sa_active_def\<close>)
  then show "sa_owner t raw' d = Some j" using l by (simp add: sa_owner_def)
qed

end
