(* ===== verification/DaoAudit.thy ===== *)
theory DaoAudit
  imports Schema
begin

section \<open>The audit log: writer and reader (internal/audit, internal/dao/audit.go)\<close>

text \<open>
  Request contexts (what the interceptors attach), Writer.Log, and AuditDAO with its joined
  query, its filters and its descending cursor. SQLite's LIKE is written out: it ignores the
  case of ASCII letters and treats percent and underscore as wildcards.
\<close>

subsection \<open>The request context\<close>

record agent_principal =
  ap_site_id :: nat
  ap_project_id :: nat

text \<open>The incoming metadata the handlers and interceptors read, by header.\<close>

record metadata =
  md_authorization :: "string list"
  md_user_agent :: "string list"
  md_x_forwarded_for :: "string list"

record ctx =
  cx_operator :: "operator_row option"
  cx_raw_token :: string
  cx_agent :: "agent_principal option"
  cx_source_ip :: string
  cx_md :: "metadata option"

subsection \<open>Writer.Log\<close>

record audit_entry =
  ae_project_id :: "nat option"
  ae_action :: string
  ae_target :: string
  ae_extra :: extra

definition audit_log :: "env \<Rightarrow> ctx \<Rightarrow> audit_entry \<Rightarrow> db \<Rightarrow> (err + unit) \<times> db" where
  "audit_log e cx en d =
     (if ae_action en = [] then (Inl ''audit: action is required'', d)
      else if fault e ''audit: create'' then (Inl ''audit: create: %w'', d)
      else
        (let (r, t) = tbl_append
              (\<lambda>i. \<lparr>ID = i, au_ts = now e, au_project_id = ae_project_id en,
                    au_operator_id = map_option ID (cx_operator cx),
                    au_action = ae_action en, au_target = ae_target en,
                    au_source_ip = cx_source_ip cx, au_extra = ae_extra en\<rparr>) (t_audit_logs d)
         in (Inr (), d\<lparr>t_audit_logs := t\<rparr>)))"

text \<open>Every handler goes on after a failed audit write; this is the database it goes on with.\<close>

definition audited :: "env \<Rightarrow> ctx \<Rightarrow> audit_entry \<Rightarrow> db \<Rightarrow> db" where
  "audited e cx en d = snd (audit_log e cx en d)"

subsection \<open>AuditDAO\<close>

record audit_filter =
  af_operator_email :: string
  af_project_slug :: string
  af_action_prefix :: string
  af_since :: "time option"
  af_until :: "time option"
  af_limit :: int
  af_after_id :: nat

record audit_list_row =
  al_id :: nat
  al_ts :: time
  al_operator_email :: string
  al_source_ip :: string
  al_action :: string
  al_target :: string
  al_project_slug :: string
  al_extra :: extra

definition ascii_fold :: "char \<Rightarrow> nat" where
  "ascii_fold c = lower_byte (of_char c)"

fun sql_like :: "string \<Rightarrow> string \<Rightarrow> bool" where
  "sql_like [] s = (s = [])"
| "sql_like (p # ps) s =
     (if p = CHR ''%''
      then sql_like ps s \<or> (case s of [] \<Rightarrow> False | c # cs \<Rightarrow> sql_like (p # ps) cs)
      else (case s of
          [] \<Rightarrow> False
        | c # cs \<Rightarrow> (p = CHR ''_'' \<or> ascii_fold p = ascii_fold c) \<and> sql_like ps cs))"

text \<open>
  The two LEFT JOINs: the row of the table with that key, deleted or not, and the COALESCE of
  its column.
\<close>

definition joined_email :: "db \<Rightarrow> audit_row \<Rightarrow> string option" where
  "joined_email d r =
     (case au_operator_id r of
        None \<Rightarrow> None
      | Some i \<Rightarrow> map_option op_email (find (\<lambda>x. ID x = i) (rows (t_operators d))))"

definition joined_slug :: "db \<Rightarrow> audit_row \<Rightarrow> string option" where
  "joined_slug d r =
     (case au_project_id r of
        None \<Rightarrow> None
      | Some i \<Rightarrow> map_option pr_slug (find (\<lambda>x. ID x = i) (rows (t_projects d))))"

definition coalesce :: "string option \<Rightarrow> string" where
  "coalesce x = (case x of None \<Rightarrow> [] | Some s \<Rightarrow> s)"

definition audit_base_query :: "audit_filter \<Rightarrow> db \<Rightarrow> audit_row \<Rightarrow> bool" where
  "audit_base_query f d r =
     ((af_operator_email f \<noteq> [] \<longrightarrow> joined_email d r = Some (af_operator_email f)) \<and>
      (af_project_slug f \<noteq> [] \<longrightarrow> joined_slug d r = Some (af_project_slug f)) \<and>
      (af_action_prefix f \<noteq> [] \<longrightarrow> sql_like (af_action_prefix f @ ''%'') (au_action r)) \<and>
      (case af_since f of None \<Rightarrow> True | Some t \<Rightarrow> t \<le> au_ts r) \<and>
      (case af_until f of None \<Rightarrow> True | Some t \<Rightarrow> au_ts r \<le> t))"

definition audit_join :: "db \<Rightarrow> audit_row \<Rightarrow> audit_list_row" where
  "audit_join d r =
     \<lparr>al_id = ID r, al_ts = au_ts r, al_operator_email = coalesce (joined_email d r),
      al_source_ip = au_source_ip r, al_action = au_action r, al_target = au_target r,
      al_project_slug = coalesce (joined_slug d r), al_extra = au_extra r\<rparr>"

text \<open>The filtered rows, newest first.\<close>

definition audit_matching :: "audit_filter \<Rightarrow> db \<Rightarrow> audit_row list" where
  "audit_matching f d = rev (filter (audit_base_query f d) (rows (t_audit_logs d)))"

definition audit_list :: "env \<Rightarrow> audit_filter \<Rightarrow> db \<Rightarrow> dao_error + audit_list_row list" where
  "audit_list e f d =
     (if fault e ''dao: list audit logs'' then Inl ErrIO
      else
        (let limit = (if af_limit f \<le> 0 then 50 else nat (af_limit f)) in
         Inr (map (audit_join d)
               (take limit
                 (filter (\<lambda>r. 0 < af_after_id f \<longrightarrow> ID r < af_after_id f) (audit_matching f d))))))"

definition audit_count :: "env \<Rightarrow> audit_filter \<Rightarrow> db \<Rightarrow> dao_error + 32 word" where
  "audit_count e f d =
     (if fault e ''dao: count audit logs'' then Inl ErrIO
      else Inr (of_nat (length (audit_matching f d))))"

subsection \<open>Lemmas\<close>

lemma audited_frame [frame_simps]:
  "t_operators (audited e cx en d) = t_operators d"
  "t_sessions (audited e cx en d) = t_sessions d"
  "t_projects (audited e cx en d) = t_projects d"
  "t_accesses (audited e cx en d) = t_accesses d"
  "t_sites (audited e cx en d) = t_sites d"
  "t_agent_tokens (audited e cx en d) = t_agent_tokens d"
  "t_services (audited e cx en d) = t_services d"
  "t_sa_tokens (audited e cx en d) = t_sa_tokens d"
  by (simp_all add: audited_def audit_log_def Let_def split: prod.splits)

lemma audited_rows:
  "\<exists>new. rows (t_audit_logs (audited e cx en d)) = rows (t_audit_logs d) @ new"
  by (auto simp: audited_def audit_log_def Let_def tbl_append_def split: prod.splits)

lemma audited_wf: "tbl_wf (t_audit_logs d) \<Longrightarrow> tbl_wf (t_audit_logs (audited e cx en d))"
  unfolding audited_def audit_log_def
  by (auto simp: Let_def tbl_append_def tbl_wf_def sorted_wrt_append split: prod.splits)

lemma audited_db_wf [wf_intros]: "db_wf d \<Longrightarrow> db_wf (audited e cx en d)"
  by (simp add: db_wf_def frame_simps audited_wf)

end
