(* ===== verification/Resource.thy ===== *)
theory Resource
  imports QtPrelude
begin

section \<open>Resource names and port ranges (internal/resource)\<close>

text \<open>
  Slugs, the AIP-122 names built from them, and the \<open>min-max\<close> port ranges. Every parser
  returns the error's format string on the left. The lemmas give the grammar each checker
  accepts, the round trips between the formatters and the parsers, and the bounds of a
  parsed range.
\<close>

definition minSlugLen :: nat where "minSlugLen = 1"
definition maxSlugLen :: nat where "maxSlugLen = 64"

text \<open>The byte classes of the switch in ValidateSlug.\<close>

definition is_lower :: "char \<Rightarrow> bool" where
  "is_lower c = (97 \<le> (of_char c :: nat) \<and> (of_char c :: nat) \<le> 122)"

definition dash :: char where "dash = CHR ''-''"

text \<open>
  The loop of ValidateSlug over the remaining characters \<open>rs\<close> of \<open>s\<close>, at index \<open>i\<close>. A
  character outside ASCII ends the loop at its first byte as it does at its rune.
\<close>

fun slug_loop :: "string \<Rightarrow> nat \<Rightarrow> string \<Rightarrow> err option" where
  "slug_loop s i [] = None"
| "slug_loop s i (r # rs) =
     (if is_lower r then slug_loop s (Suc i) rs
      else if is_digit r then slug_loop s (Suc i) rs
      else if r = dash then
        (if i = 0 \<or> i = length s - 1 then Some ''resource: slug %q must not start or end with '-' ''
         else if s ! (i - 1) = dash then Some ''resource: slug %q must not contain '--' ''
         else slug_loop s (Suc i) rs)
      else Some ''resource: slug %q contains invalid char %q'')"

definition validate_slug :: "string \<Rightarrow> err option" where
  "validate_slug s =
     (if length s < minSlugLen \<or> length s > maxSlugLen
      then Some ''resource: slug %q must be %d-%d chars''
      else slug_loop s 0 s)"

definition collectionProjects :: string where "collectionProjects = ''projects''"
definition collectionSites :: string where "collectionSites = ''sites''"
definition collectionServices :: string where "collectionServices = ''services''"

definition slash :: char where "slash = CHR ''/''"

definition format_project_name :: "string \<Rightarrow> string" where
  "format_project_name slug = collectionProjects @ [slash] @ slug"

definition parse_project_name :: "string \<Rightarrow> err + string" where
  "parse_project_name name =
     (let parts = split_on slash name in
      if length parts \<noteq> 2 \<or> parts ! 0 \<noteq> collectionProjects
      then Inl ''resource: project name must be projects/{slug}''
      else (case validate_slug (parts ! 1) of
          Some e \<Rightarrow> Inl e
        | None \<Rightarrow> Inr (parts ! 1)))"

record site_name =
  sn_project :: string
  sn_site :: string

definition format_site_name :: "string \<Rightarrow> string \<Rightarrow> string" where
  "format_site_name project_slug site_slug =
     collectionProjects @ [slash] @ project_slug @ [slash] @ collectionSites @ [slash] @ site_slug"

definition parse_site_name :: "string \<Rightarrow> err + site_name" where
  "parse_site_name name =
     (let parts = split_on slash name in
      if length parts \<noteq> 4 \<or> parts ! 0 \<noteq> collectionProjects \<or> parts ! 2 \<noteq> collectionSites
      then Inl ''resource: site name must be projects/{p}/sites/{s}''
      else (case validate_slug (parts ! 1) of
          Some e \<Rightarrow> Inl e
        | None \<Rightarrow> (case validate_slug (parts ! 3) of
              Some e \<Rightarrow> Inl e
            | None \<Rightarrow> Inr \<lparr>sn_project = parts ! 1, sn_site = parts ! 3\<rparr>)))"

definition parse_project_parent :: "string \<Rightarrow> err + string" where
  "parse_project_parent parent = parse_project_name parent"

record service_name =
  vn_project :: string
  vn_site :: string
  vn_service :: string

definition format_service_name :: "string \<Rightarrow> string \<Rightarrow> string \<Rightarrow> string" where
  "format_service_name project_slug site_slug service_slug =
     collectionProjects @ [slash] @ project_slug @ [slash] @
     collectionSites @ [slash] @ site_slug @ [slash] @
     collectionServices @ [slash] @ service_slug"

definition parse_service_name :: "string \<Rightarrow> err + service_name" where
  "parse_service_name name =
     (let parts = split_on slash name in
      if length parts \<noteq> 6 \<or> parts ! 0 \<noteq> collectionProjects \<or> parts ! 2 \<noteq> collectionSites
         \<or> parts ! 4 \<noteq> collectionServices
      then Inl ''resource: service name must be projects/{p}/sites/{s}/services/{svc}''
      else (case validate_slug (parts ! 1) of
          Some e \<Rightarrow> Inl e
        | None \<Rightarrow> (case validate_slug (parts ! 3) of
              Some e \<Rightarrow> Inl e
            | None \<Rightarrow> (case validate_slug (parts ! 5) of
                  Some e \<Rightarrow> Inl e
                | None \<Rightarrow> Inr \<lparr>vn_project = parts ! 1, vn_site = parts ! 3,
                                vn_service = parts ! 5\<rparr>))))"

definition format_site_parent :: "string \<Rightarrow> string \<Rightarrow> string" where
  "format_site_parent project_slug site_slug =
     collectionProjects @ [slash] @ project_slug @ [slash] @ collectionSites @ [slash] @ site_slug"

definition parse_site_parent :: "string \<Rightarrow> err + site_name" where
  "parse_site_parent parent = parse_site_name parent"

text \<open>ParsePortRange: both ends inclusive, 16 bits wide, at least two ports.\<close>

definition parse_port_range :: "string \<Rightarrow> err + (port \<times> port)" where
  "parse_port_range s =
     (case split_two dash s of
        None \<Rightarrow> Inl ''invalid port range %q: expected min-max''
      | Some (p0, p1) \<Rightarrow>
          (case parse_uint 16 (trim_space p0) of
             None \<Rightarrow> Inl ''invalid min port: %w''
           | Some minI \<Rightarrow>
               (case parse_uint 16 (trim_space p1) of
                  None \<Rightarrow> Inl ''invalid max port: %w''
                | Some maxI \<Rightarrow>
                    if minI > maxI then Inl ''invalid port range %q: min %d > max %d''
                    else if minI = maxI
                    then Inl ''port range %q too narrow: need at least 2 ports (control + service)''
                    else Inr (of_nat minI, of_nat maxI))))"

subsection \<open>The grammar of slugs\<close>

definition slug_char :: "char \<Rightarrow> bool" where
  "slug_char c = (is_lower c \<or> is_digit c \<or> c = dash)"

definition slug_grammar :: "string \<Rightarrow> bool" where
  "slug_grammar s \<longleftrightarrow>
     1 \<le> length s \<and> length s \<le> 64 \<and> (\<forall>c\<in>set s. slug_char c) \<and>
     hd s \<noteq> dash \<and> last s \<noteq> dash \<and> (\<forall>u v. s \<noteq> u @ [dash, dash] @ v)"

lemma dash_class [simp]: "\<not> is_lower dash" "\<not> is_digit dash"
  by (simp_all add: dash_def is_lower_def is_digit_def)

lemma slug_loop_None_iff:
  "slug_loop s i (drop i s) = None \<longleftrightarrow>
     (\<forall>j<length s. i \<le> j \<longrightarrow> slug_char (s ! j) \<and>
        (s ! j = dash \<longrightarrow> j \<noteq> 0 \<and> j \<noteq> length s - 1 \<and> s ! (j - 1) \<noteq> dash))"
proof (induction "length s - i" arbitrary: i)
  case 0
  then show ?case by simp
next
  case (Suc n)
  have i: "i < length s" using Suc.hyps(2) by simp
  have d: "drop i s = s ! i # drop (Suc i) s" using i by (simp add: Cons_nth_drop_Suc)
  have split: "(\<forall>j<length s. i \<le> j \<longrightarrow> Q j) \<longleftrightarrow> Q i \<and> (\<forall>j<length s. Suc i \<le> j \<longrightarrow> Q j)" for Q
    using i by (metis Suc_leD Suc_leI le_neq_implies_less order_refl)
  have IH: "slug_loop s (Suc i) (drop (Suc i) s) = None \<longleftrightarrow>
     (\<forall>j<length s. Suc i \<le> j \<longrightarrow> slug_char (s ! j) \<and>
        (s ! j = dash \<longrightarrow> j \<noteq> 0 \<and> j \<noteq> length s - 1 \<and> s ! (j - 1) \<noteq> dash))"
    using Suc by simp
  have step: "slug_loop s i (drop i s) = None \<longleftrightarrow>
     (slug_char (s ! i) \<and> (s ! i = dash \<longrightarrow> i \<noteq> 0 \<and> i \<noteq> length s - 1 \<and> s ! (i - 1) \<noteq> dash)) \<and>
     slug_loop s (Suc i) (drop (Suc i) s) = None"
    unfolding d by (auto simp: slug_char_def)
  show ?case unfolding split [where Q = "\<lambda>j. slug_char (s ! j) \<and>
        (s ! j = dash \<longrightarrow> j \<noteq> 0 \<and> j \<noteq> length s - 1 \<and> s ! (j - 1) \<noteq> dash)"] step IH ..
qed

lemma double_dash_iff:
  "(\<exists>u v. s = u @ [dash, dash] @ v) \<longleftrightarrow> (\<exists>j. 0 < j \<and> j < length s \<and> s ! j = dash \<and> s ! (j - 1) = dash)"
proof
  assume "\<exists>u v. s = u @ [dash, dash] @ v"
  then obtain u v where s: "s = u @ [dash, dash] @ v" by blast
  have "s ! Suc (length u) = dash" "s ! length u = dash" by (simp_all add: s nth_append)
  then show "\<exists>j. 0 < j \<and> j < length s \<and> s ! j = dash \<and> s ! (j - 1) = dash"
    by (intro exI [of _ "Suc (length u)"]) (simp add: s)
next
  assume "\<exists>j. 0 < j \<and> j < length s \<and> s ! j = dash \<and> s ! (j - 1) = dash"
  then obtain j where j: "0 < j" "j < length s" "s ! j = dash" "s ! (j - 1) = dash" by blast
  have "s = take (j - 1) s @ s ! (j - 1) # drop (Suc (j - 1)) s"
    using j by (intro id_take_nth_drop) simp
  also have "drop (Suc (j - 1)) s = s ! j # drop (Suc j) s"
    using j(1,2) by (simp add: Cons_nth_drop_Suc [symmetric])
  finally have "s = take (j - 1) s @ [dash, dash] @ drop (Suc j) s"
    using j by simp
  then show "\<exists>u v. s = u @ [dash, dash] @ v" by blast
qed

lemma validate_slug_iff: "validate_slug s = None \<longleftrightarrow> slug_grammar s"
proof (cases "1 \<le> length s \<and> length s \<le> 64")
  case False
  then show ?thesis
    by (auto simp: validate_slug_def slug_grammar_def minSlugLen_def maxSlugLen_def not_less Suc_le_eq)
next
  case True
  then have ne: "s \<noteq> []" by force
  have "validate_slug s = None \<longleftrightarrow> slug_loop s 0 (drop 0 s) = None"
    using True ne by (simp add: validate_slug_def minSlugLen_def maxSlugLen_def)
  also have "\<dots> \<longleftrightarrow> (\<forall>j<length s. slug_char (s ! j) \<and>
        (s ! j = dash \<longrightarrow> j \<noteq> 0 \<and> j \<noteq> length s - 1 \<and> s ! (j - 1) \<noteq> dash))"
    unfolding slug_loop_None_iff by simp
  also have "\<dots> \<longleftrightarrow> (\<forall>c\<in>set s. slug_char c) \<and> s ! 0 \<noteq> dash \<and> s ! (length s - 1) \<noteq> dash \<and>
        \<not> (\<exists>j. 0 < j \<and> j < length s \<and> s ! j = dash \<and> s ! (j - 1) = dash)"
  proof -
    have l: "length s - Suc 0 < length s" using ne by simp
    show ?thesis
      using ne l by (auto simp: all_set_conv_all_nth dest: spec [of _ "length s - Suc 0"])
        (metis gr0I)
  qed
  also have "\<dots> \<longleftrightarrow> slug_grammar s"
    using True ne unfolding double_dash_iff [symmetric]
    by (auto simp: slug_grammar_def hd_conv_nth last_conv_nth)
  finally show ?thesis .
qed

text \<open>
  ValidateSlug accepts exactly the slugs its documentation describes: 1 to 64
  characters from [a-z0-9-], no dash at either end and no two dashes in a row.
\<close>

theorem validate_slug_grammar: "validate_slug s = None \<longleftrightarrow> slug_grammar s"
  by (rule validate_slug_iff)

lemma slug_char_not_slash: "slug_char c \<Longrightarrow> c \<noteq> slash"
  by (auto simp: slug_char_def slash_def is_lower_def is_digit_def dash_def)

lemma valid_slug_chars: "validate_slug s = None \<Longrightarrow> \<forall>c\<in>set s. slug_char c"
  unfolding validate_slug_def
  using slug_loop_None_iff [of s 0] by (auto simp: in_set_conv_nth split: if_splits)

lemma valid_slug_no_slash: "validate_slug s = None \<Longrightarrow> slash \<notin> set s"
  using valid_slug_chars slug_char_not_slash by blast

subsection \<open>Round trips of the names\<close>

lemma collections_no_slash [simp]:
  "slash \<notin> set collectionProjects" "slash \<notin> set collectionSites" "slash \<notin> set collectionServices"
  by (simp_all add: collectionProjects_def collectionSites_def collectionServices_def slash_def)

lemma split_two_parts:
  "length (split_on c s) = 2 \<Longrightarrow> s = split_on c s ! 0 @ c # split_on c s ! 1"
  using join_split_on [of c s]
  by (auto simp: length_Suc_conv numeral_2_eq_2)

lemma split_four_parts:
  assumes "length (split_on c s) = 4"
  shows "s = split_on c s ! 0 @ c # split_on c s ! 1 @ c # split_on c s ! 2 @ c # split_on c s ! 3"
proof -
  obtain p q r t where "split_on c s = [p, q, r, t]"
    using assms by (auto simp: length_Suc_conv eval_nat_numeral)
  then show ?thesis using join_split_on [of c s] by (simp add: eval_nat_numeral)
qed

lemma split_six_parts:
  assumes "length (split_on c s) = 6"
  shows "s = split_on c s ! 0 @ c # split_on c s ! 1 @ c # split_on c s ! 2 @ c #
    split_on c s ! 3 @ c # split_on c s ! 4 @ c # split_on c s ! 5"
proof -
  obtain p q r t u v where "split_on c s = [p, q, r, t, u, v]"
    using assms by (auto simp: length_Suc_conv eval_nat_numeral)
  then show ?thesis using join_split_on [of c s] by (simp add: eval_nat_numeral)
qed

lemma parse_project_name_iff:
  "parse_project_name n = Inr slug \<longleftrightarrow> validate_slug slug = None \<and> n = format_project_name slug"
proof
  assume "parse_project_name n = Inr slug"
  then show "validate_slug slug = None \<and> n = format_project_name slug"
    using split_two_parts [of slash n]
    by (auto simp: parse_project_name_def Let_def format_project_name_def
        split: if_splits option.splits)
next
  assume "validate_slug slug = None \<and> n = format_project_name slug"
  then show "parse_project_name n = Inr slug"
    using valid_slug_no_slash [of slug]
    by (simp add: parse_project_name_def format_project_name_def split_on_append split_on_no_sep)
qed

lemma parse_site_name_iff:
  "parse_site_name n = Inr sn \<longleftrightarrow>
     validate_slug (sn_project sn) = None \<and> validate_slug (sn_site sn) = None \<and>
     n = format_site_name (sn_project sn) (sn_site sn)"
proof
  assume "parse_site_name n = Inr sn"
  then show "validate_slug (sn_project sn) = None \<and> validate_slug (sn_site sn) = None \<and>
     n = format_site_name (sn_project sn) (sn_site sn)"
    using split_four_parts [of slash n]
    by (auto simp: parse_site_name_def Let_def format_site_name_def
        split: if_splits option.splits)
next
  assume v: "validate_slug (sn_project sn) = None \<and> validate_slug (sn_site sn) = None \<and>
     n = format_site_name (sn_project sn) (sn_site sn)"
  then have "split_on slash n =
      [collectionProjects, sn_project sn, collectionSites, sn_site sn]"
    using valid_slug_no_slash by (simp add: format_site_name_def split_on_append split_on_no_sep)
  with v show "parse_site_name n = Inr sn" by (simp add: parse_site_name_def)
qed

text \<open>
  ParseServiceName and FormatServiceName are inverse: a name parses to a triple exactly
  when it is the formatted name of that triple and its three slugs are valid. So distinct
  services have distinct names, and no other spelling of a name is accepted.
\<close>

theorem parse_service_name_iff:
  "parse_service_name n = Inr vn \<longleftrightarrow>
     slug_grammar (vn_project vn) \<and> slug_grammar (vn_site vn) \<and> slug_grammar (vn_service vn) \<and>
     n = format_service_name (vn_project vn) (vn_site vn) (vn_service vn)"
  unfolding validate_slug_iff [symmetric]
proof
  assume p: "parse_service_name n = Inr vn"
  then have len: "length (split_on slash n) = 6"
    by (auto simp: parse_service_name_def Let_def split: if_splits)
  show "validate_slug (vn_project vn) = None \<and> validate_slug (vn_site vn) = None \<and>
     validate_slug (vn_service vn) = None \<and>
     n = format_service_name (vn_project vn) (vn_site vn) (vn_service vn)"
    using p split_six_parts [OF len] len
    by (simp add: parse_service_name_def Let_def format_service_name_def
        split: if_splits option.splits) auto
next
  assume v: "validate_slug (vn_project vn) = None \<and> validate_slug (vn_site vn) = None \<and>
     validate_slug (vn_service vn) = None \<and>
     n = format_service_name (vn_project vn) (vn_site vn) (vn_service vn)"
  then have "split_on slash n = [collectionProjects, vn_project vn, collectionSites,
      vn_site vn, collectionServices, vn_service vn]"
    using valid_slug_no_slash
    by (simp add: format_service_name_def split_on_append split_on_no_sep)
  with v show "parse_service_name n = Inr vn" by (simp add: parse_service_name_def)
qed

subsection \<open>Port ranges\<close>

lemma parse_port_range_bounds:
  assumes "parse_port_range s = Inr (lo, hi)"
  shows "unat lo < unat hi"
proof -
  have "\<exists>a b. a < b \<and> b < 2 ^ 16 \<and> lo = of_nat a \<and> hi = of_nat b"
    using assms unfolding parse_port_range_def
    by (auto split: if_splits option.splits prod.splits dest!: parse_uint_bound)
      (metis linorder_neqE_nat)
  then obtain a b where ab: "a < b" "b < 2 ^ 16" "lo = of_nat a" "hi = of_nat b" by blast
  then show ?thesis by (simp add: unat_of_nat take_bit_nat_eq_self)
qed

lemma parse_format_range:
  assumes less: "unat lo < unat hi"
  shows "parse_port_range (format_uint (unat lo) @ [dash] @ format_uint (unat hi)) = Inr (lo, hi)"
proof -
  have sp: "split_two dash (format_uint (unat lo) @ dash # format_uint (unat hi)) =
      Some (format_uint (unat lo), format_uint (unat hi))"
    by (rule split_two_append) (rule format_uint_no_sep, simp)
  have tr: "trim_space (format_uint n) = format_uint n" for n
    by (rule trim_space_all_solid) (rule format_uint_solid)
  show ?thesis
    using less port_unat_less [of lo] port_unat_less [of hi]
    by (simp add: parse_port_range_def sp tr parse_format_uint)
qed

text \<open>
  ParsePortRange returns two distinct 16-bit ports in order, so every accepted range holds
  a control port and at least one service port; and any such pair, written as min-max, parses
  back to itself.
\<close>

theorem parse_port_range_correct:
  "(\<forall>lo hi. parse_port_range s = Inr (lo, hi) \<longrightarrow> unat lo < unat hi) \<and>
   (\<forall>lo hi. unat lo < unat hi \<longrightarrow>
      parse_port_range (format_uint (unat lo) @ [dash] @ format_uint (unat hi)) = Inr (lo, hi))"
  using parse_port_range_bounds parse_format_range by blast

text \<open>The range \<open>7000-7010\<close>, as it is written.\<close>

theorem parse_port_range_correct_witness:
  "parse_port_range (format_uint 7000 @ [dash] @ format_uint 7010) = Inr (7000, 7010) \<and>
   unat (7000 :: port) < unat (7010 :: port)"
proof -
  have "parse_port_range (format_uint (unat (7000 :: port)) @ [dash] @ format_uint (unat (7010 :: port))) =
      Inr (7000, 7010)"
    by (rule parse_port_range_correct [THEN conjunct2, rule_format]) simp
  then show ?thesis by simp
qed

end
