(* ===== verification/Example.thy ===== *)
theory Example
  imports Schema Token Resource
begin

section \<open>A small database for the witnesses\<close>

text \<open>
  One database that satisfies the tables' invariant, with an administrator and a plain operator, a
  session of each, one project with one site, one service and one agent token, and one
  service-account token. The witnesses of the properties apply them to it.
\<close>

definition ex_env :: env where
  "ex_env = \<lparr>now = 1000, fault = \<lambda>_. False, rnd = Some (replicate 32 CHR ''r''),
     bcrypt_hash = \<lambda>p. Some (''h'' @ p), bcrypt_ok = \<lambda>h p. h = ''h'' @ p\<rparr>"

definition ex_admin :: operator_row where
  "ex_admin = \<lparr>ID = 1, CreatedAt = 0, DeletedAt = None, UpdatedAt = 0, op_email = ''root'',
     op_password_hash = ''hpw'', op_is_admin = True\<rparr>"

definition ex_user :: operator_row where
  "ex_user = \<lparr>ID = 2, CreatedAt = 0, DeletedAt = None, UpdatedAt = 0, op_email = ''bob'',
     op_password_hash = ''hpw2'', op_is_admin = False\<rparr>"

definition ex_session :: "nat \<Rightarrow> nat \<Rightarrow> string \<Rightarrow> session_row" where
  "ex_session i op h = \<lparr>ID = i, CreatedAt = 0, DeletedAt = None, UpdatedAt = 0, se_operator_id = op,
     se_token_hash = h, se_issued_at = 0, se_expires_at = 5000, se_revoked_at = None,
     se_user_agent = [], se_source_ip = []\<rparr>"

definition ex_project :: project_row where
  "ex_project = \<lparr>ID = 1, CreatedAt = 0, DeletedAt = None, UpdatedAt = 0, pr_slug = ''acme'',
     pr_name = ''Acme'', pr_default_mode = SiteModeEndpoint, pr_backend = BackendRathole,
     pr_relay_port_range = format_uint 7000 @ [dash] @ format_uint 7010,
     pr_status = ProjectStatusActive\<rparr>"

definition ex_site :: site_row where
  "ex_site = \<lparr>ID = 1, CreatedAt = 0, DeletedAt = None, UpdatedAt = 0, si_project_id = 1,
     si_name = ''hq'', si_lan_cidrs = None, si_mode = SiteModeEndpoint, si_backend = BackendRathole,
     si_status = SiteStatusOnline, si_last_seen_at = Some 10, si_hostname = [], si_os = [],
     si_agent_version = []\<rparr>"

definition ex_agent_token :: agent_token_row where
  "ex_agent_token = \<lparr>ID = 1, CreatedAt = 0, DeletedAt = None, UpdatedAt = 0, at_site_id = 1,
     at_token_hash = hash_token ''agent'', at_expires_at = None, at_last_used_at = None\<rparr>"

definition ex_service :: service_row where
  "ex_service = \<lparr>ID = 1, CreatedAt = 0, DeletedAt = None, UpdatedAt = 0, sv_site_id = 1,
     sv_name = ''ssh'', sv_target_addr = ''10.0.0.5'', sv_target_port = 22, sv_proto = ProtoTCP,
     sv_relay_port = Some 7001\<rparr>"

definition ex_sa_token :: sa_token_row where
  "ex_sa_token = \<lparr>ID = 1, CreatedAt = 0, DeletedAt = None, sa_operator_id = 1,
     sa_token_hash = ''sa'', sa_description = [], sa_expires_at = None, sa_last_used_at = None,
     sa_revoked_at = None\<rparr>"

definition ex_db :: db where
  "ex_db = \<lparr>t_operators = \<lparr>rows = [ex_admin, ex_user], seq = 2\<rparr>,
     t_sessions = \<lparr>rows = [ex_session 1 1 (hash_token ''admin''), ex_session 2 2 ''other''], seq = 2\<rparr>,
     t_projects = \<lparr>rows = [ex_project], seq = 1\<rparr>,
     t_accesses = \<lparr>rows = [], seq = 0\<rparr>,
     t_sites = \<lparr>rows = [ex_site], seq = 1\<rparr>,
     t_agent_tokens = \<lparr>rows = [ex_agent_token], seq = 1\<rparr>,
     t_services = \<lparr>rows = [ex_service], seq = 1\<rparr>,
     t_audit_logs = \<lparr>rows = [], seq = 0\<rparr>,
     t_sa_tokens = \<lparr>rows = [ex_sa_token], seq = 1\<rparr>\<rparr>"

lemmas ex_rows = ex_admin_def ex_user_def ex_session_def ex_project_def ex_site_def
  ex_agent_token_def ex_service_def ex_sa_token_def

lemma ex_env_simps [simp]:
  "now ex_env = 1000" "fault ex_env s = False" "rnd ex_env = Some (replicate 32 CHR ''r'')"
  "bcrypt_hash ex_env p = Some (''h'' @ p)" "bcrypt_ok ex_env h p = (h = ''h'' @ p)"
  by (simp_all add: ex_env_def)

lemma ex_tables [simp]:
  "rows (t_operators ex_db) = [ex_admin, ex_user]"
  "rows (t_sessions ex_db) = [ex_session 1 1 (hash_token ''admin''), ex_session 2 2 ''other'']"
  "rows (t_projects ex_db) = [ex_project]" "rows (t_accesses ex_db) = []"
  "rows (t_sites ex_db) = [ex_site]" "rows (t_agent_tokens ex_db) = [ex_agent_token]"
  "rows (t_services ex_db) = [ex_service]" "rows (t_audit_logs ex_db) = []"
  "rows (t_sa_tokens ex_db) = [ex_sa_token]"
  "seq (t_operators ex_db) = 2" "seq (t_sessions ex_db) = 2" "seq (t_projects ex_db) = 1"
  "seq (t_accesses ex_db) = 0" "seq (t_sites ex_db) = 1" "seq (t_agent_tokens ex_db) = 1"
  "seq (t_services ex_db) = 1" "seq (t_audit_logs ex_db) = 0" "seq (t_sa_tokens ex_db) = 1"
  by (simp_all add: ex_db_def)

lemma ex_fields [simp]:
  "ID ex_admin = 1" "live ex_admin" "op_email ex_admin = ''root''" "op_is_admin ex_admin"
  "op_password_hash ex_admin = ''hpw''"
  "ID ex_user = 2" "live ex_user" "op_email ex_user = ''bob''" "\<not> op_is_admin ex_user"
  "ID ex_project = 1" "live ex_project" "pr_slug ex_project = ''acme''"
  "pr_status ex_project = ProjectStatusActive"
  "ID ex_site = 1" "live ex_site" "si_project_id ex_site = 1" "si_name ex_site = ''hq''"
  "si_status ex_site = SiteStatusOnline" "si_last_seen_at ex_site = Some 10"
  "ID ex_agent_token = 1" "live ex_agent_token" "at_site_id ex_agent_token = 1"
  "at_token_hash ex_agent_token = hash_token ''agent''" "at_expires_at ex_agent_token = None"
  "ID ex_service = 1" "live ex_service" "sv_site_id ex_service = 1" "sv_name ex_service = ''ssh''"
  "sv_relay_port ex_service = Some 7001" "sv_target_port ex_service = 22"
  "sv_target_addr ex_service = ''10.0.0.5''" "sv_proto ex_service = ProtoTCP"
  "ID ex_sa_token = 1" "live ex_sa_token" "sa_operator_id ex_sa_token = 1"
  "sa_token_hash ex_sa_token = ''sa''"
  by (simp_all add: ex_rows live_def)

lemma ex_session_fields [simp]:
  "ID (ex_session i op h) = i" "live (ex_session i op h)" "se_operator_id (ex_session i op h) = op"
  "se_token_hash (ex_session i op h) = h" "se_expires_at (ex_session i op h) = 5000"
  "se_revoked_at (ex_session i op h) = None"
  by (simp_all add: ex_session_def live_def)

lemma ex_range [simp]: "parse_port_range (pr_relay_port_range ex_project) = Inr (7000, 7010)"
  using parse_format_range [of 7000 7010] by (simp add: ex_project_def)

lemma ex_db_wf: "hash_token ''admin'' \<noteq> ''other'' \<Longrightarrow> db_wf ex_db"
  by (simp add: db_wf_def tbl_wf_def uniq_live_def)

lemma hash_token_length: "length (hash_token raw) = 64"
proof -
  have b: "length (be_bytes k n) = k" for k n by (induction k n rule: be_bytes.induct) auto
  have h: "length (hex_encode bs) = 2 * length bs" for bs
    unfolding hex_encode_def by (induction bs) auto
  show ?thesis
    by (simp add: hash_token_def h sha256_def Let_def b split: prod.splits)
qed

lemma ex_wf: "db_wf ex_db"
proof (rule ex_db_wf)
  show "hash_token ''admin'' \<noteq> ''other''" using hash_token_length [of "''admin''"] by auto
qed


end
