(* ===== verification/Auth.thy ===== *)
theory Auth
  imports Credentials DaoAudit Example
begin

section \<open>The interceptors (internal/auth, and the chain of internal/server)\<close>

text \<open>
  The server's state is a \<open>world\<close>: the database and the state of the relay manager (a type
  parameter, so that the services are checked for every manager). An interceptor is a function
  that takes the rest of the chain as its \<open>handler\<close>, as in gRPC.
\<close>

record 'r world =
  wdb :: db
  wrelay :: 'r

type_synonym ('r, 'a) handler = "ctx \<Rightarrow> 'r world \<Rightarrow> 'a rpc \<times> 'r world"

subsection \<open>The operator interceptor (interceptor.go)\<close>

definition WithOperator :: "operator_row \<Rightarrow> ctx \<Rightarrow> ctx" where
  "WithOperator op cx = cx\<lparr>cx_operator := Some op\<rparr>"

definition WithRawToken :: "string \<Rightarrow> ctx \<Rightarrow> ctx" where
  "WithRawToken raw cx = cx\<lparr>cx_raw_token := raw\<rparr>"

definition bearer_prefix :: string where "bearer_prefix = ''Bearer ''"

definition extract_bearer :: "ctx \<Rightarrow> string" where
  "extract_bearer cx =
     (case cx_md cx of
        None \<Rightarrow> []
      | Some md \<Rightarrow>
          (case md_authorization md of
             [] \<Rightarrow> []
           | v # _ \<Rightarrow>
               if \<not> has_prefix bearer_prefix v then []
               else trim_space (drop (length bearer_prefix) v)))"

text \<open>The interfaces Validator, SATokenValidator and OperatorLoader; the last two may be nil.\<close>

record validators =
  v_session :: "env \<Rightarrow> string \<Rightarrow> db \<Rightarrow> dao_error + operator_row"
  v_sa :: "(env \<Rightarrow> string \<Rightarrow> db \<Rightarrow> (dao_error + nat) \<times> db) option"
  v_operators :: "(env \<Rightarrow> nat \<Rightarrow> db \<Rightarrow> dao_error + operator_row) option"

definition agent_service_prefix :: string where
  "agent_service_prefix = ''/quicktun.v1.AgentService/''"

definition unary_interceptor ::
  "validators \<Rightarrow> string list \<Rightarrow> env \<Rightarrow> string \<Rightarrow> ('r, 'a) handler \<Rightarrow> ('r, 'a) handler" where
  "unary_interceptor v unauth e full_method handler cx w =
     (if full_method \<in> set unauth then handler cx w
      else if has_prefix agent_service_prefix full_method then handler cx w
      else
        (let token = extract_bearer cx in
         if token = [] then (Inl (Status Unauthenticated ''missing bearer token''), w)
         else
           (case v_session v e token (wdb w) of
              Inr op \<Rightarrow> handler (WithRawToken token (WithOperator op cx)) w
            | Inl sessErr \<Rightarrow>
                (case (v_sa v, v_operators v) of
                   (Some sa, Some ops) \<Rightarrow>
                     (case sa e token (wdb w) of
                        (Inr opID, d) \<Rightarrow>
                          (case ops e opID d of
                             Inl lerr \<Rightarrow>
                               (if is_not_found lerr
                                then (Inl (Status Unauthenticated ''invalid or expired token''),
                                      w\<lparr>wdb := d\<rparr>)
                                else (Inl (Status Internal ''internal error''), w\<lparr>wdb := d\<rparr>))
                           | Inr op \<Rightarrow>
                               handler (WithRawToken token (WithOperator op cx)) (w\<lparr>wdb := d\<rparr>))
                      | (Inl saErr, d) \<Rightarrow>
                          (Inl (Status Unauthenticated ''invalid or expired token''), w\<lparr>wdb := d\<rparr>))
                 | _ \<Rightarrow> (Inl (Status Unauthenticated ''invalid or expired token''), w)))))"

subsection \<open>The agent interceptor (agent_interceptor.go)\<close>

definition touch_agent_used :: "env \<Rightarrow> nat \<Rightarrow> db \<Rightarrow> db" where
  "touch_agent_used e i d =
     (if fault e ''agent auth: last_used_at update failed'' then d
      else d\<lparr>t_agent_tokens := update_live (\<lambda>r. ID r = i)
               (\<lambda>r. (touch (now e) r)\<lparr>at_last_used_at := Some (now e)\<rparr>) (t_agent_tokens d)\<rparr>)"

definition agent_interceptor :: "env \<Rightarrow> string \<Rightarrow> ('r, 'a) handler \<Rightarrow> ('r, 'a) handler" where
  "agent_interceptor e full_method handler cx w =
     (if \<not> has_prefix agent_service_prefix full_method then handler cx w
      else
        (let raw = extract_bearer cx in
         if raw = [] then (Inl (Status Unauthenticated ''missing bearer token''), w)
         else if fault e ''agent auth: token lookup failed''
         then (Inl (Status Internal ''internal error''), w)
         else
           (case first_live (\<lambda>r. at_token_hash r = hash_token raw \<and> not_expired (now e) (at_expires_at r))
                   (t_agent_tokens (wdb w)) of
              None \<Rightarrow> (Inl (Status Unauthenticated ''invalid or expired token''), w)
            | Some tok \<Rightarrow>
                if fault e ''agent auth: site lookup failed''
                then (Inl (Status Internal ''internal error''), w)
                else
                  (case first_live (\<lambda>s. ID s = at_site_id tok) (t_sites (wdb w)) of
                     None \<Rightarrow> (Inl (Status Unauthenticated ''invalid or expired token''), w)
                   | Some site \<Rightarrow>
                       handler
                         (cx\<lparr>cx_agent := Some \<lparr>ap_site_id = ID site, ap_project_id = si_project_id site\<rparr>\<rparr>)
                         (w\<lparr>wdb := touch_agent_used e (ID tok) (wdb w)\<rparr>)))))"

subsection \<open>The chain (server.go)\<close>

fun upto_comma :: "string \<Rightarrow> string" where
  "upto_comma [] = []"
| "upto_comma (c # s) = (if c = CHR '','' then [] else c # upto_comma s)"

definition extract_source_ip :: "string option \<Rightarrow> ctx \<Rightarrow> string" where
  "extract_source_ip peer cx =
     (let from_peer = (case peer of Some a \<Rightarrow> a | None \<Rightarrow> []) in
      case cx_md cx of
        None \<Rightarrow> from_peer
      | Some md \<Rightarrow>
          (case md_x_forwarded_for md of
             [] \<Rightarrow> from_peer
           | v # _ \<Rightarrow> if v \<noteq> [] then trim_space (upto_comma v) else from_peer))"

definition source_ip_interceptor :: "string option \<Rightarrow> ('r, 'a) handler \<Rightarrow> ('r, 'a) handler" where
  "source_ip_interceptor peer handler cx w =
     handler (cx\<lparr>cx_source_ip := extract_source_ip peer cx\<rparr>) w"

definition server_validators :: validators where
  "server_validators = \<lparr>v_session = session_validate, v_sa = Some sa_token_validate_raw,
     v_operators = Some operator_find_by_id\<rparr>"

definition login_method :: string where "login_method = ''/quicktun.v1.AuthService/Login''"

definition server_chain ::
  "string option \<Rightarrow> env \<Rightarrow> string \<Rightarrow> ('r, 'a) handler \<Rightarrow> ('r, 'a) handler" where
  "server_chain peer e full_method handler =
     source_ip_interceptor peer
       (unary_interceptor server_validators [login_method] e full_method
         (agent_interceptor e full_method handler))"

text \<open>A request as it comes off the wire: no principal, only metadata.\<close>

definition raw_ctx :: "metadata option \<Rightarrow> ctx" where
  "raw_ctx md = \<lparr>cx_operator = None, cx_raw_token = [], cx_agent = None, cx_source_ip = [], cx_md = md\<rparr>"

subsection \<open>The validators' contract\<close>

text \<open>
  \<open>token_authority\<close>: what the operator interceptor needs of its three interfaces, with
  \<open>good t raw d op\<close> for ``\<open>raw\<close> is a credential of \<open>op\<close> at time \<open>t\<close>'' and \<open>frame\<close> for what a validation may
  change. Its lemma is the soundness of the interceptor for any validators.
\<close>

locale token_authority =
  fixes v :: validators
    and good :: "time \<Rightarrow> string \<Rightarrow> db \<Rightarrow> operator_row \<Rightarrow> bool"
    and frame :: "env \<Rightarrow> db \<Rightarrow> db \<Rightarrow> bool"
  assumes frame_refl: "frame e d d"
    and session_good: "v_session v e raw d = Inr op \<Longrightarrow> good (now e) raw d op"
    and sa_frame: "v_sa v = Some sa \<Longrightarrow> sa e raw d = (r, d') \<Longrightarrow> frame e d d'"
    and sa_good: "v_sa v = Some sa \<Longrightarrow> v_operators v = Some ops \<Longrightarrow> sa e raw d = (Inr i, d') \<Longrightarrow>
      ops e i d' = Inr op \<Longrightarrow> good (now e) raw d op"
begin

lemma admitted_only_with_credential:
  assumes "m \<notin> set unauth" "\<not> has_prefix agent_service_prefix m"
    and res: "unary_interceptor v unauth e m handler cx w = (r, w')"
  shows "(\<exists>op d'. extract_bearer cx \<noteq> [] \<and> good (now e) (extract_bearer cx) (wdb w) op \<and>
        frame e (wdb w) d' \<and>
        (r, w') = handler (WithRawToken (extract_bearer cx) (WithOperator op cx)) (w\<lparr>wdb := d'\<rparr>)) \<or>
     ((\<exists>c m. r = Inl (Status c m) \<and> c \<in> {Unauthenticated, Internal}) \<and>
        frame e (wdb w) (wdb w') \<and> wrelay w' = wrelay w)"
proof (cases "extract_bearer cx = []")
  case True
  then show ?thesis using assms frame_refl by (auto simp: unary_interceptor_def Let_def)
next
  case False
  show ?thesis
  proof (cases "v_session v e (extract_bearer cx) (wdb w)")
    case (Inr op)
    then have "(r, w') = handler (WithRawToken (extract_bearer cx) (WithOperator op cx)) (w\<lparr>wdb := wdb w\<rparr>)"
      using assms False by (simp add: unary_interceptor_def)
    then show ?thesis using False session_good [OF Inr] frame_refl by blast
  next
    case (Inl x)
    show ?thesis
    proof (cases "\<exists>sa ops. v_sa v = Some sa \<and> v_operators v = Some ops")
      case no: False
      have "(r, w') = (Inl (Status Unauthenticated ''invalid or expired token''), w)"
        using assms False Inl no
        by (cases "v_sa v"; cases "v_operators v") (simp_all add: unary_interceptor_def)
      then show ?thesis using frame_refl by blast
    next
      case True
      then obtain sa ops where sa: "v_sa v = Some sa" "v_operators v = Some ops" by blast
      obtain q d' where q: "sa e (extract_bearer cx) (wdb w) = (q, d')" by (cases "sa e (extract_bearer cx) (wdb w)")
      note fr = sa_frame [OF sa(1) q]
      show ?thesis
      proof (cases "\<exists>i op. q = Inr i \<and> ops e i d' = Inr op")
        case True
        then obtain i op where i: "q = Inr i" "ops e i d' = Inr op" by blast
        have "good (now e) (extract_bearer cx) (wdb w) op"
          using sa_good [OF sa q [unfolded i(1)] i(2)] .
        moreover have "(r, w') = handler (WithRawToken (extract_bearer cx) (WithOperator op cx)) (w\<lparr>wdb := d'\<rparr>)"
          using assms False Inl sa q i by (simp add: unary_interceptor_def)
        ultimately show ?thesis using False fr by blast
      next
        case no: False
        have "w' = w\<lparr>wdb := d'\<rparr> \<and> (\<exists>c m. r = Inl (Status c m) \<and> c \<in> {Unauthenticated, Internal})"
        proof (cases q)
          case (Inl y)
          then show ?thesis
            using assms False \<open>v_session v e _ _ = _\<close> sa q by (auto simp: unary_interceptor_def)
        next
          case (Inr i)
          then obtain y where "ops e i d' = Inl y" using no by (cases "ops e i d'") auto
          then show ?thesis
            using assms False \<open>v_session v e _ _ = _\<close> sa q Inr
            by (auto simp: unary_interceptor_def split: if_splits)
        qed
        then show ?thesis using fr by auto
      qed
    qed
  qed
qed

end

text \<open>What a bearer token proves in this database: a live session or SA token of a live operator.\<close>

definition bearer_of :: "time \<Rightarrow> string \<Rightarrow> db \<Rightarrow> operator_row \<Rightarrow> bool" where
  "bearer_of t raw d op =
     (op \<in> set (rows (t_operators d)) \<and> live op \<and>
      (session_owner t raw d = Some (ID op) \<or> sa_owner t raw d = Some (ID op)))"

definition sa_touched :: "env \<Rightarrow> db \<Rightarrow> db \<Rightarrow> bool" where
  "sa_touched e d d' = (d' = d \<or> (\<exists>i. d' = touch_sa_token e i d))"

lemma sa_touched_frame:
  assumes "sa_touched e d d'"
  shows "t_operators d' = t_operators d" "t_sessions d' = t_sessions d"
    "t_projects d' = t_projects d" "t_accesses d' = t_accesses d" "t_sites d' = t_sites d"
    "t_services d' = t_services d" "t_audit_logs d' = t_audit_logs d"
    "t_agent_tokens d' = t_agent_tokens d"
  using assms by (auto simp: sa_touched_def frame_simps)

lemma session_validate_owner:
  assumes "session_validate e raw d = Inr op"
  shows "bearer_of (now e) raw d op"
proof -
  obtain s where "first_live (session_active (now e) raw) (t_sessions d) = Some s"
    "first_live (\<lambda>x. ID x = se_operator_id s) (t_operators d) = Some op"
    using assms by (auto simp: session_validate_def split: if_splits option.splits)
  then show ?thesis
    using first_live_Some [of "\<lambda>x. ID x = se_operator_id s" "t_operators d" op]
    by (simp add: bearer_of_def session_owner_def)
qed

lemma sa_validate_owner:
  "sa_token_validate_raw e raw d = (Inr i, d') \<Longrightarrow> sa_owner (now e) raw d = Some i \<and> sa_touched e d d'"
  by (auto simp: sa_token_validate_raw_def sa_owner_def sa_touched_def split: if_splits option.splits)

interpretation server_auth: token_authority server_validators bearer_of sa_touched
proof
  fix e d show "sa_touched e d d" by (simp add: sa_touched_def)
next
  fix e raw d op
  assume "v_session server_validators e raw d = Inr op"
  then show "bearer_of (now e) raw d op"
    using session_validate_owner by (simp add: server_validators_def)
next
  fix sa e raw d r d'
  assume "v_sa server_validators = Some sa" "sa e raw d = (r, d')"
  then show "sa_touched e d d'"
    by (auto simp: server_validators_def sa_token_validate_raw_def sa_touched_def
        split: if_splits option.splits)
next
  fix sa ops e raw d i d' op
  assume "v_sa server_validators = Some sa" "v_operators server_validators = Some ops"
    and "sa e raw d = (Inr i, d')" "ops e i d' = Inr op"
  then have a: "sa_token_validate_raw e raw d = (Inr i, d')" "operator_find_by_id e i d' = Inr op"
    by (simp_all add: server_validators_def)
  then show "bearer_of (now e) raw d op"
    using sa_validate_owner [OF a(1)] operator_find_by_id_Inr [OF a(2)] sa_touched_frame
    by (auto simp: bearer_of_def)
qed

subsection \<open>Who gets through the chain\<close>

lemma login_not_agent: "\<not> has_prefix agent_service_prefix login_method"
  by (simp add: has_prefix_def agent_service_prefix_def login_method_def)

lemma extract_bearer_source_ip [simp]: "extract_bearer (cx\<lparr>cx_source_ip := ip\<rparr>) = extract_bearer cx"
  by (simp add: extract_bearer_def)

text \<open>The context a handler of an operator RPC sees.\<close>

definition operator_ctx :: "string option \<Rightarrow> operator_row \<Rightarrow> ctx \<Rightarrow> ctx" where
  "operator_ctx peer op cx =
     cx\<lparr>cx_source_ip := extract_source_ip peer cx, cx_operator := Some op,
        cx_raw_token := extract_bearer cx\<rparr>"

text \<open>The context a handler of an agent RPC sees.\<close>

definition agent_ctx :: "string option \<Rightarrow> site_row \<Rightarrow> ctx \<Rightarrow> ctx" where
  "agent_ctx peer site cx =
     cx\<lparr>cx_source_ip := extract_source_ip peer cx,
        cx_agent := Some \<lparr>ap_site_id = ID site, ap_project_id = si_project_id site\<rparr>\<rparr>"

lemma server_chain_operator:
  assumes "\<not> has_prefix agent_service_prefix m"
  shows "server_chain peer e m handler cx w =
     unary_interceptor server_validators [login_method] e m handler
       (cx\<lparr>cx_source_ip := extract_source_ip peer cx\<rparr>) w"
proof -
  have "agent_interceptor e m handler = handler"
    using assms by (simp add: fun_eq_iff agent_interceptor_def)
  then show ?thesis by (simp add: server_chain_def source_ip_interceptor_def)
qed

lemma server_chain_agent:
  assumes "has_prefix agent_service_prefix m"
  shows "server_chain peer e m handler cx w =
     agent_interceptor e m handler (cx\<lparr>cx_source_ip := extract_source_ip peer cx\<rparr>) w"
  using assms login_not_agent
  by (auto simp: server_chain_def source_ip_interceptor_def unary_interceptor_def)

lemma server_chain_operator_cases:
  assumes "m \<noteq> login_method" and "\<not> has_prefix agent_service_prefix m"
    and "server_chain peer e m handler cx w = (r, w')"
  shows "(\<exists>op d'. extract_bearer cx \<noteq> [] \<and> bearer_of (now e) (extract_bearer cx) (wdb w) op \<and>
        sa_touched e (wdb w) d' \<and> (r, w') = handler (operator_ctx peer op cx) (w\<lparr>wdb := d'\<rparr>)) \<or>
     ((\<exists>c msg. r = Inl (Status c msg) \<and> c \<in> {Unauthenticated, Internal}) \<and>
        sa_touched e (wdb w) (wdb w') \<and> wrelay w' = wrelay w)"
proof -
  have "unary_interceptor server_validators [login_method] e m handler
      (cx\<lparr>cx_source_ip := extract_source_ip peer cx\<rparr>) w = (r, w')"
    using assms(3) unfolding server_chain_operator [OF assms(2)] .
  from server_auth.admitted_only_with_credential [OF _ assms(2) this] assms(1) show ?thesis
    by (simp add: operator_ctx_def WithRawToken_def WithOperator_def)
qed

text \<open>
  C5. An operator RPC other than Login reaches its handler only with a bearer token that is a live
  session or service-account token of a live operator, with that operator as the principal and
  the database unchanged but for a token's last-used time; in every other case the caller gets
  Unauthenticated or Internal and the handler does not run.
\<close>
theorem operator_rpc_needs_bearer:
  assumes "m \<noteq> login_method" and "\<not> has_prefix agent_service_prefix m"
    and "server_chain peer e m handler cx w = (r, w')"
  shows "(\<exists>op d'. extract_bearer cx \<noteq> [] \<and> bearer_of (now e) (extract_bearer cx) (wdb w) op \<and>
        sa_touched e (wdb w) d' \<and> (r, w') = handler (operator_ctx peer op cx) (w\<lparr>wdb := d'\<rparr>)) \<or>
     ((\<exists>c msg. r = Inl (Status c msg) \<and> c \<in> {Unauthenticated, Internal}) \<and>
        sa_touched e (wdb w) (wdb w') \<and> wrelay w' = wrelay w)"
  by (rule server_chain_operator_cases [OF assms])

theorem operator_rpc_needs_bearer_witness:
  "fst (server_chain None \<lparr>now = 0, fault = \<lambda>_. False, rnd = None, bcrypt_hash = \<lambda>_. None,
       bcrypt_ok = \<lambda>_ _. False\<rparr> ''/quicktun.v1.ProjectService/GetProject''
       (\<lambda>cx w. (Inr (), w)) (raw_ctx None) \<lparr>wdb = db_empty, wrelay = ()\<rparr>)
     \<noteq> Inr ()"
  (is "fst (server_chain None ?e ?m ?h ?cx ?w) \<noteq> _")
proof
  assume a: "fst (server_chain None ?e ?m ?h ?cx ?w) = Inr ()"
  obtain r w' where rw: "server_chain None ?e ?m ?h ?cx ?w = (r, w')" by (cases "server_chain None ?e ?m ?h ?cx ?w")
  have m: "?m \<noteq> login_method" "\<not> has_prefix agent_service_prefix ?m"
    by (simp_all add: login_method_def has_prefix_def agent_service_prefix_def)
  show False
    using operator_rpc_needs_bearer [OF m rw] a rw by (auto simp: extract_bearer_def raw_ctx_def)
qed

text \<open>
  The converse: with a healthy database, a bearer token that is a live credential of some
  operator always gets through, with an operator it is a credential of as the principal.
\<close>
theorem operator_rpc_admits_bearer:
  assumes "db_wf (wdb w)" and "\<not> has_prefix agent_service_prefix m" and "m \<noteq> login_method"
    and "\<forall>s. \<not> fault e s" and "extract_bearer cx \<noteq> []"
    and "bearer_of (now e) (extract_bearer cx) (wdb w) op"
  shows "\<exists>op' d'. bearer_of (now e) (extract_bearer cx) (wdb w) op' \<and> sa_touched e (wdb w) d' \<and>
    server_chain peer e m handler cx w = handler (operator_ctx peer op' cx) (w\<lparr>wdb := d'\<rparr>)"
proof -
  let ?raw = "extract_bearer cx" and ?d = "wdb w"
  let ?cx = "cx\<lparr>cx_source_ip := extract_source_ip peer cx\<rparr>"
  have op: "op \<in> set (rows (t_operators ?d))" "live op"
    using assms(6) by (simp_all add: bearer_of_def)
  note find = first_live_ID [OF db_wfD(1) [OF assms(1)] op]
  have call: "server_chain peer e m handler cx w =
      unary_interceptor server_validators [login_method] e m handler ?cx w"
    by (rule server_chain_operator [OF assms(2)])
  show ?thesis
  proof (cases "session_validate e ?raw ?d")
    case (Inr op')
    then have "server_chain peer e m handler cx w = handler (operator_ctx peer op' cx) (w\<lparr>wdb := ?d\<rparr>)"
      unfolding call using assms(2,3,5)
      by (simp add: unary_interceptor_def server_validators_def operator_ctx_def WithRawToken_def
          WithOperator_def)
    then show ?thesis using session_validate_owner [OF Inr] by (metis sa_touched_def)
  next
    case (Inl x)
    have "session_owner (now e) ?raw ?d \<noteq> Some (ID op)"
      using Inl assms(4) find by (auto simp: session_validate_def session_owner_def split: option.splits)
    then have so: "sa_owner (now e) ?raw ?d = Some (ID op)"
      using assms(6) by (simp add: bearer_of_def)
    then obtain d' where d': "sa_token_validate_raw e ?raw ?d = (Inr (ID op), d')"
      using assms(4) by (auto simp: sa_token_validate_raw_def sa_owner_def)
    then have t: "sa_touched e ?d d'" using sa_validate_owner by blast
    have "operator_find_by_id e (ID op) d' = Inr op"
      using assms(4) find sa_touched_frame(1) [OF t] by (simp add: operator_find_by_id_def)
    then have "server_chain peer e m handler cx w = handler (operator_ctx peer op cx) (w\<lparr>wdb := d'\<rparr>)"
      unfolding call using assms(2,3,5) Inl d'
      by (simp add: unary_interceptor_def server_validators_def operator_ctx_def WithRawToken_def
          WithOperator_def)
    then show ?thesis using assms(6) t by blast
  qed
qed

lemma server_chain_agent_cases:
  assumes "has_prefix agent_service_prefix m"
    and "server_chain peer e m handler cx w = (r, w')"
  shows "(\<exists>site i. site \<in> set (rows (t_sites (wdb w))) \<and> live site \<and>
        agent_owner (now e) (extract_bearer cx) (wdb w) = Some (ID site) \<and>
        (r, w') = handler (agent_ctx peer site cx) (w\<lparr>wdb := touch_agent_used e i (wdb w)\<rparr>)) \<or>
     ((\<exists>c msg. r = Inl (Status c msg) \<and> c \<in> {Unauthenticated, Internal}) \<and> w' = w)"
proof -
  let ?P = "\<lambda>r. at_token_hash r = hash_token (extract_bearer cx) \<and> not_expired (now e) (at_expires_at r)"
  let ?cx = "cx\<lparr>cx_source_ip := extract_source_ip peer cx\<rparr>"
  have run: "agent_interceptor e m handler ?cx w = (r, w')"
    using assms(2) unfolding server_chain_agent [OF assms(1)] .
  show ?thesis
  proof (cases "\<exists>tok site. first_live ?P (t_agent_tokens (wdb w)) = Some tok \<and>
      first_live (\<lambda>s. ID s = at_site_id tok) (t_sites (wdb w)) = Some site \<and>
      extract_bearer cx \<noteq> [] \<and> \<not> fault e ''agent auth: token lookup failed'' \<and>
      \<not> fault e ''agent auth: site lookup failed''")
    case True
    then obtain tok site where tok: "first_live ?P (t_agent_tokens (wdb w)) = Some tok"
      and site: "first_live (\<lambda>s. ID s = at_site_id tok) (t_sites (wdb w)) = Some site"
      and no: "extract_bearer cx \<noteq> []" "\<not> fault e ''agent auth: token lookup failed''"
        "\<not> fault e ''agent auth: site lookup failed''"
      by blast
    have "(r, w') = handler (agent_ctx peer site cx) (w\<lparr>wdb := touch_agent_used e (ID tok) (wdb w)\<rparr>)"
      using run assms(1) tok site no by (simp add: agent_interceptor_def agent_ctx_def)
    moreover have "agent_owner (now e) (extract_bearer cx) (wdb w) = Some (at_site_id tok)"
      using tok by (simp add: agent_owner_def agent_token_lookup_def)
    ultimately show ?thesis using first_live_Some [OF site] by metis
  next
    case False
    then have "w' = w \<and> (\<exists>c msg. r = Inl (Status c msg) \<and> c \<in> {Unauthenticated, Internal})"
      using run assms(1)
      by (cases "first_live ?P (t_agent_tokens (wdb w))")
        (auto simp: agent_interceptor_def Let_def split: if_splits option.splits)
    then show ?thesis by blast
  qed
qed

text \<open>
  C6. An agent RPC reaches its handler only with a live, unexpired agent token of a live site, and
  with exactly that site and its project as the principal; otherwise the caller gets
  Unauthenticated or Internal and nothing changes.
\<close>
theorem agent_rpc_needs_token:
  assumes "has_prefix agent_service_prefix m"
    and "server_chain peer e m handler cx w = (r, w')"
  shows "(\<exists>site i. site \<in> set (rows (t_sites (wdb w))) \<and> live site \<and>
        agent_owner (now e) (extract_bearer cx) (wdb w) = Some (ID site) \<and>
        (r, w') = handler (agent_ctx peer site cx) (w\<lparr>wdb := touch_agent_used e i (wdb w)\<rparr>)) \<or>
     ((\<exists>c msg. r = Inl (Status c msg) \<and> c \<in> {Unauthenticated, Internal}) \<and> w' = w)"
  by (rule server_chain_agent_cases [OF assms])

subsection \<open>Example requests\<close>

definition ex_world :: "unit world" where
  "ex_world = \<lparr>wdb = ex_db, wrelay = ()\<rparr>"

definition ex_md :: "string \<Rightarrow> metadata" where
  "ex_md tok = \<lparr>md_authorization = [bearer_prefix @ tok], md_user_agent = [], md_x_forwarded_for = []\<rparr>"

lemma ex_bearer: "tok \<noteq> [] \<Longrightarrow> list_all solid tok \<Longrightarrow> extract_bearer (raw_ctx (Some (ex_md tok))) = tok"
  by (simp add: extract_bearer_def raw_ctx_def ex_md_def trim_space_all_solid)

lemma ex_world_simps [simp]: "wdb ex_world = ex_db" "wrelay ex_world = ()"
  by (simp_all add: ex_world_def)

lemma ex_session_owner: "t < 5000 \<Longrightarrow> session_owner t ''admin'' ex_db = Some 1"
  by (simp add: session_owner_def first_live_def session_active_def)

lemma ex_agent_owner: "agent_owner t ''agent'' ex_db = Some 1"
  by (simp add: agent_owner_def agent_token_lookup_def first_live_def not_expired_def)

lemma ex_solid: "list_all solid ''admin''" "list_all solid ''agent''"
  by code_simp+

theorem operator_rpc_admits_bearer_witness:
  "\<exists>op. bearer_of 1000 ''admin'' ex_db op \<and>
     fst (server_chain None ex_env ''/quicktun.v1.ProjectService/GetProject''
       (\<lambda>cx w. (Inr (cx_operator cx), w)) (raw_ctx (Some (ex_md ''admin''))) ex_world) = Inr (Some op)"
proof -
  let ?m = "''/quicktun.v1.ProjectService/GetProject''" and ?cx = "raw_ctx (Some (ex_md ''admin''))"
  let ?h = "\<lambda>cx w. (Inr (cx_operator cx) :: operator_row option rpc, w :: unit world)"
  have m: "\<not> has_prefix agent_service_prefix ?m" "?m \<noteq> login_method"
    by (simp_all add: login_method_def has_prefix_def agent_service_prefix_def)
  have b: "extract_bearer ?cx = ''admin''" by (rule ex_bearer) (simp, rule ex_solid)
  have w: "db_wf (wdb ex_world)" "\<forall>s. \<not> fault ex_env s" "extract_bearer ?cx \<noteq> []"
    by (simp_all add: ex_wf b)
  have "bearer_of (now ex_env) (extract_bearer ?cx) (wdb ex_world) ex_admin"
    by (simp add: b bearer_of_def ex_session_owner)
  from operator_rpc_admits_bearer [OF w(1) m w(2,3) this, of None ?h] show ?thesis
    by (auto simp: b operator_ctx_def)
qed

theorem agent_rpc_needs_token_witness:
  "fst (server_chain None ex_env ''/quicktun.v1.AgentService/Heartbeat''
       (\<lambda>cx w. (Inr (cx_agent cx), w)) (raw_ctx (Some (ex_md ''agent''))) ex_world)
     \<noteq> Inr None"
proof
  let ?m = "''/quicktun.v1.AgentService/Heartbeat''" and ?cx = "raw_ctx (Some (ex_md ''agent''))"
  let ?h = "\<lambda>cx w. (Inr (cx_agent cx) :: agent_principal option rpc, w :: unit world)"
  have m: "has_prefix agent_service_prefix ?m"
    by (simp add: has_prefix_def agent_service_prefix_def)
  obtain r w' where run: "server_chain None ex_env ?m ?h ?cx ex_world = (r, w')"
    by (cases "server_chain None ex_env ?m ?h ?cx ex_world")
  assume "fst (server_chain None ex_env ?m ?h ?cx ex_world) = Inr None"
  then show False
    using agent_rpc_needs_token [OF m run] run by (auto simp: agent_ctx_def)
qed

end
