(* ===== verification/DaoProject.thy ===== *)
theory DaoProject
  imports Schema Resource
begin

section \<open>ProjectDAO (internal/dao/project.go)\<close>

text \<open>
  The queries on the projects table. A method that only reads returns its result; one that
  writes returns the result and the database after it.
\<close>

definition project_create :: "env \<Rightarrow> project_row \<Rightarrow> db \<Rightarrow> (dao_error + project_row) \<times> db" where
  "project_create e p d =
     (if fault e ''dao: create project'' then (Inl ErrIO, d)
      else if conflicts pr_slug (pr_slug p) 0 (t_projects d) then (Inl ErrUnique, d)
      else
        (let p = p\<lparr>pr_default_mode := or_default (pr_default_mode p) SiteModeEndpoint,
                   pr_backend := or_default (pr_backend p) BackendRathole,
                   pr_status := or_default (pr_status p) ProjectStatusActive\<rparr>;
             (r, t) = tbl_append (\<lambda>i. stamp_new (now e) i p) (t_projects d)
         in (Inr r, d\<lparr>t_projects := t\<rparr>)))"

definition project_find_by_slug :: "env \<Rightarrow> string \<Rightarrow> db \<Rightarrow> dao_error + project_row" where
  "project_find_by_slug e slug d =
     (if fault e ''dao: find project by slug'' then Inl ErrIO
      else (case first_live (\<lambda>p. pr_slug p = slug) (t_projects d) of
          None \<Rightarrow> Inl ErrNotFound
        | Some p \<Rightarrow> Inr p))"

definition project_find_by_id :: "env \<Rightarrow> nat \<Rightarrow> db \<Rightarrow> dao_error + project_row" where
  "project_find_by_id e i d =
     (if fault e ''dao: find project by id'' then Inl ErrIO
      else (case first_live (\<lambda>p. ID p = i) (t_projects d) of
          None \<Rightarrow> Inl ErrNotFound
        | Some p \<Rightarrow> Inr p))"

definition project_list :: "env \<Rightarrow> int \<Rightarrow> string \<Rightarrow> db \<Rightarrow> dao_error + project_row list" where
  "project_list e page_size page_token d =
     (case cursor_of page_token of
        Inl x \<Rightarrow> Inl x
      | Inr cur \<Rightarrow>
          if fault e ''dao: list projects'' then Inl ErrIO
          else Inr (page_live (\<lambda>_. True) cur (clamp_page_size page_size) (t_projects d)))"

definition NextProjectPageToken :: "project_row list \<Rightarrow> string" where
  "NextProjectPageToken page = next_page_token page"

definition project_update :: "env \<Rightarrow> project_row \<Rightarrow> db \<Rightarrow> (dao_error + unit) \<times> db" where
  "project_update e p d =
     (if ID p = 0 then (Inl ErrMissingID, d)
      else if fault e ''dao: update project'' then (Inl ErrIO, d)
      else if live p \<and> conflicts pr_slug (pr_slug p) (ID p) (t_projects d) then (Inl ErrUnique, d)
      else (Inr (), d\<lparr>t_projects := tbl_save (touch (now e) p) (t_projects d)\<rparr>))"

definition project_delete :: "env \<Rightarrow> nat \<Rightarrow> db \<Rightarrow> (dao_error + unit) \<times> db" where
  "project_delete e i d =
     (if fault e ''dao: delete project'' then (Inl ErrIO, d)
      else (Inr (), d\<lparr>t_projects := delete_live (now e) (\<lambda>p. ID p = i) (t_projects d)\<rparr>))"

definition count_sites :: "env \<Rightarrow> nat \<Rightarrow> db \<Rightarrow> dao_error + nat" where
  "count_sites e project_id d =
     (if fault e ''dao: count sites'' then Inl ErrIO
      else Inr (count_live (\<lambda>s. si_project_id s = project_id) (t_sites d)))"

text \<open>
  OverlapsAny: the loop over the other live projects, skipping a stored range that does not
  parse. The query applies \<open>id <> ?\<close> only for a nonzero excludeID.
\<close>

fun overlaps_loop :: "port \<Rightarrow> port \<Rightarrow> project_row list \<Rightarrow> bool" where
  "overlaps_loop minP maxP [] = False"
| "overlaps_loop minP maxP (p # ps) =
     (case parse_port_range (pr_relay_port_range p) of
        Inl _ \<Rightarrow> overlaps_loop minP maxP ps
      | Inr (oMin, oMax) \<Rightarrow>
          if minP \<le> oMax \<and> oMin \<le> maxP then True else overlaps_loop minP maxP ps)"

definition overlaps_any :: "env \<Rightarrow> port \<Rightarrow> port \<Rightarrow> nat \<Rightarrow> db \<Rightarrow> dao_error + bool" where
  "overlaps_any e minP maxP exclude d =
     (if fault e ''overlap check'' then Inl ErrIO
      else Inr (overlaps_loop minP maxP
        (select_live (\<lambda>p. exclude \<noteq> 0 \<longrightarrow> ID p \<noteq> exclude) (t_projects d))))"

text \<open>The subquery of ListAccessible and the count of hasAccess, over live grants.\<close>

definition granted :: "nat \<Rightarrow> nat \<Rightarrow> db \<Rightarrow> bool" where
  "granted operator_id project_id d =
     (0 < count_live (\<lambda>a. ac_operator_id a = operator_id \<and> ac_project_id a = project_id)
            (t_accesses d))"

definition project_list_accessible ::
  "env \<Rightarrow> nat \<Rightarrow> int \<Rightarrow> string \<Rightarrow> db \<Rightarrow> dao_error + project_row list" where
  "project_list_accessible e operator_id page_size page_token d =
     (case cursor_of page_token of
        Inl x \<Rightarrow> Inl x
      | Inr cur \<Rightarrow>
          if fault e ''dao: list accessible projects'' then Inl ErrIO
          else Inr (page_live
                (\<lambda>p. ID p \<in> ac_project_id ` set (select_live (\<lambda>a. ac_operator_id a = operator_id)
                                                  (t_accesses d)))
                cur (clamp_page_size page_size) (t_projects d)))"

subsection \<open>Lemmas\<close>

lemma granted_iff:
  "granted o_id p_id d \<longleftrightarrow>
     (\<exists>a\<in>set (rows (t_accesses d)). live a \<and> ac_operator_id a = o_id \<and> ac_project_id a = p_id)"
  unfolding granted_def using count_live_0_iff
    [of "\<lambda>a. ac_operator_id a = o_id \<and> ac_project_id a = p_id" "t_accesses d"]
  by (auto simp: zero_less_iff_neq_zero)

lemma project_find_by_slug_Inr:
  "project_find_by_slug e slug d = Inr p \<Longrightarrow>
     p \<in> set (rows (t_projects d)) \<and> live p \<and> pr_slug p = slug"
  by (auto simp: project_find_by_slug_def split: if_splits option.splits dest!: first_live_Some)

lemma project_find_by_id_Inr:
  "project_find_by_id e i d = Inr p \<Longrightarrow> p \<in> set (rows (t_projects d)) \<and> live p \<and> ID p = i"
  by (auto simp: project_find_by_id_def split: if_splits option.splits dest!: first_live_Some)

lemma overlaps_loop_iff:
  "overlaps_loop lo hi ps \<longleftrightarrow>
     (\<exists>p\<in>set ps. \<exists>oMin oMax. parse_port_range (pr_relay_port_range p) = Inr (oMin, oMax) \<and>
        lo \<le> oMax \<and> oMin \<le> hi)"
  by (induction ps) (auto split: sum.splits prod.splits)

lemma overlaps_any_False:
  assumes "overlaps_any e lo hi i d = Inr False" "p \<in> set (rows (t_projects d))" "live p"
    "ID p \<noteq> i \<or> i = 0" "parse_port_range (pr_relay_port_range p) = Inr (oMin, oMax)"
  shows "\<not> (lo \<le> oMax \<and> oMin \<le> hi)"
  using assms by (auto simp: overlaps_any_def overlaps_loop_iff set_select_live split: if_splits)

end
