(* ===== verification/DaoService.thy ===== *)
theory DaoService
  imports Schema Resource
begin

section \<open>ServiceDAO and the relay-port allocator (internal/dao/service.go)\<close>

text \<open>
  The queries on services and AllocateRelayPort with its loop over 32-bit words, as the source
  writes it so that a range ending at port 65535 still ends the loop. The lemmas say that the
  allocator returns the lowest free service port of the range and when it reports exhaustion.
\<close>

definition service_create :: "env \<Rightarrow> service_row \<Rightarrow> db \<Rightarrow> (dao_error + service_row) \<times> db" where
  "service_create e v d =
     (let v = v\<lparr>sv_proto := or_default (sv_proto v) ProtoTCP\<rparr> in
      if fault e ''dao: create service'' then (Inl ErrIO, d)
      else if conflicts (\<lambda>r. (sv_site_id r, sv_name r)) (sv_site_id v, sv_name v) 0 (t_services d)
      then (Inl ErrUnique, d)
      else
        (let (r, t) = tbl_append (\<lambda>i. stamp_new (now e) i v) (t_services d)
         in (Inr r, d\<lparr>t_services := t\<rparr>)))"

definition service_find_by_name :: "env \<Rightarrow> nat \<Rightarrow> string \<Rightarrow> db \<Rightarrow> dao_error + service_row" where
  "service_find_by_name e site_id name d =
     (if fault e ''dao: find service by name'' then Inl ErrIO
      else (case first_live (\<lambda>v. sv_site_id v = site_id \<and> sv_name v = name) (t_services d) of
          None \<Rightarrow> Inl ErrNotFound
        | Some v \<Rightarrow> Inr v))"

definition service_list_by_site ::
  "env \<Rightarrow> nat \<Rightarrow> int \<Rightarrow> string \<Rightarrow> db \<Rightarrow> dao_error + service_row list" where
  "service_list_by_site e site_id page_size page_token d =
     (case cursor_of page_token of
        Inl x \<Rightarrow> Inl x
      | Inr cur \<Rightarrow>
          if fault e ''dao: list services'' then Inl ErrIO
          else Inr (page_live (\<lambda>v. sv_site_id v = site_id) cur (clamp_page_size page_size)
                 (t_services d)))"

definition NextServicePageToken :: "service_row list \<Rightarrow> string" where
  "NextServicePageToken page = next_page_token page"

definition service_update :: "env \<Rightarrow> service_row \<Rightarrow> db \<Rightarrow> (dao_error + unit) \<times> db" where
  "service_update e v d =
     (if ID v = 0 then (Inl ErrMissingID, d)
      else if fault e ''dao: update service'' then (Inl ErrIO, d)
      else if live v \<and> conflicts (\<lambda>r. (sv_site_id r, sv_name r)) (sv_site_id v, sv_name v)
                         (ID v) (t_services d)
      then (Inl ErrUnique, d)
      else (Inr (), d\<lparr>t_services := tbl_save (touch (now e) v) (t_services d)\<rparr>))"

definition service_delete :: "env \<Rightarrow> nat \<Rightarrow> db \<Rightarrow> (dao_error + unit) \<times> db" where
  "service_delete e i d =
     (if fault e ''dao: delete service'' then (Inl ErrIO, d)
      else (Inr (), d\<lparr>t_services := delete_live (now e) (\<lambda>v. ID v = i) (t_services d)\<rparr>))"

text \<open>
  The ports in use in a project: the relay ports of its live services on live sites (the join
  of the query).
\<close>

definition used_relay_ports :: "nat \<Rightarrow> db \<Rightarrow> port list" where
  "used_relay_ports project_id d =
     concat (map (\<lambda>v. case sv_relay_port v of None \<Rightarrow> [] | Some p \<Rightarrow> [p])
       (select_live
         (\<lambda>v. sv_site_id v \<in> ID ` set (select_live (\<lambda>s. si_project_id s = project_id) (t_sites d)))
         (t_services d)))"

text \<open>The loop: \<open>p\<close> is the uint32 counter, compared with the widened upper end.\<close>

lemma alloc_step_less:
  fixes p :: "32 word" and maxP :: port
  assumes "p \<le> ucast maxP"
  shows "65536 - unat (p + 1) < 65536 - unat p"
proof -
  have "unat p \<le> unat (ucast maxP :: 32 word)" using assms by (simp add: word_le_nat_alt)
  also have "\<dots> < 65536" using port_unat_less [of maxP] by (simp add: port_up)
  finally have l: "unat p < 65536" .
  then have "unat (p + 1) = Suc (unat p)" by (rule unat_suc32)
  with l show ?thesis by simp
qed

function alloc_loop :: "port list \<Rightarrow> port \<Rightarrow> 32 word \<Rightarrow> port option" where
  "alloc_loop used maxP p =
     (if p \<le> ucast maxP
      then (if ucast p \<notin> set used then Some (ucast p) else alloc_loop used maxP (p + 1))
      else None)"
  by pat_completeness auto
termination
  by (relation "measure (\<lambda>(used, maxP, p). 65536 - unat p)") (auto intro: alloc_step_less)

declare alloc_loop.simps [simp del]

definition allocate_relay_port :: "env \<Rightarrow> project_row \<Rightarrow> db \<Rightarrow> dao_error + port" where
  "allocate_relay_port e project d =
     (case parse_port_range (pr_relay_port_range project) of
        Inl msg \<Rightarrow> Inl (ErrParse msg)
      | Inr (minP, maxP) \<Rightarrow>
          if fault e ''dao: lookup used relay ports'' then Inl ErrIO
          else (case alloc_loop (used_relay_ports (ID project) d) maxP (ucast minP + 1) of
              None \<Rightarrow> Inl ErrPortRangeExhausted
            | Some p \<Rightarrow> Inr p))"

subsection \<open>Lemmas\<close>

lemma service_find_by_name_Inr:
  "service_find_by_name e s n d = Inr v \<Longrightarrow>
     v \<in> set (rows (t_services d)) \<and> live v \<and> sv_site_id v = s \<and> sv_name v = n"
  by (auto simp: service_find_by_name_def split: if_splits option.splits dest!: first_live_Some)

lemma set_used_relay_ports:
  "p \<in> set (used_relay_ports pid d) \<longleftrightarrow>
     (\<exists>v\<in>set (rows (t_services d)). \<exists>s\<in>set (rows (t_sites d)).
        live v \<and> live s \<and> sv_site_id v = ID s \<and> si_project_id s = pid \<and> sv_relay_port v = Some p)"
  by (force simp: used_relay_ports_def set_select_live split: option.splits)

lemma alloc_loop_spec:
  assumes "unat p \<le> 65536"
  shows "alloc_loop used maxP p =
     (case find (\<lambda>k. of_nat k \<notin> set used) [unat p ..< Suc (unat maxP)] of
        None \<Rightarrow> None | Some k \<Rightarrow> Some (of_nat k))"
  using assms
proof (induction used maxP p rule: alloc_loop.induct)
  case (1 used maxP p)
  have le: "p \<le> ucast maxP \<longleftrightarrow> unat p \<le> unat maxP" by (simp add: word_le_nat_alt port_up)
  show ?case
  proof (cases "unat p \<le> unat maxP")
    case False
    then have "[unat p ..< Suc (unat maxP)] = []" "\<not> p \<le> ucast maxP" using le by simp_all
    then show ?thesis by (simp only: alloc_loop.simps [of used maxP p]) simp
  next
    case True
    have small: "unat p < 65536" using True port_unat_less [of maxP] by simp
    have range: "[unat p ..< Suc (unat maxP)] = unat p # [Suc (unat p) ..< Suc (unat maxP)]"
      using True by (intro upt_conv_Cons) simp
    show ?thesis
    proof (cases "of_nat (unat p) \<in> set used")
      case False
      then show ?thesis using True unfolding range
        by (simp add: alloc_loop.simps [of used maxP p] le)
    next
      case taken: True
      have suc: "unat (p + 1) = Suc (unat p)"
        using small by (rule unat_suc32)
      then have "alloc_loop used maxP (p + 1) =
        (case find (\<lambda>k. of_nat k \<notin> set used) [Suc (unat p) ..< Suc (unat maxP)] of
          None \<Rightarrow> None | Some k \<Rightarrow> Some (of_nat k))"
        using "1.IH" True taken small le by simp
      then show ?thesis using True taken unfolding range
        by (simp add: alloc_loop.simps [of used maxP p] le)
    qed
  qed
qed

lemma find_upt_Some:
  "find Q [a..<b] = Some k \<longleftrightarrow> a \<le> k \<and> k < b \<and> Q k \<and> (\<forall>j. a \<le> j \<and> j < k \<longrightarrow> \<not> Q j)"
proof
  assume "find Q [a..<b] = Some k"
  then obtain i where i: "i < b - a" "Q (a + i)" "k = a + i" "\<forall>j<i. \<not> Q (a + j)"
    by (auto simp: find_Some_iff)
  then show "a \<le> k \<and> k < b \<and> Q k \<and> (\<forall>j. a \<le> j \<and> j < k \<longrightarrow> \<not> Q j)"
    by (auto) (metis add_diff_inverse_nat add_less_cancel_left leD)
next
  assume k: "a \<le> k \<and> k < b \<and> Q k \<and> (\<forall>j. a \<le> j \<and> j < k \<longrightarrow> \<not> Q j)"
  then show "find Q [a..<b] = Some k"
    unfolding find_Some_iff by (intro exI [of _ "k - a"]) auto
qed

lemma case_option_None: "(case x of None \<Rightarrow> None | Some k \<Rightarrow> Some (f k)) = None \<longleftrightarrow> x = None"
  by (simp split: option.splits)

lemma find_upt_None: "find Q [a..<b] = None \<longleftrightarrow> (\<forall>k. a \<le> k \<and> k < b \<longrightarrow> \<not> Q k)"
  by (auto simp: find_None_iff)

lemma alloc_start:
  "unat (ucast (lo :: port) + 1 :: 32 word) = Suc (unat lo)"
  using unat_suc32 [of "ucast lo"] port_unat_less [of lo] by (simp add: port_up)

lemma alloc_loop_range:
  fixes lo hi :: port
  assumes "unat lo < unat hi"
  shows "alloc_loop used hi (ucast lo + 1) = Some p \<longleftrightarrow>
      unat lo < unat p \<and> unat p \<le> unat hi \<and> p \<notin> set used \<and>
      (\<forall>q. unat lo < unat q \<and> unat q < unat p \<longrightarrow> q \<in> set used)"
    and "alloc_loop used hi (ucast lo + 1) = None \<longleftrightarrow>
      (\<forall>q. unat lo < unat q \<and> unat q \<le> unat hi \<longrightarrow> q \<in> set used)"
proof -
  have hi: "unat hi < 65536" by (rule port_unat_less)
  have nat_port: "unat (of_nat k :: port) = k" if "k < 65536" for k
    using that by (rule unat_port_of_nat)
  have start: "unat (ucast lo + 1 :: 32 word) = Suc (unat lo)" by (rule alloc_start)
  have eq: "alloc_loop used hi (ucast lo + 1) =
     (case find (\<lambda>k. of_nat k \<notin> set used) [Suc (unat lo) ..< Suc (unat hi)] of
        None \<Rightarrow> None | Some k \<Rightarrow> Some (of_nat k))"
    using alloc_loop_spec [of "ucast lo + 1" used hi] start assms hi by simp
  have all_ports: "(\<forall>k. Suc (unat lo) \<le> k \<and> k < b \<longrightarrow> of_nat k \<in> set used) \<longleftrightarrow>
      (\<forall>q::port. unat lo < unat q \<and> unat q < b \<longrightarrow> q \<in> set used)"
    (is "?A b \<longleftrightarrow> ?B b") if b: "b \<le> 65536" for b
  proof
    assume A: "?A b"
    show "?B b"
    proof (intro allI impI)
      fix q :: port assume "unat lo < unat q \<and> unat q < b"
      then have "of_nat (unat q) \<in> set used" using A Suc_leI by blast
      then show "q \<in> set used" by (simp only: port_of_unat)
    qed
  next
    assume B: "?B b"
    show "?A b"
    proof (intro allI impI)
      fix k assume "Suc (unat lo) \<le> k \<and> k < b"
      then show "of_nat k \<in> set used" using B nat_port [of k] b by simp
    qed
  qed
  show "alloc_loop used hi (ucast lo + 1) = None \<longleftrightarrow>
      (\<forall>q. unat lo < unat q \<and> unat q \<le> unat hi \<longrightarrow> q \<in> set used)"
    using all_ports [of "Suc (unat hi)"] hi
    unfolding eq case_option_None find_upt_None by (simp add: less_Suc_eq_le)
  show "alloc_loop used hi (ucast lo + 1) = Some p \<longleftrightarrow>
      unat lo < unat p \<and> unat p \<le> unat hi \<and> p \<notin> set used \<and>
      (\<forall>q. unat lo < unat q \<and> unat q < unat p \<longrightarrow> q \<in> set used)"
  proof
    assume "alloc_loop used hi (ucast lo + 1) = Some p"
    then obtain k where f: "find (\<lambda>k. of_nat k \<notin> set used) [Suc (unat lo) ..< Suc (unat hi)] = Some k"
      and p: "p = of_nat k" unfolding eq by (auto split: option.splits)
    from f have k: "Suc (unat lo) \<le> k" "k < Suc (unat hi)" "of_nat k \<notin> set used"
      "\<forall>j. Suc (unat lo) \<le> j \<and> j < k \<longrightarrow> of_nat j \<in> set used"
      unfolding find_upt_Some by blast+
    have up: "unat p = k" unfolding p using k(2) hi by (intro nat_port) simp
    show "unat lo < unat p \<and> unat p \<le> unat hi \<and> p \<notin> set used \<and>
      (\<forall>q. unat lo < unat q \<and> unat q < unat p \<longrightarrow> q \<in> set used)"
      using k all_ports [of k] up p hi by auto
  next
    assume R: "unat lo < unat p \<and> unat p \<le> unat hi \<and> p \<notin> set used \<and>
      (\<forall>q. unat lo < unat q \<and> unat q < unat p \<longrightarrow> q \<in> set used)"
    then have "find (\<lambda>k. of_nat k \<notin> set used) [Suc (unat lo) ..< Suc (unat hi)] = Some (unat p)"
      using all_ports [of "unat p"] hi unfolding find_upt_Some by auto
    then show "alloc_loop used hi (ucast lo + 1) = Some p" unfolding eq by simp
  qed
qed

text \<open>
  C15. AllocateRelayPort returns a port of the project's range above the reserved control port
  that no live service on a live site of the project holds, and every lower service port is
  held; it reports ErrPortRangeExhausted exactly when every service port of the range is held.
  The loop ends for every range, the one up to port 65535 included.
\<close>

theorem allocate_relay_port_lowest_free:
  assumes "parse_port_range (pr_relay_port_range project) = Inr (lo, hi)"
    and "\<not> fault e ''dao: lookup used relay ports''"
  shows "(\<forall>p. allocate_relay_port e project d = Inr p \<longleftrightarrow>
        unat lo < unat p \<and> unat p \<le> unat hi \<and> p \<notin> set (used_relay_ports (ID project) d) \<and>
        (\<forall>q. unat lo < unat q \<and> unat q < unat p \<longrightarrow> q \<in> set (used_relay_ports (ID project) d))) \<and>
     (allocate_relay_port e project d = Inl ErrPortRangeExhausted \<longleftrightarrow>
        (\<forall>q. unat lo < unat q \<and> unat q \<le> unat hi \<longrightarrow> q \<in> set (used_relay_ports (ID project) d)))"
proof -
  note r = alloc_loop_range [OF parse_port_range_bounds [OF assms(1)],
      of "used_relay_ports (ID project) d"]
  have "allocate_relay_port e project d =
      (case alloc_loop (used_relay_ports (ID project) d) hi (ucast lo + 1) of
         None \<Rightarrow> Inl ErrPortRangeExhausted | Some p \<Rightarrow> Inr p)"
    using assms by (simp add: allocate_relay_port_def)
  then show ?thesis
    unfolding r [symmetric] by (auto split: option.splits)
qed

lemma allocate_relay_port_Inr:
  assumes "allocate_relay_port e project d = Inr p"
  shows "p \<notin> set (used_relay_ports (ID project) d) \<and>
    (\<exists>lo hi. parse_port_range (pr_relay_port_range project) = Inr (lo, hi) \<and>
       unat lo < unat p \<and> unat p \<le> unat hi)"
proof -
  obtain lo hi where r: "parse_port_range (pr_relay_port_range project) = Inr (lo, hi)"
    and a: "alloc_loop (used_relay_ports (ID project) d) hi (ucast lo + 1) = Some p"
    using assms by (auto simp: allocate_relay_port_def split: sum.splits if_splits option.splits)
  show ?thesis
    using a r unfolding alloc_loop_range(1) [OF parse_port_range_bounds [OF r]] by blast
qed

end
