(* ===== verification/RelayIface.thy ===== *)
theory RelayIface
  imports Auth DaoProject DaoService
begin

section \<open>What the services share: the relay interface, enums, masks, access (internal/grpcsvc)\<close>

text \<open>
  The Go interface RelayManager is a record of functions over the manager's own state \<open>'r\<close>; each
  sees the database, as the real manager does, and changes only its state. The services call it
  after the database write and only log its error. The locale \<open>relay_manager\<close> is its contract.
\<close>

record 'r relay_iface =
  rm_add :: "env \<Rightarrow> nat \<Rightarrow> db \<Rightarrow> 'r \<Rightarrow> (err + unit) \<times> 'r"
  rm_remove :: "env \<Rightarrow> nat \<Rightarrow> db \<Rightarrow> 'r \<Rightarrow> (err + unit) \<times> 'r"
  rm_refresh :: "env \<Rightarrow> nat \<Rightarrow> db \<Rightarrow> 'r \<Rightarrow> (err + unit) \<times> 'r"
  rm_count :: "'r \<Rightarrow> nat"

text \<open>The calls as the handlers make them: the error is only logged.\<close>

definition relay_add :: "'r relay_iface \<Rightarrow> env \<Rightarrow> nat \<Rightarrow> 'r world \<Rightarrow> 'r world" where
  "relay_add rm e i w = w\<lparr>wrelay := snd (rm_add rm e i (wdb w) (wrelay w))\<rparr>"

definition relay_remove :: "'r relay_iface \<Rightarrow> env \<Rightarrow> nat \<Rightarrow> 'r world \<Rightarrow> 'r world" where
  "relay_remove rm e i w = w\<lparr>wrelay := snd (rm_remove rm e i (wdb w) (wrelay w))\<rparr>"

definition relay_refresh :: "'r relay_iface \<Rightarrow> env \<Rightarrow> nat \<Rightarrow> 'r world \<Rightarrow> 'r world" where
  "relay_refresh rm e i w = w\<lparr>wrelay := snd (rm_refresh rm e i (wdb w) (wrelay w))\<rparr>"

lemma relay_calls_wdb [simp]:
  "wdb (relay_add rm e i w) = wdb w" "wdb (relay_remove rm e i w) = wdb w"
  "wdb (relay_refresh rm e i w) = wdb w"
  by (simp_all add: relay_add_def relay_remove_def relay_refresh_def)

lemma relay_calls_wrelay:
  "wrelay (relay_add rm e i w) = snd (rm_add rm e i (wdb w) (wrelay w))"
  "wrelay (relay_remove rm e i w) = snd (rm_remove rm e i (wdb w) (wrelay w))"
  "wrelay (relay_refresh rm e i w) = snd (rm_refresh rm e i (wdb w) (wrelay w))"
  by (simp_all add: relay_add_def relay_remove_def relay_refresh_def)

locale relay_manager =
  fixes rm :: "'r relay_iface" and ok :: "'r \<Rightarrow> bool" and running :: "'r \<Rightarrow> nat \<Rightarrow> bool"
  assumes add_ok: "ok r \<Longrightarrow> ok (snd (rm_add rm e i d r))"
    and remove_ok: "ok r \<Longrightarrow> ok (snd (rm_remove rm e i d r))"
    and refresh_ok: "ok r \<Longrightarrow> ok (snd (rm_refresh rm e i d r))"
    and add_others: "j \<noteq> i \<Longrightarrow> running (snd (rm_add rm e i d r)) j = running r j"
    and remove_others: "j \<noteq> i \<Longrightarrow> running (snd (rm_remove rm e i d r)) j = running r j"
    and refresh_others: "j \<noteq> i \<Longrightarrow> running (snd (rm_refresh rm e i d r)) j = running r j"
    and remove_stops: "\<not> running (snd (rm_remove rm e i d r)) i"
    and count_running: "ok r \<Longrightarrow> rm_count rm r = card {i. running r i} \<and> finite {i. running r i}"

text \<open>noopRelayManager, for services built without a manager.\<close>

definition noop_relay :: "unit relay_iface" where
  "noop_relay = \<lparr>rm_add = (\<lambda>e i d r. (Inr (), r)), rm_remove = (\<lambda>e i d r. (Inr (), r)),
     rm_refresh = (\<lambda>e i d r. (Inr (), r)), rm_count = (\<lambda>r. 0)\<rparr>"

interpretation noop: relay_manager noop_relay "\<lambda>_. True" "\<lambda>_ _. False"
  by unfold_locales (simp_all add: noop_relay_def)

subsection \<open>Wire enums\<close>

text \<open>A number outside an enum behaves in every switch below as its UNSPECIFIED.\<close>

datatype site_mode_pb = SITE_MODE_UNSPECIFIED | SITE_MODE_ENDPOINT | SITE_MODE_SUBNET
datatype backend_pb = BACKEND_UNSPECIFIED | BACKEND_RATHOLE | BACKEND_NETBIRD
datatype project_status_pb = PROJECT_STATUS_UNSPECIFIED | PROJECT_STATUS_ACTIVE
  | PROJECT_STATUS_DISABLED
datatype site_status_pb = SITE_STATUS_UNSPECIFIED | SITE_STATUS_PENDING | SITE_STATUS_ONLINE
  | SITE_STATUS_OFFLINE
datatype proto_pb = PROTO_UNSPECIFIED | PROTO_TCP | PROTO_UDP

definition project_status_to_proto :: "string \<Rightarrow> project_status_pb" where
  "project_status_to_proto s =
     (if s = ProjectStatusActive then PROJECT_STATUS_ACTIVE
      else if s = ProjectStatusDisabled then PROJECT_STATUS_DISABLED
      else PROJECT_STATUS_UNSPECIFIED)"

fun project_status_from_proto :: "project_status_pb \<Rightarrow> string" where
  "project_status_from_proto PROJECT_STATUS_ACTIVE = ProjectStatusActive"
| "project_status_from_proto PROJECT_STATUS_DISABLED = ProjectStatusDisabled"
| "project_status_from_proto PROJECT_STATUS_UNSPECIFIED = []"

definition site_mode_to_proto :: "string \<Rightarrow> site_mode_pb" where
  "site_mode_to_proto m =
     (if m = SiteModeEndpoint then SITE_MODE_ENDPOINT
      else if m = SiteModeSubnet then SITE_MODE_SUBNET else SITE_MODE_UNSPECIFIED)"

fun site_mode_from_proto :: "site_mode_pb \<Rightarrow> string" where
  "site_mode_from_proto SITE_MODE_ENDPOINT = SiteModeEndpoint"
| "site_mode_from_proto SITE_MODE_SUBNET = SiteModeSubnet"
| "site_mode_from_proto SITE_MODE_UNSPECIFIED = []"

definition backend_to_proto :: "string \<Rightarrow> backend_pb" where
  "backend_to_proto b =
     (if b = BackendRathole then BACKEND_RATHOLE
      else if b = BackendNetbird then BACKEND_NETBIRD else BACKEND_UNSPECIFIED)"

fun backend_from_proto :: "backend_pb \<Rightarrow> string" where
  "backend_from_proto BACKEND_RATHOLE = BackendRathole"
| "backend_from_proto BACKEND_NETBIRD = BackendNetbird"
| "backend_from_proto BACKEND_UNSPECIFIED = []"

definition site_status_to_proto :: "string \<Rightarrow> site_status_pb" where
  "site_status_to_proto s =
     (if s = SiteStatusPending then SITE_STATUS_PENDING
      else if s = SiteStatusOnline then SITE_STATUS_ONLINE
      else if s = SiteStatusOffline then SITE_STATUS_OFFLINE
      else SITE_STATUS_UNSPECIFIED)"

definition proto_from_model :: "string \<Rightarrow> proto_pb" where
  "proto_from_model p =
     (if p = ProtoTCP then PROTO_TCP else if p = ProtoUDP then PROTO_UDP else PROTO_UNSPECIFIED)"

fun proto_from_proto :: "proto_pb \<Rightarrow> string" where
  "proto_from_proto PROTO_TCP = ProtoTCP"
| "proto_from_proto PROTO_UDP = ProtoUDP"
| "proto_from_proto PROTO_UNSPECIFIED = []"

lemmas wire_consts = ProjectStatusActive_def ProjectStatusDisabled_def BackendRathole_def
  BackendNetbird_def SiteModeEndpoint_def SiteModeSubnet_def SiteStatusPending_def
  SiteStatusOnline_def SiteStatusOffline_def ProtoTCP_def ProtoUDP_def

lemma enum_roundtrips:
  "project_status_to_proto (project_status_from_proto s) = s"
  "site_mode_to_proto (site_mode_from_proto m) = m"
  "backend_to_proto (backend_from_proto b) = b"
  "proto_from_model (proto_from_proto p) = p"
  subgoal by (cases s) (simp_all add: project_status_to_proto_def wire_consts)
  subgoal by (cases m) (simp_all add: site_mode_to_proto_def wire_consts)
  subgoal by (cases b) (simp_all add: backend_to_proto_def wire_consts)
  subgoal by (cases p) (simp_all add: proto_from_model_def wire_consts)
  done

subsection \<open>Access, and the map of changed fields\<close>

text \<open>hasAccess / hasProjectAccess: a failed count denies.\<close>

definition has_project_access :: "env \<Rightarrow> nat \<Rightarrow> nat \<Rightarrow> db \<Rightarrow> bool" where
  "has_project_access e operator_id project_id d =
     (\<not> fault e ''count access'' \<and> granted operator_id project_id d)"

definition extra_set :: "string \<Rightarrow> extra_val \<Rightarrow> extra \<Rightarrow> extra" where
  "extra_set k x m = filter (\<lambda>kv. fst kv \<noteq> k) m @ [(k, x)]"

definition audit_w :: "env \<Rightarrow> ctx \<Rightarrow> audit_entry \<Rightarrow> 'r world \<Rightarrow> 'r world" where
  "audit_w e cx en w = w\<lparr>wdb := audited e cx en (wdb w)\<rparr>"

lemma audit_w_simps [simp]:
  "wdb (audit_w e cx en w) = audited e cx en (wdb w)" "wrelay (audit_w e cx en w) = wrelay w"
  by (simp_all add: audit_w_def)

definition not_authenticated :: status where
  "not_authenticated = Status Unauthenticated ''not authenticated''"

definition admin_required :: status where
  "admin_required = Status PermissionDenied ''admin role required''"

end
