(* ===== verification/Relay.thy ===== *)
theory Relay
  imports RelayIface DaoSite Example Token "HOL-Library.AList"
begin

section \<open>The relay manager (internal/relay)\<close>

text \<open>
  RenderRatholeServer (render.go) and the Manager (manager.go) that keeps one supervised
  rathole-server per active project. The manager's state is the closed flag, the map of tracked
  supervisors as an association list, the supervisors that have left the map, whose goroutines go on
  until they see their context end, and the configuration files it wrote. A supervisor is its
  name, its command line and whether its context was cancelled. The methods run one at a time here;
  what the two re-checks inside spawn and Refresh guard against, a concurrent caller, is in \<open>RelayConc\<close>.
  The configuration directory is a path as filepath.Clean leaves it.
  \<open>fault e ''relay: refresh wait''\<close> stands for a request context that ends while Refresh waits for
  the old child to exit. Refresh renders twice, the second time in spawn after the old child is gone;
  \<open>again e\<close> has the failures of the second time, which need not be those of the first.
\<close>

record service_binding =
  sb_site_slug :: string
  sb_service_slug :: string
  sb_relay_port :: port
  sb_agent_token :: string

subsection \<open>Rendering\<close>

text \<open>
  The verb \<open>%q\<close> on ASCII text; the slugs, hashes and addresses it is used on are ASCII. A byte
  above 127 gets the escape of a byte that is not UTF-8.
\<close>

definition quote_char :: "char \<Rightarrow> string" where
  "quote_char c =
     (let n = of_char c :: nat in
      if n = 34 \<or> n = 92 then [CHR 0x5C, c]
      else if 32 \<le> n \<and> n < 127 then [c]
      else if n = 7 then [CHR 0x5C, CHR ''a''] else if n = 8 then [CHR 0x5C, CHR ''b'']
      else if n = 12 then [CHR 0x5C, CHR ''f''] else if n = 10 then [CHR 0x5C, CHR ''n'']
      else if n = 13 then [CHR 0x5C, CHR ''r''] else if n = 9 then [CHR 0x5C, CHR ''t'']
      else if n = 11 then [CHR 0x5C, CHR ''v'']
      else [CHR 0x5C, CHR ''x'', hex_digit (n div 16), hex_digit (n mod 16)])"

definition go_quote :: "string \<Rightarrow> string" where
  "go_quote s = [CHR 0x22] @ concat (map quote_char s) @ [CHR 0x22]"

definition eol :: string where "eol = [CHR 0x0A]"
definition em_dash :: string where "em_dash = [CHR 0xE2, CHR 0x80, CHR 0x94]"

text \<open>The key rathole correlates a service by, on both sides.\<close>

definition tunnel_key :: "string \<Rightarrow> string \<Rightarrow> string" where
  "tunnel_key site svc = site @ ''__'' @ svc"

definition render_binding :: "service_binding \<Rightarrow> string" where
  "render_binding sb =
     ''[server.services.'' @ tunnel_key (sb_site_slug sb) (sb_service_slug sb) @ '']'' @ eol @
     ''token = '' @ go_quote (sb_agent_token sb) @ eol @
     ''bind_addr = '' @ [CHR 0x22] @ ''127.0.0.1:'' @ format_uint (unat (sb_relay_port sb)) @
     [CHR 0x22] @ eol @ eol"

definition sort_bindings :: "service_binding list \<Rightarrow> service_binding list" where
  "sort_bindings bs = sort_key (\<lambda>b. (sb_site_slug b, sb_service_slug b)) bs"

definition RenderRatholeServer :: "project_row \<Rightarrow> service_binding list \<Rightarrow> err + string" where
  "RenderRatholeServer p bindings =
     (case parse_port_range (pr_relay_port_range p) of
        Inl _ \<Rightarrow> Inl ''relay: %w''
      | Inr (minP, _) \<Rightarrow>
          Inr (''# quicktun-rendered config for project '' @ go_quote (pr_slug p) @ '' (id='' @
               format_uint (ID p) @ '')'' @ eol @
               ''# DO NOT EDIT MANUALLY '' @ em_dash @ '' overwritten on next reconfigure.'' @ eol @ eol @
               ''[server]'' @ eol @
               ''bind_addr = '' @ [CHR 0x22] @ ''127.0.0.1:'' @ format_uint (unat minP) @ [CHR 0x22] @
               eol @ eol @
               concat (map render_binding (sort_bindings bindings))))"

subsection \<open>The manager's state\<close>

record relay_config =
  mc_binary :: string
  mc_binary_args :: "string list"
  mc_config_dir :: string

record project_sup =
  sp_name :: string
  sp_binary :: string
  sp_args :: "string list"
  sp_cancelled :: bool

record relay_state =
  rs_sups :: "(nat \<times> project_sup) list"
  rs_closed :: bool
  rs_gone :: "(nat \<times> project_sup) list"
  rs_files :: "string \<Rightarrow> string option"

definition NewManager :: "(string \<Rightarrow> string option) \<Rightarrow> relay_state" where
  "NewManager files = \<lparr>rs_sups = [], rs_closed = False, rs_gone = [], rs_files = files\<rparr>"

definition default_config_dir :: "relay_config \<Rightarrow> relay_config" where
  "default_config_dir cfg =
     (if mc_config_dir cfg = [] then cfg\<lparr>mc_config_dir := ''/tmp/quicktun-relay''\<rparr> else cfg)"

definition ErrManagerClosed :: err where "ErrManagerClosed = ''relay: manager closed''"

definition ratholeSpawnArgs :: "string list \<Rightarrow> string \<Rightarrow> string list" where
  "ratholeSpawnArgs binary_args cfg_path = binary_args @ [cfg_path]"

definition config_path :: "relay_config \<Rightarrow> project_row \<Rightarrow> string" where
  "config_path cfg p = mc_config_dir cfg @ ''/'' @ pr_slug p @ ''.toml''"

subsection \<open>renderToFile\<close>

fun service_bindings :: "string \<Rightarrow> string \<Rightarrow> service_row list \<Rightarrow> service_binding list" where
  "service_bindings site_slug token_hash [] = []"
| "service_bindings site_slug token_hash (v # vs) =
     (case sv_relay_port v of
        None \<Rightarrow> service_bindings site_slug token_hash vs
      | Some q \<Rightarrow>
          \<lparr>sb_site_slug = site_slug, sb_service_slug = sv_name v, sb_relay_port = q,
           sb_agent_token = token_hash\<rparr> # service_bindings site_slug token_hash vs)"

definition site_token_hash :: "nat \<Rightarrow> db \<Rightarrow> string" where
  "site_token_hash site_id d =
     (case first_live (\<lambda>t. at_site_id t = site_id) (t_agent_tokens d) of
        None \<Rightarrow> [] | Some tk \<Rightarrow> at_token_hash tk)"

fun site_bindings :: "env \<Rightarrow> db \<Rightarrow> site_row list \<Rightarrow> err + service_binding list" where
  "site_bindings e d [] = Inr []"
| "site_bindings e d (site # sites) =
     (if fault e ''relay: lookup site token'' then Inl ''relay: lookup site token: %w''
      else
        (case service_list_by_site e (ID site) 1000 [] d of
           Inl _ \<Rightarrow> Inl ''relay: list services: %w''
         | Inr svcs \<Rightarrow>
             (case site_bindings e d sites of
                Inl x \<Rightarrow> Inl x
              | Inr bs \<Rightarrow>
                  Inr (service_bindings (si_name site) (site_token_hash (ID site) d) svcs @ bs))))"

definition renderToFile ::
  "relay_config \<Rightarrow> env \<Rightarrow> nat \<Rightarrow> db \<Rightarrow> relay_state \<Rightarrow> (err + string) \<times> relay_state" where
  "renderToFile cfg e project_id d r =
     (case project_find_by_id e project_id d of
        Inl _ \<Rightarrow> (Inl ''relay: find project: %w'', r)
      | Inr p \<Rightarrow>
          (case site_list_by_project e (ID p) 1000 [] d of
             Inl _ \<Rightarrow> (Inl ''relay: list sites: %w'', r)
           | Inr sites \<Rightarrow>
               (case site_bindings e d sites of
                  Inl x \<Rightarrow> (Inl x, r)
                | Inr bindings \<Rightarrow>
                    (case RenderRatholeServer p bindings of
                       Inl x \<Rightarrow> (Inl x, r)
                     | Inr toml \<Rightarrow>
                         if fault e ''relay: write config'' then (Inl ''relay: write config: %w'', r)
                         else (Inr (config_path cfg p),
                               r\<lparr>rs_files := (rs_files r)(config_path cfg p \<mapsto> toml)\<rparr>)))))"

subsection \<open>Spawning, adding, removing, refreshing\<close>

definition spawn ::
  "relay_config \<Rightarrow> env \<Rightarrow> nat \<Rightarrow> db \<Rightarrow> relay_state \<Rightarrow> (err + unit) \<times> relay_state" where
  "spawn cfg e project_id d r =
     (case renderToFile cfg e project_id d r of
        (Inl x, r1) \<Rightarrow> (Inl x, r1)
      | (Inr cfg_path, r1) \<Rightarrow>
          if mc_binary cfg = [] then (Inr (), r1)
          else if rs_closed r1 then (Inl ErrManagerClosed, r1)
          else if map_of (rs_sups r1) project_id \<noteq> None then (Inr (), r1)
          else
            (Inr (), r1\<lparr>rs_sups := AList.update project_id
                \<lparr>sp_name = ''rathole-project-'' @ format_uint project_id, sp_binary = mc_binary cfg,
                 sp_args = ratholeSpawnArgs (mc_binary_args cfg) cfg_path, sp_cancelled = False\<rparr>
                (rs_sups r1)\<rparr>))"

definition AddProject ::
  "relay_config \<Rightarrow> env \<Rightarrow> nat \<Rightarrow> db \<Rightarrow> relay_state \<Rightarrow> (err + unit) \<times> relay_state" where
  "AddProject cfg e project_id d r =
     (if rs_closed r then (Inl ErrManagerClosed, r)
      else if map_of (rs_sups r) project_id \<noteq> None then (Inr (), r)
      else spawn cfg e project_id d r)"

text \<open>ps.cancel(): the supervisor's context ends, whether the map still has it or not.\<close>

definition sup_cancel :: "project_sup \<Rightarrow> project_sup" where
  "sup_cancel ps = ps\<lparr>sp_cancelled := True\<rparr>"

definition RemoveProject :: "nat \<Rightarrow> relay_state \<Rightarrow> (err + unit) \<times> relay_state" where
  "RemoveProject project_id r =
     (let r1 = r\<lparr>rs_sups := AList.delete project_id (rs_sups r)\<rparr> in
      (Inr (),
       (case map_of (rs_sups r) project_id of
          None \<Rightarrow> r1
        | Some ps \<Rightarrow> r1\<lparr>rs_gone := (project_id, sup_cancel ps) # rs_gone r\<rparr>)))"

definition again :: "env \<Rightarrow> env" where
  "again e = e\<lparr>fault := (\<lambda>s. fault e (''again: '' @ s))\<rparr>"

definition Refresh ::
  "relay_config \<Rightarrow> env \<Rightarrow> nat \<Rightarrow> db \<Rightarrow> relay_state \<Rightarrow> (err + unit) \<times> relay_state" where
  "Refresh cfg e project_id d r =
     (if rs_closed r then (Inl ErrManagerClosed, r)
      else
        (case map_of (rs_sups r) project_id of
           None \<Rightarrow> AddProject cfg e project_id d r
         | Some old \<Rightarrow>
             (case renderToFile cfg e project_id d r of
                (Inl x, r1) \<Rightarrow> (Inl x, r1)
              | (Inr _, r1) \<Rightarrow>
                  if mc_binary cfg = [] then (Inr (), r1)
                  else if fault e ''relay: refresh wait''
                  then (Inl ''context canceled'',
                        r1\<lparr>rs_sups := AList.update project_id (sup_cancel old) (rs_sups r1)\<rparr>)
                  else AddProject cfg (again e) project_id d
                         (r1\<lparr>rs_sups := AList.delete project_id (rs_sups r1),
                             rs_gone := (project_id, sup_cancel old) # rs_gone r1\<rparr>))))"

definition SupervisorCount :: "relay_state \<Rightarrow> nat" where
  "SupervisorCount r = length (rs_sups r)"

definition Stop :: "relay_state \<Rightarrow> relay_state" where
  "Stop r =
     r\<lparr>rs_closed := True, rs_sups := [],
       rs_gone := map (\<lambda>(i, ps). (i, sup_cancel ps)) (rs_sups r) @ rs_gone r\<rparr>"

fun add_projects :: "relay_config \<Rightarrow> env \<Rightarrow> db \<Rightarrow> project_row list \<Rightarrow> relay_state \<Rightarrow> relay_state" where
  "add_projects cfg e d [] r = r"
| "add_projects cfg e d (p # ps) r = add_projects cfg e d ps (snd (AddProject cfg e (ID p) d r))"

definition Start :: "relay_config \<Rightarrow> env \<Rightarrow> db \<Rightarrow> relay_state \<Rightarrow> (err + unit) \<times> relay_state" where
  "Start cfg e d r =
     (if fault e ''relay: mkdir config dir'' then (Inl ''relay: mkdir config dir: %w'', r)
      else if fault e ''relay: list projects'' then (Inl ''relay: list projects: %w'', r)
      else
        (Inr (), add_projects cfg e d
           (select_live (\<lambda>p. pr_status p = ProjectStatusActive) (t_projects d)) r))"

lemma again_simps [simp]: "now (again e) = now e" "fault (again e) s = fault e (''again: '' @ s)"
  by (simp_all add: again_def)

lemma sup_cancel_simps [simp]: "sp_cancelled (sup_cancel ps)" "sp_args (sup_cancel ps) = sp_args ps"
  by (simp_all add: sup_cancel_def)

text \<open>The manager behind the interface of the services.\<close>

definition manager_relay :: "relay_config \<Rightarrow> relay_state relay_iface" where
  "manager_relay cfg =
     \<lparr>rm_add = AddProject cfg, rm_remove = (\<lambda>e i d r. RemoveProject i r), rm_refresh = Refresh cfg,
      rm_count = SupervisorCount\<rparr>"

subsection \<open>The manager keeps the contract of its interface\<close>

definition relay_ok :: "relay_state \<Rightarrow> bool" where
  "relay_ok r \<longleftrightarrow> distinct (map fst (rs_sups r)) \<and> (rs_closed r \<longrightarrow> rs_sups r = []) \<and>
     (\<forall>x\<in>set (rs_gone r). sp_cancelled (snd x))"

definition tracked :: "relay_state \<Rightarrow> nat \<Rightarrow> bool" where
  "tracked r i \<longleftrightarrow> map_of (rs_sups r) i \<noteq> None"

lemma renderToFile_frame:
  "renderToFile cfg e i d r = (res, r1) \<Longrightarrow> rs_sups r1 = rs_sups r \<and> rs_closed r1 = rs_closed r \<and> rs_gone r1 = rs_gone r"
  by (auto simp: renderToFile_def split: sum.splits if_splits)

lemma spawn_sups:
  assumes "spawn cfg e i d r = (res, r1)"
  shows "rs_closed r1 = rs_closed r \<and> (rs_sups r1 = rs_sups r \<or>
    (\<exists>s. \<not> rs_closed r \<and> rs_sups r1 = AList.update i s (rs_sups r)))"
  using assms renderToFile_frame [of cfg e i d r] unfolding spawn_def
  by (auto split: prod.splits sum.splits if_splits)

lemma AddProject_sups:
  assumes "AddProject cfg e i d r = (res, r1)"
  shows "rs_closed r1 = rs_closed r \<and> (rs_sups r1 = rs_sups r \<or>
    (\<exists>s. \<not> rs_closed r \<and> rs_sups r1 = AList.update i s (rs_sups r)))"
  using assms spawn_sups [of cfg e i d r] unfolding AddProject_def by (auto split: if_splits)

lemma Refresh_sups:
  assumes "Refresh cfg e i d r = (res, r1)"
  shows "rs_closed r1 = rs_closed r \<and> (rs_sups r1 = rs_sups r \<or>
    (\<exists>s. \<not> rs_closed r \<and> rs_sups r1 = AList.update i s (rs_sups r)) \<or>
    rs_sups r1 = AList.delete i (rs_sups r) \<or>
    (\<exists>s. \<not> rs_closed r \<and> rs_sups r1 = AList.update i s (AList.delete i (rs_sups r))))"
proof (cases "map_of (rs_sups r) i")
  case None
  then show ?thesis
    using assms AddProject_sups [of cfg e i d r res r1] unfolding Refresh_def by (auto split: if_splits)
next
  case (Some old)
  obtain res' r' where x: "renderToFile cfg e i d r = (res', r')" by (cases "renderToFile cfg e i d r")
  let ?r2 = "r'\<lparr>rs_sups := AList.delete i (rs_sups r'), rs_gone := (i, sup_cancel old) # rs_gone r'\<rparr>"
  have fr: "rs_sups r' = rs_sups r" "rs_closed r' = rs_closed r" using renderToFile_frame [OF x] by simp_all
  consider "r1 = r" | "r1 = r'"
    | "\<not> rs_closed r" "r1 = r'\<lparr>rs_sups := AList.update i (sup_cancel old) (rs_sups r')\<rparr>"
    | "AddProject cfg (again e) i d ?r2 = (res, r1)"
    using assms Some x unfolding Refresh_def by (simp split: sum.splits if_splits)
  then show ?thesis
  proof cases
    case 4
    from AddProject_sups [OF this] show ?thesis by (simp add: fr)
  qed (auto simp: fr)
qed

text \<open>The supervisors that left the map, each with its context ended.\<close>

lemma AddProject_gone: "AddProject cfg e i d r = (res, r1) \<Longrightarrow> rs_gone r1 = rs_gone r"
  using renderToFile_frame [of cfg e i d r]
  by (auto simp: AddProject_def spawn_def split: prod.splits sum.splits if_splits)

lemma Refresh_gone:
  assumes "Refresh cfg e i d r = (res, r1)"
  shows "rs_gone r1 = rs_gone r \<or>
    (\<exists>old. map_of (rs_sups r) i = Some old \<and> rs_gone r1 = (i, sup_cancel old) # rs_gone r)"
proof (cases "map_of (rs_sups r) i")
  case None
  then show ?thesis using assms AddProject_gone [of cfg e i d r] by (auto simp: Refresh_def split: if_splits)
next
  case (Some old)
  obtain res' r' where x: "renderToFile cfg e i d r = (res', r')" by (cases "renderToFile cfg e i d r")
  show ?thesis
    using assms Some x renderToFile_frame [OF x]
    by (auto simp: Refresh_def split: if_splits sum.splits dest!: AddProject_gone)
qed

lemma RemoveProject_gone:
  "rs_sups (snd (RemoveProject i r)) = AList.delete i (rs_sups r)" "rs_closed (snd (RemoveProject i r)) = rs_closed r"
  "rs_gone (snd (RemoveProject i r)) =
     (case map_of (rs_sups r) i of None \<Rightarrow> rs_gone r | Some ps \<Rightarrow> (i, sup_cancel ps) # rs_gone r)"
  by (simp_all add: RemoveProject_def Let_def split: option.splits)

lemma relay_ok_sups:
  assumes "relay_ok r" "rs_closed r1 = rs_closed r" "\<forall>x\<in>set (rs_gone r1). x \<in> set (rs_gone r) \<or> sp_cancelled (snd x)"
  shows "rs_sups r1 = rs_sups r \<Longrightarrow> relay_ok r1"
    "\<not> rs_closed r \<Longrightarrow> rs_sups r1 = AList.update i s (rs_sups r) \<Longrightarrow> relay_ok r1"
    "rs_sups r1 = AList.delete i (rs_sups r) \<Longrightarrow> relay_ok r1"
    "\<not> rs_closed r \<Longrightarrow> rs_sups r1 = AList.update i s (AList.delete i (rs_sups r)) \<Longrightarrow> relay_ok r1"
  using assms unfolding relay_ok_def by (auto simp: distinct_update distinct_delete)

lemma relay_ok_manager:
  assumes "relay_ok r"
  shows "relay_ok (snd (AddProject cfg e i d r))" "relay_ok (snd (Refresh cfg e i d r))"
    "relay_ok (snd (RemoveProject i r))" "relay_ok (Stop r)"
proof -
  have a: "\<forall>x\<in>set (rs_gone (snd (AddProject cfg e i d r))). x \<in> set (rs_gone r) \<or> sp_cancelled (snd x)"
    using AddProject_gone [OF prod.collapse [symmetric], of cfg e i d r] by simp
  show "relay_ok (snd (AddProject cfg e i d r))"
    using AddProject_sups [OF prod.collapse [symmetric], of cfg e i d r] relay_ok_sups [OF assms _ a] by blast
  have f: "\<forall>x\<in>set (rs_gone (snd (Refresh cfg e i d r))). x \<in> set (rs_gone r) \<or> sp_cancelled (snd x)"
    using Refresh_gone [OF prod.collapse [symmetric], of cfg e i d r] by auto
  show "relay_ok (snd (Refresh cfg e i d r))"
    using Refresh_sups [OF prod.collapse [symmetric], of cfg e i d r] relay_ok_sups [OF assms _ f] by blast
  show "relay_ok (snd (RemoveProject i r))"
    by (rule relay_ok_sups(3) [OF assms]) (auto simp: RemoveProject_gone split: option.splits)
  show "relay_ok (Stop r)" using assms by (auto simp: relay_ok_def Stop_def)
qed

lemma tracked_sups:
  assumes "j \<noteq> i"
  shows "rs_sups r1 = rs_sups r \<Longrightarrow> tracked r1 j = tracked r j"
    "rs_sups r1 = AList.update i s (rs_sups r) \<Longrightarrow> tracked r1 j = tracked r j"
    "rs_sups r1 = AList.delete i (rs_sups r) \<Longrightarrow> tracked r1 j = tracked r j"
    "rs_sups r1 = AList.update i s (AList.delete i (rs_sups r)) \<Longrightarrow> tracked r1 j = tracked r j"
  using assms by (simp_all add: tracked_def update_conv' delete_conv')

lemma tracked_others:
  assumes "j \<noteq> i"
  shows "tracked (snd (AddProject cfg e i d r)) j = tracked r j"
    "tracked (snd (Refresh cfg e i d r)) j = tracked r j"
    "tracked (snd (RemoveProject i r)) j = tracked r j"
proof -
  show "tracked (snd (AddProject cfg e i d r)) j = tracked r j"
    using AddProject_sups [OF prod.collapse [symmetric], of cfg e i d r] tracked_sups [OF assms] by blast
  show "tracked (snd (Refresh cfg e i d r)) j = tracked r j"
    using Refresh_sups [OF prod.collapse [symmetric], of cfg e i d r] tracked_sups [OF assms] by blast
  show "tracked (snd (RemoveProject i r)) j = tracked r j"
    by (rule tracked_sups(3) [OF assms]) (simp add: RemoveProject_gone)
qed

lemma tracked_count:
  assumes "relay_ok r"
  shows "SupervisorCount r = card {i. tracked r i}" "finite {i. tracked r i}"
proof -
  have "{i. tracked r i} = fst ` set (rs_sups r)"
    by (auto simp: tracked_def map_of_eq_None_iff image_iff)
  then show "SupervisorCount r = card {i. tracked r i}" "finite {i. tracked r i}"
    using assms distinct_card [of "map fst (rs_sups r)"]
    by (simp_all add: relay_ok_def SupervisorCount_def)
qed

interpretation manager: relay_manager "manager_relay cfg" relay_ok tracked
  by unfold_locales
    (simp_all add: manager_relay_def relay_ok_manager tracked_others tracked_count,
     simp add: RemoveProject_gone tracked_def delete_conv')

subsection \<open>What a rendered file holds\<close>

text \<open>
  The text the files should hold, from the database alone: the services of each of the project's
  sites with the hash of the site's live agent token. As in the code, one page of 1000 sites and
  of 1000 services per site.
\<close>

definition first_page :: "('a srow_scheme \<Rightarrow> bool) \<Rightarrow> 'a srow_scheme table \<Rightarrow> 'a srow_scheme list" where
  "first_page P t = take 1000 (select_live P t)"

definition project_bindings :: "db \<Rightarrow> nat \<Rightarrow> service_binding list" where
  "project_bindings d i =
     concat (map (\<lambda>s. service_bindings (si_name s) (site_token_hash (ID s) d)
         (first_page (\<lambda>v. sv_site_id v = ID s) (t_services d)))
       (first_page (\<lambda>s. si_project_id s = i) (t_sites d)))"

definition project_text :: "db \<Rightarrow> project_row \<Rightarrow> err + string" where
  "project_text d p = RenderRatholeServer p (project_bindings d (ID p))"

lemma page_1000: "page_live P None (clamp_page_size 1000) t = first_page P t"
  by (simp add: page_live_def clamp_page_size_def first_page_def)

lemma site_bindings_Inr:
  "site_bindings e d sites = Inr bs \<Longrightarrow>
     bs = concat (map (\<lambda>s. service_bindings (si_name s) (site_token_hash (ID s) d)
         (first_page (\<lambda>v. sv_site_id v = ID s) (t_services d))) sites)"
  by (induction sites arbitrary: bs)
    (auto simp: service_list_by_site_def page_1000 split: if_splits sum.splits)

lemma site_bindings_ok: "\<forall>s. \<not> fault e s \<Longrightarrow> \<exists>bs. site_bindings e d sites = Inr bs"
  by (induction sites) (auto simp: service_list_by_site_def split: sum.splits)

lemma renderToFile_Inr:
  assumes "renderToFile cfg e i d r = (Inr path, r1)"
  shows "\<exists>p toml. p \<in> set (rows (t_projects d)) \<and> live p \<and> ID p = i \<and> project_text d p = Inr toml \<and>
    path = config_path cfg p \<and> r1 = r\<lparr>rs_files := (rs_files r)(path \<mapsto> toml)\<rparr>"
proof -
  obtain p sites bs toml where x: "project_find_by_id e i d = Inr p"
    "site_list_by_project e (ID p) 1000 [] d = Inr sites" "site_bindings e d sites = Inr bs"
    "RenderRatholeServer p bs = Inr toml" "path = config_path cfg p"
    "r1 = r\<lparr>rs_files := (rs_files r)(path \<mapsto> toml)\<rparr>"
    using assms unfolding renderToFile_def by (auto split: sum.splits if_splits)
  have "sites = first_page (\<lambda>s. si_project_id s = ID p) (t_sites d)"
    using x(2) by (auto simp: site_list_by_project_def page_1000 split: if_splits)
  then have "project_text d p = Inr toml"
    using x(4) site_bindings_Inr [OF x(3)] by (simp add: project_text_def project_bindings_def)
  then show ?thesis using project_find_by_id_Inr [OF x(1)] x(5,6) by blast
qed

lemma renderToFile_Inl: "renderToFile cfg e i d r = (Inl x, r1) \<Longrightarrow> r1 = r"
  by (auto simp: renderToFile_def split: sum.splits if_splits)

lemma renderToFile_ok:
  assumes "\<forall>s. \<not> fault e s" "first_live (\<lambda>p. ID p = i) (t_projects d) = Some p"
    and "parse_port_range (pr_relay_port_range p) = Inr (lo, hi)"
  shows "\<exists>toml. renderToFile cfg e i d r =
    (Inr (config_path cfg p), r\<lparr>rs_files := (rs_files r)(config_path cfg p \<mapsto> toml)\<rparr>)"
  using assms site_bindings_ok [of e d]
  by (auto simp: renderToFile_def project_find_by_id_def site_list_by_project_def
      RenderRatholeServer_def split: sum.splits) (metis sum.distinct(1))

text \<open>A render depends on the manager only through the files it writes.\<close>

lemma renderToFile_any_state:
  "fst (renderToFile cfg e i d r) = fst (renderToFile cfg e i d r')"
  by (simp add: renderToFile_def split: sum.splits)

lemma spawn_tracked:
  assumes "renderToFile cfg e i d r = (Inr path, r1)" "mc_binary cfg \<noteq> []" "\<not> rs_closed r"
    and "map_of (rs_sups r) i = None"
  shows "AddProject cfg e i d r = (Inr (), r1\<lparr>rs_sups := AList.update i
      \<lparr>sp_name = ''rathole-project-'' @ format_uint i, sp_binary = mc_binary cfg,
       sp_args = mc_binary_args cfg @ [path], sp_cancelled = False\<rparr> (rs_sups r)\<rparr>)"
  using assms renderToFile_frame [OF assms(1)]
  by (simp add: AddProject_def spawn_def ratholeSpawnArgs_def)

lemma AddProject_Inr:
  assumes "AddProject cfg e i d r = (Inr (), r')" "mc_binary cfg \<noteq> []" "map_of (rs_sups r) i = None"
  shows "\<exists>path r1. renderToFile cfg e i d r = (Inr path, r1) \<and> r' = r1\<lparr>rs_sups := AList.update i
      \<lparr>sp_name = ''rathole-project-'' @ format_uint i, sp_binary = mc_binary cfg,
       sp_args = mc_binary_args cfg @ [path], sp_cancelled = False\<rparr> (rs_sups r)\<rparr>"
proof -
  have nc: "\<not> rs_closed r" using assms(1) by (auto simp: AddProject_def)
  obtain path r1 where x: "renderToFile cfg e i d r = (Inr path, r1)"
    using assms by (auto simp: AddProject_def spawn_def split: if_splits prod.splits sum.splits)
  show ?thesis using spawn_tracked [OF x assms(2) nc assms(3)] assms(1) x by auto
qed

lemma AddProject_Inl:
  assumes "AddProject cfg e i d r = (Inl x, r')"
  shows "r' = r"
proof -
  obtain res r1 where y: "renderToFile cfg e i d r = (res, r1)" by (cases "renderToFile cfg e i d r")
  show ?thesis
  proof (cases res)
    case (Inl x')
    with y have "r1 = r" by (simp add: renderToFile_Inl)
    then show ?thesis using assms y Inl by (simp add: AddProject_def spawn_def split: if_splits)
  next
    case (Inr path)
    then show ?thesis using assms y renderToFile_frame [OF y]
      by (simp add: AddProject_def spawn_def split: if_splits)
  qed
qed

text \<open>
  C31. When Refresh succeeds with a rathole binary configured, the project exists, its config file
  holds the rendering of the current database, and a supervisor that was not cancelled runs the
  binary on that file, with the configured flags before the path.
\<close>
theorem refresh_serves_current:
  assumes "Refresh cfg e i d r = (Inr (), r')" and "mc_binary cfg \<noteq> []"
    and "distinct (map fst (rs_sups r))"
  shows "\<exists>p toml s. p \<in> set (rows (t_projects d)) \<and> live p \<and> ID p = i \<and>
    project_text d p = Inr toml \<and> rs_files r' (config_path cfg p) = Some toml \<and>
    map_of (rs_sups r') i = Some s \<and> \<not> sp_cancelled s \<and> sp_binary s = mc_binary cfg \<and>
    sp_args s = mc_binary_args cfg @ [config_path cfg p]"
proof -
  obtain e0 r0 where r0: "AddProject cfg e0 i d r0 = (Inr (), r')" "map_of (rs_sups r0) i = None"
  proof (cases "map_of (rs_sups r) i")
    case None
    then have "AddProject cfg e i d r = (Inr (), r')"
      using assms(1) by (auto simp: Refresh_def split: if_splits)
    with None show ?thesis using that by blast
  next
    case (Some old)
    obtain res r1 where x: "renderToFile cfg e i d r = (res, r1)" by (cases "renderToFile cfg e i d r")
    have "AddProject cfg (again e) i d (r1\<lparr>rs_sups := AList.delete i (rs_sups r1),
        rs_gone := (i, sup_cancel old) # rs_gone r1\<rparr>) = (Inr (), r')"
      using assms(1,2) Some x by (auto simp: Refresh_def split: if_splits sum.splits)
    then show ?thesis using that by (simp add: delete_conv')
  qed
  obtain path r1 where x: "renderToFile cfg e0 i d r0 = (Inr path, r1)"
    "r' = r1\<lparr>rs_sups := AList.update i
      \<lparr>sp_name = ''rathole-project-'' @ format_uint i, sp_binary = mc_binary cfg,
       sp_args = mc_binary_args cfg @ [path], sp_cancelled = False\<rparr> (rs_sups r0)\<rparr>"
    using AddProject_Inr [OF r0(1) assms(2) r0(2)] by blast
  obtain p toml where "p \<in> set (rows (t_projects d))" "live p" "ID p = i" "project_text d p = Inr toml"
    "path = config_path cfg p" "r1 = r0\<lparr>rs_files := (rs_files r0)(path \<mapsto> toml)\<rparr>"
    using renderToFile_Inr [OF x(1)] by blast
  then show ?thesis using x(2) by (auto simp: update_conv' intro!: exI [of _ p])
qed


lemma slug_no_underscore: "slug_grammar s \<Longrightarrow> CHR ''_'' \<notin> set s"
  by (auto simp: slug_grammar_def slug_char_def is_lower_def is_digit_def dash_def)

text \<open>
  A rathole key names one service: valid slugs hold no underscore, so the flattened keys of
  two services are equal only when both slugs are.
\<close>
theorem tunnel_key_inj:
  assumes "slug_grammar a" "slug_grammar b" "slug_grammar c" "slug_grammar d"
  shows "tunnel_key a b = tunnel_key c d \<longleftrightarrow> a = c \<and> b = d"
proof
  assume k: "tunnel_key a b = tunnel_key c d"
  have "takeWhile (\<lambda>x. x \<noteq> CHR ''_'') (tunnel_key a b) = a"
    "takeWhile (\<lambda>x. x \<noteq> CHR ''_'') (tunnel_key c d) = c"
    using slug_no_underscore assms by (auto simp: tunnel_key_def takeWhile_append)
  then show "a = c \<and> b = d" using k by (simp add: tunnel_key_def)
qed simp

theorem tunnel_key_inj_witness: "tunnel_key ''hq'' ''ssh'' \<noteq> tunnel_key ''hq'' ''web''"
proof -
  have g: "slug_grammar ''hq''" "slug_grammar ''ssh''" "slug_grammar ''web''"
    unfolding validate_slug_iff [symmetric] by code_simp+
  show ?thesis using tunnel_key_inj [OF g(1,2) g(1,3)] by simp
qed

text \<open>
  A rendered config does not depend on the order in which the services were read, as long as
  the (site, service) keys of the bindings are distinct.
\<close>
theorem render_deterministic:
  assumes "distinct (map (\<lambda>b. (sb_site_slug b, sb_service_slug b)) bs)"
    and "distinct (map (\<lambda>b. (sb_site_slug b, sb_service_slug b)) bs')" and "set bs = set bs'"
  shows "RenderRatholeServer p bs = RenderRatholeServer p bs'"
proof -
  have "sort_bindings bs = sort_bindings bs'"
    unfolding sort_bindings_def using assms
    by (intro sort_key_set_unique)
  then show ?thesis by (simp only: RenderRatholeServer_def)
qed

definition ex_binding :: "string \<Rightarrow> port \<Rightarrow> service_binding" where
  "ex_binding s q = \<lparr>sb_site_slug = ''hq'', sb_service_slug = s, sb_relay_port = q, sb_agent_token = []\<rparr>"

theorem render_deterministic_witness:
  "RenderRatholeServer ex_project [ex_binding ''ssh'' 7001, ex_binding ''web'' 7002] =
     RenderRatholeServer ex_project [ex_binding ''web'' 7002, ex_binding ''ssh'' 7001]"
  by (rule render_deterministic) (auto simp: ex_binding_def)

subsection \<open>Starting the manager\<close>

lemma add_projects_tracked:
  assumes "\<forall>s. \<not> fault e s" "mc_binary cfg \<noteq> []" "\<not> rs_closed r"
    and "\<forall>p\<in>set ps. first_live (\<lambda>q. ID q = ID p) (t_projects d) = Some p \<and>
      is_ok (parse_port_range (pr_relay_port_range p))"
    and "add_projects cfg e d ps r = r'"
  shows "\<not> rs_closed r' \<and> tracked r' i = (tracked r i \<or> i \<in> ID ` set ps)"
  using assms(3-5)
proof (induction ps arbitrary: r)
  case Nil
  then show ?case by simp
next
  case (Cons p ps)
  obtain lo hi where r: "parse_port_range (pr_relay_port_range p) = Inr (lo, hi)"
    using Cons.prems(2) by (auto simp: is_ok_def split: sum.splits)
  obtain toml where t: "renderToFile cfg e (ID p) d r =
      (Inr (config_path cfg p), r\<lparr>rs_files := (rs_files r)(config_path cfg p \<mapsto> toml)\<rparr>)"
    using renderToFile_ok [OF assms(1) _ r] Cons.prems(2) by (metis list.set_intros(1))
  let ?r = "snd (AddProject cfg e (ID p) d r)"
  have "\<not> rs_closed ?r \<and> tracked ?r i = (tracked r i \<or> i = ID p)"
  proof (cases "map_of (rs_sups r) (ID p)")
    case None
    then show ?thesis using spawn_tracked [OF t assms(2) Cons.prems(1) None] Cons.prems(1)
      by (simp add: tracked_def update_conv')
  next
    case (Some s)
    then show ?thesis using Cons.prems(1) by (auto simp: AddProject_def tracked_def)
  qed
  then show ?case using Cons.IH [of ?r] Cons.prems by auto
qed

text \<open>
  A started manager supervises exactly the live active projects: a disabled or deleted one
  gets no rathole-server, and every active one does.
\<close>
theorem start_supervises_active:
  assumes "tbl_wf (t_projects d)" and "\<forall>s. \<not> fault e s" and "mc_binary cfg \<noteq> []"
    and "\<forall>p\<in>set (rows (t_projects d)). live p \<longrightarrow> is_ok (parse_port_range (pr_relay_port_range p))"
  shows "\<exists>r'. Start cfg e d (NewManager files) = (Inr (), r') \<and>
    (\<forall>i. tracked r' i \<longleftrightarrow>
       (\<exists>p\<in>set (rows (t_projects d)). live p \<and> ID p = i \<and> pr_status p = ProjectStatusActive))"
proof -
  let ?ps = "select_live (\<lambda>p. pr_status p = ProjectStatusActive) (t_projects d)"
  have "\<forall>p\<in>set ?ps. first_live (\<lambda>q. ID q = ID p) (t_projects d) = Some p \<and>
      is_ok (parse_port_range (pr_relay_port_range p))"
    using assms(4) first_live_ID [OF assms(1)] by (auto simp: set_select_live)
  from add_projects_tracked [OF assms(2,3) _ this refl, of "NewManager files"]
  have "tracked (add_projects cfg e d ?ps (NewManager files)) i \<longleftrightarrow> i \<in> ID ` set ?ps" for i
    by (simp add: NewManager_def tracked_def)
  then show ?thesis using assms(2) by (auto simp: Start_def set_select_live)
qed

definition ex_relay_config :: relay_config where
  "ex_relay_config = \<lparr>mc_binary = ''rathole'', mc_binary_args = [''--server''], mc_config_dir = ''/cfg''\<rparr>"

theorem start_supervises_active_witness:
  "\<exists>r'. Start ex_relay_config ex_env ex_db (NewManager (\<lambda>_. None)) = (Inr (), r') \<and>
     tracked r' 1 \<and> \<not> tracked r' 2"
proof -
  have "tbl_wf (t_projects ex_db)" by (simp add: tbl_wf_def)
  moreover have "mc_binary ex_relay_config \<noteq> []" by (simp add: ex_relay_config_def)
  ultimately obtain r' where r: "Start ex_relay_config ex_env ex_db (NewManager (\<lambda>_. None)) = (Inr (), r')"
    and t: "tracked r' i \<longleftrightarrow> (\<exists>p\<in>set (rows (t_projects ex_db)). live p \<and> ID p = i \<and>
        pr_status p = ProjectStatusActive)" for i
    using start_supervises_active [of ex_db ex_env ex_relay_config "\<lambda>_. None"] by auto
  show ?thesis using r t [of 1] t [of 2] by simp
qed

subsection \<open>Refresh and projects that are not active\<close>

text \<open>
  Refresh does not look at the project's status: on a disabled project without a supervisor
  (after a restart of the server, or once UpdateProject removed it) it starts one.
\<close>
theorem refresh_ignores_status:
  assumes "\<forall>s. \<not> fault e s" and "mc_binary cfg \<noteq> []" and "\<not> rs_closed r" and "\<not> tracked r i"
    and "first_live (\<lambda>p. ID p = i) (t_projects d) = Some p"
    and "is_ok (parse_port_range (pr_relay_port_range p))"
  shows "\<exists>r'. Refresh cfg e i d r = (Inr (), r') \<and> tracked r' i"
proof -
  obtain lo hi where "parse_port_range (pr_relay_port_range p) = Inr (lo, hi)"
    using assms(6) by (auto simp: is_ok_def split: sum.splits)
  then obtain toml where t: "renderToFile cfg e i d r =
      (Inr (config_path cfg p), r\<lparr>rs_files := (rs_files r)(config_path cfg p \<mapsto> toml)\<rparr>)"
    using renderToFile_ok [OF assms(1,5)] by blast
  have n: "map_of (rs_sups r) i = None" using assms(4) by (simp add: tracked_def)
  show ?thesis
    using spawn_tracked [OF t assms(2,3) n] assms(3) n by (simp add: Refresh_def tracked_def update_conv')
qed

definition ex_disabled_db :: db where
  "ex_disabled_db = ex_db\<lparr>t_projects := \<lparr>rows = [ex_project\<lparr>pr_status := ProjectStatusDisabled\<rparr>], seq = 1\<rparr>\<rparr>"

theorem refresh_ignores_status_witness:
  "\<exists>r'. Refresh ex_relay_config ex_env 1 ex_disabled_db (NewManager (\<lambda>_. None)) = (Inr (), r') \<and> tracked r' 1"
proof (rule refresh_ignores_status [where p = "ex_project\<lparr>pr_status := ProjectStatusDisabled\<rparr>"])
  show "first_live (\<lambda>p. ID p = 1) (t_projects ex_disabled_db) = Some (ex_project\<lparr>pr_status := ProjectStatusDisabled\<rparr>)"
    by (simp add: ex_disabled_db_def first_live_def live_def ex_project_def)
qed (simp_all add: ex_relay_config_def NewManager_def tracked_def)

text \<open>A refresh on the example, from an empty manager and from one that runs the project.\<close>

theorem refresh_serves_current_witness:
  "\<exists>r' s. Refresh ex_relay_config ex_env 1 ex_db (NewManager (\<lambda>_. None)) = (Inr (), r') \<and>
     map_of (rs_sups r') 1 = Some s \<and> sp_args s = [''--server'', ''/cfg/acme.toml'']"
proof -
  have "first_live (\<lambda>p. ID p = 1) (t_projects ex_db) = Some ex_project" by (simp add: first_live_def)
  from renderToFile_ok [OF _ this ex_range, of ex_env ex_relay_config "NewManager (\<lambda>_. None)"]
  obtain toml where t: "renderToFile ex_relay_config ex_env 1 ex_db (NewManager (\<lambda>_. None)) =
      (Inr (config_path ex_relay_config ex_project), (NewManager (\<lambda>_. None))\<lparr>rs_files :=
        (rs_files (NewManager (\<lambda>_. None)))(config_path ex_relay_config ex_project \<mapsto> toml)\<rparr>)"
    by auto
  obtain r' where r: "Refresh ex_relay_config ex_env 1 ex_db (NewManager (\<lambda>_. None)) = (Inr (), r')"
    using spawn_tracked [OF t] by (auto simp: Refresh_def NewManager_def ex_relay_config_def)
  show ?thesis
    using refresh_serves_current [OF r] r
    by (auto simp: NewManager_def ex_relay_config_def config_path_def)
qed

text \<open>The file cannot be written the second time.\<close>

definition ex_second_fails :: env where
  "ex_second_fails = ex_env\<lparr>fault := (\<lambda>s. s = ''again: relay: write config'')\<rparr>"


end
