(* ===== verification/ProjectService.thy ===== *)
theory ProjectService
  imports RelayIface
begin

section \<open>ProjectService (internal/grpcsvc/project_service.go)\<close>

text \<open>
  The five RPCs, each as one function from the request's fields, the context and the server's
  state to the answer and the state after it, with the checks in the order of the source.
\<close>

record project_pb =
  pp_name :: string
  pp_project_id :: string
  pp_create_time :: time
  pp_update_time :: time
  pp_display_name :: string
  pp_relay_port_range :: string
  pp_status :: project_status_pb
  pp_default_mode :: site_mode_pb
  pp_backend :: backend_pb

definition project_to_proto :: "project_row \<Rightarrow> project_pb" where
  "project_to_proto p =
     \<lparr>pp_name = format_project_name (pr_slug p), pp_project_id = pr_slug p,
      pp_create_time = CreatedAt p, pp_update_time = UpdatedAt p,
      pp_display_name = pr_name p, pp_relay_port_range = pr_relay_port_range p,
      pp_status = project_status_to_proto (pr_status p),
      pp_default_mode = site_mode_to_proto (pr_default_mode p),
      pp_backend = backend_to_proto (pr_backend p)\<rparr>"

definition get_project :: "env \<Rightarrow> string \<Rightarrow> ('r, project_pb) handler" where
  "get_project e name cx w =
     (case cx_operator cx of
        None \<Rightarrow> (Inl not_authenticated, w)
      | Some op \<Rightarrow>
          (case parse_project_name name of
             Inl x \<Rightarrow> (Inl (Status InvalidArgument x), w)
           | Inr slug \<Rightarrow>
               (case project_find_by_slug e slug (wdb w) of
                  Inl x \<Rightarrow>
                    (if is_not_found x then (Inl (Status NotFound ''project not found''), w)
                     else (Inl (Status Internal ''lookup failed''), w))
                | Inr p \<Rightarrow>
                    if \<not> op_is_admin op \<and> \<not> has_project_access e (ID op) (ID p) (wdb w)
                    then (Inl (Status NotFound ''project not found''), w)
                    else (Inr (project_to_proto p), w))))"

record list_projects_response =
  lpr_projects :: "project_pb list"
  lpr_next_page_token :: string

definition list_projects :: "env \<Rightarrow> int \<Rightarrow> string \<Rightarrow> ('r, list_projects_response) handler" where
  "list_projects e page_size page_token cx w =
     (case cx_operator cx of
        None \<Rightarrow> (Inl not_authenticated, w)
      | Some op \<Rightarrow>
          (case (if op_is_admin op then project_list e page_size page_token (wdb w)
                 else project_list_accessible e (ID op) page_size page_token (wdb w)) of
             Inl x \<Rightarrow>
               (if x = ErrInvalidPageToken then (Inl (Status InvalidArgument ''invalid page_token''), w)
                else (Inl (Status Internal ''list failed''), w))
           | Inr page \<Rightarrow>
               (Inr \<lparr>lpr_projects = map project_to_proto page,
                     lpr_next_page_token = NextProjectPageToken page\<rparr>, w)))"

definition new_project_row :: "string \<Rightarrow> project_pb \<Rightarrow> project_row" where
  "new_project_row project_id pb =
     \<lparr>ID = 0, CreatedAt = 0, DeletedAt = None, UpdatedAt = 0, pr_slug = project_id,
      pr_name = pp_display_name pb,
      pr_default_mode = or_default (site_mode_from_proto (pp_default_mode pb)) SiteModeEndpoint,
      pr_backend = or_default (backend_from_proto (pp_backend pb)) BackendRathole,
      pr_relay_port_range = pp_relay_port_range pb, pr_status = ProjectStatusActive\<rparr>"

definition create_project ::
  "'r relay_iface \<Rightarrow> env \<Rightarrow> string \<Rightarrow> project_pb option \<Rightarrow> ('r, project_pb) handler" where
  "create_project rm e project_id body cx w =
     (case cx_operator cx of
        None \<Rightarrow> (Inl not_authenticated, w)
      | Some op \<Rightarrow>
          if \<not> op_is_admin op then (Inl admin_required, w)
          else
            (case body of
               None \<Rightarrow> (Inl (Status InvalidArgument ''project body is required''), w)
             | Some pb \<Rightarrow>
                 (case validate_slug project_id of
                    Some x \<Rightarrow> (Inl (Status InvalidArgument x), w)
                  | None \<Rightarrow>
                      if pp_display_name pb = []
                      then (Inl (Status InvalidArgument ''project.display_name is required''), w)
                      else if pp_relay_port_range pb = []
                      then (Inl (Status InvalidArgument ''project.relay_port_range is required''), w)
                      else
                        (case parse_port_range (pp_relay_port_range pb) of
                           Inl _ \<Rightarrow> (Inl (Status InvalidArgument ''relay_port_range: %v''), w)
                         | Inr (minP, maxP) \<Rightarrow>
                             (case overlaps_any e minP maxP 0 (wdb w) of
                                Inl _ \<Rightarrow> (Inl (Status Internal ''overlap check: %v''), w)
                              | Inr True \<Rightarrow>
                                  (Inl (Status FailedPrecondition
                                         ''relay_port_range %q overlaps another project's range''), w)
                              | Inr False \<Rightarrow>
                                   (case project_create e (new_project_row project_id pb) (wdb w) of
                                      (Inl x, d) \<Rightarrow>
                                        (if is_unique_constraint_err x
                                         then (Inl (Status AlreadyExists ''project slug already exists''),
                                               w\<lparr>wdb := d\<rparr>)
                                         else (Inl (Status Internal ''create failed''), w\<lparr>wdb := d\<rparr>))
                                    | (Inr row, d) \<Rightarrow>
                                        (Inr (project_to_proto row),
                                         relay_add rm e (ID row)
                                           (audit_w e cx
                                             \<lparr>ae_project_id = Some (ID row),
                                              ae_action = ''project.create'',
                                              ae_target = format_project_name (pr_slug row),
                                              ae_extra = [(''display_name'', EStr (pr_name row)),
                                                (''relay_port_range'', EStr (pr_relay_port_range row))]\<rparr>
                                             (w\<lparr>wdb := d\<rparr>)))))))))"

text \<open>The loop over the mask paths of UpdateProject, with the row and the changes so far.\<close>

fun project_mask_loop ::
  "env \<Rightarrow> project_pb \<Rightarrow> db \<Rightarrow> string list \<Rightarrow> project_row \<Rightarrow> extra \<Rightarrow> status + (project_row \<times> extra)" where
  "project_mask_loop e pb d [] cur changed = Inr (cur, changed)"
| "project_mask_loop e pb d (path # paths) cur changed =
     (if path = ''display_name'' then
        (if pp_display_name pb = []
         then Inl (Status InvalidArgument ''display_name cannot be empty'')
         else project_mask_loop e pb d paths (cur\<lparr>pr_name := pp_display_name pb\<rparr>)
                (extra_set ''display_name'' (EStr (pp_display_name pb)) changed))
      else if path = ''relay_port_range'' then
        (if pp_relay_port_range pb = []
         then Inl (Status InvalidArgument ''relay_port_range cannot be empty'')
         else
           (case parse_port_range (pp_relay_port_range pb) of
              Inl _ \<Rightarrow> Inl (Status InvalidArgument ''relay_port_range: %v'')
            | Inr (rMin, rMax) \<Rightarrow>
                (case overlaps_any e rMin rMax (ID cur) d of
                   Inl _ \<Rightarrow> Inl (Status Internal ''overlap check: %v'')
                 | Inr True \<Rightarrow>
                     Inl (Status FailedPrecondition
                            ''relay_port_range %q overlaps another project's range'')
                 | Inr False \<Rightarrow>
                     project_mask_loop e pb d paths
                       (cur\<lparr>pr_relay_port_range := pp_relay_port_range pb\<rparr>)
                       (extra_set ''relay_port_range'' (EStr (pp_relay_port_range pb)) changed))))
      else if path = ''default_mode'' then
        (let m = site_mode_from_proto (pp_default_mode pb) in
         if m = [] then Inl (Status InvalidArgument ''default_mode must be ENDPOINT or SUBNET'')
         else project_mask_loop e pb d paths (cur\<lparr>pr_default_mode := m\<rparr>)
                (extra_set ''default_mode'' (EStr m) changed))
      else if path = ''backend'' then
        (let b = backend_from_proto (pp_backend pb) in
         if b = [] then Inl (Status InvalidArgument ''backend must be RATHOLE or NETBIRD'')
         else project_mask_loop e pb d paths (cur\<lparr>pr_backend := b\<rparr>)
                (extra_set ''backend'' (EStr b) changed))
      else if path = ''status'' then
        (let st = project_status_from_proto (pp_status pb) in
         if st = [] then Inl (Status InvalidArgument ''status must be ACTIVE or DISABLED'')
         else project_mask_loop e pb d paths (cur\<lparr>pr_status := st\<rparr>)
                (extra_set ''status'' (EStr st) changed))
      else Inl (Status InvalidArgument ''unknown update_mask path: %q''))"

definition update_project ::
  "'r relay_iface \<Rightarrow> env \<Rightarrow> project_pb option \<Rightarrow> string list option \<Rightarrow> ('r, project_pb) handler" where
  "update_project rm e body update_mask cx w =
     (case cx_operator cx of
        None \<Rightarrow> (Inl not_authenticated, w)
      | Some op \<Rightarrow>
          if \<not> op_is_admin op then (Inl admin_required, w)
          else
            (case body of
               None \<Rightarrow> (Inl (Status InvalidArgument ''project body is required''), w)
             | Some pb \<Rightarrow>
                 if update_mask = None \<or> update_mask = Some []
                 then (Inl (Status InvalidArgument ''update_mask is required''), w)
                 else
                   (case parse_project_name (pp_name pb) of
                      Inl x \<Rightarrow> (Inl (Status InvalidArgument x), w)
                    | Inr slug \<Rightarrow>
                        (case project_find_by_slug e slug (wdb w) of
                           Inl x \<Rightarrow>
                             (if is_not_found x then (Inl (Status NotFound ''project not found''), w)
                              else (Inl (Status Internal ''lookup failed''), w))
                         | Inr cur \<Rightarrow>
                             (case project_mask_loop e pb (wdb w) (the update_mask) cur [] of
                                Inl st \<Rightarrow> (Inl st, w)
                              | Inr (cur, changed) \<Rightarrow>
                                  (case project_update e cur (wdb w) of
                                     (Inl _, d) \<Rightarrow> (Inl (Status Internal ''update failed''), w\<lparr>wdb := d\<rparr>)
                                   | (Inr _, d) \<Rightarrow>
                                       (let cur = touch (now e) cur;
                                            w1 = audit_w e cx
                                              \<lparr>ae_project_id = Some (ID cur),
                                               ae_action = ''project.update'',
                                               ae_target = format_project_name (pr_slug cur),
                                               ae_extra = changed\<rparr> (w\<lparr>wdb := d\<rparr>);
                                            w2 = (if pr_status cur = ProjectStatusActive
                                                  then relay_refresh rm e (ID cur) w1
                                                  else if pr_status cur = ProjectStatusDisabled
                                                  then relay_remove rm e (ID cur) w1
                                                  else w1)
                                        in (Inr (project_to_proto cur), w2))))))))"

definition delete_project :: "'r relay_iface \<Rightarrow> env \<Rightarrow> string \<Rightarrow> bool \<Rightarrow> ('r, unit) handler" where
  "delete_project rm e name force cx w =
     (case cx_operator cx of
        None \<Rightarrow> (Inl not_authenticated, w)
      | Some op \<Rightarrow>
          if \<not> op_is_admin op then (Inl admin_required, w)
          else
            (case parse_project_name name of
               Inl x \<Rightarrow> (Inl (Status InvalidArgument x), w)
             | Inr slug \<Rightarrow>
                 (case project_find_by_slug e slug (wdb w) of
                    Inl x \<Rightarrow>
                      (if is_not_found x then (Inl (Status NotFound ''project not found''), w)
                       else (Inl (Status Internal ''lookup failed''), w))
                  | Inr p \<Rightarrow>
                      (case (if force then Inr 0 else count_sites e (ID p) (wdb w)) of
                         Inl _ \<Rightarrow> (Inl (Status Internal ''site count failed''), w)
                       | Inr n \<Rightarrow>
                           if n > 0
                           then (Inl (Status FailedPrecondition
                                   ''project has %d sites; pass force=true to cascade''), w)
                           else
                             (case project_delete e (ID p) (wdb w) of
                                (Inl _, d) \<Rightarrow> (Inl (Status Internal ''delete failed''), w\<lparr>wdb := d\<rparr>)
                              | (Inr _, d) \<Rightarrow>
                                  (Inr (),
                                   relay_remove rm e (ID p)
                                     (audit_w e cx
                                       \<lparr>ae_project_id = Some (ID p), ae_action = ''project.delete'',
                                        ae_target = format_project_name (pr_slug p),
                                        ae_extra = [(''force'', EBool force)]\<rparr>
                                       (w\<lparr>wdb := d\<rparr>))))))))"

subsection \<open>Failures leave the state alone\<close>

lemma project_create_Inl: "project_create e p d = (Inl x, d') \<Longrightarrow> d' = d"
  by (auto simp: project_create_def Let_def split: if_splits prod.splits)

lemma project_update_Inl: "project_update e p d = (Inl x, d') \<Longrightarrow> d' = d"
  by (auto simp: project_update_def split: if_splits)

lemma project_delete_Inl: "project_delete e i d = (Inl x, d') \<Longrightarrow> d' = d"
  by (auto simp: project_delete_def split: if_splits)

lemma world_id [simp]: "w\<lparr>wdb := wdb w\<rparr> = (w :: 'r world)"
  by simp

lemma create_project_Inl:
  assumes "create_project rm e project_id body cx w = (Inl st, w')"
  shows "w' = w"
  using assms unfolding create_project_def
  by (auto simp: Let_def split: option.splits sum.splits if_splits prod.splits bool.splits
      dest!: project_create_Inl)

lemma update_project_Inl:
  assumes "update_project rm e body mk cx w = (Inl st, w')"
  shows "w' = w"
  using assms unfolding update_project_def
  by (auto simp: Let_def split: option.splits sum.splits if_splits prod.splits
      dest!: project_update_Inl)

lemma delete_project_Inl:
  assumes "delete_project rm e name force cx w = (Inl st, w')"
  shows "w' = w"
  using assms unfolding delete_project_def
  by (auto simp: Let_def split: option.splits sum.splits if_splits prod.splits
      dest!: project_delete_Inl)

subsection \<open>What a successful call did\<close>

lemma create_project_Inr:
  assumes "create_project rm e project_id body cx w = (Inr out, w')"
  shows "\<exists>op pb lo hi row d en. cx_operator cx = Some op \<and> op_is_admin op \<and> body = Some pb \<and>
    validate_slug project_id = None \<and> parse_port_range (pp_relay_port_range pb) = Inr (lo, hi) \<and>
    overlaps_any e lo hi 0 (wdb w) = Inr False \<and>
    project_create e (new_project_row project_id pb) (wdb w) = (Inr row, d) \<and>
    out = project_to_proto row \<and> w' = relay_add rm e (ID row) (audit_w e cx en (w\<lparr>wdb := d\<rparr>))"
proof -
  obtain op pb lo hi row d where
    h: "cx_operator cx = Some op" "op_is_admin op" "body = Some pb" "validate_slug project_id = None"
      "parse_port_range (pp_relay_port_range pb) = Inr (lo, hi)"
      "overlaps_any e lo hi 0 (wdb w) = Inr False"
      "project_create e (new_project_row project_id pb) (wdb w) = (Inr row, d)"
      "pp_display_name pb \<noteq> []" "pp_relay_port_range pb \<noteq> []"
    using assms unfolding create_project_def
    by (auto split: option.splits sum.splits if_splits prod.splits bool.splits)
  have "out = project_to_proto row \<and>
      (\<exists>en. w' = relay_add rm e (ID row) (audit_w e cx en (w\<lparr>wdb := d\<rparr>)))"
    using assms h unfolding create_project_def by auto
  then show ?thesis using h by metis
qed

lemma update_project_Inr:
  assumes "update_project rm e body mk cx w = (Inr out, w')"
  shows "\<exists>op pb cur cur' changed d en. cx_operator cx = Some op \<and> op_is_admin op \<and> body = Some pb \<and>
    cur \<in> set (rows (t_projects (wdb w))) \<and> live cur \<and> format_project_name (pr_slug cur) = pp_name pb \<and>
    project_mask_loop e pb (wdb w) (the mk) cur [] = Inr (cur', changed) \<and>
    project_update e cur' (wdb w) = (Inr (), d) \<and> out = project_to_proto (touch (now e) cur') \<and>
    w' = (let w1 = audit_w e cx en (w\<lparr>wdb := d\<rparr>) in
          if pr_status cur' = ProjectStatusActive then relay_refresh rm e (ID cur') w1
          else if pr_status cur' = ProjectStatusDisabled then relay_remove rm e (ID cur') w1 else w1)"
proof -
  obtain op pb slug cur cur' changed d where
    h: "cx_operator cx = Some op" "op_is_admin op" "body = Some pb"
      "parse_project_name (pp_name pb) = Inr slug" "project_find_by_slug e slug (wdb w) = Inr cur"
      "project_mask_loop e pb (wdb w) (the mk) cur [] = Inr (cur', changed)"
      "project_update e cur' (wdb w) = (Inr (), d)" "\<not> (mk = None \<or> mk = Some [])"
    using assms unfolding update_project_def
    by (auto simp: Let_def split: option.splits sum.splits if_splits prod.splits)
  let ?en = "\<lparr>ae_project_id = Some (ID cur'), ae_action = ''project.update'',
     ae_target = format_project_name (pr_slug cur'), ae_extra = changed\<rparr>"
  have "out = project_to_proto (touch (now e) cur') \<and>
    w' = (let w1 = audit_w e cx ?en (w\<lparr>wdb := d\<rparr>) in
          if pr_status cur' = ProjectStatusActive then relay_refresh rm e (ID cur') w1
          else if pr_status cur' = ProjectStatusDisabled then relay_remove rm e (ID cur') w1 else w1)"
    using assms h unfolding update_project_def by (auto simp: Let_def)
  moreover have "cur \<in> set (rows (t_projects (wdb w)))" "live cur" "pr_slug cur = slug"
    using project_find_by_slug_Inr [OF h(5)] by simp_all
  moreover have "pp_name pb = format_project_name slug"
    using h(4) by (simp add: parse_project_name_iff)
  ultimately show ?thesis using h by metis
qed

lemma delete_project_Inr:
  assumes "delete_project rm e name force cx w = (Inr out, w')"
  shows "\<exists>op p d en. cx_operator cx = Some op \<and> op_is_admin op \<and>
    p \<in> set (rows (t_projects (wdb w))) \<and> live p \<and> format_project_name (pr_slug p) = name \<and>
    (\<not> force \<longrightarrow> count_sites e (ID p) (wdb w) = Inr 0) \<and>
    project_delete e (ID p) (wdb w) = (Inr (), d) \<and>
    w' = relay_remove rm e (ID p) (audit_w e cx en (w\<lparr>wdb := d\<rparr>))"
proof -
  obtain op slug p d where
    h: "cx_operator cx = Some op" "op_is_admin op" "parse_project_name name = Inr slug"
      "project_find_by_slug e slug (wdb w) = Inr p" "\<not> force \<longrightarrow> count_sites e (ID p) (wdb w) = Inr 0"
      "project_delete e (ID p) (wdb w) = (Inr (), d)"
    using assms unfolding delete_project_def
    by (auto split: option.splits sum.splits if_splits prod.splits)
  have "\<exists>en. w' = relay_remove rm e (ID p) (audit_w e cx en (w\<lparr>wdb := d\<rparr>))"
    using assms h unfolding delete_project_def by (cases force) auto
  moreover have "p \<in> set (rows (t_projects (wdb w)))" "live p" "pr_slug p = slug"
    using project_find_by_slug_Inr [OF h(4)] by simp_all
  moreover have "name = format_project_name slug"
    using h(3) by (simp add: parse_project_name_iff)
  ultimately show ?thesis using h by metis
qed

subsection \<open>The DAO writes\<close>

lemma project_create_effect:
  assumes "project_create e p d = (Inr r, d')"
  shows "d' = d\<lparr>t_projects := t_projects d'\<rparr> \<and> rows (t_projects d') = rows (t_projects d) @ [r] \<and>
    seq (t_projects d') = Suc (seq (t_projects d)) \<and> ID r = Suc (seq (t_projects d)) \<and> live r \<and>
    pr_slug r = pr_slug p \<and> pr_relay_port_range r = pr_relay_port_range p \<and>
    pr_status r = or_default (pr_status p) ProjectStatusActive \<and>
    \<not> conflicts pr_slug (pr_slug r) 0 (t_projects d)"
  using assms
  by (auto simp: project_create_def Let_def tbl_append_def stamp_new_def live_def split: if_splits)

lemma project_update_effect:
  assumes "project_update e p d = (Inr (), d')"
  shows "d' = d\<lparr>t_projects := tbl_save (touch (now e) p) (t_projects d)\<rparr> \<and>
    (live p \<longrightarrow> \<not> conflicts pr_slug (pr_slug p) (ID p) (t_projects d))"
  using assms by (auto simp: project_update_def split: if_splits)

lemma project_delete_effect:
  assumes "project_delete e i d = (Inr (), d')"
  shows "d' = d\<lparr>t_projects := delete_live (now e) (\<lambda>p. ID p = i) (t_projects d)\<rparr>"
  using assms by (auto simp: project_delete_def split: if_splits)

lemma project_create_wf: "db_wf d \<Longrightarrow> project_create e p d = (Inr r, d') \<Longrightarrow> db_wf d'"
  by (drule project_create_effect)
    (metis db_wfD(3,12) db_wf_set_table(2) tbl_wf_snoc uniq_live_snoc)

lemma project_update_wf:
  assumes "db_wf d" "project_update e p d = (Inr (), d')" "live p"
    "\<exists>x\<in>set (rows (t_projects d)). ID x = ID p"
  shows "db_wf d'"
proof -
  let ?p = "touch (now e) p"
  have "tbl_wf (tbl_save ?p (t_projects d))"
    by (rule tbl_wf_save) (use assms db_wfD(3) in auto)
  moreover have "uniq_live pr_slug (tbl_save ?p (t_projects d))"
    by (rule uniq_live_save) (use assms project_update_effect [OF assms(2)] db_wfD(12) in auto)
  ultimately show ?thesis
    using project_update_effect [OF assms(2)] db_wf_set_table(2) [OF assms(1)] by simp
qed

lemma project_delete_wf: "db_wf d \<Longrightarrow> project_delete e i d = (Inr (), d') \<Longrightarrow> db_wf d'"
  by (drule project_delete_effect)
    (auto intro!: db_wf_set_table(2) tbl_wf_delete uniq_live_delete dest: db_wfD)

subsection \<open>The invariant of the projects table\<close>

definition project_range :: "project_row \<Rightarrow> err + (port \<times> port)" where
  "project_range p = parse_port_range (pr_relay_port_range p)"

definition ranges_apart :: "project_row \<Rightarrow> project_row \<Rightarrow> bool" where
  "ranges_apart p q =
     (case (project_range p, project_range q) of
        (Inr (a, b), Inr (c, d)) \<Rightarrow> b < c \<or> d < a
      | _ \<Rightarrow> False)"

definition project_ok :: "project_row \<Rightarrow> bool" where
  "project_ok p = (validate_slug (pr_slug p) = None \<and> is_ok (project_range p) \<and>
     pr_status p \<in> {ProjectStatusActive, ProjectStatusDisabled})"

text \<open>Live projects have a valid slug, range and status, and their ranges do not meet.\<close>

definition projects_ok :: "db \<Rightarrow> bool" where
  "projects_ok d =
     ((\<forall>p\<in>set (rows (t_projects d)). live p \<longrightarrow> project_ok p) \<and>
      (\<forall>p\<in>set (rows (t_projects d)). \<forall>q\<in>set (rows (t_projects d)).
         live p \<longrightarrow> live q \<longrightarrow> ID p \<noteq> ID q \<longrightarrow> ranges_apart p q))"

lemma projects_okD:
  assumes "projects_ok d" "p \<in> set (rows (t_projects d))" "live p"
  shows "validate_slug (pr_slug p) = None" "is_ok (project_range p)"
    "pr_status p = ProjectStatusActive \<or> pr_status p = ProjectStatusDisabled"
  using assms by (auto simp: projects_ok_def project_ok_def)

lemma ranges_apart_sym: "ranges_apart p q \<Longrightarrow> ranges_apart q p"
  by (auto simp: ranges_apart_def split: sum.splits prod.splits)

lemma ranges_apart_cong:
  "pr_relay_port_range p = pr_relay_port_range p' \<Longrightarrow> ranges_apart p q = ranges_apart p' q"
  by (simp add: ranges_apart_def project_range_def)

lemma overlaps_any_apart:
  assumes "overlaps_any e lo hi i d = Inr False" "project_range r = Inr (lo, hi)"
    "p \<in> set (rows (t_projects d))" "live p" "ID p \<noteq> i \<or> i = 0" "is_ok (project_range p)"
  shows "ranges_apart r p"
proof -
  obtain a b where ab: "project_range p = Inr (a, b)"
    using assms(6) by (cases "project_range p") auto
  then have "\<not> (lo \<le> b \<and> a \<le> hi)"
    using overlaps_any_False [OF assms(1,3-5)] by (simp add: project_range_def)
  then show ?thesis using ab assms(2) by (auto simp: ranges_apart_def not_le)
qed

text \<open>One row changes or is added: it must be valid and apart from the other live rows.\<close>

lemma projects_ok_step:
  assumes "projects_ok d" "project_ok r"
    and rows: "\<And>x. x \<in> set (rows (t_projects d')) \<Longrightarrow>
      x = r \<or> (x \<in> set (rows (t_projects d)) \<and> ID x \<noteq> ID r)"
    and apart: "\<And>x. x \<in> set (rows (t_projects d)) \<Longrightarrow> live x \<Longrightarrow> ID x \<noteq> ID r \<Longrightarrow> ranges_apart r x"
  shows "projects_ok d'"
  unfolding projects_ok_def
proof (intro conjI ballI impI)
  fix p assume "p \<in> set (rows (t_projects d'))" "live p"
  then show "project_ok p" using rows assms(1,2) unfolding projects_ok_def by blast
next
  fix p q
  assume pq: "p \<in> set (rows (t_projects d'))" "q \<in> set (rows (t_projects d'))" "live p" "live q"
    "ID p \<noteq> ID q"
  consider "p = r" | "q = r" | "p \<in> set (rows (t_projects d))" "q \<in> set (rows (t_projects d))"
    using rows pq(1,2) by blast
  then show "ranges_apart p q"
  proof cases
    case 1
    then show ?thesis using rows [OF pq(2)] apart pq by auto
  next
    case 2
    then show ?thesis using rows [OF pq(1)] apart pq ranges_apart_sym by metis
  next
    case 3
    then show ?thesis using assms(1) pq unfolding projects_ok_def by blast
  qed
qed

lemma projects_ok_frame: "t_projects d' = t_projects d \<Longrightarrow> projects_ok d' = projects_ok d"
  by (simp add: projects_ok_def)

text \<open>The mask loop keeps the row's identity and only takes a range the overlap check passed.\<close>

lemma project_mask_loop_Inr:
  assumes "project_mask_loop e pb d paths cur changed = Inr (cur', changed')"
  shows "ID cur' = ID cur \<and> pr_slug cur' = pr_slug cur \<and> (live cur' \<longleftrightarrow> live cur) \<and>
    (pr_relay_port_range cur' = pr_relay_port_range cur \<or>
      (\<exists>lo hi. parse_port_range (pr_relay_port_range cur') = Inr (lo, hi) \<and>
         overlaps_any e lo hi (ID cur) d = Inr False)) \<and>
    (pr_status cur' = pr_status cur \<or> pr_status cur' \<in> {ProjectStatusActive, ProjectStatusDisabled})"
  using assms
proof (induction e pb d paths cur changed rule: project_mask_loop.induct)
  case (1 e pb d cur changed)
  then show ?case by simp
next
  case (2 e pb d path paths cur changed)
  have st: "project_status_from_proto s \<in> {ProjectStatusActive, ProjectStatusDisabled, []}" for s
    by (cases s) auto
  consider "path = ''display_name''" | "path = ''relay_port_range''" | "path = ''default_mode''"
    | "path = ''backend''" | "path = ''status''"
    using 2(6) by (auto split: if_splits)
  then show ?case
  proof cases
    case 1
    then show ?thesis using 2(1) 2(6) by (simp split: if_splits)
  next
    case p: 2
    obtain lo hi where lh: "parse_port_range (pp_relay_port_range pb) = Inr (lo, hi)"
      "overlaps_any e lo hi (ID cur) d = Inr False" "pp_relay_port_range pb \<noteq> []"
      using 2(6) p by (auto split: if_splits sum.splits prod.splits bool.splits)
    show ?thesis using 2(2) [OF _ p lh(3,1) refl lh(2)] 2(6) p lh by auto
  next
    case 3
    then show ?thesis using 2(3) 2(6) by (simp add: Let_def split: if_splits)
  next
    case 4
    then show ?thesis using 2(4) 2(6) by (simp add: Let_def split: if_splits)
  next
    case 5
    then show ?thesis using 2(5) 2(6) st [of "pp_status pb"] by (auto simp: Let_def split: if_splits)
  qed
qed

subsection \<open>The handlers keep the invariant\<close>

lemma projects_ok_audited [simp]: "projects_ok (audited e cx en d) = projects_ok d"
  by (simp add: projects_ok_def audited_frame)

lemma create_project_keeps:
  assumes "db_wf (wdb w)" "projects_ok (wdb w)" "create_project rm e project_id body cx w = (r, w')"
  shows "db_wf (wdb w') \<and> projects_ok (wdb w')"
proof (cases r)
  case (Inl st)
  then have "w' = w" using create_project_Inl assms(3) by blast
  then show ?thesis using assms by simp
next
  case (Inr out)
  from create_project_Inr [OF assms(3) [unfolded Inr]] obtain pb lo hi row d en where
    h: "validate_slug project_id = None" "parse_port_range (pp_relay_port_range pb) = Inr (lo, hi)"
      "overlaps_any e lo hi 0 (wdb w) = Inr False"
      "project_create e (new_project_row project_id pb) (wdb w) = (Inr row, d)"
      "w' = relay_add rm e (ID row) (audit_w e cx en (w\<lparr>wdb := d\<rparr>))"
    by blast
  have eff: "rows (t_projects d) = rows (t_projects (wdb w)) @ [row]"
    "ID row = Suc (seq (t_projects (wdb w)))" "pr_slug row = project_id"
    "project_range row = Inr (lo, hi)" "pr_status row = ProjectStatusActive"
    using project_create_effect [OF h(4)] h(2)
    by (simp_all add: new_project_row_def project_range_def or_default_def ProjectStatusActive_def)
  have "projects_ok d"
  proof (rule projects_ok_step [OF assms(2)])
    show "project_ok row" using eff h(1) by (simp add: project_ok_def)
    show "x = row \<or> x \<in> set (rows (t_projects (wdb w))) \<and> ID x \<noteq> ID row"
      if "x \<in> set (rows (t_projects d))" for x
      using that db_wfD(3) [OF assms(1)] unfolding eff(1,2) tbl_wf_def by fastforce
    show "ranges_apart row x" if "x \<in> set (rows (t_projects (wdb w)))" "live x" for x
      by (rule overlaps_any_apart [OF h(3) eff(4) that]) (use projects_okD [OF assms(2) that] in auto)
  qed
  moreover have "db_wf d" by (rule project_create_wf [OF assms(1) h(4)])
  ultimately show ?thesis
    using h(5) by (simp add: audited_db_wf)
qed

lemma update_project_keeps:
  assumes "db_wf (wdb w)" "projects_ok (wdb w)" "update_project rm e body mk cx w = (r, w')"
  shows "db_wf (wdb w') \<and> projects_ok (wdb w')"
proof (cases r)
  case (Inl st)
  then have "w' = w" using update_project_Inl assms(3) by blast
  then show ?thesis using assms by simp
next
  case (Inr out)
  from update_project_Inr [OF assms(3) [unfolded Inr]] obtain pb cur cur' changed d en where
    h: "cur \<in> set (rows (t_projects (wdb w)))" "live cur"
      "project_mask_loop e pb (wdb w) (the mk) cur [] = Inr (cur', changed)"
      "project_update e cur' (wdb w) = (Inr (), d)"
      and w': "wdb w' = audited e cx en d"
    by (auto simp: Let_def split: if_splits)
  note m = project_mask_loop_Inr [OF h(3)]
  let ?p = "touch (now e) cur'"
  have ex: "\<exists>x\<in>set (rows (t_projects (wdb w))). ID x = ID cur'" using h(1) m by auto
  have rows: "rows (t_projects d) = map (\<lambda>x. if ID x = ID ?p then ?p else x) (rows (t_projects (wdb w)))"
    using project_update_effect [OF h(4)] tbl_save_rows(1) [of "t_projects (wdb w)" ?p] ex by simp
  note pok = projects_okD [OF assms(2) h(1,2)]
  have idpos: "ID cur \<noteq> 0" using db_wfD(3) [OF assms(1)] h(1) by (auto simp: tbl_wf_def)
  have "projects_ok d"
  proof (rule projects_ok_step [OF assms(2)])
    show "project_ok ?p" using m pok by (auto simp: project_ok_def project_range_def)
    show "x = ?p \<or> x \<in> set (rows (t_projects (wdb w))) \<and> ID x \<noteq> ID ?p"
      if "x \<in> set (rows (t_projects d))" for x
      using that unfolding rows by auto
    show "ranges_apart ?p x"
      if x: "x \<in> set (rows (t_projects (wdb w)))" "live x" "ID x \<noteq> ID ?p" for x
    proof (cases "pr_relay_port_range cur' = pr_relay_port_range cur")
      case True
      have "ID cur \<noteq> ID x" using x(3) m by simp
      then have "ranges_apart cur x" using assms(2) h(1,2) x unfolding projects_ok_def by blast
      then show ?thesis using True ranges_apart_cong [of ?p cur x] by simp
    next
      case False
      then obtain lo hi where lh: "parse_port_range (pr_relay_port_range cur') = Inr (lo, hi)"
        "overlaps_any e lo hi (ID cur) (wdb w) = Inr False"
        using m by blast
      show ?thesis
        by (rule overlaps_any_apart [OF lh(2) _ x(1,2)])
          (use lh(1) x(3) m projects_okD [OF assms(2) x(1,2)] in \<open>auto simp: project_range_def\<close>)
    qed
  qed
  moreover have "db_wf d"
    by (rule project_update_wf [OF assms(1) h(4)]) (use m h ex in auto)
  ultimately show ?thesis
    using w' by (simp add: audited_db_wf)
qed

lemma delete_project_keeps:
  assumes "db_wf (wdb w)" "projects_ok (wdb w)" "delete_project rm e name force cx w = (r, w')"
  shows "db_wf (wdb w') \<and> projects_ok (wdb w')"
proof (cases r)
  case (Inl st)
  then have "w' = w" using delete_project_Inl assms(3) by blast
  then show ?thesis using assms by simp
next
  case (Inr out)
  from delete_project_Inr [OF assms(3) [unfolded Inr]] obtain p :: project_row and d en where
    h: "project_delete e (ID p) (wdb w) = (Inr (), d)"
      "w' = relay_remove rm e (ID p) (audit_w e cx en (w\<lparr>wdb := d\<rparr>))"
    by blast
  have "t_projects d = delete_live (now e) (\<lambda>x. ID x = ID p) (t_projects (wdb w))"
    using project_delete_effect [OF h(1)] by simp
  then have "x \<in> set (rows (t_projects (wdb w)))" if "x \<in> set (rows (t_projects d))" "live x" for x
    using that delete_live_survivor by metis
  then have "projects_ok d" using assms(2) unfolding projects_ok_def by blast
  moreover have "db_wf d" by (rule project_delete_wf [OF assms(1) h(1)])
  ultimately show ?thesis
    using h(2) by (simp add: audited_db_wf)
qed

text \<open>The tables a project handler leaves alone.\<close>

definition only_projects :: "db \<Rightarrow> db \<Rightarrow> bool" where
  "only_projects d d' =
     (t_operators d' = t_operators d \<and> t_sessions d' = t_sessions d \<and> t_accesses d' = t_accesses d \<and>
      t_sites d' = t_sites d \<and> t_agent_tokens d' = t_agent_tokens d \<and>
      t_services d' = t_services d \<and> t_sa_tokens d' = t_sa_tokens d)"

lemma only_projects_refl [simp]: "only_projects d d"
  by (simp add: only_projects_def)

lemma only_projects_audited [simp]: "only_projects d (audited e cx en d') = only_projects d d'"
  by (simp add: only_projects_def audited_frame)

lemma project_dao_frame:
  "project_create e p d = (r, d') \<Longrightarrow> only_projects d d'"
  "project_update e p d = (r', d') \<Longrightarrow> only_projects d d'"
  "project_delete e i d = (r', d') \<Longrightarrow> only_projects d d'"
  by (auto simp: project_create_def project_update_def project_delete_def only_projects_def Let_def
      split: if_splits prod.splits)

lemma create_project_frame:
  assumes "create_project rm e project_id body cx w = (r, w')"
  shows "only_projects (wdb w) (wdb w')"
proof (cases r)
  case (Inl st)
  then show ?thesis using create_project_Inl [OF assms [unfolded Inl]] by simp
next
  case (Inr out)
  then show ?thesis
    using create_project_Inr [OF assms [unfolded Inr]] project_dao_frame(1) by fastforce
qed

lemma update_project_frame:
  assumes "update_project rm e body mk cx w = (r, w')"
  shows "only_projects (wdb w) (wdb w')"
proof (cases r)
  case (Inl st)
  then show ?thesis using update_project_Inl [OF assms [unfolded Inl]] by simp
next
  case (Inr out)
  from update_project_Inr [OF assms [unfolded Inr]] obtain p d en where
    "project_update e p (wdb w) = (Inr (), d)" "wdb w' = audited e cx en d"
    by (auto simp: Let_def split: if_splits)
  then show ?thesis using project_dao_frame(2) by simp
qed

lemma delete_project_frame:
  assumes "delete_project rm e name force cx w = (r, w')"
  shows "only_projects (wdb w) (wdb w')"
proof (cases r)
  case (Inl st)
  then show ?thesis using delete_project_Inl [OF assms [unfolded Inl]] by simp
next
  case (Inr out)
  then show ?thesis
    using delete_project_Inr [OF assms [unfolded Inr]] project_dao_frame(3) by fastforce
qed

lemma read_projects_frame:
  "get_project e name cx w = (r, w') \<Longrightarrow> w' = w"
  "list_projects e n tok cx w = (r', w') \<Longrightarrow> w' = w"
  by (auto simp: get_project_def list_projects_def split: option.splits sum.splits if_splits)

subsection \<open>Reading: masking and paging\<close>

lemma parse_acme: "parse_project_name ''projects/acme'' = Inr ''acme''"
  by code_simp

text \<open>
  C37. A caller who is no administrator and has no grant on a project gets from GetProject exactly
  the answer it would get if the project did not exist, whatever the database does otherwise:
  the RPC does not reveal which slugs are taken.
\<close>
theorem get_project_masks_existence:
  assumes "cx_operator cx = Some op" and "\<not> op_is_admin op"
    and "parse_project_name name = Inr slug"
    and "\<forall>p. project_find_by_slug e slug (wdb w) = Inr p \<longrightarrow> \<not> granted (ID op) (ID p) (wdb w)"
    and "\<forall>q\<in>set (rows t'). live q \<longrightarrow> pr_slug q \<noteq> slug"
  shows "fst (get_project e name cx w) =
    fst (get_project e name cx (w\<lparr>wdb := (wdb w)\<lparr>t_projects := t'\<rparr>\<rparr>))"
proof -
  have "first_live (\<lambda>p. pr_slug p = slug) t' = None"
    using assms(5) by (simp add: first_live_None)
  then show ?thesis
    using assms(1-4)
    by (auto simp: get_project_def has_project_access_def project_find_by_slug_def
        split: if_splits option.splits)
qed

theorem get_project_masks_existence_witness:
  "fst (get_project ex_env ''projects/acme'' (raw_ctx None\<lparr>cx_operator := Some ex_user\<rparr>) ex_world) =
   fst (get_project ex_env ''projects/acme'' (raw_ctx None\<lparr>cx_operator := Some ex_user\<rparr>)
     (ex_world\<lparr>wdb := ex_db\<lparr>t_projects := tbl_empty\<rparr>\<rparr>))"
  using get_project_masks_existence [of "raw_ctx None\<lparr>cx_operator := Some ex_user\<rparr>" ex_user
      "''projects/acme''" "''acme''" ex_env ex_world tbl_empty]
  by (simp add: parse_acme granted_iff)

text \<open>The projects an operator may list.\<close>

definition visible_projects :: "operator_row \<Rightarrow> db \<Rightarrow> project_row list" where
  "visible_projects op d =
     select_live (\<lambda>p. op_is_admin op \<or> granted (ID op) (ID p) d) (t_projects d)"

definition list_projects_page ::
  "env \<Rightarrow> int \<Rightarrow> ctx \<Rightarrow> 'r world \<Rightarrow> string \<Rightarrow> (project_pb list \<times> string) option" where
  "list_projects_page e n cx w tok =
     (case fst (list_projects e n tok cx w) of
        Inl _ \<Rightarrow> None
      | Inr r \<Rightarrow> Some (lpr_projects r, lpr_next_page_token r))"

lemma granted_select:
  "ID p \<in> ac_project_id ` set (select_live (\<lambda>a. ac_operator_id a = i) (t_accesses d)) \<longleftrightarrow> granted i (ID p) d"
  unfolding granted_iff set_select_live image_iff by (auto intro: sym)

text \<open>
  C38. A client that follows the page tokens of ListProjects, with any page size, gets every
  project it may see exactly once, in the order of their keys, and then an empty token: all live
  projects for an administrator, and those with a live grant for anyone else.
\<close>
theorem list_projects_complete:
  assumes "tbl_wf (t_projects (wdb w))" and "seq (t_projects (wdb w)) < 2 ^ 64"
    and "cx_operator cx = Some op" and "\<forall>s. \<not> fault e s"
    and "length (visible_projects op (wdb w)) < fuel"
  shows "crawl_rpc fuel (list_projects_page e n cx w) [] =
    Some (map project_to_proto (visible_projects op (wdb w)))"
  unfolding visible_projects_def
proof (rule crawl_rpc_live [OF assms(1,2), where n = n])
  fix tok cur
  assume c: "cursor_of tok = Inr cur"
  have "(if op_is_admin op then project_list e n tok (wdb w)
         else project_list_accessible e (ID op) n tok (wdb w)) =
      Inr (page_live (\<lambda>p. op_is_admin op \<or> granted (ID op) (ID p) (wdb w)) cur (clamp_page_size n)
            (t_projects (wdb w)))"
    using c assms(4) by (simp add: project_list_def project_list_accessible_def granted_select)
  then show "list_projects_page e n cx w tok = Some
      (map project_to_proto (page_live (\<lambda>p. op_is_admin op \<or> granted (ID op) (ID p) (wdb w)) cur
          (clamp_page_size n) (t_projects (wdb w))),
       next_page_token (page_live (\<lambda>p. op_is_admin op \<or> granted (ID op) (ID p) (wdb w)) cur
          (clamp_page_size n) (t_projects (wdb w))))"
    using assms(3) by (simp add: list_projects_page_def list_projects_def NextProjectPageToken_def)
qed (use assms(5) in \<open>simp add: visible_projects_def\<close>)

theorem list_projects_complete_witness:
  "crawl_rpc 5 (list_projects_page ex_env 1 (raw_ctx None\<lparr>cx_operator := Some ex_admin\<rparr>) ex_world) [] =
     Some [project_to_proto ex_project]"
  using list_projects_complete [of ex_world "raw_ctx None\<lparr>cx_operator := Some ex_admin\<rparr>" ex_admin
      ex_env 5 1]
  by (simp add: ex_wf db_wfD(3) visible_projects_def select_live_def)

end
