(* ===== verification/SiteService.thy ===== *)
theory SiteService
  imports ProjectService
begin

section \<open>SiteService (internal/grpcsvc/site_service.go)\<close>

text \<open>
  The site RPCs. \<open>site_config\<close> holds the service's construction parameters. A site's
  display_name has no column: it is only echoed.
\<close>

record site_config =
  sc_relay_addr :: string
  sc_public_base_url :: string
  sc_public_grpc_endpoint :: string

definition new_site_service :: "string \<Rightarrow> string \<Rightarrow> string \<Rightarrow> site_config" where
  "new_site_service relay_addr base_url grpc_endpoint =
     \<lparr>sc_relay_addr = (if relay_addr = [] then ''relay.example.com:443'' else relay_addr),
      sc_public_base_url = base_url, sc_public_grpc_endpoint = grpc_endpoint\<rparr>"

definition resolve_project :: "env \<Rightarrow> ctx \<Rightarrow> string \<Rightarrow> db \<Rightarrow> status + project_row" where
  "resolve_project e cx parent d =
     (case cx_operator cx of
        None \<Rightarrow> Inl not_authenticated
      | Some op \<Rightarrow>
          (case parse_project_parent parent of
             Inl x \<Rightarrow> Inl (Status InvalidArgument x)
           | Inr slug \<Rightarrow>
               (case project_find_by_slug e slug d of
                  Inl x \<Rightarrow>
                    (if is_not_found x then Inl (Status NotFound ''project not found'')
                     else Inl (Status Internal ''lookup failed''))
                | Inr p \<Rightarrow>
                    if \<not> op_is_admin op \<and> \<not> has_project_access e (ID op) (ID p) d
                    then Inl (Status NotFound ''project not found'')
                    else Inr p)))"

definition resolve_site :: "env \<Rightarrow> ctx \<Rightarrow> string \<Rightarrow> db \<Rightarrow> status + (project_row \<times> site_row)" where
  "resolve_site e cx name d =
     (case cx_operator cx of
        None \<Rightarrow> Inl not_authenticated
      | Some op \<Rightarrow>
          (case parse_site_name name of
             Inl x \<Rightarrow> Inl (Status InvalidArgument x)
           | Inr sn \<Rightarrow>
               (case resolve_project e cx (''projects/'' @ sn_project sn) d of
                  Inl st \<Rightarrow> Inl st
                | Inr p \<Rightarrow>
                    (case site_find_by_name e (ID p) (sn_site sn) d of
                       Inl x \<Rightarrow>
                         (if is_not_found x then Inl (Status NotFound ''site not found'')
                          else Inl (Status Internal ''lookup failed''))
                     | Inr site \<Rightarrow> Inr (p, site)))))"

record site_pb =
  sp_name :: string
  sp_site_id :: string
  sp_display_name :: string
  sp_mode :: site_mode_pb
  sp_backend :: backend_pb
  sp_status :: site_status_pb
  sp_hostname :: string
  sp_os :: string
  sp_agent_version :: string
  sp_create_time :: time
  sp_update_time :: time
  sp_last_seen_time :: "time option"
  sp_lan_cidrs :: "string list"

definition site_to_proto :: "project_row \<Rightarrow> site_row \<Rightarrow> site_pb" where
  "site_to_proto p s =
     \<lparr>sp_name = format_site_name (pr_slug p) (si_name s), sp_site_id = si_name s,
      sp_display_name = si_name s, sp_mode = site_mode_to_proto (si_mode s),
      sp_backend = backend_to_proto (si_backend s), sp_status = site_status_to_proto (si_status s),
      sp_hostname = si_hostname s, sp_os = si_os s, sp_agent_version = si_agent_version s,
      sp_create_time = CreatedAt s, sp_update_time = UpdatedAt s,
      sp_last_seen_time = si_last_seen_at s,
      sp_lan_cidrs = (case si_lan_cidrs s of None \<Rightarrow> [] | Some cs \<Rightarrow> cs)\<rparr>"

definition get_site :: "env \<Rightarrow> string \<Rightarrow> ('r, site_pb) handler" where
  "get_site e name cx w =
     (case resolve_site e cx name (wdb w) of
        Inl st \<Rightarrow> (Inl st, w)
      | Inr (p, site) \<Rightarrow> (Inr (site_to_proto p site), w))"

record list_sites_response =
  lsr_sites :: "site_pb list"
  lsr_next_page_token :: string

definition list_sites :: "env \<Rightarrow> string \<Rightarrow> int \<Rightarrow> string \<Rightarrow> ('r, list_sites_response) handler" where
  "list_sites e parent page_size page_token cx w =
     (case resolve_project e cx parent (wdb w) of
        Inl st \<Rightarrow> (Inl st, w)
      | Inr p \<Rightarrow>
          (case site_list_by_project e (ID p) page_size page_token (wdb w) of
             Inl x \<Rightarrow>
               (if x = ErrInvalidPageToken then (Inl (Status InvalidArgument ''invalid page_token''), w)
                else (Inl (Status Internal ''list failed''), w))
           | Inr page \<Rightarrow>
               (Inr \<lparr>lsr_sites = map (site_to_proto p) page,
                     lsr_next_page_token = NextSitePageToken page\<rparr>, w)))"

text \<open>The caller's admin flag, as the handlers read it after resolving (op is not nil there).\<close>

definition is_admin_ctx :: "ctx \<Rightarrow> bool" where
  "is_admin_ctx cx = (case cx_operator cx of None \<Rightarrow> False | Some op \<Rightarrow> op_is_admin op)"

definition new_site_row :: "project_row \<Rightarrow> string \<Rightarrow> site_pb \<Rightarrow> site_row" where
  "new_site_row p site_id pb =
     \<lparr>ID = 0, CreatedAt = 0, DeletedAt = None, UpdatedAt = 0, si_project_id = ID p,
      si_name = site_id,
      si_lan_cidrs = (if sp_lan_cidrs pb \<noteq> [] then Some (sp_lan_cidrs pb) else None),
      si_mode = or_default (site_mode_from_proto (sp_mode pb)) (pr_default_mode p),
      si_backend = or_default (backend_from_proto (sp_backend pb)) (pr_backend p),
      si_status = SiteStatusPending, si_last_seen_at = None, si_hostname = [], si_os = [],
      si_agent_version = []\<rparr>"

definition create_site ::
  "'r relay_iface \<Rightarrow> env \<Rightarrow> string \<Rightarrow> string \<Rightarrow> site_pb option \<Rightarrow> ('r, site_pb) handler" where
  "create_site rm e parent site_id body cx w =
     (case resolve_project e cx parent (wdb w) of
        Inl st \<Rightarrow> (Inl st, w)
      | Inr p \<Rightarrow>
          if \<not> is_admin_ctx cx then (Inl admin_required, w)
          else
            (case body of
               None \<Rightarrow> (Inl (Status InvalidArgument ''site body is required''), w)
             | Some pb \<Rightarrow>
                 (case validate_slug site_id of
                    Some x \<Rightarrow> (Inl (Status InvalidArgument x), w)
                  | None \<Rightarrow>
                      if sp_display_name pb = []
                      then (Inl (Status InvalidArgument ''site.display_name is required''), w)
                      else
                        (case site_create e (new_site_row p site_id pb) (wdb w) of
                           (Inl x, d) \<Rightarrow>
                             (if is_unique_constraint_err x
                              then (Inl (Status AlreadyExists ''site already exists in project''),
                                    w\<lparr>wdb := d\<rparr>)
                              else (Inl (Status Internal ''create failed''), w\<lparr>wdb := d\<rparr>))
                         | (Inr row, d) \<Rightarrow>
                             (Inr (site_to_proto p row),
                              relay_refresh rm e (ID p)
                                (audit_w e cx
                                  \<lparr>ae_project_id = Some (ID p), ae_action = ''site.create'',
                                   ae_target = format_site_name (pr_slug p) (si_name row),
                                   ae_extra = [(''display_name'', EStr (sp_display_name pb))]\<rparr>
                                  (w\<lparr>wdb := d\<rparr>)))))))"

text \<open>The mask loop of UpdateSite: row, changes, and the display name to echo.\<close>

fun site_mask_loop ::
  "site_pb \<Rightarrow> string list \<Rightarrow> site_row \<Rightarrow> extra \<Rightarrow> string \<Rightarrow> status + (site_row \<times> extra \<times> string)" where
  "site_mask_loop pb [] site changed shown = Inr (site, changed, shown)"
| "site_mask_loop pb (path # paths) site changed shown =
     (if path = ''display_name'' then
        site_mask_loop pb paths site
          (extra_set ''display_name'' (EStr (sp_display_name pb)) changed) (sp_display_name pb)
      else if path = ''lan_cidrs'' then
        site_mask_loop pb paths (site\<lparr>si_lan_cidrs := Some (sp_lan_cidrs pb)\<rparr>)
          (extra_set ''lan_cidrs'' (EStrs (sp_lan_cidrs pb)) changed) shown
      else if path = ''mode'' then
        (let m = site_mode_from_proto (sp_mode pb) in
         if m = [] then Inl (Status InvalidArgument ''mode must be ENDPOINT or SUBNET'')
         else site_mask_loop pb paths (site\<lparr>si_mode := m\<rparr>) (extra_set ''mode'' (EStr m) changed) shown)
      else if path = ''backend'' then
        (let b = backend_from_proto (sp_backend pb) in
         if b = [] then Inl (Status InvalidArgument ''backend must be RATHOLE or NETBIRD'')
         else site_mask_loop pb paths (site\<lparr>si_backend := b\<rparr>) (extra_set ''backend'' (EStr b) changed)
                shown)
      else Inl (Status InvalidArgument ''unknown update_mask path: %q''))"

definition update_site ::
  "'r relay_iface \<Rightarrow> env \<Rightarrow> site_pb option \<Rightarrow> string list option \<Rightarrow> ('r, site_pb) handler" where
  "update_site rm e body update_mask cx w =
     (case body of
        None \<Rightarrow> (Inl (Status InvalidArgument ''site body is required''), w)
      | Some pb \<Rightarrow>
          if update_mask = None \<or> update_mask = Some []
          then (Inl (Status InvalidArgument ''update_mask is required''), w)
          else
            (case resolve_site e cx (sp_name pb) (wdb w) of
               Inl st \<Rightarrow> (Inl st, w)
             | Inr (p, site) \<Rightarrow>
                 if \<not> is_admin_ctx cx then (Inl admin_required, w)
                 else
                   (case site_mask_loop pb (the update_mask) site [] [] of
                      Inl st \<Rightarrow> (Inl st, w)
                    | Inr (site, changed, shown) \<Rightarrow>
                        (case site_update e site (wdb w) of
                           (Inl _, d) \<Rightarrow> (Inl (Status Internal ''update failed''), w\<lparr>wdb := d\<rparr>)
                         | (Inr _, d) \<Rightarrow>
                             (let out = site_to_proto p (touch (now e) site) in
                              (Inr (if shown \<noteq> [] then out\<lparr>sp_display_name := shown\<rparr> else out),
                               relay_refresh rm e (ID p)
                                 (audit_w e cx
                                   \<lparr>ae_project_id = Some (ID p), ae_action = ''site.update'',
                                    ae_target = format_site_name (pr_slug p) (si_name site),
                                    ae_extra = changed\<rparr> (w\<lparr>wdb := d\<rparr>))))))))"

record token_response =
  tr_token :: string
  tr_expire_time :: "time option"

definition rotate_site_agent_token ::
  "'r relay_iface \<Rightarrow> env \<Rightarrow> string \<Rightarrow> ('r, token_response) handler" where
  "rotate_site_agent_token rm e name cx w =
     (case resolve_site e cx name (wdb w) of
        Inl st \<Rightarrow> (Inl st, w)
      | Inr (p, site) \<Rightarrow>
          if \<not> is_admin_ctx cx then (Inl admin_required, w)
          else
            (case site_token_issue e (ID site) 0 (wdb w) of
               (Inl _, d) \<Rightarrow> (Inl (Status Internal ''issue failed''), w\<lparr>wdb := d\<rparr>)
             | (Inr (rec, raw), d) \<Rightarrow>
                 (Inr \<lparr>tr_token = raw, tr_expire_time = at_expires_at rec\<rparr>,
                  relay_refresh rm e (ID p)
                    (audit_w e cx
                      \<lparr>ae_project_id = Some (ID p), ae_action = ''site.rotate_agent_token'',
                       ae_target = format_site_name (pr_slug p) (si_name site), ae_extra = []\<rparr>
                      (w\<lparr>wdb := d\<rparr>)))))"

record install_response =
  ir_command :: string
  ir_token :: string
  ir_expire_time :: "time option"

definition quote :: string where "quote = [CHR 0x22]"

definition install_command :: "site_config \<Rightarrow> string \<Rightarrow> string \<Rightarrow> string" where
  "install_command cfg os_kind raw =
     (let base_url = (if sc_public_base_url cfg = [] then ''https://'' @ sc_relay_addr cfg
                      else sc_public_base_url cfg);
          endpoint = (if sc_public_grpc_endpoint cfg = [] then sc_relay_addr cfg
                      else sc_public_grpc_endpoint cfg)
      in if os_kind = ''linux''
         then ''curl -fsSL '' @ base_url @ ''/install/agent.sh | QT_TOKEN='' @ raw @
              '' QT_ENDPOINT='' @ endpoint @ '' bash''
         else ''$env:QT_TOKEN='' @ quote @ raw @ quote @ ''; $env:QT_ENDPOINT='' @ quote @ endpoint @
              quote @ ''; iwr -useb '' @ base_url @ ''/install/agent.ps1 | iex'')"

definition get_site_install_command ::
  "'r relay_iface \<Rightarrow> site_config \<Rightarrow> env \<Rightarrow> string \<Rightarrow> string \<Rightarrow> ('r, install_response) handler" where
  "get_site_install_command rm cfg e name os cx w =
     (case resolve_site e cx name (wdb w) of
        Inl st \<Rightarrow> (Inl st, w)
      | Inr (p, site) \<Rightarrow>
          if \<not> is_admin_ctx cx then (Inl admin_required, w)
          else
            (let os_kind = (if os = [] then ''linux'' else os) in
             if os_kind \<noteq> ''linux'' \<and> os_kind \<noteq> ''windows''
             then (Inl (Status InvalidArgument ''unsupported os %q''), w)
             else
               (case site_token_issue e (ID site) (1 * hour) (wdb w) of
                  (Inl _, d) \<Rightarrow> (Inl (Status Internal ''issue failed''), w\<lparr>wdb := d\<rparr>)
                | (Inr (rec, raw), d) \<Rightarrow>
                    (Inr \<lparr>ir_command = install_command cfg os_kind raw, ir_token = raw,
                          ir_expire_time = at_expires_at rec\<rparr>,
                     relay_refresh rm e (ID p)
                       (audit_w e cx
                         \<lparr>ae_project_id = Some (ID p), ae_action = ''site.install_command'',
                          ae_target = format_site_name (pr_slug p) (si_name site),
                          ae_extra = [(''os'', EStr os_kind)]\<rparr> (w\<lparr>wdb := d\<rparr>))))))"

definition delete_site :: "'r relay_iface \<Rightarrow> env \<Rightarrow> string \<Rightarrow> bool \<Rightarrow> ('r, unit) handler" where
  "delete_site rm e name force cx w =
     (case resolve_site e cx name (wdb w) of
        Inl st \<Rightarrow> (Inl st, w)
      | Inr (p, site) \<Rightarrow>
          if \<not> is_admin_ctx cx then (Inl admin_required, w)
          else
            (case (if force then Inr 0 else count_services e (ID site) (wdb w)) of
               Inl _ \<Rightarrow> (Inl (Status Internal ''service count failed''), w)
             | Inr n \<Rightarrow>
                 if n > 0
                 then (Inl (Status FailedPrecondition ''site has %d services; pass force=true''), w)
                 else
                   (case site_delete e (ID site) (wdb w) of
                      (Inl _, d) \<Rightarrow> (Inl (Status Internal ''delete failed''), w\<lparr>wdb := d\<rparr>)
                    | (Inr _, d) \<Rightarrow>
                        (Inr (),
                         relay_refresh rm e (ID p)
                           (audit_w e cx
                             \<lparr>ae_project_id = Some (ID p), ae_action = ''site.delete'',
                              ae_target = format_site_name (pr_slug p) (si_name site),
                              ae_extra = [(''force'', EBool force)]\<rparr> (w\<lparr>wdb := d\<rparr>))))))"

subsection \<open>Resolving\<close>

lemma resolve_project_Inr:
  assumes "resolve_project e cx parent d = Inr p"
  shows "\<exists>op. cx_operator cx = Some op \<and> p \<in> set (rows (t_projects d)) \<and> live p \<and>
    parent = format_project_name (pr_slug p) \<and> (op_is_admin op \<or> granted (ID op) (ID p) d)"
proof -
  obtain op slug where h: "cx_operator cx = Some op" "parse_project_parent parent = Inr slug"
    "project_find_by_slug e slug d = Inr p" "op_is_admin op \<or> granted (ID op) (ID p) d"
    using assms unfolding resolve_project_def
    by (auto simp: has_project_access_def split: option.splits sum.splits if_splits)
  then show ?thesis
    using project_find_by_slug_Inr [OF h(3)] by (auto simp: parse_project_parent_def parse_project_name_iff)
qed

lemma resolve_site_Inr:
  assumes "resolve_site e cx name d = Inr (p, s)"
  shows "\<exists>op. cx_operator cx = Some op \<and> p \<in> set (rows (t_projects d)) \<and> live p \<and>
    s \<in> set (rows (t_sites d)) \<and> live s \<and> si_project_id s = ID p \<and>
    name = format_site_name (pr_slug p) (si_name s) \<and> (op_is_admin op \<or> granted (ID op) (ID p) d)"
proof -
  obtain op sn where h: "cx_operator cx = Some op" "parse_site_name name = Inr sn"
    "resolve_project e cx (''projects/'' @ sn_project sn) d = Inr p"
    "site_find_by_name e (ID p) (sn_site sn) d = Inr s"
    using assms unfolding resolve_site_def by (auto split: option.splits sum.splits if_splits)
  obtain op' where op': "cx_operator cx = Some op'" "p \<in> set (rows (t_projects d))" "live p"
    "''projects/'' @ sn_project sn = format_project_name (pr_slug p)"
    "op_is_admin op' \<or> granted (ID op') (ID p) d"
    using resolve_project_Inr [OF h(3)] by blast
  have "pr_slug p = sn_project sn"
    using op'(4) by (simp add: format_project_name_def collectionProjects_def slash_def)
  moreover have "name = format_site_name (sn_project sn) (sn_site sn)"
    using h(2) by (simp add: parse_site_name_iff)
  ultimately show ?thesis
    using h(1) op' site_find_by_name_Inr [OF h(4)] by auto
qed

subsection \<open>The DAO writes on sites\<close>

lemma site_create_effect:
  assumes "site_create e s d = (Inr r, d')"
  shows "d' = d\<lparr>t_sites := t_sites d'\<rparr> \<and> rows (t_sites d') = rows (t_sites d) @ [r] \<and>
    seq (t_sites d') = Suc (seq (t_sites d)) \<and> ID r = Suc (seq (t_sites d)) \<and> live r \<and>
    si_project_id r = si_project_id s \<and> si_name r = si_name s \<and>
    si_status r = or_default (si_status s) SiteStatusPending \<and>
    \<not> conflicts (\<lambda>r. (si_project_id r, si_name r)) (si_project_id r, si_name r) 0 (t_sites d)"
  using assms
  by (auto simp: site_create_def Let_def tbl_append_def stamp_new_def live_def split: if_splits)

lemma site_create_Inl: "site_create e p d = (Inl x, d') \<Longrightarrow> d' = d"
  by (auto simp: site_create_def Let_def split: if_splits prod.splits)

lemma site_update_Inl: "site_update e p d = (Inl x, d') \<Longrightarrow> d' = d"
  by (auto simp: site_update_def split: if_splits)

lemma site_delete_Inl: "site_delete e i d = (Inl x, d') \<Longrightarrow> d' = d"
  by (auto simp: site_delete_def split: if_splits)

lemma site_update_effect:
  assumes "site_update e s d = (Inr (), d')"
  shows "d' = d\<lparr>t_sites := tbl_save (touch (now e) s) (t_sites d)\<rparr> \<and>
    (live s \<longrightarrow> \<not> conflicts (\<lambda>r. (si_project_id r, si_name r)) (si_project_id s, si_name s) (ID s)
       (t_sites d))"
  using assms by (auto simp: site_update_def split: if_splits)

lemma site_delete_effect:
  assumes "site_delete e i d = (Inr (), d')"
  shows "d' = d\<lparr>t_sites := delete_live (now e) (\<lambda>s. ID s = i) (t_sites d)\<rparr>"
  using assms by (auto simp: site_delete_def split: if_splits)

lemma site_token_issue_fails: "site_token_issue e i ttl d = (Inl x, d') \<Longrightarrow> d' = d"
  using site_token_issue_Inl [of e i ttl d x d'] by (simp add: raw_of_def)

subsection \<open>Failures leave the state alone\<close>

lemma create_site_Inl:
  assumes "create_site rm e parent site_id body cx w = (Inl st, w')"
  shows "w' = w"
  using assms unfolding create_site_def
  by (auto simp: Let_def split: option.splits sum.splits if_splits prod.splits dest!: site_create_Inl)

lemma update_site_Inl:
  assumes "update_site rm e body mk cx w = (Inl st, w')"
  shows "w' = w"
  using assms unfolding update_site_def
  by (auto simp: Let_def split: option.splits sum.splits if_splits prod.splits dest!: site_update_Inl)

lemma rotate_site_agent_token_Inl:
  assumes "rotate_site_agent_token rm e name cx w = (Inl st, w')"
  shows "w' = w"
  using assms unfolding rotate_site_agent_token_def
  by (auto split: sum.splits if_splits prod.splits dest!: site_token_issue_fails)

lemma get_site_install_command_Inl:
  assumes "get_site_install_command rm cfg e name os cx w = (Inl st, w')"
  shows "w' = w"
  using assms unfolding get_site_install_command_def
  by (auto simp: Let_def split: sum.splits if_splits prod.splits dest!: site_token_issue_fails)

lemma delete_site_Inl:
  assumes "delete_site rm e name force cx w = (Inl st, w')"
  shows "w' = w"
  using assms unfolding delete_site_def
  by (auto split: sum.splits if_splits prod.splits dest!: site_delete_Inl)

lemma is_admin_ctx_iff: "is_admin_ctx cx \<longleftrightarrow> (\<exists>op. cx_operator cx = Some op \<and> op_is_admin op)"
  by (auto simp: is_admin_ctx_def split: option.splits)

subsection \<open>What a successful call did\<close>

lemma create_site_Inr:
  assumes "create_site rm e parent site_id body cx w = (Inr out, w')"
  shows "\<exists>p pb row d en. resolve_project e cx parent (wdb w) = Inr p \<and> is_admin_ctx cx \<and>
    body = Some pb \<and> validate_slug site_id = None \<and>
    site_create e (new_site_row p site_id pb) (wdb w) = (Inr row, d) \<and> out = site_to_proto p row \<and>
    w' = relay_refresh rm e (ID p) (audit_w e cx en (w\<lparr>wdb := d\<rparr>))"
proof -
  obtain p pb row d where h: "resolve_project e cx parent (wdb w) = Inr p" "is_admin_ctx cx"
    "body = Some pb" "validate_slug site_id = None" "sp_display_name pb \<noteq> []"
    "site_create e (new_site_row p site_id pb) (wdb w) = (Inr row, d)"
    using assms unfolding create_site_def
    by (auto split: option.splits sum.splits if_splits prod.splits)
  have "out = site_to_proto p row \<and> (\<exists>en. w' = relay_refresh rm e (ID p) (audit_w e cx en (w\<lparr>wdb := d\<rparr>)))"
    using assms h unfolding create_site_def by auto
  then show ?thesis using h by metis
qed

lemma update_site_Inr:
  assumes "update_site rm e body mk cx w = (Inr out, w')"
  shows "\<exists>pb p site site' changed shown d en. body = Some pb \<and>
    resolve_site e cx (sp_name pb) (wdb w) = Inr (p, site) \<and> is_admin_ctx cx \<and>
    site_mask_loop pb (the mk) site [] [] = Inr (site', changed, shown) \<and>
    site_update e site' (wdb w) = (Inr (), d) \<and>
    w' = relay_refresh rm e (ID p) (audit_w e cx en (w\<lparr>wdb := d\<rparr>))"
proof -
  obtain pb p site site' changed shown d where h: "body = Some pb"
    "resolve_site e cx (sp_name pb) (wdb w) = Inr (p, site)" "is_admin_ctx cx"
    "site_mask_loop pb (the mk) site [] [] = Inr (site', changed, shown)"
    "site_update e site' (wdb w) = (Inr (), d)" "\<not> (mk = None \<or> mk = Some [])"
    using assms unfolding update_site_def
    by (auto simp: Let_def split: option.splits sum.splits if_splits prod.splits)
  have "\<exists>en. w' = relay_refresh rm e (ID p) (audit_w e cx en (w\<lparr>wdb := d\<rparr>))"
    using assms h unfolding update_site_def by (auto simp: Let_def)
  then show ?thesis using h by metis
qed

lemma rotate_site_agent_token_Inr:
  assumes "rotate_site_agent_token rm e name cx w = (Inr out, w')"
  shows "\<exists>p site rec d en. resolve_site e cx name (wdb w) = Inr (p, site) \<and> is_admin_ctx cx \<and>
    site_token_issue e (ID site) 0 (wdb w) = (Inr (rec, tr_token out), d) \<and>
    w' = relay_refresh rm e (ID p) (audit_w e cx en (w\<lparr>wdb := d\<rparr>))"
proof -
  obtain p site rec raw d where h: "resolve_site e cx name (wdb w) = Inr (p, site)" "is_admin_ctx cx"
    "site_token_issue e (ID site) 0 (wdb w) = (Inr (rec, raw), d)"
    using assms unfolding rotate_site_agent_token_def by (auto split: sum.splits if_splits prod.splits)
  have "tr_token out = raw \<and> (\<exists>en. w' = relay_refresh rm e (ID p) (audit_w e cx en (w\<lparr>wdb := d\<rparr>)))"
    using assms h unfolding rotate_site_agent_token_def by auto
  then show ?thesis using h by metis
qed

lemma get_site_install_command_Inr:
  assumes "get_site_install_command rm cfg e name os cx w = (Inr out, w')"
  shows "\<exists>p site rec d en. resolve_site e cx name (wdb w) = Inr (p, site) \<and> is_admin_ctx cx \<and>
    site_token_issue e (ID site) hour (wdb w) = (Inr (rec, ir_token out), d) \<and>
    ir_expire_time out = at_expires_at rec \<and>
    w' = relay_refresh rm e (ID p) (audit_w e cx en (w\<lparr>wdb := d\<rparr>))"
proof -
  obtain p site rec raw d where h: "resolve_site e cx name (wdb w) = Inr (p, site)" "is_admin_ctx cx"
    "site_token_issue e (ID site) hour (wdb w) = (Inr (rec, raw), d)"
    using assms unfolding get_site_install_command_def
    by (auto simp: Let_def split: sum.splits if_splits prod.splits)
  have "ir_token out = raw \<and> ir_expire_time out = at_expires_at rec \<and>
      (\<exists>en. w' = relay_refresh rm e (ID p) (audit_w e cx en (w\<lparr>wdb := d\<rparr>)))"
    using assms h unfolding get_site_install_command_def by (auto simp: Let_def split: if_splits)
  then show ?thesis using h by metis
qed

lemma delete_site_Inr:
  assumes "delete_site rm e name force cx w = (Inr out, w')"
  shows "\<exists>p site d en. resolve_site e cx name (wdb w) = Inr (p, site) \<and> is_admin_ctx cx \<and>
    (\<not> force \<longrightarrow> count_services e (ID site) (wdb w) = Inr 0) \<and>
    site_delete e (ID site) (wdb w) = (Inr (), d) \<and>
    w' = relay_refresh rm e (ID p) (audit_w e cx en (w\<lparr>wdb := d\<rparr>))"
proof -
  obtain p site d where h: "resolve_site e cx name (wdb w) = Inr (p, site)" "is_admin_ctx cx"
    "\<not> force \<longrightarrow> count_services e (ID site) (wdb w) = Inr 0"
    "site_delete e (ID site) (wdb w) = (Inr (), d)"
    using assms unfolding delete_site_def by (auto split: sum.splits if_splits prod.splits)
  have "\<exists>en. w' = relay_refresh rm e (ID p) (audit_w e cx en (w\<lparr>wdb := d\<rparr>))"
    using assms h unfolding delete_site_def by (cases force) auto
  then show ?thesis using h by metis
qed

lemma site_mask_loop_Inr:
  assumes "site_mask_loop pb paths site changed shown = Inr (site', changed', shown')"
  shows "ID site' = ID site \<and> si_project_id site' = si_project_id site \<and> si_name site' = si_name site \<and>
    (live site' \<longleftrightarrow> live site) \<and> si_status site' = si_status site"
  using assms
  by (induction pb paths site changed shown rule: site_mask_loop.induct)
    (auto simp: Let_def split: if_splits)

end
