(* ===== verification/ServiceService.thy ===== *)
theory ServiceService
  imports SiteService
begin

section \<open>ServiceService (internal/grpcsvc/service_service.go)\<close>

text \<open>The service RPCs; CreateService allocates the relay port, UpdateService never changes it.\<close>

definition resolve_site_from_parent ::
  "env \<Rightarrow> ctx \<Rightarrow> string \<Rightarrow> db \<Rightarrow> status + (project_row \<times> site_row)" where
  "resolve_site_from_parent e cx parent d =
     (case cx_operator cx of
        None \<Rightarrow> Inl not_authenticated
      | Some op \<Rightarrow>
          (case parse_site_parent parent of
             Inl x \<Rightarrow> Inl (Status InvalidArgument x)
           | Inr n \<Rightarrow>
               (case project_find_by_slug e (sn_project n) d of
                  Inl x \<Rightarrow>
                    (if is_not_found x then Inl (Status NotFound ''project not found'')
                     else Inl (Status Internal ''lookup failed''))
                | Inr p \<Rightarrow>
                    if \<not> op_is_admin op \<and> \<not> has_project_access e (ID op) (ID p) d
                    then Inl (Status NotFound ''project not found'')
                    else
                      (case site_find_by_name e (ID p) (sn_site n) d of
                         Inl x \<Rightarrow>
                           (if is_not_found x then Inl (Status NotFound ''site not found'')
                            else Inl (Status Internal ''lookup failed''))
                       | Inr site \<Rightarrow> Inr (p, site)))))"

definition resolve_service ::
  "env \<Rightarrow> ctx \<Rightarrow> string \<Rightarrow> db \<Rightarrow> status + (project_row \<times> site_row \<times> service_row)" where
  "resolve_service e cx name d =
     (case cx_operator cx of
        None \<Rightarrow> Inl not_authenticated
      | Some op \<Rightarrow>
          (case parse_service_name name of
             Inl x \<Rightarrow> Inl (Status InvalidArgument x)
           | Inr n \<Rightarrow>
               (case project_find_by_slug e (vn_project n) d of
                  Inl x \<Rightarrow>
                    (if is_not_found x then Inl (Status NotFound ''project not found'')
                     else Inl (Status Internal ''lookup failed''))
                | Inr p \<Rightarrow>
                    if \<not> op_is_admin op \<and> \<not> has_project_access e (ID op) (ID p) d
                    then Inl (Status NotFound ''project not found'')
                    else
                      (case site_find_by_name e (ID p) (vn_site n) d of
                         Inl x \<Rightarrow>
                           (if is_not_found x then Inl (Status NotFound ''site not found'')
                            else Inl (Status Internal ''lookup failed''))
                       | Inr site \<Rightarrow>
                           (case service_find_by_name e (ID site) (vn_service n) d of
                              Inl x \<Rightarrow>
                                (if is_not_found x then Inl (Status NotFound ''service not found'')
                                 else Inl (Status Internal ''lookup failed''))
                            | Inr svc \<Rightarrow> Inr (p, site, svc))))))"

text \<open>Ports are uint32 on the wire.\<close>

record service_pb =
  vp_name :: string
  vp_service_id :: string
  vp_display_name :: string
  vp_target_addr :: string
  vp_target_port :: "32 word"
  vp_proto :: proto_pb
  vp_relay_port :: "32 word"
  vp_create_time :: time
  vp_update_time :: time

definition service_to_proto :: "project_row \<Rightarrow> site_row \<Rightarrow> service_row \<Rightarrow> service_pb" where
  "service_to_proto p site svc =
     \<lparr>vp_name = format_service_name (pr_slug p) (si_name site) (sv_name svc),
      vp_service_id = sv_name svc, vp_display_name = sv_name svc,
      vp_target_addr = sv_target_addr svc, vp_target_port = ucast (sv_target_port svc),
      vp_proto = proto_from_model (sv_proto svc),
      vp_relay_port = (case sv_relay_port svc of None \<Rightarrow> 0 | Some q \<Rightarrow> ucast q),
      vp_create_time = CreatedAt svc, vp_update_time = UpdatedAt svc\<rparr>"

definition get_service :: "env \<Rightarrow> string \<Rightarrow> ('r, service_pb) handler" where
  "get_service e name cx w =
     (case resolve_service e cx name (wdb w) of
        Inl st \<Rightarrow> (Inl st, w)
      | Inr (p, site, svc) \<Rightarrow> (Inr (service_to_proto p site svc), w))"

record list_services_response =
  lvr_services :: "service_pb list"
  lvr_next_page_token :: string

definition list_services :: "env \<Rightarrow> string \<Rightarrow> int \<Rightarrow> string \<Rightarrow> ('r, list_services_response) handler" where
  "list_services e parent page_size page_token cx w =
     (case resolve_site_from_parent e cx parent (wdb w) of
        Inl st \<Rightarrow> (Inl st, w)
      | Inr (p, site) \<Rightarrow>
          (case service_list_by_site e (ID site) page_size page_token (wdb w) of
             Inl x \<Rightarrow>
               (if x = ErrInvalidPageToken then (Inl (Status InvalidArgument ''invalid page_token''), w)
                else (Inl (Status Internal ''list failed''), w))
           | Inr page \<Rightarrow>
               (Inr \<lparr>lvr_services = map (service_to_proto p site) page,
                     lvr_next_page_token = NextServicePageToken page\<rparr>, w)))"

definition new_service_row :: "nat \<Rightarrow> string \<Rightarrow> service_pb \<Rightarrow> port \<Rightarrow> service_row" where
  "new_service_row site_id service_id pb relay_port =
     \<lparr>ID = 0, CreatedAt = 0, DeletedAt = None, UpdatedAt = 0, sv_site_id = site_id,
      sv_name = service_id, sv_target_addr = vp_target_addr pb,
      sv_target_port = ucast (vp_target_port pb),
      sv_proto = or_default (proto_from_proto (vp_proto pb)) ProtoTCP,
      sv_relay_port = Some relay_port\<rparr>"

definition create_service ::
  "'r relay_iface \<Rightarrow> env \<Rightarrow> string \<Rightarrow> string \<Rightarrow> service_pb option \<Rightarrow> ('r, service_pb) handler" where
  "create_service rm e parent service_id body cx w =
     (case resolve_site_from_parent e cx parent (wdb w) of
        Inl st \<Rightarrow> (Inl st, w)
      | Inr (p, site) \<Rightarrow>
          if \<not> is_admin_ctx cx then (Inl admin_required, w)
          else
            (case body of
               None \<Rightarrow> (Inl (Status InvalidArgument ''service body is required''), w)
             | Some pb \<Rightarrow>
                 (case validate_slug service_id of
                    Some x \<Rightarrow> (Inl (Status InvalidArgument x), w)
                  | None \<Rightarrow>
                      if vp_target_addr pb = []
                      then (Inl (Status InvalidArgument ''service.target_addr is required''), w)
                      else if vp_target_port pb = 0 \<or> vp_target_port pb > 65535
                      then (Inl (Status InvalidArgument ''service.target_port must be 1-65535''), w)
                      else
                        (case allocate_relay_port e p (wdb w) of
                           Inl x \<Rightarrow>
                             (if x = ErrPortRangeExhausted
                              then (Inl (Status ResourceExhausted
                                          ''no relay ports available in project range''), w)
                              else (Inl (Status Internal ''port allocation failed''), w))
                         | Inr relay_port \<Rightarrow>
                             (case service_create e (new_service_row (ID site) service_id pb relay_port)
                                     (wdb w) of
                                (Inl x, d) \<Rightarrow>
                                  (if is_unique_constraint_err x
                                   then (Inl (Status AlreadyExists ''service already exists in site''),
                                         w\<lparr>wdb := d\<rparr>)
                                   else (Inl (Status Internal ''create failed''), w\<lparr>wdb := d\<rparr>))
                              | (Inr row, d) \<Rightarrow>
                                  (Inr (service_to_proto p site row),
                                   relay_refresh rm e (ID p)
                                     (audit_w e cx
                                       \<lparr>ae_project_id = Some (ID p), ae_action = ''service.create'',
                                        ae_target = format_service_name (pr_slug p) (si_name site)
                                                      (sv_name row),
                                        ae_extra =
                                          [(''target'', EStr (sv_target_addr row @ '':'' @
                                              format_uint (unat (sv_target_port row)))),
                                           (''relay_port'', ENat (unat relay_port))]\<rparr>
                                       (w\<lparr>wdb := d\<rparr>))))))))"

text \<open>The mask loop of UpdateService: row, changes, and the display name when the mask named it.\<close>

fun service_mask_loop ::
  "service_pb \<Rightarrow> string list \<Rightarrow> service_row \<Rightarrow> extra \<Rightarrow> string option
     \<Rightarrow> status + (service_row \<times> extra \<times> string option)" where
  "service_mask_loop pb [] svc changed shown = Inr (svc, changed, shown)"
| "service_mask_loop pb (path # paths) svc changed shown =
     (if path = ''display_name'' then
        service_mask_loop pb paths svc
          (extra_set ''display_name'' (EStr (vp_display_name pb)) changed) (Some (vp_display_name pb))
      else if path = ''target_addr'' then
        (if vp_target_addr pb = [] then Inl (Status InvalidArgument ''target_addr cannot be empty'')
         else service_mask_loop pb paths (svc\<lparr>sv_target_addr := vp_target_addr pb\<rparr>)
                (extra_set ''target_addr'' (EStr (vp_target_addr pb)) changed) shown)
      else if path = ''target_port'' then
        (if vp_target_port pb = 0 \<or> vp_target_port pb > 65535
         then Inl (Status InvalidArgument ''target_port must be 1-65535'')
         else service_mask_loop pb paths (svc\<lparr>sv_target_port := ucast (vp_target_port pb)\<rparr>)
                (extra_set ''target_port'' (ENat (unat (vp_target_port pb))) changed) shown)
      else if path = ''proto'' then
        (let pr = proto_from_proto (vp_proto pb) in
         if pr = [] then Inl (Status InvalidArgument ''proto must be TCP or UDP'')
         else service_mask_loop pb paths (svc\<lparr>sv_proto := pr\<rparr>) (extra_set ''proto'' (EStr pr) changed)
                shown)
      else if path = ''relay_port'' then
        Inl (Status InvalidArgument ''relay_port is allocated by the server and cannot be updated'')
      else Inl (Status InvalidArgument ''unknown update_mask path: %q''))"

definition update_service ::
  "'r relay_iface \<Rightarrow> env \<Rightarrow> service_pb option \<Rightarrow> string list option \<Rightarrow> ('r, service_pb) handler" where
  "update_service rm e body update_mask cx w =
     (case body of
        None \<Rightarrow> (Inl (Status InvalidArgument ''service body is required''), w)
      | Some pb \<Rightarrow>
          if update_mask = None \<or> update_mask = Some []
          then (Inl (Status InvalidArgument ''update_mask is required''), w)
          else
            (case resolve_service e cx (vp_name pb) (wdb w) of
               Inl st \<Rightarrow> (Inl st, w)
             | Inr (p, site, svc) \<Rightarrow>
                 if \<not> is_admin_ctx cx then (Inl admin_required, w)
                 else
                   (case service_mask_loop pb (the update_mask) svc [] None of
                      Inl st \<Rightarrow> (Inl st, w)
                    | Inr (svc, changed, shown) \<Rightarrow>
                        (case service_update e svc (wdb w) of
                           (Inl _, d) \<Rightarrow> (Inl (Status Internal ''update failed''), w\<lparr>wdb := d\<rparr>)
                         | (Inr _, d) \<Rightarrow>
                             (let out = service_to_proto p site (touch (now e) svc) in
                              (Inr (case shown of None \<Rightarrow> out | Some n \<Rightarrow> out\<lparr>vp_display_name := n\<rparr>),
                               relay_refresh rm e (ID p)
                                 (audit_w e cx
                                   \<lparr>ae_project_id = Some (ID p), ae_action = ''service.update'',
                                    ae_target = format_service_name (pr_slug p) (si_name site)
                                                  (sv_name svc),
                                    ae_extra = changed\<rparr> (w\<lparr>wdb := d\<rparr>))))))))"

definition delete_service :: "'r relay_iface \<Rightarrow> env \<Rightarrow> string \<Rightarrow> ('r, unit) handler" where
  "delete_service rm e name cx w =
     (case resolve_service e cx name (wdb w) of
        Inl st \<Rightarrow> (Inl st, w)
      | Inr (p, site, svc) \<Rightarrow>
          if \<not> is_admin_ctx cx then (Inl admin_required, w)
          else
            (case service_delete e (ID svc) (wdb w) of
               (Inl _, d) \<Rightarrow> (Inl (Status Internal ''delete failed''), w\<lparr>wdb := d\<rparr>)
             | (Inr _, d) \<Rightarrow>
                 (Inr (),
                  relay_refresh rm e (ID p)
                    (audit_w e cx
                      \<lparr>ae_project_id = Some (ID p), ae_action = ''service.delete'',
                       ae_target = format_service_name (pr_slug p) (si_name site) (sv_name svc),
                       ae_extra = (case sv_relay_port svc of
                           None \<Rightarrow> [] | Some q \<Rightarrow> [(''relay_port'', ENat (unat q))])\<rparr>
                      (w\<lparr>wdb := d\<rparr>)))))"

subsection \<open>Resolving and the DAO writes\<close>

lemma resolve_site_from_parent_Inr:
  assumes "resolve_site_from_parent e cx parent d = Inr (p, s)"
  shows "\<exists>op. cx_operator cx = Some op \<and> p \<in> set (rows (t_projects d)) \<and> live p \<and>
    s \<in> set (rows (t_sites d)) \<and> live s \<and> si_project_id s = ID p \<and>
    (op_is_admin op \<or> granted (ID op) (ID p) d)"
  using assms unfolding resolve_site_from_parent_def
  by (auto simp: has_project_access_def dest!: project_find_by_slug_Inr site_find_by_name_Inr
      split: option.splits sum.splits if_splits)

lemma resolve_service_Inr:
  assumes "resolve_service e cx name d = Inr (p, s, v)"
  shows "\<exists>op. cx_operator cx = Some op \<and> p \<in> set (rows (t_projects d)) \<and> live p \<and>
    s \<in> set (rows (t_sites d)) \<and> live s \<and> si_project_id s = ID p \<and>
    v \<in> set (rows (t_services d)) \<and> live v \<and> sv_site_id v = ID s \<and>
    (op_is_admin op \<or> granted (ID op) (ID p) d)"
  using assms unfolding resolve_service_def
  by (auto simp: has_project_access_def
      dest!: project_find_by_slug_Inr site_find_by_name_Inr service_find_by_name_Inr
      split: option.splits sum.splits if_splits)

lemma service_create_effect:
  assumes "service_create e v d = (Inr r, d')"
  shows "d' = d\<lparr>t_services := t_services d'\<rparr> \<and> rows (t_services d') = rows (t_services d) @ [r] \<and>
    seq (t_services d') = Suc (seq (t_services d)) \<and> ID r = Suc (seq (t_services d)) \<and> live r \<and>
    sv_site_id r = sv_site_id v \<and> sv_name r = sv_name v \<and> sv_relay_port r = sv_relay_port v \<and>
    \<not> conflicts (\<lambda>r. (sv_site_id r, sv_name r)) (sv_site_id r, sv_name r) 0 (t_services d)"
  using assms
  by (auto simp: service_create_def Let_def tbl_append_def stamp_new_def live_def split: if_splits)

lemma service_create_Inl: "service_create e v d = (Inl x, d') \<Longrightarrow> d' = d"
  by (auto simp: service_create_def Let_def split: if_splits prod.splits)

lemma service_update_Inl: "service_update e v d = (Inl x, d') \<Longrightarrow> d' = d"
  by (auto simp: service_update_def split: if_splits)

lemma service_delete_Inl: "service_delete e i d = (Inl x, d') \<Longrightarrow> d' = d"
  by (auto simp: service_delete_def split: if_splits)

lemma service_update_effect:
  assumes "service_update e v d = (Inr (), d')"
  shows "d' = d\<lparr>t_services := tbl_save (touch (now e) v) (t_services d)\<rparr> \<and>
    (live v \<longrightarrow> \<not> conflicts (\<lambda>r. (sv_site_id r, sv_name r)) (sv_site_id v, sv_name v) (ID v)
       (t_services d))"
  using assms by (auto simp: service_update_def split: if_splits)

lemma service_delete_effect:
  assumes "service_delete e i d = (Inr (), d')"
  shows "d' = d\<lparr>t_services := delete_live (now e) (\<lambda>s. ID s = i) (t_services d)\<rparr>"
  using assms by (auto simp: service_delete_def split: if_splits)

subsection \<open>The handlers\<close>

lemma create_service_Inl:
  assumes "create_service rm e parent service_id body cx w = (Inl st, w')"
  shows "w' = w"
  using assms unfolding create_service_def
  by (auto split: option.splits sum.splits if_splits prod.splits dest!: service_create_Inl)

lemma update_service_Inl:
  assumes "update_service rm e body mk cx w = (Inl st, w')"
  shows "w' = w"
  using assms unfolding update_service_def
  by (auto simp: Let_def split: option.splits sum.splits if_splits prod.splits dest!: service_update_Inl)

lemma delete_service_Inl:
  assumes "delete_service rm e name cx w = (Inl st, w')"
  shows "w' = w"
  using assms unfolding delete_service_def
  by (auto split: sum.splits if_splits prod.splits dest!: service_delete_Inl)

lemma create_service_Inr:
  assumes "create_service rm e parent service_id body cx w = (Inr out, w')"
  shows "\<exists>p site pb q row d en. resolve_site_from_parent e cx parent (wdb w) = Inr (p, site) \<and>
    is_admin_ctx cx \<and> body = Some pb \<and> validate_slug service_id = None \<and>
    vp_target_addr pb \<noteq> [] \<and> vp_target_port pb \<noteq> 0 \<and> vp_target_port pb \<le> 65535 \<and>
    allocate_relay_port e p (wdb w) = Inr q \<and>
    service_create e (new_service_row (ID site) service_id pb q) (wdb w) = (Inr row, d) \<and>
    out = service_to_proto p site row \<and>
    w' = relay_refresh rm e (ID p) (audit_w e cx en (w\<lparr>wdb := d\<rparr>))"
proof -
  obtain p site pb q row d where h: "resolve_site_from_parent e cx parent (wdb w) = Inr (p, site)"
    "is_admin_ctx cx" "body = Some pb" "validate_slug service_id = None" "vp_target_addr pb \<noteq> []"
    "\<not> (vp_target_port pb = 0 \<or> vp_target_port pb > 65535)"
    "allocate_relay_port e p (wdb w) = Inr q"
    "service_create e (new_service_row (ID site) service_id pb q) (wdb w) = (Inr row, d)"
    using assms unfolding create_service_def
    by (auto split: option.splits sum.splits if_splits prod.splits)
  have "out = service_to_proto p site row \<and>
      (\<exists>en. w' = relay_refresh rm e (ID p) (audit_w e cx en (w\<lparr>wdb := d\<rparr>)))"
    using assms h unfolding create_service_def by auto
  moreover have "vp_target_port pb \<noteq> 0" "vp_target_port pb \<le> 65535" using h(6) by auto
  ultimately show ?thesis using h(1-5,7,8) by metis
qed

lemma update_service_Inr:
  assumes "update_service rm e body mk cx w = (Inr out, w')"
  shows "\<exists>pb p site svc svc' changed shown d en. body = Some pb \<and>
    resolve_service e cx (vp_name pb) (wdb w) = Inr (p, site, svc) \<and> is_admin_ctx cx \<and>
    service_mask_loop pb (the mk) svc [] None = Inr (svc', changed, shown) \<and>
    service_update e svc' (wdb w) = (Inr (), d) \<and>
    w' = relay_refresh rm e (ID p) (audit_w e cx en (w\<lparr>wdb := d\<rparr>))"
proof -
  obtain pb p site svc svc' changed shown d where h: "body = Some pb"
    "resolve_service e cx (vp_name pb) (wdb w) = Inr (p, site, svc)" "is_admin_ctx cx"
    "service_mask_loop pb (the mk) svc [] None = Inr (svc', changed, shown)"
    "service_update e svc' (wdb w) = (Inr (), d)" "\<not> (mk = None \<or> mk = Some [])"
    using assms unfolding update_service_def
    by (auto simp: Let_def split: option.splits sum.splits if_splits prod.splits)
  have "\<exists>en. w' = relay_refresh rm e (ID p) (audit_w e cx en (w\<lparr>wdb := d\<rparr>))"
    using assms h unfolding update_service_def by (auto simp: Let_def)
  then show ?thesis using h by metis
qed

lemma delete_service_Inr:
  assumes "delete_service rm e name cx w = (Inr out, w')"
  shows "\<exists>p site svc d en. resolve_service e cx name (wdb w) = Inr (p, site, svc) \<and> is_admin_ctx cx \<and>
    service_delete e (ID svc) (wdb w) = (Inr (), d) \<and>
    w' = relay_refresh rm e (ID p) (audit_w e cx en (w\<lparr>wdb := d\<rparr>))"
proof -
  obtain p site svc d where h: "resolve_service e cx name (wdb w) = Inr (p, site, svc)"
    "is_admin_ctx cx" "service_delete e (ID svc) (wdb w) = (Inr (), d)"
    using assms unfolding delete_service_def by (auto split: sum.splits if_splits prod.splits)
  have "\<exists>en. w' = relay_refresh rm e (ID p) (audit_w e cx en (w\<lparr>wdb := d\<rparr>))"
    using assms h unfolding delete_service_def by auto
  then show ?thesis using h by metis
qed

lemma service_mask_loop_Inr:
  assumes "service_mask_loop pb paths svc changed shown = Inr (svc', changed', shown')"
  shows "ID svc' = ID svc \<and> sv_site_id svc' = sv_site_id svc \<and> sv_name svc' = sv_name svc \<and>
    (live svc' \<longleftrightarrow> live svc) \<and> sv_relay_port svc' = sv_relay_port svc"
  using assms
  by (induction pb paths svc changed shown rule: service_mask_loop.induct)
    (auto simp: Let_def split: if_splits)

subsection \<open>No two services of a project share a relay port\<close>

text \<open>The service \<open>v\<close> holds port \<open>q\<close> in project \<open>k\<close>: a live service on a live site of it.\<close>

definition holds_port :: "db \<Rightarrow> nat \<Rightarrow> service_row \<Rightarrow> port \<Rightarrow> bool" where
  "holds_port d k v q =
     (v \<in> set (rows (t_services d)) \<and> live v \<and> sv_relay_port v = Some q \<and>
      (\<exists>s\<in>set (rows (t_sites d)). live s \<and> sv_site_id v = ID s \<and> si_project_id s = k))"

definition ports_ok :: "db \<Rightarrow> bool" where
  "ports_ok d =
     ((\<forall>v\<in>set (rows (t_services d)). sv_site_id v \<le> seq (t_sites d)) \<and>
      (\<forall>k q v v'. holds_port d k v q \<longrightarrow> holds_port d k v' q \<longrightarrow> ID v = ID v'))"

lemma used_relay_ports_holds: "q \<in> set (used_relay_ports k d) \<longleftrightarrow> (\<exists>v. holds_port d k v q)"
  unfolding set_used_relay_ports holds_port_def by blast

text \<open>A step that gives no service a port of a project it did not have.\<close>

lemma ports_ok_mono:
  assumes "ports_ok d" "\<And>v. v \<in> set (rows (t_services d')) \<Longrightarrow> sv_site_id v \<le> seq (t_sites d')"
    "\<And>k q v. holds_port d' k v q \<Longrightarrow> \<exists>u. holds_port d k u q \<and> ID u = ID v"
  shows "ports_ok d'"
  using assms unfolding ports_ok_def by metis

lemma ports_okD:
  assumes "ports_ok d"
  shows "\<And>v. v \<in> set (rows (t_services d)) \<Longrightarrow> sv_site_id v \<le> seq (t_sites d)"
    "\<And>k q v v'. holds_port d k v q \<Longrightarrow> holds_port d k v' q \<Longrightarrow> ID v = ID v'"
  using assms unfolding ports_ok_def by blast+

lemma ports_ok_frame:
  assumes "ports_ok d" "t_services d' = t_services d" "t_sites d' = t_sites d"
  shows "ports_ok d'"
  using assms(1) unfolding ports_ok_def holds_port_def assms(2,3) .

lemma ports_ok_audited [simp]: "ports_ok (audited e cx en d) = ports_ok d"
  by (simp add: ports_ok_def holds_port_def audited_frame)

text \<open>Creating a service on the port the allocator returned.\<close>

lemma ports_ok_service_create:
  assumes wf: "db_wf d" and ok: "ports_ok d"
    and site: "s \<in> set (rows (t_sites d))" "live s" "si_project_id s = ID p"
    and alloc: "allocate_relay_port e p d = Inr q"
    and cr: "service_create e v d = (Inr r, d')" "sv_site_id v = ID s" "sv_relay_port v = Some q"
  shows "ports_ok d'"
proof -
  have eff: "d' = d\<lparr>t_services := t_services d'\<rparr>" "rows (t_services d') = rows (t_services d) @ [r]"
    "live r" "sv_site_id r = ID s" "sv_relay_port r = Some q"
    using service_create_effect [OF cr(1)] cr(2,3) by simp_all
  have sites: "t_sites d' = t_sites d" using eff(1) by (metis db.select_convs(5) db.surjective db.update_convs(7))
  have old: "holds_port d k u x" if "holds_port d' k u x" "u \<noteq> r" for k u x
    using that unfolding holds_port_def eff(2) sites by auto
  have new: "k = ID p \<and> x = q" if h: "holds_port d' k r x" for k x
  proof -
    obtain s' where "s' \<in> set (rows (t_sites d))" "ID s = ID s'" "si_project_id s' = k" "x = q"
      using h eff(4,5) unfolding holds_port_def sites by auto
    then show ?thesis using tbl_wf_inj [OF db_wfD(5) [OF wf] site(1)] site(3) by metis
  qed
  have free: "\<not> holds_port d (ID p) u q" for u
    using allocate_relay_port_Inr [OF alloc] used_relay_ports_holds [of q "ID p" d] by blast
  show ?thesis unfolding ports_ok_def
  proof (intro conjI ballI allI impI)
    fix u assume "u \<in> set (rows (t_services d'))"
    then show "sv_site_id u \<le> seq (t_sites d')"
      using ports_okD(1) [OF ok] eff(4) site(1) db_wfD(5) [OF wf] unfolding eff(2) sites
      by (auto simp: tbl_wf_def)
  next
    fix k x u u' assume u: "holds_port d' k u x" and u': "holds_port d' k u' x"
    show "ID u = ID u'"
    proof (cases "u = r \<or> u' = r")
      case True
      then have "k = ID p" "x = q" using new u u' by blast+
      then have "u = r" "u' = r" using old [OF u] old [OF u'] free by blast+
      then show ?thesis by simp
    next
      case False
      then show ?thesis using ports_okD(2) [OF ok] old u u' by blast
    qed
  qed
qed

text \<open>Replacing or updating rows of one of the two tables, keys and references kept.\<close>

lemma ports_ok_services_map:
  assumes "ports_ok d" "t_sites d' = t_sites d"
    "\<And>v. v \<in> set (rows (t_services d')) \<Longrightarrow> \<exists>u\<in>set (rows (t_services d)). ID u = ID v \<and>
       sv_site_id u = sv_site_id v \<and> sv_relay_port u = sv_relay_port v \<and> (live v \<longrightarrow> live u)"
  shows "ports_ok d'"
proof (rule ports_ok_mono [OF assms(1)])
  fix v assume "v \<in> set (rows (t_services d'))"
  then show "sv_site_id v \<le> seq (t_sites d')"
    using assms(3) ports_okD(1) [OF assms(1)] unfolding assms(2) by metis
next
  fix k q v assume h: "holds_port d' k v q"
  then obtain u where u: "u\<in>set (rows (t_services d))" "ID u = ID v"
    "sv_site_id u = sv_site_id v" "sv_relay_port u = sv_relay_port v" "live v \<longrightarrow> live u"
    using assms(3) unfolding holds_port_def by blast
  with h have "holds_port d k u q" unfolding holds_port_def assms(2) by simp
  then show "\<exists>u. holds_port d k u q \<and> ID u = ID v" using u(2) by blast
qed

lemma ports_ok_sites_map:
  assumes "ports_ok d" "t_services d' = t_services d" "seq (t_sites d) \<le> seq (t_sites d')"
    "\<And>s. s \<in> set (rows (t_sites d')) \<Longrightarrow> live s \<Longrightarrow> ID s \<le> seq (t_sites d) \<Longrightarrow>
       \<exists>u\<in>set (rows (t_sites d)). ID u = ID s \<and> si_project_id u = si_project_id s \<and> live u"
  shows "ports_ok d'"
proof (rule ports_ok_mono [OF assms(1)])
  fix v assume "v \<in> set (rows (t_services d'))"
  then show "sv_site_id v \<le> seq (t_sites d')"
    using ports_okD(1) [OF assms(1)] assms(3) unfolding assms(2) by (meson le_trans)
next
  fix k q v assume h: "holds_port d' k v q"
  then obtain s where s: "v \<in> set (rows (t_services d))" "live v" "sv_relay_port v = Some q"
    "s \<in> set (rows (t_sites d'))" "live s" "sv_site_id v = ID s" "si_project_id s = k"
    unfolding holds_port_def assms(2) by blast
  have "ID s \<le> seq (t_sites d)" using ports_okD(1) [OF assms(1) s(1)] s(6) by simp
  then obtain u where u: "u \<in> set (rows (t_sites d))" "ID u = ID s" "si_project_id u = si_project_id s" "live u"
    using assms(4) [OF s(4,5)] by blast
  have "holds_port d k v q" unfolding holds_port_def using s u by metis
  then show "\<exists>u. holds_port d k u q \<and> ID u = ID v" by blast
qed

lemma delete_live_row:
  assumes "x \<in> set (rows (delete_live t0 Q t))"
  shows "\<exists>y\<in>set (rows t). x = y \<or> (x = y\<lparr>DeletedAt := Some t0\<rparr> \<and> live y)"
  using assms unfolding delete_live_simps by auto

subsection \<open>The handlers keep the network's invariant\<close>

definition net_ok :: "db \<Rightarrow> bool" where
  "net_ok d = (db_wf d \<and> projects_ok d \<and> ports_ok d)"

lemma net_okD: "net_ok d \<Longrightarrow> db_wf d" "net_ok d \<Longrightarrow> projects_ok d" "net_ok d \<Longrightarrow> ports_ok d"
  by (simp_all add: net_ok_def)

lemma net_ok_audited [simp]: "net_ok d \<Longrightarrow> net_ok (audited e cx en d)"
  by (simp add: net_ok_def audited_db_wf)

lemma net_ok_sites:
  assumes "net_ok d" "d' = d\<lparr>t_sites := t\<rparr>" "tbl_wf t"
    "uniq_live (\<lambda>r. (si_project_id r, si_name r)) t" "seq (t_sites d) \<le> seq t"
    "\<And>s. s \<in> set (rows t) \<Longrightarrow> live s \<Longrightarrow> ID s \<le> seq (t_sites d) \<Longrightarrow>
       \<exists>u\<in>set (rows (t_sites d)). ID u = ID s \<and> si_project_id u = si_project_id s \<and> live u"
  shows "net_ok d'"
proof -
  have "db_wf d'" unfolding assms(2) by (rule db_wf_set_table(4) [OF net_okD(1) [OF assms(1)] assms(3,4)])
  moreover have "projects_ok d'" using net_okD(2) [OF assms(1)] unfolding assms(2) projects_ok_def by simp
  moreover have "ports_ok d'"
    by (rule ports_ok_sites_map [OF net_okD(3) [OF assms(1)]]) (use assms(2,5,6) in simp_all)
  ultimately show ?thesis by (simp add: net_ok_def)
qed

lemma net_ok_services:
  assumes "net_ok d" "d' = d\<lparr>t_services := t\<rparr>" "tbl_wf t"
    "uniq_live (\<lambda>r. (sv_site_id r, sv_name r)) t" "ports_ok d'"
  shows "net_ok d'"
proof -
  have "db_wf d'" unfolding assms(2) by (rule db_wf_set_table(5) [OF net_okD(1) [OF assms(1)] assms(3,4)])
  moreover have "projects_ok d'" using net_okD(2) [OF assms(1)] unfolding assms(2) projects_ok_def by simp
  ultimately show ?thesis using assms(5) by (simp add: net_ok_def)
qed

lemma net_ok_only_projects:
  assumes "net_ok d" "only_projects d d'" "db_wf d'" "projects_ok d'"
  shows "net_ok d'"
  using assms ports_ok_frame [OF net_okD(3) [OF assms(1)]] by (simp add: net_ok_def only_projects_def)

lemma project_handlers_keep:
  assumes "net_ok (wdb w)"
  shows "create_project rm e i body cx w = (r, w') \<Longrightarrow> net_ok (wdb w')"
    and "update_project rm e body mk cx w = (r, w') \<Longrightarrow> net_ok (wdb w')"
    and "delete_project rm e name force cx w = (r', w') \<Longrightarrow> net_ok (wdb w')"
  using assms net_ok_only_projects create_project_frame update_project_frame delete_project_frame
    create_project_keeps update_project_keeps delete_project_keeps
  unfolding net_ok_def by metis+

lemma net_ok_site_create:
  assumes ok: "net_ok d" and cr: "site_create e s d = (Inr r, d')"
  shows "net_ok d'"
proof -
  have eff: "d' = d\<lparr>t_sites := t_sites d'\<rparr>" "rows (t_sites d') = rows (t_sites d) @ [r]"
    "seq (t_sites d') = Suc (seq (t_sites d))" "ID r = Suc (seq (t_sites d))"
    "\<not> conflicts (\<lambda>r. (si_project_id r, si_name r)) (si_project_id r, si_name r) 0 (t_sites d)"
    using site_create_effect [OF cr] by blast+
  note wf = db_wfD(5,14) [OF net_okD(1) [OF ok]]
  show ?thesis
    by (rule net_ok_sites [OF ok eff(1) tbl_wf_snoc [OF wf(1) eff(2-4)]
          uniq_live_snoc [OF wf(2) eff(2,5) wf(1)]]) (use eff(2-4) in auto)
qed

text \<open>Rewriting rows in place, keys and references kept.\<close>

lemma map_rows_wf:
  assumes "tbl_wf t" "rows t' = map g (rows t)" "seq t' = seq t" "\<And>x. x \<in> set (rows t) \<Longrightarrow> ID (g x) = ID x"
  shows "tbl_wf t'"
proof -
  have "map ID (rows t') = map ID (rows t)" unfolding assms(2) using assms(4) by simp
  moreover have "\<forall>r\<in>set (rows t'). 0 < ID r \<and> ID r \<le> seq t'"
    using assms(1,4) unfolding assms(2,3) tbl_wf_def by auto
  ultimately show ?thesis using assms(1) unfolding tbl_wf_def by simp
qed

lemma net_ok_site_save:
  assumes ok: "net_ok d" and up: "site_update e s d = (Inr (), d')" "live s"
    and old: "u \<in> set (rows (t_sites d))" "ID u = ID s" "si_project_id u = si_project_id s" "live u"
  shows "net_ok d'"
proof -
  let ?s = "touch (now e) s"
  have ex: "\<exists>x\<in>set (rows (t_sites d)). ID x = ID ?s" using old by auto
  note wf = db_wfD(5,14) [OF net_okD(1) [OF ok]]
  have "uniq_live (\<lambda>r. (si_project_id r, si_name r)) (tbl_save ?s (t_sites d))"
    by (rule uniq_live_save [OF wf(2) _ ex]) (use site_update_effect [OF up(1)] up(2) in simp)
  moreover have "\<exists>v\<in>set (rows (t_sites d)). ID v = ID x \<and> si_project_id v = si_project_id x \<and> live v"
    if "x \<in> set (rows (tbl_save ?s (t_sites d)))" "live x" for x
    using that old unfolding tbl_save_rows(1) [OF ex] by auto
  moreover have "d' = d\<lparr>t_sites := tbl_save ?s (t_sites d)\<rparr>" using site_update_effect [OF up(1)] by simp
  ultimately show ?thesis
    by (intro net_ok_sites [OF ok _ tbl_wf_save [OF wf(1) ex]]) (simp_all add: tbl_save_rows(2) [OF ex])
qed

lemma net_ok_site_update_live:
  assumes ok: "net_ok d" and f: "\<And>s. ID (f s) = ID s" "\<And>s. si_project_id (f s) = si_project_id s"
    "\<And>s. si_name (f s) = si_name s" "\<And>s. live (f s) \<Longrightarrow> live s"
  shows "net_ok (d\<lparr>t_sites := update_live P f (t_sites d)\<rparr>)"
proof -
  note wf = db_wfD(5,14) [OF net_okD(1) [OF ok]]
  have "\<exists>u\<in>set (rows (t_sites d)). ID u = ID x \<and> si_project_id u = si_project_id x \<and> live u"
    if x: "x \<in> set (rows (update_live P f (t_sites d)))" "live x" for x
  proof -
    obtain y where "y \<in> set (rows (t_sites d))" "x = (if live y \<and> P y then f y else y)"
      using x(1) unfolding update_live_simps by auto
    then show ?thesis using x(2) f by (cases "live y \<and> P y") auto
  qed
  then show ?thesis
    by (intro net_ok_sites [OF ok refl tbl_wf_update [OF wf(1) f(1)] uniq_live_update [OF wf(2)]])
      (use f in \<open>auto simp: update_live_simps(2)\<close>)
qed

lemma net_ok_site_delete: "net_ok d \<Longrightarrow> net_ok (d\<lparr>t_sites := delete_live t0 P (t_sites d)\<rparr>)"
  unfolding delete_live_def by (rule net_ok_site_update_live) (simp_all add: live_def)

lemma net_ok_service_update_live:
  assumes ok: "net_ok d" and f: "\<And>v. ID (f v) = ID v" "\<And>v. sv_site_id (f v) = sv_site_id v"
    "\<And>v. sv_name (f v) = sv_name v" "\<And>v. sv_relay_port (f v) = sv_relay_port v" "\<And>v. live (f v) \<Longrightarrow> live v"
  shows "net_ok (d\<lparr>t_services := update_live P f (t_services d)\<rparr>)"
proof -
  note wf = db_wfD(7,17) [OF net_okD(1) [OF ok]]
  have "\<exists>u\<in>set (rows (t_services d)). ID u = ID x \<and> sv_site_id u = sv_site_id x \<and>
      sv_relay_port u = sv_relay_port x \<and> (live x \<longrightarrow> live u)"
    if x: "x \<in> set (rows (update_live P f (t_services d)))" for x
  proof -
    obtain y where "y \<in> set (rows (t_services d))" "x = (if live y \<and> P y then f y else y)"
      using x(1) unfolding update_live_simps by auto
    then show ?thesis using f by (cases "live y \<and> P y") auto
  qed
  then have "ports_ok (d\<lparr>t_services := update_live P f (t_services d)\<rparr>)"
    by (intro ports_ok_services_map [OF net_okD(3) [OF ok]]) simp_all
  then show ?thesis
    by (intro net_ok_services [OF ok refl tbl_wf_update [OF wf(1) f(1)] uniq_live_update [OF wf(2)]])
      (use f in auto)
qed

lemma net_ok_service_delete: "net_ok d \<Longrightarrow> net_ok (d\<lparr>t_services := delete_live t0 P (t_services d)\<rparr>)"
  unfolding delete_live_def by (rule net_ok_service_update_live) (simp_all add: live_def)

lemma net_ok_service_save:
  assumes ok: "net_ok d" and up: "service_update e v d = (Inr (), d')" "live v"
    and old: "u \<in> set (rows (t_services d))" "ID u = ID v" "sv_site_id u = sv_site_id v"
      "sv_relay_port u = sv_relay_port v" "live u"
  shows "net_ok d'"
proof -
  let ?v = "touch (now e) v"
  have ex: "\<exists>x\<in>set (rows (t_services d)). ID x = ID ?v" using old by auto
  note wf = db_wfD(7,17) [OF net_okD(1) [OF ok]]
  have d': "d' = d\<lparr>t_services := tbl_save ?v (t_services d)\<rparr>" using service_update_effect [OF up(1)] by simp
  have "\<exists>y\<in>set (rows (t_services d)). ID y = ID x \<and> sv_site_id y = sv_site_id x \<and>
      sv_relay_port y = sv_relay_port x \<and> (live x \<longrightarrow> live y)"
    if "x \<in> set (rows (tbl_save ?v (t_services d)))" for x
    using that old unfolding tbl_save_rows(1) [OF ex] by auto
  then have "ports_ok d'"
    unfolding d' by (intro ports_ok_services_map [OF net_okD(3) [OF ok]]) simp_all
  moreover have "uniq_live (\<lambda>r. (sv_site_id r, sv_name r)) (tbl_save ?v (t_services d))"
    by (rule uniq_live_save [OF wf(2) _ ex]) (use service_update_effect [OF up(1)] up(2) in simp)
  ultimately show ?thesis
    by (intro net_ok_services [OF ok d' tbl_wf_save [OF wf(1) ex]]) simp_all
qed

lemma net_ok_agent_tokens:
  assumes "net_ok d" "db_wf d'" "t_projects d' = t_projects d" "t_sites d' = t_sites d"
    "t_services d' = t_services d"
  shows "net_ok d'"
  using assms ports_ok_frame [OF net_okD(3) [OF assms(1)] assms(5,4)]
  by (simp add: net_ok_def projects_ok_def)

lemma net_ok_token_issue: "net_ok d \<Longrightarrow> site_token_issue e i ttl d = (r, d') \<Longrightarrow> net_ok d'"
proof (rule net_ok_agent_tokens)
  assume "net_ok d" and iss: "site_token_issue e i ttl d = (r, d')"
  then show "net_ok d" "db_wf d'"
    using site_token_issue_wf [OF net_okD(1), of d e i ttl] by simp_all
  show "t_projects d' = t_projects d" "t_sites d' = t_sites d" "t_services d' = t_services d"
    using iss by (auto simp: site_token_issue_def Let_def split: sum.splits prod.splits if_splits)
qed

lemma net_ok_relay_audit [simp]:
  "net_ok d \<Longrightarrow> net_ok (wdb (relay_refresh rm e i (audit_w e cx en (w\<lparr>wdb := d\<rparr>))))"
  by simp

lemma create_site_keeps:
  assumes ok: "net_ok (wdb w)" and a: "create_site rm e parent i sbody cx w = (r1, w')"
  shows "net_ok (wdb w')"
proof (cases r1)
  case (Inl st)
  then show ?thesis using create_site_Inl [OF a [unfolded Inl]] ok by simp
next
  case (Inr out)
  then show ?thesis
    using create_site_Inr [OF a [unfolded Inr]] net_ok_site_create [OF ok] by fastforce
qed

lemma update_site_keeps:
  assumes ok: "net_ok (wdb w)" and a: "update_site rm e sbody mk cx w = (r1, w')"
  shows "net_ok (wdb w')"
proof (cases r1)
  case (Inl st)
  then show ?thesis using update_site_Inl [OF a [unfolded Inl]] ok by simp
next
  case (Inr out)
  from update_site_Inr [OF a [unfolded Inr]] obtain pb p site site' ch sh d en where
    h: "resolve_site e cx (sp_name pb) (wdb w) = Inr (p, site)"
      "site_mask_loop pb (the mk) site [] [] = Inr (site', ch, sh)"
      "site_update e site' (wdb w) = (Inr (), d)"
      "w' = relay_refresh rm e (ID p) (audit_w e cx en (w\<lparr>wdb := d\<rparr>))"
    by blast
  have "net_ok d"
    using net_ok_site_save [OF ok h(3), of site] resolve_site_Inr [OF h(1)] site_mask_loop_Inr [OF h(2)]
    by auto
  then show ?thesis using h(4) by simp
qed

lemma rotate_site_agent_token_keeps:
  assumes ok: "net_ok (wdb w)" and a: "rotate_site_agent_token rm e name cx w = (r2, w')"
  shows "net_ok (wdb w')"
proof (cases r2)
  case (Inl st)
  then show ?thesis using rotate_site_agent_token_Inl [OF a [unfolded Inl]] ok by simp
next
  case (Inr out)
  then show ?thesis
    using rotate_site_agent_token_Inr [OF a [unfolded Inr]] net_ok_token_issue [OF ok] by fastforce
qed

lemma get_site_install_command_keeps:
  assumes ok: "net_ok (wdb w)" and a: "get_site_install_command rm cfg e name os cx w = (r3, w')"
  shows "net_ok (wdb w')"
proof (cases r3)
  case (Inl st)
  then show ?thesis using get_site_install_command_Inl [OF a [unfolded Inl]] ok by simp
next
  case (Inr out)
  then show ?thesis
    using get_site_install_command_Inr [OF a [unfolded Inr]] net_ok_token_issue [OF ok] by fastforce
qed

lemma delete_site_keeps:
  assumes ok: "net_ok (wdb w)" and a: "delete_site rm e name force cx w = (r4, w')"
  shows "net_ok (wdb w')"
proof (cases r4)
  case (Inl st)
  then show ?thesis using delete_site_Inl [OF a [unfolded Inl]] ok by simp
next
  case (Inr out)
  then show ?thesis
    using delete_site_Inr [OF a [unfolded Inr]] net_ok_site_delete [OF ok] site_delete_effect
    by fastforce
qed

lemmas site_handlers_keep = create_site_keeps update_site_keeps rotate_site_agent_token_keeps
  get_site_install_command_keeps delete_site_keeps

lemma create_service_keeps:
  assumes ok: "net_ok (wdb w)" and a: "create_service rm e parent i body cx w = (r1, w')"
  shows "net_ok (wdb w')"
proof (cases r1)
  case (Inl st)
  then show ?thesis using create_service_Inl [OF a [unfolded Inl]] ok by simp
next
  case (Inr out)
  from create_service_Inr [OF a [unfolded Inr]] obtain p site pb q row d en where
    h: "resolve_site_from_parent e cx parent (wdb w) = Inr (p, site)"
      "allocate_relay_port e p (wdb w) = Inr q"
      "service_create e (new_service_row (ID site) i pb q) (wdb w) = (Inr row, d)"
      "w' = relay_refresh rm e (ID p) (audit_w e cx en (w\<lparr>wdb := d\<rparr>))"
    by blast
  have site: "site \<in> set (rows (t_sites (wdb w)))" "live site" "si_project_id site = ID p"
    using resolve_site_from_parent_Inr [OF h(1)] by auto
  have p: "ports_ok d"
    by (rule ports_ok_service_create [OF net_okD(1,3) [OF ok] site h(2,3)])
      (simp_all add: new_service_row_def)
  note wf = db_wfD(7,17) [OF net_okD(1) [OF ok]]
  have eff: "d = (wdb w)\<lparr>t_services := t_services d\<rparr>"
    "rows (t_services d) = rows (t_services (wdb w)) @ [row]"
    "seq (t_services d) = Suc (seq (t_services (wdb w)))" "ID row = Suc (seq (t_services (wdb w)))"
    "\<not> conflicts (\<lambda>r. (sv_site_id r, sv_name r)) (sv_site_id row, sv_name row) 0 (t_services (wdb w))"
    using service_create_effect [OF h(3)] by blast+
  have "net_ok d"
    by (rule net_ok_services [OF ok eff(1) tbl_wf_snoc [OF wf(1) eff(2-4)]
          uniq_live_snoc [OF wf(2) eff(2,5) wf(1)] p])
  then show ?thesis using h(4) by simp
qed

lemma update_service_keeps:
  assumes ok: "net_ok (wdb w)" and a: "update_service rm e body mk cx w = (r1, w')"
  shows "net_ok (wdb w')"
proof (cases r1)
  case (Inl st)
  then show ?thesis using update_service_Inl [OF a [unfolded Inl]] ok by simp
next
  case (Inr out)
  from update_service_Inr [OF a [unfolded Inr]] obtain pb p site svc svc' ch sh d en where
    h: "resolve_service e cx (vp_name pb) (wdb w) = Inr (p, site, svc)"
      "service_mask_loop pb (the mk) svc [] None = Inr (svc', ch, sh)"
      "service_update e svc' (wdb w) = (Inr (), d)"
      "w' = relay_refresh rm e (ID p) (audit_w e cx en (w\<lparr>wdb := d\<rparr>))"
    by blast
  have "net_ok d"
    using net_ok_service_save [OF ok h(3), of svc] resolve_service_Inr [OF h(1)]
      service_mask_loop_Inr [OF h(2)]
    by auto
  then show ?thesis using h(4) by simp
qed

lemma delete_service_keeps:
  assumes ok: "net_ok (wdb w)" and a: "delete_service rm e name cx w = (r2, w')"
  shows "net_ok (wdb w')"
proof (cases r2)
  case (Inl st)
  then show ?thesis using delete_service_Inl [OF a [unfolded Inl]] ok by simp
next
  case (Inr out)
  from delete_service_Inr [OF a [unfolded Inr]] obtain p :: project_row and svc :: service_row
    and d en where
    h: "service_delete e (ID svc) (wdb w) = (Inr (), d)"
      "w' = relay_refresh rm e (ID p) (audit_w e cx en (w\<lparr>wdb := d\<rparr>))"
    by blast
  have "net_ok d"
    using service_delete_effect [OF h(1)] net_ok_service_delete [OF ok] by simp
  then show ?thesis using h(2) by simp
qed

lemmas service_handlers_keep = create_service_keeps update_service_keeps delete_service_keeps

end
