(* ===== verification/AgentService.thy ===== *)
theory AgentService
  imports ServiceService
begin

section \<open>AgentService (internal/grpcsvc/agent_service.go)\<close>

text \<open>
  Bootstrap, Heartbeat, and the configuration version they compare: a hash over the sorted tuples
  of the site's services. Go's \<open>sort.Slice\<close> orders strings by bytes, as the order of \<open>string\<close>
  here does; names are unique among the live services of a site, so every sort agrees.
\<close>

definition heartbeatSeconds :: int where "heartbeatSeconds = 15"

record version_row =
  vr_slug :: string
  vr_relay_port :: port
  vr_target_addr :: string
  vr_target_port :: port
  vr_proto :: string

fun version_rows :: "service_row list \<Rightarrow> version_row list" where
  "version_rows [] = []"
| "version_rows (s # ss) =
     (case sv_relay_port s of
        None \<Rightarrow> version_rows ss
      | Some q \<Rightarrow>
          \<lparr>vr_slug = sv_name s, vr_relay_port = q, vr_target_addr = sv_target_addr s,
           vr_target_port = sv_target_port s, vr_proto = sv_proto s\<rparr> # version_rows ss)"

definition pipe :: char where "pipe = CHR ''|''"
definition newline :: char where "newline = CHR 0x0A"

definition render_version_row :: "version_row \<Rightarrow> string" where
  "render_version_row r =
     vr_slug r @ [pipe] @ format_uint (unat (vr_relay_port r)) @ [pipe] @ vr_target_addr r @ [pipe] @
     format_uint (unat (vr_target_port r)) @ [pipe] @ vr_proto r @ [newline]"

definition version_text :: "service_row list \<Rightarrow> string" where
  "version_text svcs = concat (map render_version_row (sort_key vr_slug (version_rows svcs)))"

definition compute_config_version :: "service_row list \<Rightarrow> string" where
  "compute_config_version svcs = hex_encode (take 8 (sha256 (version_text svcs)))"

record agent_config =
  ag_relay_host :: string
  ag_auth_proxy_endpoint :: string

record tunnel_binding =
  tb_service_slug :: string
  tb_target_addr :: string
  tb_target_port :: "32 word"
  tb_proto :: string
  tb_relay_port :: "32 word"

fun tunnels_of :: "service_row list \<Rightarrow> tunnel_binding list" where
  "tunnels_of [] = []"
| "tunnels_of (s # ss) =
     (case sv_relay_port s of
        None \<Rightarrow> tunnels_of ss
      | Some q \<Rightarrow>
          \<lparr>tb_service_slug = sv_name s, tb_target_addr = sv_target_addr s,
           tb_target_port = ucast (sv_target_port s), tb_proto = sv_proto s,
           tb_relay_port = ucast q\<rparr> # tunnels_of ss)"

record bootstrap_response =
  br_site_name :: string
  br_project_slug :: string
  br_site_slug :: string
  br_auth_proxy_endpoint :: string
  br_tunnels :: "tunnel_binding list"
  br_heartbeat_seconds :: int
  br_config_version :: string

text \<open>The status flip after the heartbeat columns; its failure is only logged.\<close>

definition set_online :: "env \<Rightarrow> nat \<Rightarrow> db \<Rightarrow> db" where
  "set_online e site_id d = snd (site_set_status e site_id SiteStatusOnline d)"

definition bootstrap ::
  "agent_config \<Rightarrow> env \<Rightarrow> string \<Rightarrow> string \<Rightarrow> string \<Rightarrow> ('r, bootstrap_response) handler" where
  "bootstrap cfg e hostname os agent_version cx w =
     (case cx_agent cx of
        None \<Rightarrow> (Inl (Status Unauthenticated ''no agent principal''), w)
      | Some pr \<Rightarrow>
          (case site_find_by_id e (ap_site_id pr) (wdb w) of
             Inl _ \<Rightarrow> (Inl (Status Internal ''internal error''), w)
           | Inr site \<Rightarrow>
               (case project_find_by_id e (ap_project_id pr) (wdb w) of
                  Inl _ \<Rightarrow> (Inl (Status Internal ''internal error''), w)
                | Inr project \<Rightarrow>
                    if pr_status project \<noteq> ProjectStatusActive
                    then (Inl (Status FailedPrecondition ''project is disabled''), w)
                    else
                      (case parse_port_range (pr_relay_port_range project) of
                         Inl _ \<Rightarrow> (Inl (Status FailedPrecondition ''port range: %v''), w)
                       | Inr (minP, _) \<Rightarrow>
                           (case site_update_agent_meta e (ID site) hostname os agent_version []
                                   (wdb w) of
                              (Inl _, d) \<Rightarrow> (Inl (Status Internal ''internal error''), w\<lparr>wdb := d\<rparr>)
                            | (Inr _, d) \<Rightarrow>
                                (let d = set_online e (ID site) d in
                                 (case service_list_by_site e (ID site) 1000 [] d of
                                    Inl _ \<Rightarrow> (Inl (Status Internal ''internal error''), w\<lparr>wdb := d\<rparr>)
                                  | Inr svcs \<Rightarrow>
                                      (Inr \<lparr>br_site_name =
                                              format_site_name (pr_slug project) (si_name site),
                                            br_project_slug = pr_slug project,
                                            br_site_slug = si_name site,
                                            br_auth_proxy_endpoint =
                                              (if ag_auth_proxy_endpoint cfg = []
                                               then ag_relay_host cfg @ '':'' @ format_uint (unat minP)
                                               else ag_auth_proxy_endpoint cfg),
                                            br_tunnels = tunnels_of svcs,
                                            br_heartbeat_seconds = heartbeatSeconds,
                                            br_config_version = compute_config_version svcs\<rparr>,
                                       w\<lparr>wdb := d\<rparr>))))))))"

record heartbeat_response =
  hr_should_rebootstrap :: bool
  hr_server_time :: time

definition heartbeat ::
  "env \<Rightarrow> string \<Rightarrow> string \<Rightarrow> string \<Rightarrow> string list \<Rightarrow> string \<Rightarrow> ('r, heartbeat_response) handler" where
  "heartbeat e hostname os agent_version lan_cidrs config_version cx w =
     (case cx_agent cx of
        None \<Rightarrow> (Inl (Status Unauthenticated ''no agent principal''), w)
      | Some pr \<Rightarrow>
          (case project_find_by_id e (ap_project_id pr) (wdb w) of
             Inl _ \<Rightarrow> (Inl (Status Internal ''internal error''), w)
           | Inr project \<Rightarrow>
               if pr_status project \<noteq> ProjectStatusActive
               then (Inl (Status FailedPrecondition ''project is disabled''), w)
               else
                 (case site_update_agent_meta e (ap_site_id pr) hostname os agent_version lan_cidrs
                         (wdb w) of
                    (Inl _, d) \<Rightarrow> (Inl (Status Internal ''internal error''), w\<lparr>wdb := d\<rparr>)
                  | (Inr _, d) \<Rightarrow>
                      (let d = set_online e (ap_site_id pr) d in
                       (case service_list_by_site e (ap_site_id pr) 1000 [] d of
                          Inl _ \<Rightarrow> (Inl (Status Internal ''internal error''), w\<lparr>wdb := d\<rparr>)
                        | Inr svcs \<Rightarrow>
                            (Inr \<lparr>hr_should_rebootstrap =
                                    (config_version \<noteq> compute_config_version svcs),
                                  hr_server_time = now e\<rparr>, w\<lparr>wdb := d\<rparr>))))))"

subsection \<open>The configuration version\<close>

lemma sep_inj:
  fixes c :: char
  assumes "a @ c # s = b @ c # t" "c \<notin> set a" "c \<notin> set b"
  shows "a = b \<and> s = t"
proof -
  have "Some (a, s) = Some (b, t)"
    using split_two_append [OF assms(2), of s] split_two_append [OF assms(3), of t]
    unfolding assms(1) by metis
  then show ?thesis by simp
qed

text \<open>A row whose text fields hold neither separator.\<close>

definition clean_row :: "version_row \<Rightarrow> bool" where
  "clean_row r = (pipe \<notin> set (vr_slug r) \<and> pipe \<notin> set (vr_target_addr r) \<and> newline \<notin> set (vr_proto r))"

lemma pipe_not_digit: "\<not> is_digit pipe"
  by (simp add: is_digit_def pipe_def)

lemma port_text_inj: "format_uint (unat (p :: port)) = format_uint (unat q) \<Longrightarrow> p = q"
  by (drule format_uint_inj) (simp add: word_unat_eq_iff)

lemma render_row_inj:
  fixes r r' :: version_row
  assumes "render_version_row r @ s = render_version_row r' @ s'" "clean_row r" "clean_row r'"
  shows "r = r' \<and> s = s'"
proof -
  note np = format_uint_no_sep [OF pipe_not_digit]
  have 1: "vr_slug r = vr_slug r' \<and>
      format_uint (unat (vr_relay_port r)) @ pipe # vr_target_addr r @ pipe #
        format_uint (unat (vr_target_port r)) @ pipe # vr_proto r @ newline # s =
      format_uint (unat (vr_relay_port r')) @ pipe # vr_target_addr r' @ pipe #
        format_uint (unat (vr_target_port r')) @ pipe # vr_proto r' @ newline # s'"
    by (rule sep_inj, use assms(1) in \<open>simp add: render_version_row_def\<close>)
      (use assms(2,3) in \<open>simp_all add: clean_row_def\<close>)
  have 2: "vr_relay_port r = vr_relay_port r' \<and>
      vr_target_addr r @ pipe # format_uint (unat (vr_target_port r)) @ pipe # vr_proto r @ newline # s =
      vr_target_addr r' @ pipe # format_uint (unat (vr_target_port r')) @ pipe # vr_proto r' @ newline # s'"
    using sep_inj [OF conjunct2 [OF 1] np np] port_text_inj by blast
  have 3: "vr_target_addr r = vr_target_addr r' \<and>
      format_uint (unat (vr_target_port r)) @ pipe # vr_proto r @ newline # s =
      format_uint (unat (vr_target_port r')) @ pipe # vr_proto r' @ newline # s'"
    by (rule sep_inj [OF conjunct2 [OF 2]]) (use assms(2,3) in \<open>simp_all add: clean_row_def\<close>)
  have 4: "vr_target_port r = vr_target_port r' \<and> vr_proto r @ newline # s = vr_proto r' @ newline # s'"
    using sep_inj [OF conjunct2 [OF 3] np np] port_text_inj by blast
  have 5: "vr_proto r = vr_proto r' \<and> s = s'"
    by (rule sep_inj [OF conjunct2 [OF 4]]) (use assms(2,3) in \<open>simp_all add: clean_row_def\<close>)
  show ?thesis using 1 2 3 4 5 by (simp add: version_row.equality)
qed

lemma render_rows_inj:
  fixes xs ys :: "version_row list"
  assumes "concat (map render_version_row xs) = concat (map render_version_row ys)"
    "\<forall>r\<in>set xs. clean_row r" "\<forall>r\<in>set ys. clean_row r"
  shows "xs = ys"
  using assms
proof (induction xs arbitrary: ys)
  case Nil
  then show ?case by (cases ys) (simp_all add: render_version_row_def)
next
  case (Cons x xs)
  obtain y ys' where ys: "ys = y # ys'"
    using Cons.prems(1) by (cases ys) (simp_all add: render_version_row_def)
  from render_row_inj [of x _ y] Cons.prems ys
  have "x = y \<and> concat (map render_version_row xs) = concat (map render_version_row ys')" by simp
  then show ?case using Cons.IH Cons.prems ys by simp
qed

text \<open>
  The configuration version is a function of the set of (slug, relay port, target, protocol)
  tuples of a site, whatever the order the services are listed in; and for tuples without the two
  separator characters the text that is hashed determines the set, so any other change of the
  services is seen by Heartbeat unless two texts collide under the truncated hash.
\<close>
theorem config_version_set:
  assumes "distinct (map vr_slug (version_rows a))" and "distinct (map vr_slug (version_rows b))"
    and "\<forall>r\<in>set (version_rows a) \<union> set (version_rows b). clean_row r"
  shows "(set (version_rows a) = set (version_rows b) \<longrightarrow>
       compute_config_version a = compute_config_version b) \<and>
    (version_text a = version_text b \<longrightarrow> set (version_rows a) = set (version_rows b))"
proof (intro conjI impI)
  assume "set (version_rows a) = set (version_rows b)"
  then have "version_text a = version_text b"
    using sort_key_set_unique [OF assms(1,2)] by (simp add: version_text_def)
  then show "compute_config_version a = compute_config_version b"
    by (simp add: compute_config_version_def)
next
  assume "version_text a = version_text b"
  then have "sort_key vr_slug (version_rows a) = sort_key vr_slug (version_rows b)"
    using assms(3) by (intro render_rows_inj) (auto simp: version_text_def)
  then show "set (version_rows a) = set (version_rows b)" by (metis set_sort)
qed

theorem config_version_set_witness:
  "compute_config_version [ex_service, ex_service\<lparr>ID := 2, sv_name := ''web''\<rparr>] =
     compute_config_version [ex_service\<lparr>ID := 2, sv_name := ''web''\<rparr>, ex_service]"
  using config_version_set [of "[ex_service, ex_service\<lparr>ID := 2, sv_name := ''web''\<rparr>]"
      "[ex_service\<lparr>ID := 2, sv_name := ''web''\<rparr>, ex_service]"]
  by (simp add: clean_row_def pipe_def newline_def ProtoTCP_def insert_commute)

subsection \<open>What Bootstrap and Heartbeat write\<close>

lemma set_online_db:
  "set_online e i d = (if fault e ''dao: set site status'' then d
     else d\<lparr>t_sites := update_live (\<lambda>s. ID s = i) (\<lambda>s. (touch (now e) s)\<lparr>si_status := SiteStatusOnline\<rparr>)
              (t_sites d)\<rparr>)"
  by (simp add: set_online_def site_set_status_def)

lemma net_ok_agent_meta:
  "net_ok d \<Longrightarrow> site_update_agent_meta e i h os v cs d = (r, d') \<Longrightarrow> net_ok d'"
  by (auto simp: site_update_agent_meta_def split: if_splits intro!: net_ok_site_update_live)

lemma net_ok_set_online: "net_ok d \<Longrightarrow> net_ok (set_online e i d)"
  by (auto simp: set_online_db intro!: net_ok_site_update_live)

lemma agent_handlers_keep:
  assumes "net_ok (wdb w)"
  shows "bootstrap cfg e h os v cx w = (r1, w') \<Longrightarrow> net_ok (wdb w')"
    and "heartbeat e h os v cs cv cx w = (r2, w') \<Longrightarrow> net_ok (wdb w')"
  using assms unfolding bootstrap_def heartbeat_def
  by (auto simp: Let_def intro!: net_ok_set_online dest: net_ok_agent_meta
      split: option.splits sum.splits prod.splits if_splits)

lemma agent_tables_frame:
  "site_update_agent_meta e i h os v cs d = (r, d') \<Longrightarrow> d' = d\<lparr>t_sites := t_sites d'\<rparr>"
  by (auto simp: site_update_agent_meta_def split: if_splits)

lemma set_online_frame: "set_online e i d = d\<lparr>t_sites := t_sites (set_online e i d)\<rparr>"
  by (simp add: set_online_db)

lemma agent_handlers_frame:
  "bootstrap cfg e h os v cx w = (r1, w') \<Longrightarrow> wdb w' = (wdb w)\<lparr>t_sites := t_sites (wdb w')\<rparr>"
  "heartbeat e h os v cs cv cx w = (r2, w') \<Longrightarrow> wdb w' = (wdb w)\<lparr>t_sites := t_sites (wdb w')\<rparr>"
  unfolding bootstrap_def heartbeat_def site_update_agent_meta_def
  by (auto simp: Let_def set_online_db split: option.splits sum.splits prod.splits if_splits)

subsection \<open>What the agent is told\<close>

text \<open>The services an agent of a site is served: the first 1000 live ones in key order.\<close>

definition served_services :: "nat \<Rightarrow> db \<Rightarrow> service_row list" where
  "served_services site_id d = take 1000 (select_live (\<lambda>v. sv_site_id v = site_id) (t_services d))"

lemma service_list_1000:
  "service_list_by_site e i 1000 [] d = Inr svcs \<Longrightarrow> svcs = served_services i d"
  by (auto simp: service_list_by_site_def page_live_def clamp_page_size_def served_services_def
      split: if_splits)

lemma site_update_agent_meta_services:
  "site_update_agent_meta e i h os v cs d = (r, d') \<Longrightarrow> t_services d' = t_services d"
  by (auto simp: site_update_agent_meta_def split: if_splits)

lemma set_online_services [simp]: "t_services (set_online e i d) = t_services d"
  by (simp add: set_online_db)

lemma agent_handlers_relay:
  "bootstrap cfg e h os v cx w = (r1, w') \<Longrightarrow> wrelay w' = wrelay w"
  "heartbeat e h os v cs cv cx w = (r2, w') \<Longrightarrow> wrelay w' = wrelay w"
  unfolding bootstrap_def heartbeat_def
  by (auto simp: Let_def split: option.splits sum.splits prod.splits if_splits)

lemma bootstrap_Inr:
  assumes "bootstrap cfg e h os v cx w = (Inr b, w')"
  shows "\<exists>pr site project lo hi d. cx_agent cx = Some pr \<and>
    site_find_by_id e (ap_site_id pr) (wdb w) = Inr site \<and>
    project_find_by_id e (ap_project_id pr) (wdb w) = Inr project \<and>
    pr_status project = ProjectStatusActive \<and> parse_port_range (pr_relay_port_range project) = Inr (lo, hi) \<and>
    site_update_agent_meta e (ID site) h os v [] (wdb w) = (Inr (), d) \<and>
    wdb w' = set_online e (ID site) d \<and> br_tunnels b = tunnels_of (served_services (ID site) (wdb w)) \<and>
    br_config_version b = compute_config_version (served_services (ID site) (wdb w)) \<and>
    br_site_name b = format_site_name (pr_slug project) (si_name site) \<and>
    br_site_slug b = si_name site \<and>
    (ag_auth_proxy_endpoint cfg = [] \<longrightarrow>
      br_auth_proxy_endpoint b = ag_relay_host cfg @ '':'' @ format_uint (unat lo))"
proof -
  obtain pr site project lo hi d svcs where x: "cx_agent cx = Some pr"
    "site_find_by_id e (ap_site_id pr) (wdb w) = Inr site"
    "project_find_by_id e (ap_project_id pr) (wdb w) = Inr project"
    "pr_status project = ProjectStatusActive" "parse_port_range (pr_relay_port_range project) = Inr (lo, hi)"
    "site_update_agent_meta e (ID site) h os v [] (wdb w) = (Inr (), d)"
    "service_list_by_site e (ID site) 1000 [] (set_online e (ID site) d) = Inr svcs"
    using assms unfolding bootstrap_def
    by (auto simp: Let_def split: option.splits sum.splits prod.splits if_splits)
  have "svcs = served_services (ID site) (wdb w)"
    using service_list_1000 [OF x(7)] site_update_agent_meta_services [OF x(6)]
    by (simp add: served_services_def)
  then show ?thesis using assms x unfolding bootstrap_def by (auto simp: Let_def)
qed

lemma heartbeat_Inr:
  assumes "heartbeat e h os v cs cv cx w = (Inr r, w')"
  shows "\<exists>pr project d. cx_agent cx = Some pr \<and>
    project_find_by_id e (ap_project_id pr) (wdb w) = Inr project \<and>
    pr_status project = ProjectStatusActive \<and>
    site_update_agent_meta e (ap_site_id pr) h os v cs (wdb w) = (Inr (), d) \<and>
    wdb w' = set_online e (ap_site_id pr) d \<and> hr_server_time r = now e \<and>
    hr_should_rebootstrap r = (cv \<noteq> compute_config_version (served_services (ap_site_id pr) (wdb w)))"
proof -
  obtain pr project d svcs where x: "cx_agent cx = Some pr"
    "project_find_by_id e (ap_project_id pr) (wdb w) = Inr project"
    "pr_status project = ProjectStatusActive"
    "site_update_agent_meta e (ap_site_id pr) h os v cs (wdb w) = (Inr (), d)"
    "service_list_by_site e (ap_site_id pr) 1000 [] (set_online e (ap_site_id pr) d) = Inr svcs"
    using assms unfolding heartbeat_def
    by (auto simp: Let_def split: option.splits sum.splits prod.splits if_splits)
  have "svcs = served_services (ap_site_id pr) (wdb w)"
    using service_list_1000 [OF x(5)] site_update_agent_meta_services [OF x(4)]
    by (simp add: served_services_def)
  then show ?thesis using assms x unfolding heartbeat_def by (auto simp: Let_def)
qed

text \<open>
  An agent that bootstrapped and then sends a heartbeat with the version it got is told to
  bootstrap again exactly when the hash of its site's services has changed; while the services
  are untouched it is never told to, whatever other tables changed in between.
\<close>
theorem heartbeat_detects_drift:
  assumes "bootstrap cfg e h os v cx w = (Inr b, w1)" and "cx_agent cx = Some pr"
    and "cx_agent cx' = Some pr"
    and "heartbeat e' h' os' v' cs (br_config_version b) cx' w2 = (Inr r, w3)"
  shows "(hr_should_rebootstrap r \<longleftrightarrow>
      compute_config_version (served_services (ap_site_id pr) (wdb w)) \<noteq>
      compute_config_version (served_services (ap_site_id pr) (wdb w2))) \<and>
    (t_services (wdb w2) = t_services (wdb w1) \<longrightarrow> \<not> hr_should_rebootstrap r)"
proof -
  obtain site where s: "site_find_by_id e (ap_site_id pr) (wdb w) = Inr site"
    "br_config_version b = compute_config_version (served_services (ID site) (wdb w))"
    using bootstrap_Inr [OF assms(1)] assms(2) by auto
  have "ID site = ap_site_id pr" using site_find_by_id_Inr [OF s(1)] by simp
  moreover have "t_services (wdb w1) = t_services (wdb w)"
    using agent_handlers_frame(1) [OF assms(1)]
    by (metis db.select_convs(7) db.surjective db.update_convs(5))
  ultimately show ?thesis
    using heartbeat_Inr [OF assms(4)] assms(3) s(2) by (auto simp: served_services_def)
qed

text \<open>
  C19. When nothing fails, Bootstrap and Heartbeat answer only for an active project, Bootstrap hands out exactly the
  tunnels of the principal's own site, and both put that site online with last_seen_at set to now:
  its live row keeps its key, its deletion mark, its project and its name; every other row of the
  table of sites, in its place, and every other table and the relay manager are exactly as they were.
\<close>
theorem agent_rpcs_serve_own_site:
  assumes "tbl_wf (t_sites (wdb w))" and "\<forall>s. \<not> fault e s" and "cx_agent cx = Some pr"
    and "bootstrap cfg e h os v cx w = (Inr b, w') \<or> heartbeat e h os v cs cv cx w = (Inr r, w')"
  shows "(\<exists>p\<in>set (rows (t_projects (wdb w))). live p \<and> ID p = ap_project_id pr \<and>
        pr_status p = ProjectStatusActive) \<and>
    (bootstrap cfg e h os v cx w = (Inr b, w') \<longrightarrow>
       br_tunnels b = tunnels_of (served_services (ap_site_id pr) (wdb w))) \<and>
    (\<exists>f. rows (t_sites (wdb w')) =
         map (\<lambda>s. if live s \<and> ID s = ap_site_id pr then f s else s) (rows (t_sites (wdb w))) \<and>
       (\<forall>s. ID (f s) = ID s \<and> CreatedAt (f s) = CreatedAt s \<and> DeletedAt (f s) = DeletedAt s \<and>
          si_project_id (f s) = si_project_id s \<and> si_name (f s) = si_name s \<and>
          si_status (f s) = SiteStatusOnline \<and> si_last_seen_at (f s) = Some (now e))) \<and>
    wdb w' = (wdb w)\<lparr>t_sites := t_sites (wdb w')\<rparr> \<and> wrelay w' = wrelay w"
proof -
  obtain d cs' where d: "site_update_agent_meta e (ap_site_id pr) h os v cs' (wdb w) = (Inr (), d)"
    "wdb w' = set_online e (ap_site_id pr) d"
    "\<exists>p\<in>set (rows (t_projects (wdb w))). live p \<and> ID p = ap_project_id pr \<and>
        pr_status p = ProjectStatusActive"
    "bootstrap cfg e h os v cx w = (Inr b, w') \<longrightarrow>
       br_tunnels b = tunnels_of (served_services (ap_site_id pr) (wdb w))"
  proof (cases "bootstrap cfg e h os v cx w = (Inr b, w')")
    case True
    from bootstrap_Inr [OF this] assms(3) obtain site project d where
      x: "site_find_by_id e (ap_site_id pr) (wdb w) = Inr site"
        "project_find_by_id e (ap_project_id pr) (wdb w) = Inr project"
        "pr_status project = ProjectStatusActive"
        "site_update_agent_meta e (ID site) h os v [] (wdb w) = (Inr (), d)"
        "wdb w' = set_online e (ID site) d" "br_tunnels b = tunnels_of (served_services (ID site) (wdb w))"
      by auto
    have "ID site = ap_site_id pr" using site_find_by_id_Inr [OF x(1)] by simp
    then show ?thesis using that x project_find_by_id_Inr [OF x(2)] by metis
  next
    case False
    then have "heartbeat e h os v cs cv cx w = (Inr r, w')" using assms(4) by blast
    from heartbeat_Inr [OF this] assms(3) obtain project d where
      x: "project_find_by_id e (ap_project_id pr) (wdb w) = Inr project"
        "pr_status project = ProjectStatusActive"
        "site_update_agent_meta e (ap_site_id pr) h os v cs (wdb w) = (Inr (), d)"
        "wdb w' = set_online e (ap_site_id pr) d"
      by auto
    then show ?thesis using that project_find_by_id_Inr [OF x(1)] False by metis
  qed
  let ?m = "set_agent_meta (now e) h os v cs'"
  let ?g = "\<lambda>s. (touch (now e) (?m s))\<lparr>si_status := SiteStatusOnline\<rparr>"
  have "rows (t_sites (wdb w')) =
      map (\<lambda>s. if live s \<and> ID s = ap_site_id pr then ?g s else s) (rows (t_sites (wdb w)))"
    using d(1,2) assms(2) by (auto simp: site_update_agent_meta_def set_online_db update_live_simps)
  moreover have "\<forall>s. ID (?g s) = ID s \<and> CreatedAt (?g s) = CreatedAt s \<and> DeletedAt (?g s) = DeletedAt s \<and>
      si_project_id (?g s) = si_project_id s \<and> si_name (?g s) = si_name s \<and>
      si_status (?g s) = SiteStatusOnline \<and> si_last_seen_at (?g s) = Some (now e)"
    by (simp add: set_agent_meta_def touch_def)
  ultimately have "\<exists>f. rows (t_sites (wdb w')) =
         map (\<lambda>s. if live s \<and> ID s = ap_site_id pr then f s else s) (rows (t_sites (wdb w))) \<and>
       (\<forall>s. ID (f s) = ID s \<and> CreatedAt (f s) = CreatedAt s \<and> DeletedAt (f s) = DeletedAt s \<and>
          si_project_id (f s) = si_project_id s \<and> si_name (f s) = si_name s \<and>
          si_status (f s) = SiteStatusOnline \<and> si_last_seen_at (f s) = Some (now e))"
    by (intro exI [of _ ?g] conjI)
  moreover have "wdb w' = (wdb w)\<lparr>t_sites := t_sites (wdb w')\<rparr>" using assms(4) agent_handlers_frame by blast
  moreover have "wrelay w' = wrelay w" using assms(4) agent_handlers_relay by blast
  ultimately show ?thesis using d(3,4) by blast
qed

subsection \<open>The agent calls on the example database\<close>

definition ex_agent_cx :: ctx where
  "ex_agent_cx = \<lparr>cx_operator = None, cx_raw_token = ''agent'',
     cx_agent = Some \<lparr>ap_site_id = 1, ap_project_id = 1\<rparr>, cx_source_ip = [], cx_md = None\<rparr>"

definition ex_agent_cfg :: agent_config where
  "ex_agent_cfg = \<lparr>ag_relay_host = ''relay'', ag_auth_proxy_endpoint = []\<rparr>"

lemma ex_agent_cx_simps [simp]: "cx_agent ex_agent_cx = Some \<lparr>ap_site_id = 1, ap_project_id = 1\<rparr>"
  by (simp add: ex_agent_cx_def)

lemma ex_bootstrap:
  "\<exists>b w1. bootstrap ex_agent_cfg ex_env ''h'' ''linux'' ''v1'' ex_agent_cx ex_world = (Inr b, w1) \<and>
     t_projects (wdb w1) = t_projects ex_db \<and> t_services (wdb w1) = t_services ex_db"
  by (simp add: bootstrap_def ex_world_def site_find_by_id_def project_find_by_id_def  first_live_def
       site_update_agent_meta_def set_online_db service_list_by_site_def Let_def
      ex_range [unfolded append.simps])

lemma ex_heartbeat:
  assumes "t_projects (wdb w) = t_projects ex_db"
  shows "\<exists>r w'. heartbeat ex_env ''h'' ''linux'' ''v1'' [] cv ex_agent_cx w = (Inr r, w')"
  using assms by (simp add: heartbeat_def project_find_by_id_def first_live_def
       site_update_agent_meta_def set_online_db service_list_by_site_def Let_def)

text \<open>A heartbeat right after a bootstrap is not told to bootstrap again.\<close>

theorem heartbeat_detects_drift_witness:
  "\<exists>b w1 r w3. bootstrap ex_agent_cfg ex_env ''h'' ''linux'' ''v1'' ex_agent_cx ex_world = (Inr b, w1) \<and>
     heartbeat ex_env ''h'' ''linux'' ''v1'' [] (br_config_version b) ex_agent_cx w1 = (Inr r, w3) \<and>
     \<not> hr_should_rebootstrap r"
proof -
  obtain b w1 where b: "bootstrap ex_agent_cfg ex_env ''h'' ''linux'' ''v1'' ex_agent_cx ex_world = (Inr b, w1)"
    "t_projects (wdb w1) = t_projects ex_db"
    using ex_bootstrap by blast
  obtain r w3 where r: "heartbeat ex_env ''h'' ''linux'' ''v1'' [] (br_config_version b) ex_agent_cx w1 =
      (Inr r, w3)"
    using ex_heartbeat [OF b(2)] by blast
  show ?thesis
    using heartbeat_detects_drift [OF b(1) _ _ r] b r by auto
qed

text \<open>A bootstrap of the example site, and the heartbeat after it.\<close>

theorem agent_rpcs_serve_own_site_witness:
  "\<exists>b w1. bootstrap ex_agent_cfg ex_env ''h'' ''linux'' ''v1'' ex_agent_cx ex_world = (Inr b, w1) \<and>
     br_tunnels b = tunnels_of (served_services 1 ex_db)"
proof -
  obtain b w1 where b: "bootstrap ex_agent_cfg ex_env ''h'' ''linux'' ''v1'' ex_agent_cx ex_world = (Inr b, w1)"
    using ex_bootstrap by blast
  have "tbl_wf (t_sites (wdb ex_world))" by (simp add: ex_world_def tbl_wf_def)
  from agent_rpcs_serve_own_site [OF this _ ex_agent_cx_simps disjI1 [OF b]]
  show ?thesis using b by (auto simp: ex_world_def)
qed

text \<open>The example project's only service holds port 7001, so the next one gets 7002.\<close>

theorem allocate_relay_port_lowest_free_witness:
  "allocate_relay_port ex_env ex_project ex_db = Inr 7002"
proof -
  have u: "q \<in> set (used_relay_ports (ID ex_project) ex_db) \<longleftrightarrow> q = 7001" for q
    by (auto simp: set_used_relay_ports)
  have k: "q = 7001" if "unat (7000 :: port) < unat q" "unat q < unat (7002 :: port)" for q :: port
  proof -
    have "unat q = 7001" using that by simp
    then show ?thesis using word_unat_eq_iff [of q 7001] by simp
  qed
  then show ?thesis
    using allocate_relay_port_lowest_free [OF ex_range, of ex_env ex_db] k u [simplified] by simp
qed

end
