(* ===== verification/Tunnel.thy ===== *)
theory Tunnel
  imports Relay ProjectService AgentService "HOL-Library.Sublist"
begin

section \<open>A tunnel end to end (internal/agent/render.go with relay and agent service)\<close>

text \<open>
  RenderRatholeClient, the client side of the configuration rathole needs at both ends, and the
  lemmas that bring the parts together: the tunnels Bootstrap hands to an agent have, under the
  same keys and with the token the agent presents, a binding in the configuration the relay
  manager renders; and the services' calls of the manager stop a project that is disabled or
  deleted. A nil element of the tunnel list does not occur in a decoded message.
\<close>

definition render_client_service :: "string \<Rightarrow> tunnel_binding \<Rightarrow> string" where
  "render_client_service site_slug t =
     ''[client.services.'' @ tunnel_key site_slug (tb_service_slug t) @ '']'' @ eol @
     ''local_addr = '' @
     go_quote (tb_target_addr t @ '':'' @ format_uint (unat (tb_target_port t))) @ eol @ eol"

definition sort_tunnels :: "tunnel_binding list \<Rightarrow> tunnel_binding list" where
  "sort_tunnels ts = sort_key tb_service_slug ts"

definition RenderRatholeClient ::
  "bootstrap_response option \<Rightarrow> string \<Rightarrow> string \<Rightarrow> err + string" where
  "RenderRatholeClient boot raw_token remote_addr =
     (case boot of
        None \<Rightarrow> Inl ''agent: nil bootstrap response''
      | Some b \<Rightarrow>
          if remote_addr = [] then Inl ''agent: missing rathole_remote_addr''
          else if raw_token = [] then Inl ''agent: empty token''
          else
            Inr (''# quicktun-agent rendered config for '' @ br_site_name b @ eol @
                 ''# DO NOT EDIT MANUALLY '' @ em_dash @ '' overwritten on every bootstrap.'' @
                 eol @ eol @
                 ''[client]'' @ eol @
                 ''remote_addr = '' @ go_quote remote_addr @ eol @
                 ''default_token = '' @ go_quote (hash_token raw_token) @ eol @ eol @
                 concat (map (render_client_service (br_site_slug b)) (sort_tunnels (br_tunnels b)))))"

subsection \<open>The two ends agree\<close>

lemma service_bindings_fields:
  "sb \<in> set (service_bindings s h vs) \<Longrightarrow> sb_site_slug sb = s \<and> sb_agent_token sb = h"
  by (induction vs) (auto split: option.splits)

lemma first_page_all:
  "length (select_live P t) \<le> 1000 \<Longrightarrow> set (first_page P t) = set (select_live P t)"
  by (simp add: first_page_def)

text \<open>A raw token that a live row of the site answers to is the one the relay renders for it.\<close>

lemma site_token_hash_of_owner:
  assumes "db_wf d" "agent_owner t0 raw d = Some i"
  shows "site_token_hash i d = hash_token raw"
proof -
  obtain r where r: "r \<in> set (rows (t_agent_tokens d))" "live r" "at_site_id r = i" "at_token_hash r = hash_token raw"
    using assms(2) agent_token_lookup_Some [of t0 raw d] by (auto simp: agent_owner_def)
  have u: "uniq_live at_site_id (t_agent_tokens d)" and w: "tbl_wf (t_agent_tokens d)"
    using assms(1) by (auto simp: db_wf_def)
  have "first_live (\<lambda>t. at_site_id t = i) (t_agent_tokens d) = Some r"
    by (rule first_live_key [OF w u r(1-3)])
  then show ?thesis using r(4) by (simp add: site_token_hash_def)
qed

lemma project_binding_iff:
  "sb \<in> set (project_bindings d i) \<longleftrightarrow>
     (\<exists>s\<in>set (first_page (\<lambda>s. si_project_id s = i) (t_sites d)).
        sb \<in> set (service_bindings (si_name s) (site_token_hash (ID s) d) (served_services (ID s) d)))"
  by (simp add: project_bindings_def first_page_def served_services_def)

text \<open>The tunnels Bootstrap returns, and the site's bindings in the configuration of the project's rathole-server.\<close>

lemma own_site_bindings:
  assumes "db_wf (wdb w)" and "bootstrap cfg e h os v cx w = (Inr b, w')"
    and "cx_agent cx = Some pr" and "agent_owner t0 raw (wdb w) = Some (ap_site_id pr)"
    and "\<forall>s\<in>set (rows (t_sites (wdb w))). ID s = ap_site_id pr \<longrightarrow> si_project_id s = ap_project_id pr"
    and "length (select_live (\<lambda>s. si_project_id s = ap_project_id pr) (t_sites (wdb w))) \<le> 1000"
  obtains vs where "br_tunnels b = tunnels_of vs"
    and "\<And>sb. sb \<in> set (project_bindings (wdb w) (ap_project_id pr)) \<and> sb_site_slug sb = br_site_slug b \<longleftrightarrow>
      sb \<in> set (service_bindings (br_site_slug b) (hash_token raw) vs)"
proof -
  let ?d = "wdb w"
  obtain site where x: "site_find_by_id e (ap_site_id pr) ?d = Inr site"
    "br_tunnels b = tunnels_of (served_services (ID site) ?d)" "br_site_slug b = si_name site"
    using bootstrap_Inr [OF assms(2)] assms(3) by auto
  have s: "site \<in> set (rows (t_sites ?d))" "live site" "ID site = ap_site_id pr"
    using site_find_by_id_Inr [OF x(1)] by simp_all
  have p: "si_project_id site = ap_project_id pr" using assms(5) s by blast
  have h: "site_token_hash (ID site) ?d = hash_token raw"
    using site_token_hash_of_owner [OF assms(1,4)] s(3) by simp
  have same: "s' = site" if "s' \<in> set (rows (t_sites ?d))" "live s'"
    "si_project_id s' = ap_project_id pr" "si_name s' = si_name site" for s'
  proof -
    have "uniq_live (\<lambda>r. (si_project_id r, si_name r)) (t_sites ?d)" "tbl_wf (t_sites ?d)"
      using assms(1) by (auto simp: db_wf_def)
    then show ?thesis
      using uniq_live_row [of "t_sites ?d" "\<lambda>r. (si_project_id r, si_name r)" s' site] that s p by simp
  qed
  show thesis
  proof (rule that [OF x(2)])
    fix sb
    have "sb \<in> set (service_bindings n h vs) \<Longrightarrow> sb_site_slug sb = n" for n h vs
      using service_bindings_fields by blast
    then show "sb \<in> set (project_bindings ?d (ap_project_id pr)) \<and> sb_site_slug sb = br_site_slug b \<longleftrightarrow>
        sb \<in> set (service_bindings (br_site_slug b) (hash_token raw) (served_services (ID site) ?d))"
      unfolding project_binding_iff first_page_all [OF assms(6)] set_select_live
      using same s p h x(3) by fastforce
  qed
qed

text \<open>A tunnel and a binding, read off the same services.\<close>

lemma tunnel_binding:
  "t \<in> set (tunnels_of vs) \<Longrightarrow> \<exists>q. tb_relay_port t = ucast q \<and>
     \<lparr>sb_site_slug = n, sb_service_slug = tb_service_slug t, sb_relay_port = q, sb_agent_token = h\<rparr> \<in> set (service_bindings n h vs)"
  by (induction vs) (auto split: option.splits)

lemma binding_tunnel:
  "sb \<in> set (service_bindings n h vs) \<Longrightarrow>
     \<exists>t\<in>set (tunnels_of vs). tb_service_slug t = sb_service_slug sb \<and> tb_relay_port t = ucast (sb_relay_port sb)"
  by (induction vs) (auto split: option.splits)

subsection \<open>The two files\<close>

lemma concat_map_part: "x \<in> set xs \<Longrightarrow> \<exists>pre post. concat (map f xs) = pre @ f x @ post"
  by (drule split_list) (force intro: exI [of _ "concat (map f _)"])

lemma server_text_part:
  assumes "RenderRatholeServer p bs = Inr toml" and "sb \<in> set bs"
  shows "\<exists>pre post. toml = pre @ render_binding sb @ post"
proof -
  have "sb \<in> set (sort_bindings bs)" using assms(2) by (simp add: sort_bindings_def)
  from concat_map_part [OF this, of render_binding] obtain pre post where "concat (map render_binding (sort_bindings bs)) = pre @ render_binding sb @ post"
    by blast
  moreover have "suffix (concat (map render_binding (sort_bindings bs))) toml"
  proof -
    obtain lo hi where range: "parse_port_range (pr_relay_port_range p) = Inr (lo, hi)"
    proof (cases "parse_port_range (pr_relay_port_range p)")
      case (Inl x)
      then show ?thesis using assms(1) by (simp add: RenderRatholeServer_def)
    next
      case (Inr r)
      then show ?thesis using that by (cases r) simp
    qed
    note rendered = assms(1) [unfolded RenderRatholeServer_def range sum.case prod.case sum.inject, symmetric]
    show ?thesis unfolding rendered by (rule suffix_order.refl | rule suffix_appendI)+
  qed
  then obtain lead where "toml = lead @ concat (map render_binding (sort_bindings bs))" by (auto simp: suffix_def)
  ultimately have "toml = (lead @ pre) @ render_binding sb @ post" by (simp only: append_assoc)
  then show ?thesis by blast
qed

lemma client_text_part:
  assumes "RenderRatholeClient (Some boot) tok addr = Inr toml" and "t \<in> set (br_tunnels boot)"
  shows "\<exists>pre mid post. toml =
    pre @ ''default_token = '' @ go_quote (hash_token tok) @ eol @ mid @ render_client_service (br_site_slug boot) t @ post"
proof -
  let ?r = "render_client_service (br_site_slug boot)"
  have "t \<in> set (sort_tunnels (br_tunnels boot))" using assms(2) by (simp add: sort_tunnels_def)
  from concat_map_part [OF this, of ?r] obtain pre post where c: "concat (map ?r (sort_tunnels (br_tunnels boot))) = pre @ ?r t @ post"
    by blast
  let ?tail = "''default_token = '' @ go_quote (hash_token tok) @ eol @ eol @
      concat (map ?r (sort_tunnels (br_tunnels boot)))"
  have "addr \<noteq> []" using assms(1) by (rule contrapos_pn) (simp add: RenderRatholeClient_def)
  moreover have "tok \<noteq> []" using assms(1) by (rule contrapos_pn) (simp add: RenderRatholeClient_def)
  ultimately have ne: "(addr = []) = False" "(tok = []) = False" by blast+
  note rendered = assms(1) [unfolded RenderRatholeClient_def option.case ne if_False sum.inject, symmetric]
  have "suffix ?tail toml" unfolding rendered by (rule suffix_order.refl | rule suffix_appendI)+
  then obtain lead where "toml = lead @ ?tail" unfolding suffix_def by blast
  then have "toml = lead @ ''default_token = '' @ go_quote (hash_token tok) @ eol @ (eol @ pre) @ ?r t @ post"
    unfolding c by (simp only: append_assoc)
  then show ?thesis by blast
qed

text \<open>A service's entry in the file of rathole-server and in that of rathole-client.\<close>

definition server_entry :: "string \<Rightarrow> string \<Rightarrow> string \<Rightarrow> string" where
  "server_entry k token bind =
     ''[server.services.'' @ k @ '']'' @ eol @ ''token = '' @ go_quote token @ eol @
     ''bind_addr = '' @ [CHR 0x22] @ bind @ [CHR 0x22] @ eol @ eol"

definition client_entry :: "string \<Rightarrow> string \<Rightarrow> string" where
  "client_entry k target =
     ''[client.services.'' @ k @ '']'' @ eol @ ''local_addr = '' @ go_quote target @ eol @ eol"

lemma render_client_entry:
  "render_client_service n t = client_entry (tunnel_key n (tb_service_slug t))
     (tb_target_addr t @ '':'' @ format_uint (unat (tb_target_port t)))"
  by (simp only: render_client_service_def client_entry_def)

lemma render_binding_entry:
  "render_binding \<lparr>sb_site_slug = n, sb_service_slug = v, sb_relay_port = q, sb_agent_token = h\<rparr> =
     server_entry (tunnel_key n v) h (''127.0.0.1:'' @ format_uint (unat q))"
  by (simp add: render_binding_def server_entry_def)

text \<open>
  C16. The two ends of a tunnel agree. When Bootstrap answers an agent that presented raw token \<open>raw\<close>,
  the file the agent renders from the answer has the token's hash as its default_token, and every tunnel
  of the answer has its entry there, under a rathole key and with the target's address and port; under the
  same key, with the same hash as the service's token and with the tunnel's relay port to listen on, it has
  an entry in the file of the project's rathole-server; and that file binds no other service of the site.
  (For a project of at most 1000 sites, the one page the manager reads.)
\<close>
theorem tunnel_ends_agree:
  assumes "db_wf (wdb w)" and "bootstrap cfg e h os v cx w = (Inr b, w')"
    and "cx_agent cx = Some pr" and "agent_owner t0 raw (wdb w) = Some (ap_site_id pr)"
    and "\<forall>s\<in>set (rows (t_sites (wdb w))). ID s = ap_site_id pr \<longrightarrow> si_project_id s = ap_project_id pr"
    and "length (select_live (\<lambda>s. si_project_id s = ap_project_id pr) (t_sites (wdb w))) \<le> 1000"
    and "RenderRatholeClient (Some b) raw addr = Inr cfile"
    and "RenderRatholeServer p (project_bindings (wdb w) (ap_project_id pr)) = Inr sfile"
  shows "(\<forall>t\<in>set (br_tunnels b).
      (\<exists>pre mid post. cfile = pre @ ''default_token = '' @ go_quote (hash_token raw) @ eol @ mid @
         client_entry (tunnel_key (br_site_slug b) (tb_service_slug t))
           (tb_target_addr t @ '':'' @ format_uint (unat (tb_target_port t))) @ post) \<and>
      (\<exists>pre post. sfile = pre @
         server_entry (tunnel_key (br_site_slug b) (tb_service_slug t)) (hash_token raw)
           (''127.0.0.1:'' @ format_uint (unat (tb_relay_port t))) @ post)) \<and>
    (\<forall>sb\<in>set (project_bindings (wdb w) (ap_project_id pr)). sb_site_slug sb = br_site_slug b \<longrightarrow>
      sb_agent_token sb = hash_token raw \<and>
      (\<exists>t\<in>set (br_tunnels b). tb_service_slug t = sb_service_slug sb \<and> tb_relay_port t = ucast (sb_relay_port sb)))"
proof -
  let ?bindings = "project_bindings (wdb w) (ap_project_id pr)"
  obtain vs where vs: "br_tunnels b = tunnels_of vs"
    "\<And>sb. sb \<in> set ?bindings \<and> sb_site_slug sb = br_site_slug b \<longleftrightarrow>
      sb \<in> set (service_bindings (br_site_slug b) (hash_token raw) vs)"
    by (rule own_site_bindings [OF assms(1-6)], rule that)
  show ?thesis
  proof (intro conjI ballI impI)
    fix t assume t: "t \<in> set (br_tunnels b)"
    from client_text_part [OF assms(7) t]
    show "\<exists>pre mid post. cfile = pre @ ''default_token = '' @ go_quote (hash_token raw) @ eol @ mid @
        client_entry (tunnel_key (br_site_slug b) (tb_service_slug t))
          (tb_target_addr t @ '':'' @ format_uint (unat (tb_target_port t))) @ post"
      unfolding render_client_entry .
    obtain q where q: "tb_relay_port t = ucast q"
      "\<lparr>sb_site_slug = br_site_slug b, sb_service_slug = tb_service_slug t, sb_relay_port = q,
        sb_agent_token = hash_token raw\<rparr> \<in> set ?bindings"
      using tunnel_binding [of t vs "br_site_slug b" "hash_token raw"] t unfolding vs(1) vs(2) [symmetric] by blast
    from server_text_part [OF assms(8) q(2)]
    show "\<exists>pre post. sfile = pre @ server_entry (tunnel_key (br_site_slug b) (tb_service_slug t)) (hash_token raw)
        (''127.0.0.1:'' @ format_uint (unat (tb_relay_port t))) @ post"
      unfolding render_binding_entry q(1) port_up .
  next
    fix sb assume "sb \<in> set ?bindings" "sb_site_slug sb = br_site_slug b"
    then have sb: "sb \<in> set (service_bindings (br_site_slug b) (hash_token raw) vs)" unfolding vs(2) [symmetric] by blast
    show "sb_agent_token sb = hash_token raw" using service_bindings_fields [OF sb] by blast
    show "\<exists>t\<in>set (br_tunnels b). tb_service_slug t = sb_service_slug sb \<and> tb_relay_port t = ucast (sb_relay_port sb)"
      unfolding vs(1) by (rule binding_tunnel [OF sb])
  qed
qed

lemma RenderRatholeClient_ok: "addr \<noteq> [] \<Longrightarrow> tok \<noteq> [] \<Longrightarrow> \<exists>toml. RenderRatholeClient (Some b) tok addr = Inr toml"
  unfolding RenderRatholeClient_def by simp

text \<open>The example site's only tunnel, in both files.\<close>

theorem tunnel_ends_agree_witness:
  "\<exists>b w1 cfile sfile. bootstrap ex_agent_cfg ex_env ''h'' ''linux'' ''v1'' ex_agent_cx ex_world = (Inr b, w1) \<and>
     RenderRatholeClient (Some b) ''agent'' ''r:1'' = Inr cfile \<and> project_text ex_db ex_project = Inr sfile \<and>
     (\<exists>pre post. sfile = pre @ server_entry (tunnel_key ''hq'' ''ssh'') (hash_token ''agent'')
        (''127.0.0.1:'' @ format_uint 7001) @ post) \<and>
     (\<exists>pre post. cfile = pre @ client_entry (tunnel_key ''hq'' ''ssh'') (''10.0.0.5:'' @ format_uint 22) @ post)"
proof -
  obtain b w1 where b: "bootstrap ex_agent_cfg ex_env ''h'' ''linux'' ''v1'' ex_agent_cx ex_world = (Inr b, w1)"
    using ex_bootstrap by blast
  obtain cfile where c: "RenderRatholeClient (Some b) ''agent'' ''r:1'' = Inr cfile"
    using RenderRatholeClient_ok [of "''r:1''" "''agent''" b] by blast
  obtain sfile where s: "project_text ex_db ex_project = Inr sfile"
    using ex_range by (simp add: project_text_def RenderRatholeServer_def)
  have owner: "agent_owner 1000 ''agent'' (wdb ex_world) = Some 1"
    by (simp add: agent_owner_def agent_token_lookup_def first_live_def ex_world_def not_expired_def)
  obtain t where t: "t \<in> set (br_tunnels b)" "tb_service_slug t = ''ssh''" "tb_relay_port t = 7001" "br_site_slug b = ''hq''"
    "tb_target_addr t = ''10.0.0.5''" "tb_target_port t = 22"
    using bootstrap_Inr [OF b] by (auto simp: site_find_by_id_def first_live_def ex_world_def served_services_def select_live_def)
  have pre: "db_wf (wdb ex_world)" "\<forall>s\<in>set (rows (t_sites (wdb ex_world))). ID s = 1 \<longrightarrow> si_project_id s = 1"
    "length (select_live (\<lambda>s. si_project_id s = 1) (t_sites (wdb ex_world))) \<le> 1000"
    "RenderRatholeServer ex_project (project_bindings (wdb ex_world) 1) = Inr sfile"
    using s by (simp_all add: ex_wf ex_world_def select_live_def project_text_def)
  let ?client = "client_entry (tunnel_key (br_site_slug b) (tb_service_slug t))
    (tb_target_addr t @ '':'' @ format_uint (unat (tb_target_port t)))"
  let ?server = "server_entry (tunnel_key (br_site_slug b) (tb_service_slug t)) (hash_token ''agent'')
    (''127.0.0.1:'' @ format_uint (unat (tb_relay_port t)))"
  have "\<exists>pre mid post. cfile = pre @ ''default_token = '' @ go_quote (hash_token ''agent'') @ eol @ mid @ ?client @ post"
    and e: "\<exists>pre post. sfile = pre @ ?server @ post"
    using tunnel_ends_agree [OF pre(1) b ex_agent_cx_simps, of 1000 "''agent''" "''r:1''" cfile ex_project sfile] owner pre(2-4) c t(1)
    by simp_all
  then have "\<exists>pre post. cfile = pre @ ?client @ post" by (metis append_assoc)
  with e show ?thesis using b c s unfolding t(2-6) by (intro exI [of _ b] exI [of _ w1] exI [of _ cfile] exI [of _ sfile]) simp
qed

subsection \<open>Disabling and deleting a project\<close>

lemma project_status_pb_disabled:
  "project_status_to_proto s = PROJECT_STATUS_DISABLED \<longleftrightarrow> s = ProjectStatusDisabled"
  by (simp add: project_status_to_proto_def ProjectStatusActive_def ProjectStatusDisabled_def)

text \<open>Whatever manager is behind the interface, it is told to remove the project, and then does not run it.\<close>

context relay_manager begin

lemma relay_remove_stops: "\<not> running (wrelay (relay_remove rm e i w)) i"
  by (simp add: relay_calls_wrelay remove_stops)

lemma update_disabled_stops:
  assumes "update_project rm e (Some pb) mk cx w = (Inr out, w')"
    and "pp_status out = PROJECT_STATUS_DISABLED"
  shows "\<exists>p\<in>set (rows (t_projects (wdb w))). live p \<and> format_project_name (pr_slug p) = pp_name pb \<and>
    \<not> running (wrelay w') (ID p) \<and> wrelay w' = snd (rm_remove rm e (ID p) (wdb w') (wrelay w))"
proof -
  obtain cur cur' changed d en where x:
    "cur \<in> set (rows (t_projects (wdb w)))" "live cur" "format_project_name (pr_slug cur) = pp_name pb"
    "project_mask_loop e pb (wdb w) (the mk) cur [] = Inr (cur', changed)"
    "out = project_to_proto (touch (now e) cur')"
    "w' = (let w1 = audit_w e cx en (w\<lparr>wdb := d\<rparr>) in
          if pr_status cur' = ProjectStatusActive then relay_refresh rm e (ID cur') w1
          else if pr_status cur' = ProjectStatusDisabled then relay_remove rm e (ID cur') w1 else w1)"
    using update_project_Inr [OF assms(1)] by auto
  have st: "pr_status cur' = ProjectStatusDisabled"
    using assms(2) x(5) by (simp add: project_to_proto_def touch_def project_status_pb_disabled)
  moreover have "ProjectStatusDisabled \<noteq> ProjectStatusActive"
    by (simp add: ProjectStatusActive_def ProjectStatusDisabled_def)
  ultimately have w': "w' = relay_remove rm e (ID cur') (audit_w e cx en (w\<lparr>wdb := d\<rparr>))"
    using x(6) by simp
  moreover have "ID cur' = ID cur" using project_mask_loop_Inr [OF x(4)] by simp
  ultimately show ?thesis
    using x(1-3) relay_remove_stops [of e "ID cur" "audit_w e cx en (w\<lparr>wdb := d\<rparr>)"]
    by (intro bexI [of _ cur]) (simp_all add: relay_calls_wrelay)
qed

lemma delete_stops:
  assumes "delete_project rm e name force cx w = (Inr out, w')"
  shows "\<exists>p\<in>set (rows (t_projects (wdb w))). live p \<and> format_project_name (pr_slug p) = name \<and>
    \<not> running (wrelay w') (ID p) \<and> wrelay w' = snd (rm_remove rm e (ID p) (wdb w') (wrelay w))"
proof -
  obtain p d en where x: "p \<in> set (rows (t_projects (wdb w)))" "live p" "format_project_name (pr_slug p) = name"
    "w' = relay_remove rm e (ID p) (audit_w e cx en (w\<lparr>wdb := d\<rparr>))"
    using delete_project_Inr [OF assms] by auto
  then show ?thesis
    using relay_remove_stops [of e "ID p" "audit_w e cx en (w\<lparr>wdb := d\<rparr>)"]
    by (intro bexI [of _ p]) (simp_all add: relay_calls_wrelay)
qed

end

text \<open>
  C28. Once UpdateProject answered with a disabled project, or DeleteProject succeeded, the relay
  manager tracks no supervisor of that project, and every supervisor it ever started for the project
  has had its context cancelled: the one that was tracked just now, which goes on until it sees
  that, and those that left the map before. Of the other projects it tracks the same supervisors,
  with their contexts as they were.
\<close>
theorem stopped_project_not_running:
  assumes "tbl_wf (t_projects (wdb w))" and "uniq_live pr_slug (t_projects (wdb w))" and "relay_ok (wrelay w)"
    and "update_project (manager_relay cfg) e (Some pb) mk cx w = (Inr out, w') \<and>
        pp_status out = PROJECT_STATUS_DISABLED \<and> name = pp_name pb \<or>
      delete_project (manager_relay cfg) e name force cx w = (Inr (), w')"
    and "p \<in> set (rows (t_projects (wdb w)))" and "live p" and "format_project_name (pr_slug p) = name"
  shows "\<not> tracked (wrelay w') (ID p) \<and>
    (\<forall>x\<in>set (rs_sups (wrelay w')) \<union> set (rs_gone (wrelay w')). fst x = ID p \<longrightarrow> sp_cancelled (snd x)) \<and>
    (\<forall>s. map_of (rs_sups (wrelay w)) (ID p) = Some s \<longrightarrow> (ID p, sup_cancel s) \<in> set (rs_gone (wrelay w'))) \<and>
    (\<forall>j. j \<noteq> ID p \<longrightarrow> map_of (rs_sups (wrelay w')) j = map_of (rs_sups (wrelay w)) j)"
proof -
  obtain p' where p': "p' \<in> set (rows (t_projects (wdb w)))" "live p'" "format_project_name (pr_slug p') = name"
    "\<not> tracked (wrelay w') (ID p')"
    "wrelay w' = snd (rm_remove (manager_relay cfg) e (ID p') (wdb w') (wrelay w))"
    using assms(4)
  proof
    assume "update_project (manager_relay cfg) e (Some pb) mk cx w = (Inr out, w') \<and>
        pp_status out = PROJECT_STATUS_DISABLED \<and> name = pp_name pb"
    then show ?thesis using that manager.update_disabled_stops [of cfg e pb mk cx w out w'] by blast
  next
    assume "delete_project (manager_relay cfg) e name force cx w = (Inr (), w')"
    then show ?thesis using that manager.delete_stops [of cfg e name force cx w "()" w'] by blast
  qed
  have "pr_slug p' = pr_slug p" using p'(3) assms(7) by (auto simp: format_project_name_def)
  then have "p' = p" by (rule uniq_live_row [OF assms(1,2) p'(1,2) assms(5,6)])
  then have r: "wrelay w' = snd (RemoveProject (ID p) (wrelay w))" using p'(5) by (simp add: manager_relay_def)
  have "relay_ok (wrelay w')" unfolding r by (rule relay_ok_manager(3) [OF assms(3)])
  then have "sp_cancelled (snd x)" if "x \<in> set (rs_gone (wrelay w'))" for x
    using that by (simp add: relay_ok_def)
  moreover have "fst x \<noteq> ID p" if "x \<in> set (rs_sups (wrelay w'))" for x
    using that by (auto simp: r RemoveProject_gone AList.delete_eq)
  ultimately show ?thesis
    using p'(4) \<open>p' = p\<close> by (auto simp: r RemoveProject_gone delete_conv')
qed

text \<open>Deleting the example project while the manager runs it.\<close>

definition ex_running :: relay_state where
  "ex_running = snd (AddProject ex_relay_config ex_env 1 ex_db (NewManager (\<lambda>_. None)))"

lemma ex_running_sup:
  "\<exists>s. map_of (rs_sups ex_running) 1 = Some s \<and> \<not> sp_cancelled s \<and> relay_ok ex_running"
proof -
  have "first_live (\<lambda>p. ID p = 1) (t_projects ex_db) = Some ex_project" by (simp add: first_live_def)
  from renderToFile_ok [OF _ this ex_range, of ex_env ex_relay_config "NewManager (\<lambda>_. None)"]
  obtain toml where t: "renderToFile ex_relay_config ex_env 1 ex_db (NewManager (\<lambda>_. None)) =
      (Inr (config_path ex_relay_config ex_project), (NewManager (\<lambda>_. None))\<lparr>rs_files :=
        (rs_files (NewManager (\<lambda>_. None)))(config_path ex_relay_config ex_project \<mapsto> toml)\<rparr>)"
    by auto
  have "relay_ok ex_running"
    unfolding ex_running_def by (rule relay_ok_manager(1)) (simp add: relay_ok_def NewManager_def)
  then show ?thesis
    using t by (simp add: ex_running_def AddProject_def spawn_def NewManager_def ex_relay_config_def)
qed

theorem stopped_project_not_running_witness:
  "\<exists>w' s. delete_project (manager_relay ex_relay_config) ex_env ''projects/acme'' True
      (raw_ctx None\<lparr>cx_operator := Some ex_admin\<rparr>) \<lparr>wdb = ex_db, wrelay = ex_running\<rparr> = (Inr (), w') \<and>
    \<not> tracked (wrelay w') 1 \<and> map_of (rs_sups ex_running) 1 = Some s \<and> \<not> sp_cancelled s \<and>
    (1, sup_cancel s) \<in> set (rs_gone (wrelay w'))"
proof -
  let ?w = "\<lparr>wdb = ex_db, wrelay = ex_running\<rparr>"
  let ?cx = "raw_ctx None\<lparr>cx_operator := Some ex_admin\<rparr>"
  have n: "format_project_name ''acme'' = ''projects/acme''" by code_simp
  have "validate_slug ''acme'' = None" by code_simp
  then have "parse_project_name (format_project_name ''acme'') = Inr ''acme''"
    by (simp only: parse_project_name_iff)
  then have "parse_project_name ''projects/acme'' = Inr ''acme''" by (simp only: n)
  then obtain w' where d: "delete_project (manager_relay ex_relay_config) ex_env ''projects/acme'' True ?cx ?w = (Inr (), w')"
    by (simp add: delete_project_def project_find_by_slug_def first_live_def project_delete_def)
  have "db_wf ex_db" by (rule ex_wf)
  then have wf: "tbl_wf (t_projects ex_db)" "uniq_live pr_slug (t_projects ex_db)" by (simp_all add: db_wf_def)
  obtain s where s: "map_of (rs_sups ex_running) 1 = Some s" "\<not> sp_cancelled s" "relay_ok ex_running"
    using ex_running_sup by blast
  have "\<not> tracked (wrelay w') (ID ex_project) \<and> (ID ex_project, sup_cancel s) \<in> set (rs_gone (wrelay w'))"
    using stopped_project_not_running [OF _ _ _ disjI2 [OF d], of ex_project] n wf s by simp
  then show ?thesis using d s by auto
qed

end
