(* ===== verification/AuthService.thy ===== *)
theory AuthService
  imports RelayIface
begin

section \<open>AuthService (internal/grpcsvc/auth_service.go)\<close>

text \<open>
  Login, Logout, WhoAmI, and uint64ToString with its 20-byte buffer: an index below the buffer's
  start would panic in Go, so the loop returns an option, and the lemmas show that it never does.
\<close>

definition digits :: string where "digits = ''0123456789''"

text \<open>\<open>i\<close> is the index of the last byte written; the buffer is \<open>b\<close>.\<close>

function u64_loop :: "64 word \<Rightarrow> nat \<Rightarrow> string \<Rightarrow> (nat \<times> string) option" where
  "u64_loop v i b =
     (if v > 0
      then (if i = 0 then None
            else u64_loop (v div 10) (i - 1) (b[i - 1 := digits ! unat (v mod 10)]))
      else Some (i, b))"
  by pat_completeness auto
termination
  by (relation "measure (\<lambda>(v, i, b). i)") auto

declare u64_loop.simps [simp del]

definition uint64_to_string :: "64 word \<Rightarrow> string option" where
  "uint64_to_string v =
     (if v = 0 then Some ''0''
      else map_option (\<lambda>(i, b). drop i b) (u64_loop v 20 (replicate 20 (char_of (0::nat)))))"

record operator_pb =
  op_pb_name :: string
  op_pb_operator_id :: string
  op_pb_create_time :: time
  op_pb_email :: string
  op_pb_is_admin :: bool

text \<open>The panic of uint64ToString is the empty string here; \<open>uint64_to_string_format\<close> excludes it.\<close>

definition id_string :: "nat \<Rightarrow> string" where
  "id_string i = (case uint64_to_string (of_nat i) of None \<Rightarrow> [] | Some s \<Rightarrow> s)"

definition operator_to_proto :: "operator_row \<Rightarrow> operator_pb" where
  "operator_to_proto op =
     \<lparr>op_pb_name = ''operators/'' @ id_string (ID op), op_pb_operator_id = id_string (ID op),
      op_pb_create_time = CreatedAt op, op_pb_email = op_email op,
      op_pb_is_admin = op_is_admin op\<rparr>"

definition caller_metadata :: "ctx \<Rightarrow> string \<times> string" where
  "caller_metadata cx =
     (case cx_md cx of
        None \<Rightarrow> ([], [])
      | Some md \<Rightarrow>
          (case md_user_agent md of [] \<Rightarrow> [] | v # _ \<Rightarrow> v,
           case md_x_forwarded_for md of [] \<Rightarrow> [] | v # _ \<Rightarrow> v))"

record login_response =
  lr_access_token :: string
  lr_expire_time :: time
  lr_operator :: operator_pb

definition login :: "duration \<Rightarrow> env \<Rightarrow> string \<Rightarrow> string \<Rightarrow> ('r, login_response) handler" where
  "login ttl e email password cx w =
     (if email = [] \<or> password = []
      then (Inl (Status InvalidArgument ''email and password are required''), w)
      else
        (case operator_find_by_email e email (wdb w) of
           Inl x \<Rightarrow>
             (if is_not_found x then (Inl (Status Unauthenticated ''invalid credentials''), w)
              else (Inl (Status Internal ''lookup failed''), w))
         | Inr op \<Rightarrow>
             if \<not> bcrypt_ok e (op_password_hash op) password
             then (Inl (Status Unauthenticated ''invalid credentials''), w)
             else
               (case caller_metadata cx of (ua, ip) \<Rightarrow>
                 (case session_issue e (ID op) ttl ua ip (wdb w) of
                    (Inl _, d) \<Rightarrow> (Inl (Status Internal ''session issue failed''), w\<lparr>wdb := d\<rparr>)
                  | (Inr (rec, raw), d) \<Rightarrow>
                      (Inr \<lparr>lr_access_token = raw, lr_expire_time = se_expires_at rec,
                            lr_operator = operator_to_proto op\<rparr>, w\<lparr>wdb := d\<rparr>)))))"

definition logout :: "env \<Rightarrow> ('r, unit) handler" where
  "logout e cx w =
     (case cx_operator cx of
        None \<Rightarrow> (Inl not_authenticated, w)
      | Some _ \<Rightarrow>
          if cx_raw_token cx \<noteq> []
          then
            (case session_revoke_by_token e (cx_raw_token cx) (wdb w) of
               (Inl _, d) \<Rightarrow> (Inl (Status Internal ''revoke failed''), w\<lparr>wdb := d\<rparr>)
             | (Inr _, d) \<Rightarrow> (Inr (), w\<lparr>wdb := d\<rparr>))
          else (Inr (), w))"

definition who_am_i :: "('r, operator_pb) handler" where
  "who_am_i cx w =
     (case cx_operator cx of
        None \<Rightarrow> (Inl not_authenticated, w)
      | Some op \<Rightarrow> (Inr (operator_to_proto op), w))"

subsection \<open>uint64ToString\<close>

lemma unat_div10: "unat ((v :: 64 word) div 10) = unat v div 10"
  by (simp add: unat_div_distrib)

lemma unat_mod10: "unat ((v :: 64 word) mod 10) = unat v mod 10"
  by (simp add: unat_mod_distrib)

lemma digits_map: "digits = map digit_char [0..<10]"
  by code_simp

lemma digits_nth: "d < 10 \<Longrightarrow> digits ! d = digit_char d"
  unfolding digits_map by (subst nth_map) simp_all

lemma u64_loop_spec:
  assumes "length b = 20" "i \<le> 20" "unat v < 10 ^ i"
  shows "\<exists>j b'. u64_loop v i b = Some (j, b') \<and> length b' = 20 \<and>
    drop j b' = (if v = 0 then [] else format_uint (unat v)) @ drop i b"
  using assms
proof (induction v i b rule: u64_loop.induct)
  case (1 v i b)
  show ?case
  proof (cases "v = 0")
    case True
    then have "u64_loop v i b = Some (i, b)" by (subst u64_loop.simps) simp
    then show ?thesis using 1(2) True by simp
  next
    case False
    then have pos: "v > 0" by (simp add: word_gt_0)
    have i: "i \<noteq> 0" using 1(4) False by (cases i) (auto simp: unat_eq_0)
    let ?b = "b[i - 1 := digits ! unat (v mod 10)]"
    have bnd: "unat (v div 10) < 10 ^ (i - 1)"
      using 1(4) i by (cases i) (auto simp: unat_div10)
    have ib: "i - 1 \<le> 20" using 1(3) by simp
    obtain j b' where h: "u64_loop (v div 10) (i - 1) ?b = Some (j, b')" "length b' = 20"
      "drop j b' = (if v div 10 = 0 then [] else format_uint (unat (v div 10))) @ drop (i - 1) ?b"
      using 1(1) [OF pos i _ ib bnd] 1(2) by (metis length_list_update)
    have dr: "drop (i - 1) ?b = digit_char (unat v mod 10) # drop i b"
    proof -
      obtain k where k: "i = Suc k" using i by (cases i) auto
      have "drop k ?b = ?b ! k # drop (Suc k) ?b"
        using 1(2,3) k by (intro Cons_nth_drop_Suc [symmetric]) simp
      then show ?thesis using 1(2,3) k by (simp add: digits_nth unat_mod10)
    qed
    have "unat v mod 10 = unat v" if "v div 10 = 0"
      using that unat_div10 [of v] by (metis div_less_dividend mod_less unat_0 div_eq_0_iff zero_neq_numeral)
    then have "drop j b' = format_uint (unat v) @ drop i b"
      using h(3) dr unat_div10 [of v]
      by (auto simp: format_uint.simps [of "unat v"] unat_eq_0 [symmetric] div_eq_0_iff)
    then show ?thesis using h(1,2) pos i False by (auto simp: u64_loop.simps [of v i b])
  qed
qed

text \<open>
  uint64ToString never runs off its 20-byte buffer, and it returns the decimal form that
  strconv.FormatUint gives, so an operator's name here is the one OperatorService parses.
\<close>
theorem uint64_to_string_format: "uint64_to_string v = Some (format_uint (unat v))"
proof (cases "v = 0")
  case True
  then show ?thesis
    using digits_nth [of 0] by (simp add: uint64_to_string_def format_uint.simps [of 0] digits_def)
next
  case False
  have "unat v < 2 ^ LENGTH(64)" by (rule unsigned_less)
  then have "unat v < 10 ^ 20" by simp
  from u64_loop_spec [OF _ _ this, of "replicate 20 (char_of (0::nat))"]
  show ?thesis using False by (auto simp: uint64_to_string_def)
qed

lemma id_string_format: "i < 2 ^ 64 \<Longrightarrow> id_string i = format_uint i"
  using uint64_to_string_format [of "of_nat i"]
  by (simp add: id_string_def unat_of_nat take_bit_nat_eq_self)

subsection \<open>Login and Logout\<close>

lemma login_Inr:
  assumes "login ttl e email password cx w = (Inr out, w')"
  shows "\<exists>op ua ip d rec. op \<in> set (rows (t_operators (wdb w))) \<and> live op \<and> op_email op = email \<and>
    bcrypt_ok e (op_password_hash op) password \<and>
    session_issue e (ID op) ttl ua ip (wdb w) = (Inr (rec, lr_access_token out), d) \<and>
    lr_expire_time out = se_expires_at rec \<and> w' = w\<lparr>wdb := d\<rparr>"
proof -
  obtain op ua ip rec raw d where h: "operator_find_by_email e email (wdb w) = Inr op"
    "bcrypt_ok e (op_password_hash op) password"
    "session_issue e (ID op) ttl ua ip (wdb w) = (Inr (rec, raw), d)"
    "out = \<lparr>lr_access_token = raw, lr_expire_time = se_expires_at rec, lr_operator = operator_to_proto op\<rparr>"
    "w' = w\<lparr>wdb := d\<rparr>"
    using assms unfolding login_def by (auto split: if_splits sum.splits prod.splits)
  have "lr_access_token out = raw" "lr_expire_time out = se_expires_at rec" using h(4) by simp_all
  then show ?thesis using operator_find_by_email_Inr [OF h(1)] h(2,3,5) by metis
qed

lemma login_Inl:
  assumes "login ttl e email password cx w = (Inl st, w')"
  shows "w' = w"
proof -
  have "session_issue e i ttl ua ip d = (Inl x, d') \<Longrightarrow> d' = d" for i ua ip d x d'
    using session_issue_Inl [of e i ttl ua ip d x d'] by (simp add: raw_of_def)
  then show ?thesis
    using assms unfolding login_def by (auto split: if_splits sum.splits prod.splits)
qed

text \<open>
  Login end to end: it succeeds only for a live operator with that email whose stored hash
  bcrypt accepts, and from then until the session expires every operator RPC that carries the
  returned access token reaches its handler with exactly that operator as the principal, on a
  database nothing else has changed; from the expiry on the token is no session any more.
\<close>
theorem login_token_admits:
  assumes "db_wf (wdb w)" and "0 < ttl"
    and "login ttl e email password cx w = (Inr out, w')"
    and "\<forall>s. \<not> fault e' s" and "m \<noteq> login_method" and "\<not> has_prefix agent_service_prefix m"
    and "extract_bearer cx' = lr_access_token out" and "lr_access_token out \<noteq> []"
  shows "\<exists>op. op \<in> set (rows (t_operators (wdb w))) \<and> live op \<and> op_email op = email \<and>
    bcrypt_ok e (op_password_hash op) password \<and>
    (now e' < now e + ttl \<longrightarrow>
       server_chain peer e' m handler cx' w' = handler (operator_ctx peer op cx') w') \<and>
    (now e + ttl \<le> now e' \<longrightarrow> session_owner (now e') (lr_access_token out) (wdb w') = None)"
proof -
  obtain op ua ip d rec where h: "op \<in> set (rows (t_operators (wdb w)))" "live op" "op_email op = email"
    "bcrypt_ok e (op_password_hash op) password"
    "session_issue e (ID op) ttl ua ip (wdb w) = (Inr (rec, lr_access_token out), d)" "w' = w\<lparr>wdb := d\<rparr>"
    using login_Inr [OF assms(3)] by blast
  let ?raw = "lr_access_token out"
  have iss: "raw_of (session_issue e (ID op) ttl ua ip (wdb w)) = (Inr ?raw, d)"
    using h(5) by (simp add: raw_of_def)
  have owner: "session_owner t ?raw d = (if t < now e + ttl then Some (ID op) else None)" for t
    by (rule sessions.issue_fresh [OF assms(1) iss assms(2)])
  have "d = (wdb w)\<lparr>t_sessions := t_sessions d\<rparr>" using session_issue_Inr [OF iss] by blast
  then have ops: "t_operators d = t_operators (wdb w)"
    by (metis db.select_convs(1) db.surjective db.update_convs(2))
  have find: "first_live (\<lambda>x. ID x = ID op) (t_operators d) = Some op"
    unfolding ops by (rule first_live_ID [OF db_wfD(1) [OF assms(1)] h(1,2)])
  have "session_validate e' ?raw d = Inr op" if "now e' < now e + ttl"
    using owner [of "now e'"] that assms(4) find by (auto simp: session_validate_def session_owner_def)
  then have "server_chain peer e' m handler cx' w' = handler (operator_ctx peer op cx') w'"
    if "now e' < now e + ttl"
    unfolding server_chain_operator [OF assms(6)] using that assms(5-8) h(6)
    by (simp add: unary_interceptor_def server_validators_def operator_ctx_def WithRawToken_def
        WithOperator_def)
  then show ?thesis using h owner [of "now e'"] by auto
qed

definition ex_fresh :: "unit world" where
  "ex_fresh = \<lparr>wdb = ex_db\<lparr>t_sessions := tbl_empty\<rparr>, wrelay = ()\<rparr>"

lemma ex_fresh_wf: "db_wf (wdb ex_fresh)"
  using db_wf_set_table(8) [OF ex_wf, of tbl_empty] by (simp add: ex_fresh_def uniq_live_def)

definition ex_raw :: string where
  "ex_raw = b64_encode (replicate 32 CHR ''r'')"

lemma ex_raw_props: "ex_raw \<noteq> []" "list_all solid ex_raw"
proof -
  have "length ex_raw = 43" by (simp add: ex_raw_def length_b64_encode)
  then show "ex_raw \<noteq> []" by auto
  show "list_all solid ex_raw" by (simp add: ex_raw_def b64_encode_solid)
qed

lemma ex_login:
  "\<exists>out w'. login hour ex_env ''root'' ''pw'' (raw_ctx None) ex_fresh = (Inr out, w') \<and>
     lr_access_token out = ex_raw"
  by (auto simp: login_def operator_find_by_email_def first_live_def ex_fresh_def caller_metadata_def
      raw_ctx_def session_issue_def issue_token_def tokenBytes_def conflicts_def tbl_append_def
      Let_def ex_raw_def)

theorem login_token_admits_witness:
  "\<exists>out w'. login hour ex_env ''root'' ''pw'' (raw_ctx None) ex_fresh = (Inr out, w') \<and>
     (\<exists>op. op_email op = ''root'' \<and>
        server_chain None ex_env ''/quicktun.v1.AuthService/WhoAmI'' who_am_i
          (raw_ctx (Some (ex_md (lr_access_token out)))) w' =
        who_am_i (operator_ctx None op (raw_ctx (Some (ex_md (lr_access_token out))))) w')"
proof -
  let ?m = "''/quicktun.v1.AuthService/WhoAmI''"
  obtain out w' where l: "login hour ex_env ''root'' ''pw'' (raw_ctx None) ex_fresh = (Inr out, w')"
    and raw: "lr_access_token out = ex_raw"
    using ex_login by blast
  have m: "?m \<noteq> login_method" "\<not> has_prefix agent_service_prefix ?m"
    by (simp_all add: login_method_def has_prefix_def agent_service_prefix_def)
  have b: "extract_bearer (raw_ctx (Some (ex_md (lr_access_token out)))) = lr_access_token out"
    unfolding raw by (rule ex_bearer [OF ex_raw_props])
  have "\<forall>s. \<not> fault ex_env s" "(0::int) < hour" "lr_access_token out \<noteq> []"
    using raw ex_raw_props by (simp_all add: hour_def minute_def second_def)
  from login_token_admits [OF ex_fresh_wf this(2) l this(1) m b this(3), of None who_am_i] this(2)
  show ?thesis using l by auto
qed

lemma logout_Inr:
  assumes "logout e cx w = (Inr u, w')" "cx_raw_token cx \<noteq> []"
  shows "session_revoke_by_token e (cx_raw_token cx) (wdb w) = (Inr (), wdb w')"
  using assms unfolding logout_def by (auto split: option.splits sum.splits prod.splits if_splits)

lemma session_revoke_frame:
  "session_revoke_by_token e raw d = (r, d') \<Longrightarrow> t_sa_tokens d' = t_sa_tokens d \<and> t_operators d' = t_operators d"
  by (auto simp: session_revoke_by_token_def split: if_splits)

text \<open>
  C21. Logout with a session token is final: whatever sessions are issued afterwards, the token is
  no session at any time, unless one of the new tokens has its very hash. A service-account token
  is not touched: the caller's credential stays good after Logout answered OK.
\<close>
theorem logout_is_final:
  assumes "db_wf (wdb w)" and "cx_raw_token cx = raw" and "raw \<noteq> []"
    and "logout e cx w = (Inr u, w')" and "\<forall>(e, i, ttl)\<in>set reqs. 0 < ttl"
    and "run_issues (\<lambda>e i ttl d. raw_of (session_issue e i ttl ua ip d)) reqs (wdb w') = (out, d2)"
    and "\<forall>(raw', i, x)\<in>set out. hash_token raw' \<noteq> hash_token raw"
  shows "session_owner t raw d2 = None \<and> sa_owner t raw (wdb w') = sa_owner t raw (wdb w)"
proof -
  have rv: "session_revoke_by_token e raw (wdb w) = (Inr (), wdb w')"
    using logout_Inr [OF assms(4)] assms(2,3) by simp
  then have "session_owner t raw d2 = None"
    by (rule sessions.revoked_stays_dead [OF assms(1) _ assms(5-7)])
  then show ?thesis using session_revoke_frame [OF rv] by (simp add: sa_owner_def)
qed

theorem logout_is_final_witness:
  "\<exists>w'. logout ex_env (raw_ctx None\<lparr>cx_operator := Some ex_admin, cx_raw_token := ''admin''\<rparr>) ex_world =
     (Inr (), w') \<and> session_owner 1001 ''admin'' (wdb w') = None"
proof -
  let ?cx = "raw_ctx None\<lparr>cx_operator := Some ex_admin, cx_raw_token := ''admin''\<rparr>"
  obtain w' where l: "logout ex_env ?cx ex_world = (Inr (), w')"
    by (simp add: logout_def session_revoke_by_token_def)
  have c: "cx_raw_token ?cx = ''admin''" "''admin'' \<noteq> []" by simp_all
  have "db_wf (wdb ex_world)" by (simp add: ex_wf)
  from logout_is_final [OF this c l, of "[]" undefined undefined "[]" "wdb w'" 1001]
  show ?thesis using l by auto
qed

end
