(* ===== verification/AdminService.thy ===== *)
theory AdminService
  imports AuthService
begin

section \<open>AdminService and AuditService (internal/grpcsvc)\<close>

text \<open>
  The system status counts (admin_service.go) and the audit log reader with its over-fetching
  cursor (audit_service.go).
\<close>

definition staleThreshold :: duration where "staleThreshold = 30 * second"

record site_health =
  sh_name :: string
  sh_status :: string
  sh_hostname :: string
  sh_last_seen_at :: "time option"

record system_status =
  ss_operator_count :: "32 word"
  ss_project_count_active :: "32 word"
  ss_project_count_disabled :: "32 word"
  ss_site_count_online :: "32 word"
  ss_site_count_offline :: "32 word"
  ss_site_count_pending :: "32 word"
  ss_service_count :: "32 word"
  ss_supervisor_running_count :: "32 word"
  ss_stale_sites :: "site_health list"
  ss_now :: time

text \<open>The joined query: online live sites last seen before the threshold, oldest first.\<close>

definition stale_sites :: "time \<Rightarrow> db \<Rightarrow> site_health list" where
  "stale_sites threshold d =
     concat (map
       (\<lambda>s. case find (\<lambda>p. ID p = si_project_id s) (rows (t_projects d)) of
              None \<Rightarrow> []
            | Some p \<Rightarrow>
                [\<lparr>sh_name = format_site_name (pr_slug p) (si_name s), sh_status = si_status s,
                  sh_hostname = si_hostname s, sh_last_seen_at = si_last_seen_at s\<rparr>])
       (sort_key (\<lambda>s. the (si_last_seen_at s)) (select_live (is_stale threshold) (t_sites d))))"

definition get_system_status :: "'r relay_iface \<Rightarrow> env \<Rightarrow> ('r, system_status) handler" where
  "get_system_status rm e cx w =
     (case cx_operator cx of
        None \<Rightarrow> (Inl not_authenticated, w)
      | Some op \<Rightarrow>
          if \<not> op_is_admin op then (Inl (Status PermissionDenied ''admin only''), w)
          else if fault e ''count operators'' \<or> fault e ''count active projects''
            \<or> fault e ''count disabled projects'' \<or> fault e ''count online sites''
            \<or> fault e ''count offline sites'' \<or> fault e ''count pending sites''
            \<or> fault e ''count all services'' \<or> fault e ''stale sites''
          then (Inl (Status Internal ''internal error''), w)
          else
            (let d = wdb w; cnt = (\<lambda>n. of_nat n) in
             (Inr \<lparr>ss_operator_count = cnt (count_live (\<lambda>_. True) (t_operators d)),
                   ss_project_count_active =
                     cnt (count_live (\<lambda>p. pr_status p = ProjectStatusActive) (t_projects d)),
                   ss_project_count_disabled =
                     cnt (count_live (\<lambda>p. pr_status p = ProjectStatusDisabled) (t_projects d)),
                   ss_site_count_online =
                     cnt (count_live (\<lambda>s. si_status s = SiteStatusOnline) (t_sites d)),
                   ss_site_count_offline =
                     cnt (count_live (\<lambda>s. si_status s = SiteStatusOffline) (t_sites d)),
                   ss_site_count_pending =
                     cnt (count_live (\<lambda>s. si_status s = SiteStatusPending) (t_sites d)),
                   ss_service_count = cnt (count_live (\<lambda>_. True) (t_services d)),
                   ss_supervisor_running_count = cnt (rm_count rm (wrelay w)),
                   ss_stale_sites = stale_sites (now e - staleThreshold) d,
                   ss_now = now e\<rparr>, w)))"

subsection \<open>ListAuditLogs\<close>

definition auditDefaultLimit :: int where "auditDefaultLimit = 50"
definition auditMaxLimit :: int where "auditMaxLimit = 200"

record audit_request =
  aq_page_size :: int
  aq_page_token :: string
  aq_operator_email :: string
  aq_project_slug :: string
  aq_action_prefix :: string
  aq_since :: "time option"
  aq_until :: "time option"

record audit_response =
  ar_entries :: "audit_list_row list"
  ar_next_page_token :: string
  ar_total_size :: "32 word"

definition audit_limit :: "int \<Rightarrow> int" where
  "audit_limit n =
     (let limit = (if n \<le> 0 then auditDefaultLimit else n)
      in if limit > auditMaxLimit then auditMaxLimit else limit)"

definition audit_cursor :: "string \<Rightarrow> nat option" where
  "audit_cursor tok = (if tok \<noteq> [] then parse_uint 64 tok else Some 0)"

definition audit_request_filter :: "audit_request \<Rightarrow> int \<Rightarrow> nat \<Rightarrow> audit_filter" where
  "audit_request_filter q limit after_id =
     \<lparr>af_operator_email = aq_operator_email q, af_project_slug = aq_project_slug q,
      af_action_prefix = aq_action_prefix q, af_since = aq_since q, af_until = aq_until q,
      af_limit = limit + 1, af_after_id = after_id\<rparr>"

definition list_audit_logs :: "env \<Rightarrow> audit_request \<Rightarrow> ('r, audit_response) handler" where
  "list_audit_logs e q cx w =
     (case cx_operator cx of
        None \<Rightarrow> (Inl not_authenticated, w)
      | Some op \<Rightarrow>
          if \<not> op_is_admin op then (Inl (Status PermissionDenied ''admin only''), w)
          else
            (let limit = audit_limit (aq_page_size q) in
             (case audit_cursor (aq_page_token q) of
                None \<Rightarrow> (Inl (Status InvalidArgument ''invalid page_token''), w)
              | Some after_id \<Rightarrow>
                  (let f = audit_request_filter q limit after_id in
                   (case audit_list e f (wdb w) of
                      Inl _ \<Rightarrow> (Inl (Status Internal ''internal error''), w)
                    | Inr rs \<Rightarrow>
                        (case audit_count e (f\<lparr>af_limit := 0, af_after_id := 0\<rparr>) (wdb w) of
                           Inl _ \<Rightarrow> (Inl (Status Internal ''internal error''), w)
                         | Inr total_rows \<Rightarrow>
                             if length rs > nat limit
                             then (Inr \<lparr>ar_entries = take (nat limit) rs,
                                        ar_next_page_token = format_uint (al_id (rs ! (nat limit - 1))),
                                        ar_total_size = total_rows\<rparr>, w)
                             else (Inr \<lparr>ar_entries = rs, ar_next_page_token = [],
                                        ar_total_size = total_rows\<rparr>, w)))))))"

subsection \<open>Paging the audit log\<close>

text \<open>The audit log is read newest first, so its pages go down the keys.\<close>

interpretation audit_pages: keyset_pager "\<lambda>d. tbl_wf (t_audit_logs d)" "audit_matching f"
  "\<lambda>d n cur. take n (case cur of None \<Rightarrow> audit_matching f d
     | Some i \<Rightarrow> filter (\<lambda>r. ID r < i) (audit_matching f d))" ID "(>)"
  by unfold_locales
    (auto simp: audit_matching_def tbl_wf_def rev_map [symmetric] sorted_wrt_rev
      intro: sorted_wrt_filter_map)

definition list_audit_logs_page ::
  "env \<Rightarrow> audit_request \<Rightarrow> ctx \<Rightarrow> 'r world \<Rightarrow> string \<Rightarrow> (audit_list_row list \<times> string) option" where
  "list_audit_logs_page e q cx w tok =
     (case fst (list_audit_logs e (q\<lparr>aq_page_token := tok\<rparr>) cx w) of
        Inl _ \<Rightarrow> None | Inr r \<Rightarrow> Some (ar_entries r, ar_next_page_token r))"

text \<open>The filter of a request, as the first page and the count use it.\<close>

definition request_matching :: "audit_request \<Rightarrow> db \<Rightarrow> audit_row list" where
  "request_matching q d = audit_matching (audit_request_filter q 0 0) d"

lemma audit_limit_bounds: "0 < audit_limit n" "audit_limit n \<le> 200"
  by (auto simp: audit_limit_def auditDefaultLimit_def auditMaxLimit_def Let_def)

lemma list_audit_logs_page_rest:
  assumes wf: "tbl_wf (t_audit_logs (wdb w))" and bound: "seq (t_audit_logs (wdb w)) < 2 ^ 64"
    and op: "cx_operator cx = Some op" "op_is_admin op" and nf: "\<forall>s. \<not> fault e s"
    and m: "request_matching q (wdb w) = xs @ ys"
    and tok: "tok = (if xs = [] then [] else format_uint (ID (last xs)))"
  shows "list_audit_logs_page e q cx w tok =
    (let n = nat (audit_limit (aq_page_size q)) in
     Some (map (audit_join (wdb w)) (take n ys),
       if n < length ys then format_uint (ID (ys ! (n - 1))) else []))"
proof -
  let ?n = "nat (audit_limit (aq_page_size q))"
  let ?c = "if xs = [] then 0 else ID (last xs)"
  have mm: "audit_matching (audit_request_filter (q\<lparr>aq_page_token := tok\<rparr>) l i) (wdb w) = xs @ ys" for l i
    using m unfolding request_matching_def audit_matching_def audit_base_query_def audit_request_filter_def
    by simp
  have ids: "0 < ID r \<and> ID r < 2 ^ 64" if "r \<in> set (xs @ ys)" for r
  proof -
    have "r \<in> set (rows (t_audit_logs (wdb w)))"
      using that m [symmetric] by (auto simp: request_matching_def audit_matching_def)
    then show ?thesis using wf bound by (auto simp: tbl_wf_def)
  qed
  have cur: "audit_cursor tok = Some ?c"
    using ids [of "last xs"] tok by (simp add: audit_cursor_def parse_format_uint)
  have rest: "filter (\<lambda>r. 0 < ?c \<longrightarrow> ID r < ?c) (xs @ ys) = ys"
  proof (cases xs rule: rev_cases)
    case Nil
    then show ?thesis by simp
  next
    case (snoc zs z)
    then have "audit_matching (audit_request_filter q 0 0) (wdb w) = zs @ z # ys"
      using m by (simp add: request_matching_def)
    from audit_pages.filter_after_prefix [OF wf this] this show ?thesis
      using ids [of z] snoc by simp
  qed
  have l: "0 < ?n" "nat (audit_limit (aq_page_size q) + 1) = Suc ?n"
    using audit_limit_bounds(1) [of "aq_page_size q"] by auto
  have lst: "audit_list e (audit_request_filter (q\<lparr>aq_page_token := tok\<rparr>) (audit_limit (aq_page_size q)) ?c) (wdb w) =
      Inr (map (audit_join (wdb w)) (take (Suc ?n) ys))"
  proof -
    have f: "af_after_id (audit_request_filter (q\<lparr>aq_page_token := tok\<rparr>) (audit_limit (aq_page_size q)) ?c) = ?c"
      "af_limit (audit_request_filter (q\<lparr>aq_page_token := tok\<rparr>) (audit_limit (aq_page_size q)) ?c) =
         audit_limit (aq_page_size q) + 1"
      by (simp_all add: audit_request_filter_def)
    show ?thesis unfolding audit_list_def mm f rest using nf l audit_limit_bounds(1) [of "aq_page_size q"]
      by (simp add: Let_def)
  qed
  show ?thesis
    using nf op cur lst l unfolding list_audit_logs_page_def list_audit_logs_def
    by (auto simp: Let_def audit_count_def audit_join_def nth_append take_map)
qed

lemma crawl_audit_rest:
  assumes "tbl_wf (t_audit_logs (wdb w))" "seq (t_audit_logs (wdb w)) < 2 ^ 64"
    "cx_operator cx = Some op" "op_is_admin op" "\<forall>s. \<not> fault e s"
    and "request_matching q (wdb w) = xs @ ys" "length ys < fuel"
  shows "crawl_rpc fuel (list_audit_logs_page e q cx w) (if xs = [] then [] else format_uint (ID (last xs))) =
    Some (map (audit_join (wdb w)) ys)"
  using assms(6,7)
proof (induction fuel arbitrary: xs ys)
  case 0
  then show ?case by simp
next
  case (Suc fuel)
  let ?n = "nat (audit_limit (aq_page_size q))"
  note page = list_audit_logs_page_rest [OF assms(1-5) Suc.prems(1) refl]
  have n: "0 < ?n" using audit_limit_bounds(1) by simp
  show ?case
  proof (cases "?n < length ys")
    case False
    then show ?thesis by (simp add: page Let_def)
  next
    case True
    let ?xs = "xs @ take ?n ys" and ?ys = "drop ?n ys"
    have last: "?xs \<noteq> []" "last ?xs = ys ! (?n - 1)"
      using True n by (auto simp: last_append last_conv_nth)
    have "crawl_rpc fuel (list_audit_logs_page e q cx w)
        (if ?xs = [] then [] else format_uint (ID (last ?xs))) = Some (map (audit_join (wdb w)) ?ys)"
      by (rule Suc.IH) (use Suc.prems True n in simp_all)
    then have "crawl_rpc fuel (list_audit_logs_page e q cx w) (format_uint (ID (ys ! (?n - 1)))) =
        Some (map (audit_join (wdb w)) ?ys)"
      unfolding last(2) using last(1) by (simp del: append_is_Nil_conv)
    then have "crawl_rpc (Suc fuel) (list_audit_logs_page e q cx w) (if xs = [] then [] else format_uint (ID (last xs))) =
        Some (map (audit_join (wdb w)) (take ?n ys @ ?ys))"
      using True by (simp add: page Let_def del: append_take_drop_id)
    then show ?thesis by simp
  qed
qed

text \<open>
  An administrator who follows the page tokens of ListAuditLogs, with any page size, gets
  every audit row that matches the filter exactly once, newest first, and then an empty token.
  The over-fetch of one row never drops or repeats a row at a page boundary.
\<close>
theorem list_audit_logs_complete:
  assumes "tbl_wf (t_audit_logs (wdb w))" and "seq (t_audit_logs (wdb w)) < 2 ^ 64"
    and "cx_operator cx = Some op" and "op_is_admin op" and "\<forall>s. \<not> fault e s"
    and "length (request_matching q (wdb w)) < fuel"
  shows "crawl_rpc fuel (list_audit_logs_page e q cx w) [] =
    Some (map (audit_join (wdb w)) (request_matching q (wdb w)))"
  using crawl_audit_rest [OF assms(1-5) _ assms(6), where xs = "[]"] by simp

definition ex_audit_row :: "nat \<Rightarrow> string \<Rightarrow> audit_row" where
  "ex_audit_row i act = \<lparr>ID = i, au_ts = 10, au_project_id = Some 1, au_operator_id = Some 1,
     au_action = act, au_target = [], au_source_ip = [], au_extra = []\<rparr>"

definition ex_audit_query :: audit_request where
  "ex_audit_query = \<lparr>aq_page_size = 1, aq_page_token = [], aq_operator_email = ''root'',
     aq_project_slug = [], aq_action_prefix = [], aq_since = None, aq_until = None\<rparr>"

text \<open>Three rows, read one at a time.\<close>

theorem list_audit_logs_complete_witness:
  "let w = ex_world\<lparr>wdb := ex_db\<lparr>t_audit_logs :=
         \<lparr>rows = [ex_audit_row 1 ''a'', ex_audit_row 2 ''b'', ex_audit_row 3 ''c''], seq = 3\<rparr>\<rparr>\<rparr> in
   map_option (map al_action) (crawl_rpc 5
     (list_audit_logs_page ex_env ex_audit_query (raw_ctx None\<lparr>cx_operator := Some ex_admin\<rparr>) w) []) =
   Some [''c'', ''b'', ''a'']"
proof -
  define w where "w = ex_world\<lparr>wdb := ex_db\<lparr>t_audit_logs :=
    \<lparr>rows = [ex_audit_row 1 ''a'', ex_audit_row 2 ''b'', ex_audit_row 3 ''c''], seq = 3\<rparr>\<rparr>\<rparr>"
  have m: "request_matching ex_audit_query (wdb w) =
      [ex_audit_row 3 ''c'', ex_audit_row 2 ''b'', ex_audit_row 1 ''a'']"
    by (simp add: w_def request_matching_def audit_matching_def audit_base_query_def
        audit_request_filter_def ex_audit_query_def joined_email_def ex_audit_row_def)
  have "crawl_rpc 5 (list_audit_logs_page ex_env ex_audit_query (raw_ctx None\<lparr>cx_operator := Some ex_admin\<rparr>) w) [] =
      Some (map (audit_join (wdb w)) (request_matching ex_audit_query (wdb w)))"
    by (rule list_audit_logs_complete [where op = ex_admin])
      (simp_all add: m, simp_all add: w_def tbl_wf_def ex_audit_row_def)
  then show ?thesis
    unfolding w_def [symmetric] Let_def by (simp add: m audit_join_def ex_audit_row_def)
qed

end
