(* ===== verification/OperatorService.thy ===== *)
theory OperatorService
  imports AuthService
begin

section \<open>OperatorService and ServiceAccountService (internal/grpcsvc)\<close>

text \<open>
  Admin-only management of operators, grants and service-account tokens (operator_service.go,
  service_account_service.go). The audit writer is configured, as internal/server does.
\<close>

definition operators_prefix :: string where "operators_prefix = ''operators/''"

definition format_operator_name :: "nat \<Rightarrow> string" where
  "format_operator_name i = operators_prefix @ format_uint i"

definition parse_operator_name :: "string \<Rightarrow> err + nat" where
  "parse_operator_name name =
     (if \<not> has_prefix operators_prefix name then Inl ''operator name must be %q-prefixed''
      else
        (let tail = drop (length operators_prefix) name in
         if tail = [] \<or> slash \<in> set tail then Inl ''operator name must be operators/{id}''
         else (case parse_uint 64 tail of None \<Rightarrow> Inl ''operator id: %w'' | Some i \<Rightarrow> Inr i)))"

definition require_admin :: "ctx \<Rightarrow> status + operator_row" where
  "require_admin cx =
     (case cx_operator cx of
        None \<Rightarrow> Inl not_authenticated
      | Some op \<Rightarrow> if \<not> op_is_admin op then Inl admin_required else Inr op)"

record list_operators_response =
  lor_operators :: "operator_pb list"
  lor_next_page_token :: string

definition list_operators ::
  "env \<Rightarrow> 32 word \<Rightarrow> string \<Rightarrow> ('r, list_operators_response) handler" where
  "list_operators e page_size page_token cx w =
     (case require_admin cx of
        Inl st \<Rightarrow> (Inl st, w)
      | Inr _ \<Rightarrow>
          (case operator_list e (uint page_size) page_token (wdb w) of
             Inl x \<Rightarrow>
               (if x = ErrInvalidPageToken then (Inl (Status InvalidArgument ''invalid page_token''), w)
                else (Inl (Status Internal ''list operators: ''), w))
           | Inr page \<Rightarrow>
               (Inr \<lparr>lor_operators = map operator_to_proto page,
                     lor_next_page_token = NextOperatorPageToken page\<rparr>, w)))"

definition get_operator :: "env \<Rightarrow> string \<Rightarrow> ('r, operator_pb) handler" where
  "get_operator e name cx w =
     (case require_admin cx of
        Inl st \<Rightarrow> (Inl st, w)
      | Inr _ \<Rightarrow>
          (case parse_operator_name name of
             Inl x \<Rightarrow> (Inl (Status InvalidArgument x), w)
           | Inr i \<Rightarrow>
               (case operator_find_by_id e i (wdb w) of
                  Inl x \<Rightarrow>
                    (if is_not_found x then (Inl (Status NotFound ''operator not found''), w)
                     else (Inl (Status Internal ''lookup failed''), w))
                | Inr op \<Rightarrow> (Inr (operator_to_proto op), w))))"

definition create_operator ::
  "env \<Rightarrow> operator_pb option \<Rightarrow> string \<Rightarrow> ('r, operator_pb) handler" where
  "create_operator e body password cx w =
     (case require_admin cx of
        Inl st \<Rightarrow> (Inl st, w)
      | Inr _ \<Rightarrow>
          (case body of
             None \<Rightarrow> (Inl (Status InvalidArgument ''operator body is required''), w)
           | Some pb \<Rightarrow>
               if op_pb_email pb = []
               then (Inl (Status InvalidArgument ''operator.email is required''), w)
               else if password = [] then (Inl (Status InvalidArgument ''password is required''), w)
               else
                 (case bcrypt_hash e password of
                    None \<Rightarrow> (Inl (Status Internal ''hash failed''), w)
                  | Some hash \<Rightarrow>
                      (case operator_create e (op_pb_email pb) hash (op_pb_is_admin pb) (wdb w) of
                         (Inl x, d) \<Rightarrow>
                           (if is_unique_constraint_err x
                            then (Inl (Status AlreadyExists ''operator email already exists''),
                                  w\<lparr>wdb := d\<rparr>)
                            else (Inl (Status Internal ''create failed''), w\<lparr>wdb := d\<rparr>))
                       | (Inr row, d) \<Rightarrow>
                           (Inr (operator_to_proto row),
                            audit_w e cx
                              \<lparr>ae_project_id = None, ae_action = ''operator.create'',
                               ae_target = format_operator_name (ID row),
                               ae_extra = [(''email'', EStr (op_email row)),
                                           (''is_admin'', EBool (op_is_admin row))]\<rparr>
                              (w\<lparr>wdb := d\<rparr>))))))"

text \<open>The mask of UpdateOperator: whether is_admin and password are wanted.\<close>

fun operator_mask_loop :: "string list \<Rightarrow> bool \<Rightarrow> bool \<Rightarrow> status + (bool \<times> bool)" where
  "operator_mask_loop [] want_admin want_password = Inr (want_admin, want_password)"
| "operator_mask_loop (m # ms) want_admin want_password =
     (if m = ''is_admin'' then operator_mask_loop ms True want_password
      else if m = ''password'' then operator_mask_loop ms want_admin True
      else if m = [] then operator_mask_loop ms want_admin want_password
      else Inl (Status InvalidArgument ''unsupported update_mask field %q''))"

text \<open>The is_admin part of UpdateOperator: the guards, then the write and its audit entry.\<close>

definition set_is_admin ::
  "env \<Rightarrow> ctx \<Rightarrow> operator_row \<Rightarrow> operator_row \<Rightarrow> bool \<Rightarrow> 'r world \<Rightarrow> operator_row rpc \<times> 'r world" where
  "set_is_admin e cx caller target is_admin w =
     (if ID caller = ID target \<and> \<not> is_admin
      then (Inl (Status FailedPrecondition ''cannot remove admin role from your own account''), w)
      else
        (case (if op_is_admin target \<and> \<not> is_admin then map_sum id Some (count_admins e (wdb w))
               else Inr None) of
           Inl _ \<Rightarrow> (Inl (Status Internal ''count admins failed''), w)
         | Inr n \<Rightarrow>
             if (case n of None \<Rightarrow> False | Some k \<Rightarrow> k \<le> 1)
             then (Inl (Status FailedPrecondition ''cannot demote the last admin''), w)
             else
               (case operator_update_is_admin e (ID target) is_admin (wdb w) of
                  (Inl _, d) \<Rightarrow> (Inl (Status Internal ''update is_admin failed''), w\<lparr>wdb := d\<rparr>)
                | (Inr _, d) \<Rightarrow>
                    (Inr (target\<lparr>op_is_admin := is_admin\<rparr>),
                     audit_w e cx
                       \<lparr>ae_project_id = None, ae_action = ''operator.update.is_admin'',
                        ae_target = format_operator_name (ID target),
                        ae_extra = [(''email'', EStr (op_email target)), (''is_admin'', EBool is_admin)]\<rparr>
                       (w\<lparr>wdb := d\<rparr>)))))"

text \<open>The password part.\<close>

definition set_password ::
  "env \<Rightarrow> ctx \<Rightarrow> operator_row \<Rightarrow> string \<Rightarrow> 'r world \<Rightarrow> operator_row rpc \<times> 'r world" where
  "set_password e cx target password w =
     (if password = []
      then (Inl (Status InvalidArgument ''password is required when update_mask names password''), w)
      else
        (case bcrypt_hash e password of
           None \<Rightarrow> (Inl (Status Internal ''hash failed''), w)
         | Some hash \<Rightarrow>
             (case operator_update_password e (ID target) hash (wdb w) of
                (Inl _, d) \<Rightarrow> (Inl (Status Internal ''update password failed''), w\<lparr>wdb := d\<rparr>)
              | (Inr _, d) \<Rightarrow>
                  (Inr target,
                   audit_w e cx
                     \<lparr>ae_project_id = None, ae_action = ''operator.update.password'',
                      ae_target = format_operator_name (ID target),
                      ae_extra = [(''email'', EStr (op_email target))]\<rparr> (w\<lparr>wdb := d\<rparr>)))))"

definition update_operator ::
  "env \<Rightarrow> operator_pb option \<Rightarrow> string \<Rightarrow> string \<Rightarrow> ('r, operator_pb) handler" where
  "update_operator e body update_mask password cx w =
     (case require_admin cx of
        Inl st \<Rightarrow> (Inl st, w)
      | Inr caller \<Rightarrow>
          (case body of
             None \<Rightarrow> (Inl (Status InvalidArgument ''operator body is required''), w)
           | Some pb \<Rightarrow>
               (case parse_operator_name (op_pb_name pb) of
                  Inl x \<Rightarrow> (Inl (Status InvalidArgument x), w)
                | Inr i \<Rightarrow>
                    (case operator_find_by_id e i (wdb w) of
                       Inl x \<Rightarrow>
                         (if is_not_found x then (Inl (Status NotFound ''operator not found''), w)
                          else (Inl (Status Internal ''lookup failed''), w))
                     | Inr target \<Rightarrow>
                         (case operator_mask_loop (map trim_space (split_on (CHR '','') update_mask))
                                 False False of
                            Inl st \<Rightarrow> (Inl st, w)
                          | Inr (want_admin, want_password) \<Rightarrow>
                              if \<not> want_admin \<and> \<not> want_password
                              then (Inl (Status InvalidArgument
                                      ''update_mask must list at least one of: is_admin, password''), w)
                              else
                                (case (if want_admin \<and> op_pb_is_admin pb \<noteq> op_is_admin target
                                       then set_is_admin e cx caller target (op_pb_is_admin pb) w
                                       else (Inr target, w)) of
                                   (Inl st, w) \<Rightarrow> (Inl st, w)
                                 | (Inr target, w) \<Rightarrow>
                                     (case (if want_password then set_password e cx target password w
                                            else (Inr target, w)) of
                                        (Inl st, w) \<Rightarrow> (Inl st, w)
                                      | (Inr target, w) \<Rightarrow> (Inr (operator_to_proto target), w))))))))"

definition delete_operator :: "env \<Rightarrow> string \<Rightarrow> ('r, unit) handler" where
  "delete_operator e name cx w =
     (case require_admin cx of
        Inl st \<Rightarrow> (Inl st, w)
      | Inr caller \<Rightarrow>
          (case parse_operator_name name of
             Inl x \<Rightarrow> (Inl (Status InvalidArgument x), w)
           | Inr i \<Rightarrow>
               if ID caller = i
               then (Inl (Status FailedPrecondition ''cannot delete your own account''), w)
               else
                 (case operator_find_by_id e i (wdb w) of
                    Inl x \<Rightarrow>
                      (if is_not_found x then (Inl (Status NotFound ''operator not found''), w)
                       else (Inl (Status Internal ''lookup failed''), w))
                  | Inr target \<Rightarrow>
                      (case (if op_is_admin target then map_sum id Some (count_admins e (wdb w))
                             else Inr None) of
                         Inl _ \<Rightarrow> (Inl (Status Internal ''count admins failed''), w)
                       | Inr n \<Rightarrow>
                           if (case n of None \<Rightarrow> False | Some k \<Rightarrow> k \<le> 1)
                           then (Inl (Status FailedPrecondition ''cannot delete the last admin''), w)
                           else
                             (case operator_delete e (ID target) (wdb w) of
                                (Inl _, d) \<Rightarrow> (Inl (Status Internal ''delete failed''), w\<lparr>wdb := d\<rparr>)
                              | (Inr _, d) \<Rightarrow>
                                  (Inr (),
                                   audit_w e cx
                                     \<lparr>ae_project_id = None, ae_action = ''operator.delete'',
                                      ae_target = format_operator_name (ID target),
                                      ae_extra = [(''email'', EStr (op_email target))]\<rparr>
                                     (w\<lparr>wdb := d\<rparr>)))))))"

subsection \<open>Grants\<close>

record access_pb =
  acp_operator :: string
  acp_project_slug :: string
  acp_role :: string
  acp_grant_time :: time

definition list_project_access :: "env \<Rightarrow> string \<Rightarrow> ('r, access_pb list) handler" where
  "list_project_access e operator cx w =
     (case require_admin cx of
        Inl st \<Rightarrow> (Inl st, w)
      | Inr _ \<Rightarrow>
          (case parse_operator_name operator of
             Inl x \<Rightarrow> (Inl (Status InvalidArgument x), w)
           | Inr i \<Rightarrow>
               (case operator_find_by_id e i (wdb w) of
                  Inl x \<Rightarrow>
                    (if is_not_found x then (Inl (Status NotFound ''operator not found''), w)
                     else (Inl (Status Internal ''lookup failed''), w))
                | Inr _ \<Rightarrow>
                    (case access_list e i (wdb w) of
                       Inl _ \<Rightarrow> (Inl (Status Internal ''list access failed''), w)
                     | Inr rs \<Rightarrow>
                         (Inr (map (\<lambda>(a, slug). \<lparr>acp_operator = format_operator_name i,
                                 acp_project_slug = slug, acp_role = ac_role a,
                                 acp_grant_time = CreatedAt a\<rparr>) rs), w)))))"

definition parse_project_role :: "string \<Rightarrow> err + string" where
  "parse_project_role s =
     (let r = to_lower (trim_space s) in
      if r = ''owner'' then Inr ProjectRoleOwner
      else if r = ''operator'' then Inr ProjectRoleOperator
      else if r = ''viewer'' then Inr ProjectRoleViewer
      else Inl ''invalid role %q (want viewer | operator | owner)'')"

definition grant_project_access ::
  "env \<Rightarrow> string \<Rightarrow> string \<Rightarrow> string \<Rightarrow> ('r, access_pb) handler" where
  "grant_project_access e operator project_slug role cx w =
     (case require_admin cx of
        Inl st \<Rightarrow> (Inl st, w)
      | Inr _ \<Rightarrow>
          (case parse_operator_name operator of
             Inl x \<Rightarrow> (Inl (Status InvalidArgument x), w)
           | Inr op_id \<Rightarrow>
               if project_slug = [] then (Inl (Status InvalidArgument ''project_slug is required''), w)
               else
                 (case parse_project_role role of
                    Inl x \<Rightarrow> (Inl (Status InvalidArgument x), w)
                  | Inr role \<Rightarrow>
                      (case operator_find_by_id e op_id (wdb w) of
                         Inl x \<Rightarrow>
                           (if is_not_found x then (Inl (Status NotFound ''operator not found''), w)
                            else (Inl (Status Internal ''operator lookup failed''), w))
                       | Inr _ \<Rightarrow>
                           (case project_find_by_slug e project_slug (wdb w) of
                              Inl x \<Rightarrow>
                                (if is_not_found x then (Inl (Status NotFound ''project not found''), w)
                                 else (Inl (Status Internal ''project lookup failed''), w))
                            | Inr p \<Rightarrow>
                                (case access_grant e op_id (ID p) role (wdb w) of
                                   (Inl _, d) \<Rightarrow> (Inl (Status Internal ''grant failed''), w\<lparr>wdb := d\<rparr>)
                                 | (Inr row, d) \<Rightarrow>
                                     (Inr \<lparr>acp_operator = format_operator_name op_id,
                                           acp_project_slug = pr_slug p, acp_role = ac_role row,
                                           acp_grant_time = CreatedAt row\<rparr>,
                                      audit_w e cx
                                        \<lparr>ae_project_id = Some (ID p),
                                         ae_action = ''operator.access.grant'',
                                         ae_target = format_operator_name op_id,
                                         ae_extra = [(''project_slug'', EStr (pr_slug p)),
                                                     (''role'', EStr role)]\<rparr>
                                        (w\<lparr>wdb := d\<rparr>))))))))"

definition revoke_project_access :: "env \<Rightarrow> string \<Rightarrow> string \<Rightarrow> ('r, unit) handler" where
  "revoke_project_access e operator project_slug cx w =
     (case require_admin cx of
        Inl st \<Rightarrow> (Inl st, w)
      | Inr _ \<Rightarrow>
          (case parse_operator_name operator of
             Inl x \<Rightarrow> (Inl (Status InvalidArgument x), w)
           | Inr op_id \<Rightarrow>
               if project_slug = [] then (Inl (Status InvalidArgument ''project_slug is required''), w)
               else
                 (case project_find_by_slug e project_slug (wdb w) of
                    Inl x \<Rightarrow>
                      (if is_not_found x then (Inl (Status NotFound ''project not found''), w)
                       else (Inl (Status Internal ''project lookup failed''), w))
                  | Inr p \<Rightarrow>
                      (case access_revoke e op_id (ID p) (wdb w) of
                         (Inl _, d) \<Rightarrow> (Inl (Status Internal ''revoke failed''), w\<lparr>wdb := d\<rparr>)
                       | (Inr _, d) \<Rightarrow>
                           (Inr (),
                            audit_w e cx
                              \<lparr>ae_project_id = Some (ID p), ae_action = ''operator.access.revoke'',
                               ae_target = format_operator_name op_id,
                               ae_extra = [(''project_slug'', EStr (pr_slug p))]\<rparr>
                              (w\<lparr>wdb := d\<rparr>))))))"

subsection \<open>Service-account tokens\<close>

record sa_token_pb =
  sap_id :: nat
  sap_operator :: string
  sap_description :: string
  sap_create_time :: time
  sap_expire_time :: "time option"
  sap_last_used_time :: "time option"
  sap_revoke_time :: "time option"

definition sa_token_to_proto :: "sa_token_row \<Rightarrow> sa_token_pb" where
  "sa_token_to_proto r =
     \<lparr>sap_id = ID r, sap_operator = format_operator_name (sa_operator_id r),
      sap_description = sa_description r, sap_create_time = CreatedAt r,
      sap_expire_time = sa_expires_at r, sap_last_used_time = sa_last_used_at r,
      sap_revoke_time = sa_revoked_at r\<rparr>"

definition format_sa_token_name :: "nat \<Rightarrow> string" where
  "format_sa_token_name i = ''serviceAccountTokens/'' @ format_uint i"

text \<open>\<open>time.Duration(ttl_seconds) * time.Second\<close>: an int64 product, which wraps.\<close>

definition ttl_of_seconds :: "64 word \<Rightarrow> duration" where
  "ttl_of_seconds n = sint (n * (1000000000 :: 64 word))"

definition create_sa_token ::
  "env \<Rightarrow> string \<Rightarrow> string \<Rightarrow> 64 word \<Rightarrow> ('r, sa_token_pb \<times> string) handler" where
  "create_sa_token e operator description ttl_seconds cx w =
     (case require_admin cx of
        Inl st \<Rightarrow> (Inl st, w)
      | Inr _ \<Rightarrow>
          (case parse_operator_name operator of
             Inl x \<Rightarrow> (Inl (Status InvalidArgument x), w)
           | Inr op_id \<Rightarrow>
               (case operator_find_by_id e op_id (wdb w) of
                  Inl x \<Rightarrow>
                    (if is_not_found x then (Inl (Status NotFound ''operator not found''), w)
                     else (Inl (Status Internal ''operator lookup failed''), w))
                | Inr _ \<Rightarrow>
                    (case sa_token_issue e op_id description (ttl_of_seconds ttl_seconds) (wdb w) of
                       (Inl _, d) \<Rightarrow> (Inl (Status Internal ''issue sa token failed''), w\<lparr>wdb := d\<rparr>)
                     | (Inr (rec, raw), d) \<Rightarrow>
                         (Inr (sa_token_to_proto rec, raw),
                          audit_w e cx
                            \<lparr>ae_project_id = None, ae_action = ''sa_token.create'',
                             ae_target = format_sa_token_name (ID rec),
                             ae_extra = [(''operator'', EStr operator),
                                         (''description'', EStr description),
                                         (''ttl_seconds'', EInt (sint ttl_seconds))]\<rparr>
                            (w\<lparr>wdb := d\<rparr>))))))"

definition list_sa_tokens :: "env \<Rightarrow> string \<Rightarrow> ('r, sa_token_pb list) handler" where
  "list_sa_tokens e operator cx w =
     (case require_admin cx of
        Inl st \<Rightarrow> (Inl st, w)
      | Inr _ \<Rightarrow>
          (case parse_operator_name operator of
             Inl x \<Rightarrow> (Inl (Status InvalidArgument x), w)
           | Inr op_id \<Rightarrow>
               (case operator_find_by_id e op_id (wdb w) of
                  Inl x \<Rightarrow>
                    (if is_not_found x then (Inl (Status NotFound ''operator not found''), w)
                     else (Inl (Status Internal ''operator lookup failed''), w))
                | Inr _ \<Rightarrow>
                    (case sa_token_list_by_operator e op_id (wdb w) of
                       Inl _ \<Rightarrow> (Inl (Status Internal ''list sa tokens failed''), w)
                     | Inr rs \<Rightarrow> (Inr (map sa_token_to_proto rs), w)))))"

definition revoke_sa_token :: "env \<Rightarrow> nat \<Rightarrow> ('r, unit) handler" where
  "revoke_sa_token e i cx w =
     (case require_admin cx of
        Inl st \<Rightarrow> (Inl st, w)
      | Inr _ \<Rightarrow>
          if i = 0 then (Inl (Status InvalidArgument ''id is required''), w)
          else
            (let found = sa_token_find_by_id e i (wdb w) in
             if (case found of Inl x \<Rightarrow> x \<noteq> ErrInvalidPageToken \<and> \<not> is_not_found x | Inr _ \<Rightarrow> False)
             then (Inl (Status Internal ''lookup sa token failed''), w)
             else
               (case sa_token_revoke e i (wdb w) of
                  (Inl _, d) \<Rightarrow> (Inl (Status Internal ''revoke sa token failed''), w\<lparr>wdb := d\<rparr>)
                | (Inr _, d) \<Rightarrow>
                    (Inr (),
                     audit_w e cx
                       \<lparr>ae_project_id = None, ae_action = ''sa_token.revoke'',
                        ae_target = format_sa_token_name i,
                        ae_extra = (case found of
                            Inl _ \<Rightarrow> []
                          | Inr rec \<Rightarrow> [(''operator'', EStr (format_operator_name (sa_operator_id rec))),
                                        (''description'', EStr (sa_description rec))])\<rparr>
                       (w\<lparr>wdb := d\<rparr>)))))"

subsection \<open>Names, roles and lifetimes\<close>

lemma operator_name_roundtrip_aux:
  assumes "i < 2 ^ 64"
  shows "parse_operator_name (format_operator_name i) = Inr i"
proof -
  have "slash \<notin> set (format_uint i)"
    by (rule format_uint_no_sep) (simp add: is_digit_def slash_def)
  then show ?thesis
    using assms by (simp add: parse_operator_name_def format_operator_name_def parse_format_uint
        operators_prefix_def has_prefix_def)
qed

text \<open>
  The operator names round trip: parsing what formatOperatorName and operatorToProto print
  gives the id back, for every 64-bit id.
\<close>
theorem operator_name_roundtrip:
  assumes "i < 2 ^ 64"
  shows "parse_operator_name (format_operator_name i) = Inr i \<and>
    op_pb_name (operator_to_proto (op\<lparr>ID := i\<rparr>)) = format_operator_name i"
  using operator_name_roundtrip_aux [OF assms] assms
  by (simp add: operator_to_proto_def id_string_format format_operator_name_def operators_prefix_def)

theorem operator_name_roundtrip_witness: "parse_operator_name (format_operator_name 42) = Inr 42"
  using operator_name_roundtrip [of 42 ex_admin] by simp

text \<open>
  A requested lifetime of a service-account token up to 9223372036 seconds is the lifetime it
  gets; the next second overflows int64 to a negative duration, and the token issued then has no
  expiry at all.
\<close>
theorem sa_ttl_overflow:
  shows "(0 < sint n \<and> sint n \<le> 9223372036 \<longrightarrow> ttl_of_seconds n = sint n * second) \<and>
    ttl_of_seconds 9223372037 < 0 \<and>
    (sa_token_issue e i desc (ttl_of_seconds 9223372037) d = (Inr (r, raw), d') \<longrightarrow> sa_expires_at r = None)"
proof (intro conjI impI)
  assume n: "0 < sint n \<and> sint n \<le> 9223372036"
  have "sint (n * 1000000000) = sint n * 1000000000"
    using n by (simp add: sint_word_ariths signed_take_bit_int_eq_self)
  then show "ttl_of_seconds n = sint n * second" by (simp add: ttl_of_seconds_def second_def)
next
  show neg: "ttl_of_seconds 9223372037 < 0" by (simp add: ttl_of_seconds_def)
  assume "sa_token_issue e i desc (ttl_of_seconds 9223372037) d = (Inr (r, raw), d')"
  then show "sa_expires_at r = None"
    using neg by (auto simp: sa_token_issue_def Let_def tbl_append_def sa_stamp_def
        split: option.splits prod.splits if_splits)
qed

theorem sa_ttl_overflow_witness: "ttl_of_seconds 3600 = 3600 * second"
  using sa_ttl_overflow [of 3600 ex_env 1 "[]" ex_db] by simp

subsection \<open>Failures that leave the state alone, and the one that does not\<close>

lemma operator_dao_Inl:
  "operator_create e em h a d = (Inl x, d') \<Longrightarrow> d' = d"
  "operator_delete e i d = (Inl x, d') \<Longrightarrow> d' = d"
  "access_grant e i p r d = (Inl x, d') \<Longrightarrow> d' = d"
  "access_revoke e i p d = (Inl x, d') \<Longrightarrow> d' = d"
  "sa_token_issue e i desc ttl d = (Inl x, d') \<Longrightarrow> d' = d"
  "sa_token_revoke e i d = (Inl x, d') \<Longrightarrow> d' = d"
  using sa_token_issue_Inl [of e i desc ttl d x d']
  by (auto simp: operator_create_def operator_delete_def access_grant_def access_revoke_def raw_of_def
      sa_token_revoke_def Let_def split: if_splits prod.splits option.splits)

lemma create_operator_Inl: "create_operator e body pw cx w = (Inl st, w') \<Longrightarrow> w' = w"
  unfolding create_operator_def
  by (auto split: option.splits sum.splits if_splits prod.splits dest!: operator_dao_Inl(1))

lemma delete_operator_Inl: "delete_operator e name cx w = (Inl st, w') \<Longrightarrow> w' = w"
  unfolding delete_operator_def
  by (auto split: sum.splits if_splits prod.splits dest!: operator_dao_Inl(2))

lemma grant_project_access_Inl: "grant_project_access e oname slug role cx w = (Inl st, w') \<Longrightarrow> w' = w"
  unfolding grant_project_access_def
  by (auto split: sum.splits if_splits prod.splits dest!: operator_dao_Inl(3))

lemma revoke_project_access_Inl: "revoke_project_access e oname slug cx w = (Inl st, w') \<Longrightarrow> w' = w"
  unfolding revoke_project_access_def
  by (auto split: sum.splits if_splits prod.splits dest!: operator_dao_Inl(4))

lemma create_sa_token_Inl: "create_sa_token e oname desc ttl cx w = (Inl st, w') \<Longrightarrow> w' = w"
  unfolding create_sa_token_def
  by (auto split: sum.splits if_splits prod.splits dest!: operator_dao_Inl(5))

lemma revoke_sa_token_Inl: "revoke_sa_token e i cx w = (Inl st, w') \<Longrightarrow> w' = w"
  unfolding revoke_sa_token_def
  by (auto simp: Let_def split: sum.splits if_splits prod.splits dest!: operator_dao_Inl(6))

subsection \<open>The last administrator\<close>

definition admins_ok :: "db \<Rightarrow> bool" where
  "admins_ok d = (\<exists>op\<in>set (rows (t_operators d)). live op \<and> op_is_admin op)"

lemma admins_ok_frame: "t_operators d' = t_operators d \<Longrightarrow> admins_ok d \<Longrightarrow> admins_ok d'"
  by (simp add: admins_ok_def)

lemma admins_ok_audited [simp]: "admins_ok (audited e cx en d) = admins_ok d"
  by (simp add: admins_ok_def audited_frame)

text \<open>With two live administrators, one stays when another row is changed.\<close>

lemma other_admin:
  assumes "tbl_wf t" "\<not> count_live op_is_admin t \<le> 1"
  shows "\<exists>op\<in>set (rows t). live op \<and> op_is_admin op \<and> ID op \<noteq> i"
proof (rule ccontr)
  assume no: "\<not> ?thesis"
  have dist: "distinct (map ID (rows t))" using assms(1) by (simp add: tbl_wf_def strict_sorted_iff)
  then have d: "distinct (map ID (select_live op_is_admin t))"
    by (simp add: select_live_def distinct_map_filter)
  have "set (map ID (select_live op_is_admin t)) \<subseteq> {i}" using no by (auto simp: set_select_live)
  then have "card (set (map ID (select_live op_is_admin t))) \<le> 1"
    using card_mono [of "{i}"] by fastforce
  then show False using assms(2) distinct_card [OF d] by (simp add: count_live_def)
qed

lemma update_live_keeps_row:
  "x \<in> set (rows t) \<Longrightarrow> \<not> P x \<Longrightarrow> x \<in> set (rows (update_live P f t))"
  unfolding update_live_simps by force

lemma count_admins_Inr:
  "map_sum id Some (count_admins e d) = Inr n \<Longrightarrow> n = Some (count_live op_is_admin (t_operators d))"
  by (auto simp: count_admins_def split: if_splits)

lemma set_is_admin_admins:
  assumes "tbl_wf (t_operators (wdb w))" "admins_ok (wdb w)"
    "set_is_admin e cx caller target adm w = (r, w')"
    "target \<in> set (rows (t_operators (wdb w)))" "live target"
  shows "admins_ok (wdb w')"
proof -
  let ?t = "t_operators (wdb w)"
  let ?upd = "\<lambda>x. (touch (now e) x)\<lparr>op_is_admin := adm\<rparr> :: operator_row"
  have new: "t_operators (wdb w') = ?t \<or>
    (t_operators (wdb w') = update_live (\<lambda>x. ID x = ID target) ?upd ?t \<and>
      (op_is_admin target \<and> \<not> adm \<longrightarrow> \<not> count_live op_is_admin ?t \<le> 1))"
    using assms(3) unfolding set_is_admin_def operator_update_is_admin_def
    by (auto simp: Let_def audited_frame dest!: count_admins_Inr
        split: if_splits sum.splits prod.splits option.splits)
  obtain a where a: "a \<in> set (rows ?t)" "live a" "op_is_admin a"
    using assms(2) unfolding admins_ok_def by blast
  from new show ?thesis
  proof
    assume "t_operators (wdb w') = ?t"
    then show ?thesis using assms(2) by (simp add: admins_ok_def)
  next
    assume u: "t_operators (wdb w') = update_live (\<lambda>x. ID x = ID target) ?upd ?t \<and>
      (op_is_admin target \<and> \<not> adm \<longrightarrow> \<not> count_live op_is_admin ?t \<le> 1)"
    show ?thesis
    proof (cases adm)
      case True
      have "?upd target \<in> set (rows (t_operators (wdb w')))"
        using assms(4,5) unfolding conjunct1 [OF u] update_live_simps by force
      moreover have "live (?upd target)" "op_is_admin (?upd target)" using True assms(5) by simp_all
      ultimately show ?thesis unfolding admins_ok_def by blast
    next
      case False
      have "\<exists>op\<in>set (rows ?t). live op \<and> op_is_admin op \<and> ID op \<noteq> ID target"
      proof (cases "op_is_admin target")
        case True
        then show ?thesis using u False other_admin [OF assms(1)] by blast
      next
        case False
        then have "ID a \<noteq> ID target" using a assms(4) tbl_wf_inj [OF assms(1)] by metis
        then show ?thesis using a by blast
      qed
      then show ?thesis
        using update_live_keeps_row [of _ ?t "\<lambda>x. ID x = ID target" ?upd] unfolding admins_ok_def conjunct1 [OF u]
        by blast
    qed
  qed
qed

lemma set_password_admins:
  assumes "admins_ok (wdb w)" "set_password e cx target pw w = (r, w')"
  shows "admins_ok (wdb w')"
proof -
  obtain a where a: "a \<in> set (rows (t_operators (wdb w)))" "live a" "op_is_admin a"
    using assms(1) unfolding admins_ok_def by blast
  have "t_operators (wdb w') = t_operators (wdb w) \<or> (\<exists>h. t_operators (wdb w') =
      update_live (\<lambda>x. ID x = ID target) (\<lambda>x. (touch (now e) x)\<lparr>op_password_hash := h\<rparr>) (t_operators (wdb w)))"
    using assms(2) unfolding set_password_def operator_update_password_def
    by (auto simp: Let_def audited_frame split: if_splits sum.splits prod.splits option.splits)
  then show ?thesis
  proof
    assume "t_operators (wdb w') = t_operators (wdb w)"
    then show ?thesis using assms(1) by (simp add: admins_ok_def)
  next
    assume "\<exists>h. t_operators (wdb w') =
      update_live (\<lambda>x. ID x = ID target) (\<lambda>x. (touch (now e) x)\<lparr>op_password_hash := h\<rparr>) (t_operators (wdb w))"
    then obtain h where "rows (t_operators (wdb w')) = map (\<lambda>x. if live x \<and> ID x = ID target
        then (touch (now e) x)\<lparr>op_password_hash := h\<rparr> else x) (rows (t_operators (wdb w)))"
      (is "_ = map ?g _") unfolding update_live_simps(1) [symmetric] by metis
    then have "?g a \<in> set (rows (t_operators (wdb w')))" using a(1) by simp
    moreover have "live (?g a)" "op_is_admin (?g a)" using a by simp_all
    ultimately show ?thesis unfolding admins_ok_def by blast
  qed
qed

lemma update_operator_cases:
  assumes "update_operator e body um pw cx w = (r, w')"
  shows "w' = w \<or> (\<exists>caller target target' w1 r1 adm. cx_operator cx = Some caller \<and> op_is_admin caller \<and>
      target \<in> set (rows (t_operators (wdb w))) \<and> live target \<and>
      (w1 = w \<or> set_is_admin e cx caller target adm w = (r1, w1)) \<and>
      (w' = w1 \<or> (\<exists>r2. set_password e cx target' pw w1 = (r2, w'))))"
proof (cases "w' = w")
  case False
  obtain caller pb i target wa wp where h: "require_admin cx = Inr caller" "body = Some pb"
    "parse_operator_name (op_pb_name pb) = Inr i" "operator_find_by_id e i (wdb w) = Inr target"
    "operator_mask_loop (map trim_space (split_on (CHR '','') um)) False False = Inr (wa, wp)"
    "wa \<or> wp"
    using assms False unfolding update_operator_def
    by (auto split: sum.splits option.splits if_splits)
  obtain r1 w1 where s1: "(if wa \<and> op_pb_is_admin pb \<noteq> op_is_admin target
      then set_is_admin e cx caller target (op_pb_is_admin pb) w else (Inr target, w)) = (r1, w1)"
    by fastforce
  have "w' = w1 \<or> (\<exists>r2 target'. set_password e cx target' pw w1 = (r2, w'))"
    using assms h s1 unfolding update_operator_def
    by (auto split: sum.splits if_splits prod.splits)
  moreover have "w1 = w \<or> set_is_admin e cx caller target (op_pb_is_admin pb) w = (r1, w1)"
    using s1 by (auto split: if_splits)
  moreover have "cx_operator cx = Some caller" "op_is_admin caller"
    using h(1) by (auto simp: require_admin_def split: option.splits if_splits)
  ultimately show ?thesis using operator_find_by_id_Inr [OF h(4)] by metis
qed simp

lemma operators_update_wf:
  assumes "db_wf d" "\<And>r. op_email (f r) = op_email r" "\<And>r. ID (f r) = ID r" "\<And>r. live (f r) \<Longrightarrow> live r"
  shows "db_wf (d\<lparr>t_operators := update_live P f (t_operators d)\<rparr>)"
  using assms db_wfD(1,10) [OF assms(1)]
  by (intro db_wf_set_table(1) tbl_wf_update uniq_live_update) auto

lemma set_is_admin_wf: "db_wf (wdb w) \<Longrightarrow> set_is_admin e cx caller target adm w = (r, w') \<Longrightarrow> db_wf (wdb w')"
  unfolding set_is_admin_def operator_update_is_admin_def
  by (auto simp: Let_def intro!: audited_db_wf operators_update_wf
      split: if_splits sum.splits prod.splits option.splits)

lemma set_password_wf: "db_wf (wdb w) \<Longrightarrow> set_password e cx target pw w = (r, w') \<Longrightarrow> db_wf (wdb w')"
  unfolding set_password_def operator_update_password_def
  by (auto simp: Let_def intro!: audited_db_wf operators_update_wf
      split: if_splits sum.splits prod.splits option.splits)

lemma update_operator_keeps:
  assumes "db_wf (wdb w)" "admins_ok (wdb w)" "update_operator e body um pw cx w = (r, w')"
  shows "db_wf (wdb w') \<and> admins_ok (wdb w')"
proof (cases "w' = w")
  case False
  from update_operator_cases [OF assms(3)] False obtain caller target target' w1 r1 adm where
    h: "target \<in> set (rows (t_operators (wdb w)))" "live target"
      "w1 = w \<or> set_is_admin e cx caller target adm w = (r1, w1)"
      "w' = w1 \<or> (\<exists>r2. set_password e cx target' pw w1 = (r2, w'))"
    by blast
  have "db_wf (wdb w1) \<and> admins_ok (wdb w1)"
    using h(3) assms(1,2) set_is_admin_wf set_is_admin_admins [OF db_wfD(1) [OF assms(1)] assms(2) _ h(1,2)]
    by blast
  then show ?thesis using h(4) set_password_wf set_password_admins by blast
qed (use assms in simp)

lemma operator_create_effect:
  assumes "operator_create e em h a d = (Inr r, d')"
  shows "d' = d\<lparr>t_operators := t_operators d'\<rparr> \<and> rows (t_operators d') = rows (t_operators d) @ [r] \<and>
    seq (t_operators d') = Suc (seq (t_operators d)) \<and> ID r = Suc (seq (t_operators d)) \<and> live r \<and>
    op_email r = em \<and> op_password_hash r = h \<and> op_is_admin r = a \<and>
    \<not> conflicts op_email (op_email r) 0 (t_operators d)"
  using assms
  by (auto simp: operator_create_def Let_def tbl_append_def stamp_new_def live_def split: if_splits)

lemma create_operator_Inr:
  assumes "create_operator e body pw cx w = (Inr out, w')"
  shows "\<exists>em h a row d en. operator_create e em h a (wdb w) = (Inr row, d) \<and>
    w' = audit_w e cx en (w\<lparr>wdb := d\<rparr>) \<and> is_ok (require_admin cx)"
proof -
  obtain c pb h row d where x: "require_admin cx = Inr c" "body = Some pb" "op_pb_email pb \<noteq> []" "pw \<noteq> []"
    "bcrypt_hash e pw = Some h" "operator_create e (op_pb_email pb) h (op_pb_is_admin pb) (wdb w) = (Inr row, d)"
    using assms unfolding create_operator_def
    by (auto split: option.splits sum.splits if_splits prod.splits)
  have "\<exists>en. w' = audit_w e cx en (w\<lparr>wdb := d\<rparr>)"
    using assms x unfolding create_operator_def by auto
  moreover have "is_ok (require_admin cx)" using x(1) by simp
  ultimately show ?thesis using x(6) by blast
qed

lemma create_operator_keeps:
  assumes "db_wf (wdb w)" "admins_ok (wdb w)" "create_operator e body pw cx w = (r, w')"
  shows "db_wf (wdb w') \<and> admins_ok (wdb w')"
proof (cases r)
  case (Inl st)
  then show ?thesis using create_operator_Inl assms by blast
next
  case (Inr out)
  from create_operator_Inr [OF assms(3) [unfolded Inr]] obtain em h a row d en where
    x: "operator_create e em h a (wdb w) = (Inr row, d)" "wdb w' = audited e cx en d"
    by auto
  have eff: "d = (wdb w)\<lparr>t_operators := t_operators d\<rparr>"
    "rows (t_operators d) = rows (t_operators (wdb w)) @ [row]"
    "seq (t_operators d) = Suc (seq (t_operators (wdb w)))" "ID row = Suc (seq (t_operators (wdb w)))"
    "\<not> conflicts op_email (op_email row) 0 (t_operators (wdb w))"
    using operator_create_effect [OF x(1)] by blast+
  note wf = db_wfD(1,10) [OF assms(1)]
  have "db_wf d"
    by (subst eff(1), rule db_wf_set_table(1) [OF assms(1) tbl_wf_snoc [OF wf(1) eff(2-4)]
        uniq_live_snoc [OF wf(2) eff(2,5) wf(1)]])
  moreover have "admins_ok d" using assms(2) eff(2) unfolding admins_ok_def by auto
  ultimately show ?thesis using x(2) by (simp add: audited_db_wf)
qed

lemma delete_operator_Inr:
  assumes "delete_operator e name cx w = (Inr u, w')"
  shows "\<exists>caller i target d en. require_admin cx = Inr caller \<and> parse_operator_name name = Inr i \<and>
    ID caller \<noteq> i \<and> target \<in> set (rows (t_operators (wdb w))) \<and> live target \<and> ID target = i \<and>
    (op_is_admin target \<longrightarrow> \<not> count_live op_is_admin (t_operators (wdb w)) \<le> 1) \<and>
    d = (wdb w)\<lparr>t_operators := delete_live (now e) (\<lambda>x. ID x = i) (t_operators (wdb w))\<rparr> \<and>
    w' = audit_w e cx en (w\<lparr>wdb := d\<rparr>)"
proof -
  obtain caller i target n d where x: "require_admin cx = Inr caller" "parse_operator_name name = Inr i"
    "ID caller \<noteq> i" "operator_find_by_id e i (wdb w) = Inr target"
    "(if op_is_admin target then map_sum id Some (count_admins e (wdb w)) else Inr None) = Inr n"
    "\<not> (case n of None \<Rightarrow> False | Some k \<Rightarrow> k \<le> 1)" "operator_delete e (ID target) (wdb w) = (Inr (), d)"
    using assms unfolding delete_operator_def by (auto split: sum.splits if_splits prod.splits)
  have w': "\<exists>en. w' = audit_w e cx en (w\<lparr>wdb := d\<rparr>)"
    using assms x unfolding delete_operator_def by auto
  have t: "target \<in> set (rows (t_operators (wdb w)))" "live target" "ID target = i"
    using operator_find_by_id_Inr [OF x(4)] by simp_all
  have "d = (wdb w)\<lparr>t_operators := delete_live (now e) (\<lambda>x. ID x = i) (t_operators (wdb w))\<rparr>"
    using x(7) t(3) by (auto simp: operator_delete_def split: if_splits)
  moreover have "op_is_admin target \<longrightarrow> \<not> count_live op_is_admin (t_operators (wdb w)) \<le> 1"
    using x(5,6) count_admins_Inr [of e "wdb w" n] by (auto split: if_splits)
  ultimately show ?thesis using x(1-3) t w' by metis
qed

lemma delete_operator_keeps:
  assumes "db_wf (wdb w)" "admins_ok (wdb w)" "delete_operator e name cx w = (r, w')"
  shows "db_wf (wdb w') \<and> admins_ok (wdb w')"
proof (cases r)
  case (Inl st)
  then show ?thesis using delete_operator_Inl assms by blast
next
  case (Inr u)
  from delete_operator_Inr [OF assms(3) [unfolded Inr]] obtain target d i en where
    x: "target \<in> set (rows (t_operators (wdb w)))" "live target" "ID target = i"
      "op_is_admin target \<longrightarrow> \<not> count_live op_is_admin (t_operators (wdb w)) \<le> 1"
      "d = (wdb w)\<lparr>t_operators := delete_live (now e) (\<lambda>x. ID x = i) (t_operators (wdb w))\<rparr>"
      "wdb w' = audited e cx en d"
    by auto
  have "\<exists>op\<in>set (rows (t_operators (wdb w))). live op \<and> op_is_admin op \<and> ID op \<noteq> i"
  proof (cases "op_is_admin target")
    case True
    then show ?thesis using x(4) other_admin [OF db_wfD(1) [OF assms(1)]] by blast
  next
    case False
    obtain a where "a \<in> set (rows (t_operators (wdb w)))" "live a" "op_is_admin a"
      using assms(2) unfolding admins_ok_def by blast
    then show ?thesis using False x(1,3) tbl_wf_inj [OF db_wfD(1) [OF assms(1)]] by metis
  qed
  then have "admins_ok d"
    using update_live_keeps_row [of _ "t_operators (wdb w)" "\<lambda>x. ID x = i"]
    unfolding admins_ok_def x(5) delete_live_def by auto
  moreover have "db_wf d"
    unfolding x(5) delete_live_def by (rule operators_update_wf [OF assms(1)]) (simp_all add: live_def)
  ultimately show ?thesis using x(6) by (simp add: audited_db_wf)
qed

text \<open>
  C22. A deleted operator is locked out at once: after DeleteOperator succeeded, whatever the time and the
  bearer token, the server's chain runs the handler of an operator RPC only for another operator, whose
  credential the token was already before; any other token, so every one that was the deleted operator's
  alone, session or service account, is refused with Unauthenticated or Internal and changes nothing but a
  last-used time. The administrator who deleted it is another operator, and an administrator is left.
\<close>
theorem delete_operator_locks_out:
  assumes "db_wf (wdb w)" and "admins_ok (wdb w)"
    and "delete_operator e (format_operator_name i) cx w = (Inr u, w')" and "i < 2 ^ 64"
    and "m \<noteq> login_method" and "\<not> has_prefix agent_service_prefix m"
    and "server_chain peer e2 m handler cx2 w' = (r, w2)"
  shows "((\<exists>op d'. ID op \<noteq> i \<and> bearer_of (now e2) (extract_bearer cx2) (wdb w) op \<and>
        sa_touched e2 (wdb w') d' \<and> (r, w2) = handler (operator_ctx peer op cx2) (w'\<lparr>wdb := d'\<rparr>)) \<or>
      ((\<exists>c msg. r = Inl (Status c msg) \<and> c \<in> {Unauthenticated, Internal}) \<and>
         sa_touched e2 (wdb w') (wdb w2) \<and> wrelay w2 = wrelay w')) \<and>
    admins_ok (wdb w') \<and> (\<forall>caller. cx_operator cx = Some caller \<longrightarrow> ID caller \<noteq> i)"
proof -
  have p: "parse_operator_name (format_operator_name i) = Inr i"
    using operator_name_roundtrip_aux assms(4) by blast
  from delete_operator_Inr [OF assms(3)] obtain caller d en where
    x: "require_admin cx = Inr caller" "ID caller \<noteq> i"
      "d = (wdb w)\<lparr>t_operators := delete_live (now e) (\<lambda>x. ID x = i) (t_operators (wdb w))\<rparr>"
      "wdb w' = audited e cx en d"
    using p by auto
  have gone: "ID op \<noteq> i \<and> bearer_of t raw (wdb w) op" if "bearer_of t raw (wdb w') op" for t raw op
  proof -
    have "op \<in> set (rows (delete_live (now e) (\<lambda>x. ID x = i) (t_operators (wdb w))))" "live op"
      using that by (simp_all add: bearer_of_def x(3,4) audited_frame)
    then have "op \<in> set (rows (t_operators (wdb w))) \<and> ID op \<noteq> i" by (rule delete_live_survivor)
    moreover have "session_owner t raw (wdb w') = session_owner t raw (wdb w)" "sa_owner t raw (wdb w') = sa_owner t raw (wdb w)"
      by (simp_all add: session_owner_def sa_owner_def x(3,4) audited_frame)
    ultimately show ?thesis using that by (simp add: bearer_of_def)
  qed
  have "cx_operator cx = Some caller"
    using x(1) by (auto simp: require_admin_def split: option.splits if_splits)
  then have "\<forall>caller. cx_operator cx = Some caller \<longrightarrow> ID caller \<noteq> i" using x(2) by simp
  moreover have "admins_ok (wdb w')" using delete_operator_keeps [OF assms(1-3)] by blast
  ultimately show ?thesis using server_chain_operator_cases [OF assms(5-7)] gone by blast
qed

text \<open>The example's administrator deletes the other operator, whose session is then refused.\<close>

definition ex_admin_cx :: ctx where
  "ex_admin_cx = raw_ctx None\<lparr>cx_operator := Some ex_admin\<rparr>"

lemma ex_admin_cx_simps [simp]: "cx_operator ex_admin_cx = Some ex_admin" "require_admin ex_admin_cx = Inr ex_admin"
  by (simp_all add: ex_admin_cx_def require_admin_def)

definition ex_two_world :: "unit world" where
  "ex_two_world = \<lparr>wdb = ex_db\<lparr>t_sessions := \<lparr>rows = [ex_session 2 2 (hash_token ''user'')], seq = 2\<rparr>\<rparr>, wrelay = ()\<rparr>"

lemma ex_two_world_simps [simp]:
  "t_operators (wdb ex_two_world) = t_operators ex_db" "t_sa_tokens (wdb ex_two_world) = t_sa_tokens ex_db"
  "rows (t_sessions (wdb ex_two_world)) = [ex_session 2 2 (hash_token ''user'')]"
  by (simp_all add: ex_two_world_def)

theorem delete_operator_locks_out_witness:
  "\<exists>w'. delete_operator ex_env (format_operator_name 2) ex_admin_cx ex_two_world = (Inr (), w') \<and> admins_ok (wdb w') \<and>
     bearer_of 1000 ''user'' (wdb ex_two_world) ex_user \<and>
     \<not> is_ok (fst (server_chain None ex_env ''/quicktun.v1.AuthService/WhoAmI'' (\<lambda>cx w. (Inr (), w))
       (raw_ctx (Some (ex_md ''user''))) w'))"
proof -
  let ?m = "''/quicktun.v1.AuthService/WhoAmI''" and ?cx = "raw_ctx (Some (ex_md ''user''))"
  obtain w' where del: "delete_operator ex_env (format_operator_name 2) ex_admin_cx ex_two_world = (Inr (), w')"
    by (simp add: delete_operator_def operator_name_roundtrip_aux operator_find_by_id_def first_live_def
        operator_delete_def)
  have ok: "db_wf (wdb ex_two_world)" "admins_ok (wdb ex_two_world)"
    using ex_wf by (simp_all add: ex_two_world_def db_wf_def tbl_wf_def uniq_live_def admins_ok_def)
  have only: "bearer_of 1000 ''user'' (wdb ex_two_world) op \<longleftrightarrow> op = ex_user" for op
  proof -
    have "hash_token ''user'' \<noteq> ''sa''" using hash_token_length [of "''user''"] by auto
    then have "sa_owner 1000 ''user'' (wdb ex_two_world) = None" by (simp add: sa_owner_def sa_active_def first_live_def)
    moreover have "session_owner 1000 ''user'' (wdb ex_two_world) = Some 2"
      by (simp add: session_owner_def session_active_def first_live_def)
    ultimately show ?thesis by (auto simp: bearer_of_def)
  qed
  have m: "?m \<noteq> login_method" "\<not> has_prefix agent_service_prefix ?m"
    by (simp_all add: login_method_def has_prefix_def agent_service_prefix_def)
  have tok: "extract_bearer ?cx = ''user''" by (rule ex_bearer, simp) code_simp
  obtain r w2 where run: "server_chain None ex_env ?m (\<lambda>cx w. (Inr (), w)) ?cx w' = (r, w2)" by fastforce
  have "(2::nat) < 2 ^ 64" by simp
  note out = delete_operator_locks_out [OF ok del this m run]
  have "\<not> (\<exists>op d'. ID op \<noteq> 2 \<and> bearer_of (now ex_env) (extract_bearer ?cx) (wdb ex_two_world) op \<and>
      sa_touched ex_env (wdb w') d' \<and> (r, w2) = (Inr (), w'\<lparr>wdb := d'\<rparr>))"
    unfolding tok ex_env_simps(1) only by simp
  with out have "\<exists>c msg. r = Inl (Status c msg)" "admins_ok (wdb w')" by blast+
  then show ?thesis using del run only by auto
qed

text \<open>
  UpdateOperator with both fields in the mask and no password: the is_admin write is committed
  before the password is checked, so the call answers InvalidArgument with the role changed.
\<close>

lemma ex_mask_trim: "trim_space ''is_admin'' = ''is_admin''" "trim_space ''password'' = ''password''"
  by (rule trim_space_all_solid, code_simp)+

lemma update_operator_partial_commit:
  "\<exists>w'. update_operator ex_env
       (Some \<lparr>op_pb_name = format_operator_name 2, op_pb_operator_id = [], op_pb_create_time = 0,
              op_pb_email = [], op_pb_is_admin = True\<rparr>) ''is_admin,password'' [] ex_admin_cx ex_world =
     (Inl (Status InvalidArgument ''password is required when update_mask names password''), w') \<and>
     (\<exists>op\<in>set (rows (t_operators (wdb w'))). ID op = 2 \<and> op_is_admin op) \<and>
     \<not> op_is_admin ex_user"
proof -
  have n: "parse_operator_name (format_operator_name 2) = Inr 2"
    by (simp add: operator_name_roundtrip_aux)
  show ?thesis
    by (simp add: update_operator_def n ex_mask_trim operator_find_by_id_def first_live_def set_is_admin_def
        set_password_def operator_update_is_admin_def count_live_def select_live_def update_live_def
        audited_frame)
qed

end
