(* ===== verification/Sweeper.thy ===== *)
theory Sweeper
  imports ServiceService
begin

section \<open>The site liveness sweeper (internal/sweeper)\<close>

text \<open>
  Tick flips the stale online sites to offline in one statement; Run is its loop over what the
  select receives: the end of the context or a tick of the timer (with the environment of that
  moment). A failed tick is logged and the loop goes on.
\<close>

record sweeper_config =
  sw_interval :: duration
  sw_offline_after :: duration

definition sweeper_tick :: "sweeper_config \<Rightarrow> env \<Rightarrow> db \<Rightarrow> (dao_error + unit) \<times> db" where
  "sweeper_tick cfg e d =
     (let threshold = now e - sw_offline_after cfg in
      (case mark_stale_offline e threshold d of
         (Inl x, d') \<Rightarrow> (Inl x, d')
       | (Inr n, d') \<Rightarrow> (Inr (), d')))"

datatype sweep_event = Done | Timer env

fun sweeper_loop :: "sweeper_config \<Rightarrow> sweep_event list \<Rightarrow> db \<Rightarrow> db" where
  "sweeper_loop cfg [] d = d"
| "sweeper_loop cfg (Done # evs) d = d"
| "sweeper_loop cfg (Timer e # evs) d = sweeper_loop cfg evs (snd (sweeper_tick cfg e d))"

definition sweeper_run :: "sweeper_config \<Rightarrow> sweep_event list \<Rightarrow> db \<Rightarrow> db" where
  "sweeper_run cfg evs d =
     (if sw_interval cfg \<le> 0 \<or> sw_offline_after cfg \<le> 0 then d else sweeper_loop cfg evs d)"

subsection \<open>What a tick changes\<close>

definition flip_offline :: "time \<Rightarrow> time \<Rightarrow> site_row \<Rightarrow> site_row" where
  "flip_offline t threshold s =
     (if live s \<and> is_stale threshold s then (touch t s)\<lparr>si_status := SiteStatusOffline\<rparr> else s)"

lemma sweeper_tick_db:
  "snd (sweeper_tick cfg e d) =
     (if fault e ''dao: mark stale offline'' then d
      else d\<lparr>t_sites := update_live (is_stale (now e - sw_offline_after cfg))
               (\<lambda>s. (touch (now e) s)\<lparr>si_status := SiteStatusOffline\<rparr>) (t_sites d)\<rparr>)"
  by (simp add: sweeper_tick_def mark_stale_offline_def)

lemma sweeper_tick_rows:
  assumes "\<not> fault e ''dao: mark stale offline''"
  shows "rows (t_sites (snd (sweeper_tick cfg e d))) =
    map (flip_offline (now e) (now e - sw_offline_after cfg)) (rows (t_sites d))"
  using assms by (simp add: sweeper_tick_db update_live_simps flip_offline_def)

lemma net_ok_tick: "net_ok d \<Longrightarrow> net_ok (snd (sweeper_tick cfg e d))"
  by (auto simp: sweeper_tick_db intro: net_ok_site_update_live)

lemma flip_offline_idem:
  "flip_offline t2 th (flip_offline t1 th s) = flip_offline t1 th s"
  by (simp add: flip_offline_def is_stale_def status_consts)

text \<open>
  One sweep flips a live site exactly when it is online and its last heartbeat is older than
  OfflineAfter: pending and offline sites, sites never seen, deleted sites and sites seen in time
  keep their whole row, and a flipped site keeps its last_seen_at; a site is never turned online.
\<close>
theorem sweep_flips_exactly_stale:
  assumes "\<not> fault e ''dao: mark stale offline''"
    and "s \<in> set (rows (t_sites d))" and "tbl_wf (t_sites d)"
  shows "find (\<lambda>x. ID x = ID s) (rows (t_sites (snd (sweeper_tick cfg e d)))) =
    Some (if live s \<and> si_status s = SiteStatusOnline \<and>
             (\<exists>t. si_last_seen_at s = Some t \<and> t < now e - sw_offline_after cfg)
          then s\<lparr>UpdatedAt := now e, si_status := SiteStatusOffline\<rparr> else s)"
proof -
  let ?g = "flip_offline (now e) (now e - sw_offline_after cfg)"
  have id: "ID (?g x) = ID x" for x by (simp add: flip_offline_def)
  have "find (\<lambda>x. ID x = ID s) (map ?g xs) = Some (?g s)"
    if "set xs \<subseteq> set (rows (t_sites d))" "s \<in> set xs" for xs
    using that
  proof (induction xs)
    case (Cons x xs)
    have "x = s" if "ID x = ID s" using tbl_wf_inj [OF assms(3) _ assms(2) that] Cons.prems(1) by simp
    then show ?case using Cons id by auto
  qed simp
  moreover have "?g s = (if live s \<and> si_status s = SiteStatusOnline \<and>
      (\<exists>t. si_last_seen_at s = Some t \<and> t < now e - sw_offline_after cfg)
      then s\<lparr>UpdatedAt := now e, si_status := SiteStatusOffline\<rparr> else s)"
    by (auto simp: flip_offline_def is_stale_def touch_def split: option.splits)
  ultimately show ?thesis unfolding sweeper_tick_rows [OF assms(1)] using assms(2) by simp
qed

theorem sweep_flips_exactly_stale_witness:
  "find (\<lambda>x. ID x = 1) (rows (t_sites (snd
     (sweeper_tick \<lparr>sw_interval = 10, sw_offline_after = 90\<rparr> ex_env ex_db)))) =
   Some (ex_site\<lparr>UpdatedAt := 1000, si_status := SiteStatusOffline\<rparr>)"
  using sweep_flips_exactly_stale [of ex_env ex_site ex_db "\<lparr>sw_interval = 10, sw_offline_after = 90\<rparr>"]
    db_wfD(5) [OF ex_wf]
  by simp

text \<open>A sweeper with either duration at or below zero does nothing.\<close>

lemma sweeper_disabled:
  "sw_interval cfg \<le> 0 \<or> sw_offline_after cfg \<le> 0 \<Longrightarrow> sweeper_run cfg evs d = d"
  by (auto simp: sweeper_run_def)

lemma sweeper_loop_net_ok: "net_ok d \<Longrightarrow> net_ok (sweeper_loop cfg evs d)"
  by (induction cfg evs d rule: sweeper_loop.induct) (simp_all add: net_ok_tick)

end
