(* ===== verification/Router.thy ===== *)
theory Router
  imports Credentials Example DaoProject DaoSite DaoService DaoAudit
begin

section \<open>The authenticating CONNECT proxy (internal/authproxy)\<close>

text \<open>
  Router.Route resolves a bearer token and a CONNECT target to the loopback address of a
  rathole-server port, and Server.handle answers the CONNECT request. The router reads the control
  plane's database with the DAOs' validators; its only write is the last_used_at of an agent token.
  What handle gets from the HTTP parser is the method, the Authorization header and the host; the
  dial of the backend may fail (\<open>fault e ''authproxy: dial''\<close>). The copying of bytes after the
  200 is not modelled. net.SplitHostPort is written out.
\<close>

datatype route_error = ErrUnauthenticated | ErrInternal

definition colon :: char where "colon = CHR '':''"

text \<open>The parts before and after the last \<open>c\<close>.\<close>

fun split_last :: "char \<Rightarrow> string \<Rightarrow> (string \<times> string) option" where
  "split_last c [] = None"
| "split_last c (x # xs) =
     (case split_last c xs of
        Some (a, b) \<Rightarrow> Some (x # a, b)
      | None \<Rightarrow> if x = c then Some ([], xs) else None)"

definition split_host_port :: "string \<Rightarrow> (string \<times> string) option" where
  "split_host_port hostport =
     (case split_last colon hostport of
        None \<Rightarrow> None
      | Some (before, port) \<Rightarrow>
          if hd hostport = CHR ''[''
          then (let host = butlast (tl before) in
                if tl before = [] \<or> last before \<noteq> CHR '']'' \<or> CHR '']'' \<in> set host
                  \<or> CHR ''['' \<in> set (host @ port) \<or> CHR '']'' \<in> set port
                then None else Some (host, port))
          else
            (if colon \<in> set before \<or> CHR ''['' \<in> set hostport \<or> CHR '']'' \<in> set hostport
             then None else Some (before, port)))"

definition loopback :: string where "loopback = ''127.0.0.1''"

subsection \<open>Router\<close>

definition routeSiteAgent :: "env \<Rightarrow> nat \<Rightarrow> db \<Rightarrow> route_error + string" where
  "routeSiteAgent e site_id d =
     (if fault e ''authproxy: site'' then Inl ErrUnauthenticated
      else
        (case first_live (\<lambda>s. ID s = site_id) (t_sites d) of
           None \<Rightarrow> Inl ErrUnauthenticated
         | Some site \<Rightarrow>
             if fault e ''authproxy: project'' then Inl ErrUnauthenticated
             else
               (case first_live (\<lambda>p. ID p = si_project_id site) (t_projects d) of
                  None \<Rightarrow> Inl ErrUnauthenticated
                | Some project \<Rightarrow>
                    if pr_status project \<noteq> ProjectStatusActive then Inl ErrUnauthenticated
                    else
                      (case parse_port_range (pr_relay_port_range project) of
                         Inl _ \<Rightarrow> Inl ErrInternal
                       | Inr (minP, _) \<Rightarrow> Inr (loopback @ [colon] @ format_uint (unat minP))))))"

definition routeOperator :: "env \<Rightarrow> nat \<Rightarrow> bool \<Rightarrow> string \<Rightarrow> db \<Rightarrow> route_error + string" where
  "routeOperator e operator_id is_admin target d =
     (case split_host_port target of
        None \<Rightarrow> Inl ErrUnauthenticated
      | Some (host, port_str) \<Rightarrow>
          if host \<noteq> loopback then Inl ErrUnauthenticated
          else
            (case parse_uint 16 port_str of
               None \<Rightarrow> Inl ErrUnauthenticated
             | Some port64 \<Rightarrow>
                 (let port = of_nat port64 :: port in
                  if fault e ''authproxy: service'' then Inl ErrUnauthenticated
                  else
                    (case first_live (\<lambda>v. sv_relay_port v = Some port) (t_services d) of
                       None \<Rightarrow> Inl ErrUnauthenticated
                     | Some service \<Rightarrow>
                         if fault e ''authproxy: site'' then Inl ErrUnauthenticated
                         else
                           (case first_live (\<lambda>s. ID s = sv_site_id service) (t_sites d) of
                              None \<Rightarrow> Inl ErrUnauthenticated
                            | Some site \<Rightarrow>
                                if fault e ''authproxy: project'' then Inl ErrUnauthenticated
                                else
                                  (case first_live (\<lambda>p. ID p = si_project_id site) (t_projects d) of
                                     None \<Rightarrow> Inl ErrUnauthenticated
                                   | Some project \<Rightarrow>
                                       if pr_status project \<noteq> ProjectStatusActive
                                       then Inl ErrUnauthenticated
                                       else if \<not> is_admin
                                         \<and> (fault e ''authproxy: access''
                                            \<or> first_live (\<lambda>a. ac_operator_id a = operator_id
                                                 \<and> ac_project_id a = ID project) (t_accesses d) = None)
                                       then Inl ErrUnauthenticated
                                       else Inr target))))))"

definition Route :: "env \<Rightarrow> string \<Rightarrow> string \<Rightarrow> db \<Rightarrow> (route_error + string) \<times> db" where
  "Route e raw_token target d =
     (if raw_token = [] then (Inl ErrUnauthenticated, d)
      else
        (case site_token_validate_raw e raw_token d of
           (Inr site_id, d) \<Rightarrow> (routeSiteAgent e site_id d, d)
         | (Inl _, d) \<Rightarrow>
             (case session_validate_raw e raw_token d of
                Inr (op_id, is_admin) \<Rightarrow> (routeOperator e op_id is_admin target d, d)
              | Inl _ \<Rightarrow> (Inl ErrUnauthenticated, d))))"

subsection \<open>Server.handle\<close>

text \<open>SplitN(h, " ", 2) and EqualFold with an ASCII word that has no Unicode fold outside ASCII.\<close>

definition bearerToken :: "string \<Rightarrow> string" where
  "bearerToken h =
     (case split_two (CHR '' '') h of
        None \<Rightarrow> []
      | Some (scheme, tok) \<Rightarrow>
          if map ascii_fold scheme = map ascii_fold ''Bearer'' then tok else [])"

record connect_request =
  rq_method :: string
  rq_authorization :: string
  rq_host :: string

text \<open>The status written (0: none, the request could not be read) and the backend dialled.\<close>

definition handle ::
  "env \<Rightarrow> connect_request option \<Rightarrow> db \<Rightarrow> (nat \<times> string option) \<times> db" where
  "handle e req d =
     (case req of
        None \<Rightarrow> ((0, None), d)
      | Some rq \<Rightarrow>
          if rq_method rq \<noteq> ''CONNECT'' then ((405, None), d)
          else
            (case Route e (bearerToken (rq_authorization rq)) (rq_host rq) d of
               (Inl ErrInternal, d) \<Rightarrow> ((500, None), d)
             | (Inl ErrUnauthenticated, d) \<Rightarrow> ((401, None), d)
             | (Inr backend, d) \<Rightarrow>
                 if fault e ''authproxy: dial'' then ((502, Some backend), d)
                 else ((200, Some backend), d)))"

definition crlf :: string where "crlf = [CHR 0x0D, CHR 0x0A]"

definition writeStatus :: "string \<Rightarrow> string \<Rightarrow> string" where
  "writeStatus st body =
     st @ crlf @
     (if body \<noteq> []
      then ''Content-Length: '' @ format_uint (length body) @ crlf @
           ''Content-Type: text/plain'' @ crlf
      else ''Content-Length: 0'' @ crlf) @
     ''Connection: close'' @ crlf @ crlf @ body"

subsection \<open>Splitting an address\<close>

lemma split_last_None: "split_last c xs = None \<longleftrightarrow> c \<notin> set xs"
  by (induction xs) (auto split: option.splits)

lemma split_last_append: "c \<notin> set b \<Longrightarrow> split_last c (a @ c # b) = Some (a, b)"
  by (induction a) (simp_all add: split_last_None [THEN iffD2])

lemma split_last_Some: "split_last c s = Some (a, b) \<Longrightarrow> s = a @ c # b \<and> c \<notin> set b"
  by (induction s arbitrary: a) (auto simp: split_last_None split: option.splits if_splits)

lemma split_host_port_plain:
  assumes "colon \<notin> set host" "CHR ''['' \<notin> set host" "CHR '']'' \<notin> set host" "list_all is_digit port"
  shows "split_host_port (host @ [colon] @ port) = Some (host, port)"
proof -
  have d: "c \<in> set port \<Longrightarrow> is_digit c" for c using assms(4) by (simp add: list_all_iff)
  have p: "colon \<notin> set port" "CHR ''['' \<notin> set port" "CHR '']'' \<notin> set port"
    using d [of colon] d [of "CHR ''[''"] d [of "CHR '']''"] by (auto simp: is_digit_def colon_def)
  have "hd (host @ [colon] @ port) \<noteq> CHR ''[''" using assms(2) by (cases host) (auto simp: colon_def)
  then show ?thesis
    using assms(1-3) p split_last_append [of colon port host]
    by (simp add: split_host_port_def) (simp add: colon_def)
qed

text \<open>What the operator path can accept as a target: the loopback address, plain or in brackets.\<close>

lemma split_host_port_loopback:
  assumes "split_host_port s = Some (loopback, port)"
  shows "s = loopback @ [colon] @ port \<or> s = ''['' @ loopback @ '']'' @ [colon] @ port"
proof -
  obtain before where b: "split_last colon s = Some (before, port)"
    using assms by (auto simp: split_host_port_def Let_def split: option.splits if_splits)
  note s = split_last_Some [OF b, THEN conjunct1]
  show ?thesis
  proof (cases "hd s = CHR ''[''")
    case True
    then have h: "tl before \<noteq> []" "last before = CHR '']''" "butlast (tl before) = loopback"
      using assms b by (auto simp: split_host_port_def Let_def split: if_splits)
    obtain x where x: "before = x # tl before" using h(1) by (cases before) auto
    then have "x = CHR ''[''" using True s by (cases before) auto
    moreover have "tl before = loopback @ '']''"
      using append_butlast_last_id [OF h(1)] h(2,3) x h(1) by (metis last_ConsR)
    ultimately have "before = ''['' @ loopback @ '']''" using x by simp
    then show ?thesis using s by simp
  next
    case False
    then have "before = loopback"
      using assms b by (auto simp: split_host_port_def Let_def split: if_splits)
    then show ?thesis using s by simp
  qed
qed

subsection \<open>What Route lets through\<close>

text \<open>A service that may be reached: live, on a live site of a live active project.\<close>

definition serves :: "db \<Rightarrow> port \<Rightarrow> project_row \<Rightarrow> bool" where
  "serves d q p \<longleftrightarrow>
     (\<exists>v\<in>set (rows (t_services d)). \<exists>s\<in>set (rows (t_sites d)).
        live v \<and> sv_relay_port v = Some q \<and> live s \<and> ID s = sv_site_id v \<and>
        p \<in> set (rows (t_projects d)) \<and> live p \<and> ID p = si_project_id s \<and>
        pr_status p = ProjectStatusActive)"

lemma routeSiteAgent_Inr:
  assumes "routeSiteAgent e i d = Inr backend"
  shows "\<exists>s\<in>set (rows (t_sites d)). \<exists>p\<in>set (rows (t_projects d)). \<exists>lo hi. live s \<and> ID s = i \<and> live p \<and>
    ID p = si_project_id s \<and> pr_status p = ProjectStatusActive \<and>
    parse_port_range (pr_relay_port_range p) = Inr (lo, hi) \<and>
    backend = loopback @ [colon] @ format_uint (unat lo)"
  using assms unfolding routeSiteAgent_def
  by (auto split: if_splits option.splits sum.splits dest!: first_live_Some)

lemma routeOperator_Inr:
  assumes "routeOperator e i adm target d = Inr backend"
  shows "backend = target \<and> (\<exists>port n. (target = loopback @ [colon] @ port \<or>
        target = ''['' @ loopback @ '']'' @ [colon] @ port) \<and> parse_uint 16 port = Some n \<and>
      (\<exists>p. serves d (of_nat n) p \<and> (adm \<or> granted i (ID p) d)))"
proof -
  obtain port n v s p where x: "split_host_port target = Some (loopback, port)" "parse_uint 16 port = Some n"
    "first_live (\<lambda>v. sv_relay_port v = Some (of_nat n)) (t_services d) = Some v"
    "first_live (\<lambda>s. ID s = sv_site_id v) (t_sites d) = Some s"
    "first_live (\<lambda>p. ID p = si_project_id s) (t_projects d) = Some p"
    "pr_status p = ProjectStatusActive" "backend = target"
    "adm \<or> first_live (\<lambda>a. ac_operator_id a = i \<and> ac_project_id a = ID p) (t_accesses d) \<noteq> None"
    using assms unfolding routeOperator_def by (auto simp: Let_def split: if_splits option.splits)
  have "serves d (of_nat n) p"
    unfolding serves_def using x(6) first_live_Some [OF x(3)] first_live_Some [OF x(4)] first_live_Some [OF x(5)]
    by metis
  moreover have "adm \<or> granted i (ID p) d"
    using x(8) unfolding granted_iff by (auto dest!: first_live_Some)
  ultimately show ?thesis using x(2,7) split_host_port_loopback [OF x(1)] by blast
qed

lemma Route_Inr:
  assumes "Route e raw target d = (Inr backend, d')"
  shows "raw \<noteq> [] \<and>
    ((\<exists>i. agent_owner (now e) raw d = Some i \<and> routeSiteAgent e i d' = Inr backend) \<or>
     (\<exists>i adm. session_validate_raw e raw d = Inr (i, adm) \<and> routeOperator e i adm target d = Inr backend)) \<and>
    t_sites d' = t_sites d \<and> t_projects d' = t_projects d \<and> t_services d' = t_services d \<and>
    t_accesses d' = t_accesses d \<and> t_sessions d' = t_sessions d \<and> t_operators d' = t_operators d"
proof -
  have ne: "raw \<noteq> []" using assms by (auto simp: Route_def)
  obtain r d1 where v: "site_token_validate_raw e raw d = (r, d1)" by (cases "site_token_validate_raw e raw d")
  show ?thesis
  proof (cases r)
    case (Inr i)
    then have "agent_owner (now e) raw d = Some i" "\<exists>k. d1 = touch_agent_token e k d"
      using v by (auto simp: site_token_validate_raw_def agent_owner_def split: if_splits option.splits)
    then show ?thesis using assms ne v Inr by (auto simp: Route_def frame_simps)
  next
    case (Inl x)
    then have "d1 = d" using v by (auto simp: site_token_validate_raw_def split: if_splits option.splits)
    then show ?thesis using assms ne v Inl by (auto simp: Route_def split: sum.splits)
  qed
qed

text \<open>
  C7. The proxy forwards only where it may. A backend address comes from a live agent token and is
  then the control port of that agent's own active project; or from an active session, and is then
  the CONNECT target, a loopback address whose port is the relay port of a live service on a live
  site of an active project that the operator administers or was granted. There is no other way to
  make the proxy dial, and no target outside the loopback address.
\<close>
theorem route_authorised:
  assumes "Route e raw target d = (Inr backend, d')"
  shows "(\<exists>i. agent_owner (now e) raw d = Some i \<and>
      (\<exists>s\<in>set (rows (t_sites d)). \<exists>p\<in>set (rows (t_projects d)). \<exists>lo hi. live s \<and> ID s = i \<and> live p \<and>
         ID p = si_project_id s \<and> pr_status p = ProjectStatusActive \<and>
         parse_port_range (pr_relay_port_range p) = Inr (lo, hi) \<and>
         backend = loopback @ [colon] @ format_uint (unat lo))) \<or>
    (\<exists>op\<in>set (rows (t_operators d)). \<exists>se\<in>set (rows (t_sessions d)). live op \<and> live se \<and>
      session_active (now e) raw se \<and> se_operator_id se = ID op \<and> backend = target \<and>
      (\<exists>port n. (target = loopback @ [colon] @ port \<or> target = ''['' @ loopback @ '']'' @ [colon] @ port) \<and>
         parse_uint 16 port = Some n \<and>
         (\<exists>p. serves d (of_nat n) p \<and> (op_is_admin op \<or> granted (ID op) (ID p) d))))"
proof -
  note r = Route_Inr [OF assms]
  show ?thesis
  proof (cases "\<exists>i. agent_owner (now e) raw d = Some i \<and> routeSiteAgent e i d' = Inr backend")
    case True
    then obtain i where i: "agent_owner (now e) raw d = Some i" "routeSiteAgent e i d' = Inr backend" by blast
    have t: "t_sites d' = t_sites d" "t_projects d' = t_projects d" using r by simp_all
    show ?thesis using routeSiteAgent_Inr [OF i(2)] i(1) unfolding t by (intro disjI1) blast
  next
    case False
    then obtain i adm where s: "session_validate_raw e raw d = Inr (i, adm)"
      "routeOperator e i adm target d = Inr backend"
      using r by blast
    obtain op se where o: "op \<in> set (rows (t_operators d))" "live op" "ID op = i" "op_is_admin op = adm"
      "se \<in> set (rows (t_sessions d))" "live se" "session_active (now e) raw se" "se_operator_id se = i"
      using session_validate_raw_Inr [OF s(1)] by blast
    show ?thesis
      using routeOperator_Inr [OF s(2)] o(1,2,5-8) unfolding o(3,4) [symmetric] by (intro disjI2) blast
  qed
qed

text \<open>
  A member gets through: for a target of the loopback address and the relay port of a service
  on a live site of an active project, an operator who is an administrator or has a grant is
  routed to it, provided no other live service row has that port.
\<close>
theorem route_admits_member:
  assumes "\<forall>s. \<not> fault e s" and "tbl_wf (t_services d)" and "tbl_wf (t_sites d)" and "tbl_wf (t_projects d)"
    and "serves d q p" and "adm \<or> granted i (ID p) d"
    and "\<forall>u\<in>set (rows (t_services d)). \<forall>v\<in>set (rows (t_services d)). live u \<longrightarrow> live v \<longrightarrow>
      sv_relay_port u = Some q \<longrightarrow> sv_relay_port v = Some q \<longrightarrow> ID u = ID v"
  shows "routeOperator e i adm (loopback @ [colon] @ format_uint (unat q)) d =
    Inr (loopback @ [colon] @ format_uint (unat q))"
proof -
  obtain v s where x: "v \<in> set (rows (t_services d))" "s \<in> set (rows (t_sites d))"
    "live v" "sv_relay_port v = Some q" "live s" "ID s = sv_site_id v"
    "p \<in> set (rows (t_projects d))" "live p" "ID p = si_project_id s" "pr_status p = ProjectStatusActive"
    using assms(5) unfolding serves_def by blast
  obtain u where u: "first_live (\<lambda>v. sv_relay_port v = Some q) (t_services d) = Some u"
    using x(1,3,4) first_live_None [of "\<lambda>v. sv_relay_port v = Some q" "t_services d"]
    by (cases "first_live (\<lambda>v. sv_relay_port v = Some q) (t_services d)") auto
  then have u': "u \<in> set (rows (t_services d))" "live u" "sv_relay_port u = Some q"
    using first_live_Some [OF u] by simp_all
  have "ID u = ID v" using assms(7) u' x(1,3,4) by blast
  then have uv: "u = v" by (rule tbl_wf_inj [OF assms(2) u'(1) x(1)])
  have "first_live (\<lambda>s. ID s = sv_site_id v) (t_sites d) = Some s"
    using first_live_ID [OF assms(3) x(2,5)] x(6) by simp
  moreover have "first_live (\<lambda>p. ID p = si_project_id s) (t_projects d) = Some p"
    using first_live_ID [OF assms(4) x(7,8)] x(9) by simp
  moreover have "split_host_port (loopback @ [colon] @ format_uint (unat q)) = Some (loopback, format_uint (unat q))"
    by (rule split_host_port_plain) (simp_all add: loopback_def colon_def format_uint_digits)
  moreover have "adm \<or> first_live (\<lambda>a. ac_operator_id a = i \<and> ac_project_id a = ID p) (t_accesses d) \<noteq> None"
    using assms(6) unfolding granted_iff first_live_None by blast
  ultimately show ?thesis
    using assms(1) u uv x(10) port_unat_less [of q]
    by (simp add: routeOperator_def parse_format_uint)
qed

text \<open>
  A service that outlives its site blocks its port: when the first live service row with a port
  belongs to no live site, every operator is refused for that port, whatever other service holds
  it. DeleteSite with force leaves such rows, and AllocateRelayPort gives their ports out again.
\<close>
theorem orphan_blocks_port:
  assumes "first_live (\<lambda>v. sv_relay_port v = Some q) (t_services d) = Some v"
    and "\<forall>s\<in>set (rows (t_sites d)). ID s = sv_site_id v \<longrightarrow> \<not> live s"
    and "split_host_port target = Some (host, port)" and "parse_uint 16 port = Some (unat q)"
  shows "routeOperator e i adm target d = Inl ErrUnauthenticated"
proof -
  have "first_live (\<lambda>s. ID s = sv_site_id v) (t_sites d) = None"
    unfolding first_live_None using assms(2) by blast
  then show ?thesis using assms(1,3,4) by (simp add: routeOperator_def)
qed

text \<open>A header of the form \<open>Bearer tok\<close>, in any case.\<close>

definition bearer_header :: "string \<Rightarrow> string \<Rightarrow> bool" where
  "bearer_header h tok \<longleftrightarrow> tok \<noteq> [] \<and>
     (\<exists>scheme. h = scheme @ CHR '' '' # tok \<and> map ascii_fold scheme = map ascii_fold ''Bearer'')"

lemma bearerToken_nonempty: "bearerToken h = tok \<Longrightarrow> tok \<noteq> [] \<Longrightarrow> bearer_header h tok"
  by (auto simp: bearerToken_def bearer_header_def split: option.splits prod.splits if_splits
      dest: split_two_Some)

text \<open>
  The proxy dials nothing but loopback ports: whatever a client sends, the address handle
  dials is 127.0.0.1 (or [127.0.0.1]) with a port, and only for a CONNECT request with a Bearer
  token; every other request is answered 405, 401 or 500 (or dropped) without a dial, and nothing
  but agent tokens' last_used_at can change in the database.
\<close>
theorem proxy_dials_loopback_only:
  assumes "handle e req d = ((st, dialled), d')"
  shows "(case dialled of
      None \<Rightarrow> st \<in> {0, 405, 401, 500}
    | Some a \<Rightarrow> st \<in> {200, 502} \<and>
        (\<exists>port. a = loopback @ [colon] @ port \<or> a = ''['' @ loopback @ '']'' @ [colon] @ port) \<and>
        (\<exists>rq tok. req = Some rq \<and> rq_method rq = ''CONNECT'' \<and> bearer_header (rq_authorization rq) tok)) \<and>
    d' = d\<lparr>t_agent_tokens := t_agent_tokens d'\<rparr>"
proof -
  have fr: "d1 = d\<lparr>t_agent_tokens := t_agent_tokens d1\<rparr>" if "Route e raw target d = (r, d1)" for raw target r d1
    using that unfolding Route_def site_token_validate_raw_def touch_agent_token_def
    by (auto split: if_splits sum.splits prod.splits option.splits)
  show ?thesis
  proof (cases dialled)
    case None
    then show ?thesis using assms fr unfolding handle_def
      by (auto split: option.splits if_splits prod.splits sum.splits route_error.splits)
  next
    case (Some a)
    obtain rq where rq: "req = Some rq" "rq_method rq = ''CONNECT''" "st \<in> {200, 502}"
      "Route e (bearerToken (rq_authorization rq)) (rq_host rq) d = (Inr a, d')"
      using assms Some unfolding handle_def
      by (auto split: option.splits if_splits prod.splits sum.splits route_error.splits)
    note r = Route_Inr [OF rq(4)]
    have "\<exists>port. a = loopback @ [colon] @ port \<or> a = ''['' @ loopback @ '']'' @ [colon] @ port"
      using r routeSiteAgent_Inr [of e _ d' a] routeOperator_Inr [of e _ _ "rq_host rq" d a] by blast
    moreover have "bearer_header (rq_authorization rq) (bearerToken (rq_authorization rq))"
      using bearerToken_nonempty [OF refl] r by blast
    ultimately show ?thesis unfolding Some option.case using rq(1-3) fr [OF rq(4)] by blast
  qed
qed

subsection \<open>Witnesses\<close>

lemma ex_route_agent:
  "\<exists>d'. Route ex_env ''agent'' target ex_db = (Inr (loopback @ [colon] @ format_uint 7000), d')"
  by (simp add: Route_def site_token_validate_raw_def agent_token_lookup_def first_live_def not_expired_def
      routeSiteAgent_def frame_simps)

text \<open>The example agent is routed to its project's control port.\<close>

theorem route_authorised_witness:
  "\<exists>d'. Route ex_env ''agent'' [] ex_db = (Inr (loopback @ [colon] @ format_uint 7000), d') \<and>
     (\<exists>p\<in>set (rows (t_projects ex_db)). pr_status p = ProjectStatusActive)"
proof -
  obtain d' where r: "Route ex_env ''agent'' [] ex_db = (Inr (loopback @ [colon] @ format_uint 7000), d')"
    using ex_route_agent by blast
  then show ?thesis using route_authorised [OF r] by auto
qed

theorem route_admits_member_witness:
  "routeOperator ex_env 1 True (loopback @ [colon] @ format_uint 7001) ex_db =
     Inr (loopback @ [colon] @ format_uint 7001)"
proof -
  have "serves ex_db 7001 ex_project" by (simp add: serves_def)
  from route_admits_member [of ex_env, OF _ _ _ _ this, of True 1] show ?thesis
    by (simp add: tbl_wf_def)
qed

text \<open>
  The example after DeleteSite with force: the site's row is deleted, its service's is not; a new
  site has a service that was given the same port, free in the eyes of the allocator.
\<close>

definition ex_orphan_db :: db where
  "ex_orphan_db = ex_db\<lparr>
     t_sites := \<lparr>rows = [ex_site\<lparr>DeletedAt := Some 20\<rparr>, ex_site\<lparr>ID := 2\<rparr>], seq = 2\<rparr>,
     t_services := \<lparr>rows = [ex_service, ex_service\<lparr>ID := 2, sv_site_id := 2\<rparr>], seq = 2\<rparr>\<rparr>"

theorem orphan_blocks_port_witness:
  "routeOperator ex_env 1 True (loopback @ [colon] @ format_uint 7001) ex_orphan_db = Inl ErrUnauthenticated \<and>
   serves ex_orphan_db 7001 ex_project"
proof
  have "split_host_port (loopback @ [colon] @ format_uint 7001) = Some (loopback, format_uint 7001)"
    by (rule split_host_port_plain) (simp_all add: loopback_def colon_def format_uint_digits)
  moreover have "first_live (\<lambda>v. sv_relay_port v = Some 7001) (t_services ex_orphan_db) = Some ex_service"
    by (simp add: ex_orphan_db_def first_live_def)
  moreover have "\<forall>s\<in>set (rows (t_sites ex_orphan_db)). ID s = sv_site_id ex_service \<longrightarrow> \<not> live s"
    by (simp add: ex_orphan_db_def live_def)
  ultimately show "routeOperator ex_env 1 True (loopback @ [colon] @ format_uint 7001) ex_orphan_db =
      Inl ErrUnauthenticated"
    using orphan_blocks_port [of 7001 ex_orphan_db ex_service] by (simp add: parse_format_uint)
  show "serves ex_orphan_db 7001 ex_project"
    by (simp add: serves_def ex_orphan_db_def live_def ex_service_def ex_site_def ex_project_def)
qed

theorem proxy_dials_loopback_only_witness:
  "\<exists>a d'. handle ex_env (Some \<lparr>rq_method = ''CONNECT'', rq_authorization = ''bearer agent'', rq_host = ''x:1''\<rparr>) ex_db =
     ((200, Some a), d') \<and> (\<exists>port. a = loopback @ [colon] @ port \<or> a = ''['' @ loopback @ '']'' @ [colon] @ port)"
proof -
  have b: "bearerToken ''bearer agent'' = ''agent''" by (simp add: bearerToken_def ascii_fold_def lower_byte_def)
  obtain d' where h: "handle ex_env (Some \<lparr>rq_method = ''CONNECT'', rq_authorization = ''bearer agent'',
      rq_host = ''x:1''\<rparr>) ex_db = ((200, Some (loopback @ [colon] @ format_uint 7000)), d')"
    using ex_route_agent [of "''x:1''"] by (auto simp: handle_def b)
  then show ?thesis using proxy_dials_loopback_only [OF h] by auto
qed

end
