(* ===== verification/Server.thy ===== *)
theory Server
  imports AdminService AgentService OperatorService ServiceService Sweeper Relay Router
begin

section \<open>The server (internal/server)\<close>

text \<open>
  The control plane as one machine. \<open>request\<close> and \<open>response\<close> have a constructor per RPC and per
  kind of answer, \<open>method_of\<close> the full method name gRPC routes by, \<open>dispatch\<close> the registration of
  the services' handlers, and \<open>serve\<close> a call through the interceptor chain. \<open>server_step\<close> is what
  can change the server's world: a call with any metadata, time and outcome of the environment, a
  tick of the sweeper, a CONNECT at the proxy (which shares the database), or anything the relay
  manager does on its own. The lemmas show what every reachable world has in common.
\<close>

record server_config =
  cfg_relay_addr :: string
  cfg_public_base_url :: string
  cfg_public_grpc_endpoint :: string
  cfg_auth_proxy_public_addr :: string
  cfg_session_ttl :: duration

text \<open>The construction parameters of the services, as New computes them.\<close>

definition session_ttl :: "server_config \<Rightarrow> duration" where
  "session_ttl cfg = (if cfg_session_ttl cfg = 0 then 8 * hour else cfg_session_ttl cfg)"

definition site_service_config :: "server_config \<Rightarrow> site_config" where
  "site_service_config cfg =
     new_site_service (cfg_relay_addr cfg) (cfg_public_base_url cfg) (cfg_public_grpc_endpoint cfg)"

definition agent_service_config :: "server_config \<Rightarrow> agent_config" where
  "agent_service_config cfg =
     \<lparr>ag_relay_host = (case split_host_port (cfg_relay_addr cfg) of
          Some (h, _) \<Rightarrow> h | None \<Rightarrow> cfg_relay_addr cfg),
      ag_auth_proxy_endpoint = cfg_auth_proxy_public_addr cfg\<rparr>"

datatype request =
    LoginRequest string string
  | LogoutRequest
  | WhoAmIRequest
  | GetProjectRequest string
  | ListProjectsRequest int string
  | CreateProjectRequest string "project_pb option"
  | UpdateProjectRequest "project_pb option" "string list option"
  | DeleteProjectRequest string bool
  | GetSiteRequest string
  | ListSitesRequest string int string
  | CreateSiteRequest string string "site_pb option"
  | UpdateSiteRequest "site_pb option" "string list option"
  | RotateSiteAgentTokenRequest string
  | GetSiteInstallCommandRequest string string
  | DeleteSiteRequest string bool
  | GetServiceRequest string
  | ListServicesRequest string int string
  | CreateServiceRequest string string "service_pb option"
  | UpdateServiceRequest "service_pb option" "string list option"
  | DeleteServiceRequest string
  | BootstrapRequest string string string
  | HeartbeatRequest string string string "string list" string
  | ListOperatorsRequest "32 word" string
  | GetOperatorRequest string
  | CreateOperatorRequest "operator_pb option" string
  | UpdateOperatorRequest "operator_pb option" string string
  | DeleteOperatorRequest string
  | ListProjectAccessRequest string
  | GrantProjectAccessRequest string string string
  | RevokeProjectAccessRequest string string
  | CreateServiceAccountTokenRequest string string "64 word"
  | ListServiceAccountTokensRequest string
  | RevokeServiceAccountTokenRequest nat
  | GetSystemStatusRequest
  | ListAuditLogsRequest audit_request

datatype response =
    EmptyResponse
  | LoginR login_response | OperatorR operator_pb | OperatorsR list_operators_response
  | ProjectR project_pb | ProjectsR list_projects_response
  | SiteR site_pb | SitesR list_sites_response | TokenR token_response | InstallR install_response
  | ServiceR service_pb | ServicesR list_services_response
  | BootstrapR bootstrap_response | HeartbeatR heartbeat_response
  | AccessR access_pb | AccessesR "access_pb list"
  | SaTokenR sa_token_pb string | SaTokensR "sa_token_pb list"
  | StatusR system_status | AuditR audit_response

fun service_of :: "request \<Rightarrow> string" where
  "service_of (LoginRequest _ _) = ''AuthService/Login''"
| "service_of LogoutRequest = ''AuthService/Logout''"
| "service_of WhoAmIRequest = ''AuthService/WhoAmI''"
| "service_of (GetProjectRequest _) = ''ProjectService/GetProject''"
| "service_of (ListProjectsRequest _ _) = ''ProjectService/ListProjects''"
| "service_of (CreateProjectRequest _ _) = ''ProjectService/CreateProject''"
| "service_of (UpdateProjectRequest _ _) = ''ProjectService/UpdateProject''"
| "service_of (DeleteProjectRequest _ _) = ''ProjectService/DeleteProject''"
| "service_of (GetSiteRequest _) = ''SiteService/GetSite''"
| "service_of (ListSitesRequest _ _ _) = ''SiteService/ListSites''"
| "service_of (CreateSiteRequest _ _ _) = ''SiteService/CreateSite''"
| "service_of (UpdateSiteRequest _ _) = ''SiteService/UpdateSite''"
| "service_of (RotateSiteAgentTokenRequest _) = ''SiteService/RotateSiteAgentToken''"
| "service_of (GetSiteInstallCommandRequest _ _) = ''SiteService/GetSiteInstallCommand''"
| "service_of (DeleteSiteRequest _ _) = ''SiteService/DeleteSite''"
| "service_of (GetServiceRequest _) = ''ServiceService/GetService''"
| "service_of (ListServicesRequest _ _ _) = ''ServiceService/ListServices''"
| "service_of (CreateServiceRequest _ _ _) = ''ServiceService/CreateService''"
| "service_of (UpdateServiceRequest _ _) = ''ServiceService/UpdateService''"
| "service_of (DeleteServiceRequest _) = ''ServiceService/DeleteService''"
| "service_of (BootstrapRequest _ _ _) = ''AgentService/Bootstrap''"
| "service_of (HeartbeatRequest _ _ _ _ _) = ''AgentService/Heartbeat''"
| "service_of (ListOperatorsRequest _ _) = ''OperatorService/ListOperators''"
| "service_of (GetOperatorRequest _) = ''OperatorService/GetOperator''"
| "service_of (CreateOperatorRequest _ _) = ''OperatorService/CreateOperator''"
| "service_of (UpdateOperatorRequest _ _ _) = ''OperatorService/UpdateOperator''"
| "service_of (DeleteOperatorRequest _) = ''OperatorService/DeleteOperator''"
| "service_of (ListProjectAccessRequest _) = ''OperatorService/ListProjectAccess''"
| "service_of (GrantProjectAccessRequest _ _ _) = ''OperatorService/GrantProjectAccess''"
| "service_of (RevokeProjectAccessRequest _ _) = ''OperatorService/RevokeProjectAccess''"
| "service_of (CreateServiceAccountTokenRequest _ _ _) =
     ''ServiceAccountService/CreateServiceAccountToken''"
| "service_of (ListServiceAccountTokensRequest _) =
     ''ServiceAccountService/ListServiceAccountTokens''"
| "service_of (RevokeServiceAccountTokenRequest _) =
     ''ServiceAccountService/RevokeServiceAccountToken''"
| "service_of GetSystemStatusRequest = ''AdminService/GetSystemStatus''"
| "service_of (ListAuditLogsRequest _) = ''AuditService/ListAuditLogs''"

definition method_of :: "request \<Rightarrow> string" where
  "method_of q = ''/quicktun.v1.'' @ service_of q"

text \<open>An answer of a handler as a response of the server.\<close>

definition reply :: "('a \<Rightarrow> response) \<Rightarrow> 'a rpc \<times> 'r world \<Rightarrow> response rpc \<times> 'r world" where
  "reply f rw = (map_sum id f (fst rw), snd rw)"

fun dispatch ::
  "server_config \<Rightarrow> 'r relay_iface \<Rightarrow> env \<Rightarrow> request \<Rightarrow> ('r, response) handler" where
  "dispatch cfg rm e (LoginRequest em pw) cx w = reply LoginR (login (session_ttl cfg) e em pw cx w)"
| "dispatch cfg rm e LogoutRequest cx w = reply (\<lambda>_. EmptyResponse) (logout e cx w)"
| "dispatch cfg rm e WhoAmIRequest cx w = reply OperatorR (who_am_i cx w)"
| "dispatch cfg rm e (GetProjectRequest n) cx w = reply ProjectR (get_project e n cx w)"
| "dispatch cfg rm e (ListProjectsRequest k tok) cx w = reply ProjectsR (list_projects e k tok cx w)"
| "dispatch cfg rm e (CreateProjectRequest i b) cx w = reply ProjectR (create_project rm e i b cx w)"
| "dispatch cfg rm e (UpdateProjectRequest b mk) cx w = reply ProjectR (update_project rm e b mk cx w)"
| "dispatch cfg rm e (DeleteProjectRequest n f) cx w =
     reply (\<lambda>_. EmptyResponse) (delete_project rm e n f cx w)"
| "dispatch cfg rm e (GetSiteRequest n) cx w = reply SiteR (get_site e n cx w)"
| "dispatch cfg rm e (ListSitesRequest p k tok) cx w = reply SitesR (list_sites e p k tok cx w)"
| "dispatch cfg rm e (CreateSiteRequest p i b) cx w = reply SiteR (create_site rm e p i b cx w)"
| "dispatch cfg rm e (UpdateSiteRequest b mk) cx w = reply SiteR (update_site rm e b mk cx w)"
| "dispatch cfg rm e (RotateSiteAgentTokenRequest n) cx w =
     reply TokenR (rotate_site_agent_token rm e n cx w)"
| "dispatch cfg rm e (GetSiteInstallCommandRequest n os) cx w =
     reply InstallR (get_site_install_command rm (site_service_config cfg) e n os cx w)"
| "dispatch cfg rm e (DeleteSiteRequest n f) cx w =
     reply (\<lambda>_. EmptyResponse) (delete_site rm e n f cx w)"
| "dispatch cfg rm e (GetServiceRequest n) cx w = reply ServiceR (get_service e n cx w)"
| "dispatch cfg rm e (ListServicesRequest p k tok) cx w =
     reply ServicesR (list_services e p k tok cx w)"
| "dispatch cfg rm e (CreateServiceRequest p i b) cx w =
     reply ServiceR (create_service rm e p i b cx w)"
| "dispatch cfg rm e (UpdateServiceRequest b mk) cx w =
     reply ServiceR (update_service rm e b mk cx w)"
| "dispatch cfg rm e (DeleteServiceRequest n) cx w =
     reply (\<lambda>_. EmptyResponse) (delete_service rm e n cx w)"
| "dispatch cfg rm e (BootstrapRequest h os v) cx w =
     reply BootstrapR (bootstrap (agent_service_config cfg) e h os v cx w)"
| "dispatch cfg rm e (HeartbeatRequest h os v cs cv) cx w =
     reply HeartbeatR (heartbeat e h os v cs cv cx w)"
| "dispatch cfg rm e (ListOperatorsRequest k tok) cx w =
     reply OperatorsR (list_operators e k tok cx w)"
| "dispatch cfg rm e (GetOperatorRequest n) cx w = reply OperatorR (get_operator e n cx w)"
| "dispatch cfg rm e (CreateOperatorRequest b pw) cx w =
     reply OperatorR (create_operator e b pw cx w)"
| "dispatch cfg rm e (UpdateOperatorRequest b mk pw) cx w =
     reply OperatorR (update_operator e b mk pw cx w)"
| "dispatch cfg rm e (DeleteOperatorRequest n) cx w =
     reply (\<lambda>_. EmptyResponse) (delete_operator e n cx w)"
| "dispatch cfg rm e (ListProjectAccessRequest n) cx w =
     reply AccessesR (list_project_access e n cx w)"
| "dispatch cfg rm e (GrantProjectAccessRequest n s r) cx w =
     reply AccessR (grant_project_access e n s r cx w)"
| "dispatch cfg rm e (RevokeProjectAccessRequest n s) cx w =
     reply (\<lambda>_. EmptyResponse) (revoke_project_access e n s cx w)"
| "dispatch cfg rm e (CreateServiceAccountTokenRequest n desc ttl) cx w =
     reply (\<lambda>(t, raw). SaTokenR t raw) (create_sa_token e n desc ttl cx w)"
| "dispatch cfg rm e (ListServiceAccountTokensRequest n) cx w =
     reply SaTokensR (list_sa_tokens e n cx w)"
| "dispatch cfg rm e (RevokeServiceAccountTokenRequest i) cx w =
     reply (\<lambda>_. EmptyResponse) (revoke_sa_token e i cx w)"
| "dispatch cfg rm e GetSystemStatusRequest cx w = reply StatusR (get_system_status rm e cx w)"
| "dispatch cfg rm e (ListAuditLogsRequest a) cx w = reply AuditR (list_audit_logs e a cx w)"

text \<open>A call off the wire: peer address, metadata, request.\<close>

definition serve ::
  "server_config \<Rightarrow> 'r relay_iface \<Rightarrow> env \<Rightarrow> string option \<Rightarrow> metadata option \<Rightarrow> request \<Rightarrow>
   'r world \<Rightarrow> response rpc \<times> 'r world" where
  "serve cfg rm e peer md q w =
     server_chain peer e (method_of q) (dispatch cfg rm e q) (raw_ctx md) w"

inductive server_step ::
  "server_config \<Rightarrow> 'r relay_iface \<Rightarrow> sweeper_config \<Rightarrow> 'r world \<Rightarrow> 'r world \<Rightarrow> bool"
  for cfg rm sw where
  rpc: "serve cfg rm e peer md q w = (res, w') \<Longrightarrow> server_step cfg rm sw w w'"
| tick: "sweeper_tick sw e (wdb w) = (res, d) \<Longrightarrow> server_step cfg rm sw w (w\<lparr>wdb := d\<rparr>)"
| connect: "handle e req (wdb w) = (out, d) \<Longrightarrow> server_step cfg rm sw w (w\<lparr>wdb := d\<rparr>)"
| relay: "server_step cfg rm sw w (w\<lparr>wrelay := r\<rparr>)"

inductive_cases server_stepE: "server_step cfg rm sw w w'"

inductive reachable ::
  "server_config \<Rightarrow> 'r relay_iface \<Rightarrow> sweeper_config \<Rightarrow> 'r world \<Rightarrow> 'r world \<Rightarrow> bool"
  for cfg rm sw w0 where
  start: "reachable cfg rm sw w0 w0"
| step: "reachable cfg rm sw w0 w \<Longrightarrow> server_step cfg rm sw w w' \<Longrightarrow> reachable cfg rm sw w0 w'"

end
