(* ===== verification/System.thy ===== *)
theory System
  imports Server
begin

section \<open>Invariants of the whole server\<close>

text \<open>
  What every handler keeps, put together over the requests: \<open>server_ok\<close>, the invariant of the
  database (indexes, disjoint port ranges, one service per relay port, an administrator), and
  \<open>config_same\<close>, that nothing an administrator configures has changed. The properties that rest on
  these lemmas are in the root theory.
\<close>

definition server_ok :: "db \<Rightarrow> bool" where
  "server_ok d \<longleftrightarrow> net_ok d \<and> admins_ok d"

subsection \<open>What counts as configuration\<close>

text \<open>
  Everything but sessions, the audit log, a site's agent-reported columns and the last-used times:
  operators, projects, grants, services, which sites there are, and which tokens are good.
\<close>

definition site_ident :: "site_row \<Rightarrow> nat \<times> time option \<times> nat \<times> string \<times> string \<times> string" where
  "site_ident s = (ID s, DeletedAt s, si_project_id s, si_name s, si_mode s, si_backend s)"

definition agent_ident :: "agent_token_row \<Rightarrow> nat \<times> time option \<times> nat \<times> string \<times> time option" where
  "agent_ident t = (ID t, DeletedAt t, at_site_id t, at_token_hash t, at_expires_at t)"

definition sa_ident ::
  "sa_token_row \<Rightarrow> nat \<times> time option \<times> nat \<times> string \<times> time option \<times> time option" where
  "sa_ident t = (ID t, DeletedAt t, sa_operator_id t, sa_token_hash t, sa_expires_at t, sa_revoked_at t)"

definition config_same :: "db \<Rightarrow> db \<Rightarrow> bool" where
  "config_same d d' \<longleftrightarrow>
     t_operators d' = t_operators d \<and> t_projects d' = t_projects d \<and> t_accesses d' = t_accesses d \<and>
     t_services d' = t_services d \<and>
     map site_ident (rows (t_sites d')) = map site_ident (rows (t_sites d)) \<and>
     map agent_ident (rows (t_agent_tokens d')) = map agent_ident (rows (t_agent_tokens d)) \<and>
     map sa_ident (rows (t_sa_tokens d')) = map sa_ident (rows (t_sa_tokens d))"

lemma config_same_refl [simp]: "config_same d d"
  by (simp add: config_same_def)

lemma config_same_trans [trans]: "config_same d d1 \<Longrightarrow> config_same d1 d2 \<Longrightarrow> config_same d d2"
  by (simp add: config_same_def)

lemma config_same_audited [simp]: "config_same d (audited e cx en d') = config_same d d'"
  by (simp add: config_same_def frame_simps)

lemma map_ident_update:
  "(\<And>r. f (g r) = f r) \<Longrightarrow> map f (rows (update_live P g t)) = map f (rows t)"
  by (auto simp: update_live_simps)

lemma config_same_touches:
  "config_same d (touch_sa_token e i d)" "config_same d (touch_agent_token e i d)"
  "config_same d (touch_agent_used e i d)"
  by (simp_all add: config_same_def touch_sa_token_def touch_agent_token_def touch_agent_used_def
      map_ident_update sa_ident_def agent_ident_def)

lemma config_same_site_update:
  assumes "\<And>s. site_ident (g s) = site_ident s"
  shows "config_same d (d\<lparr>t_sites := update_live P g (t_sites d)\<rparr>)"
  using assms by (simp add: config_same_def map_ident_update)

lemma config_same_agent_meta:
  "site_update_agent_meta e i h os v cs d = (r, d') \<Longrightarrow> config_same d d'"
  by (auto simp: site_update_agent_meta_def set_agent_meta_def site_ident_def split: if_splits
      intro!: config_same_site_update)

lemma config_same_set_online: "config_same d (set_online e i d)"
  by (auto simp: set_online_db site_ident_def intro!: config_same_site_update)

lemma config_same_tick: "config_same d (snd (sweeper_tick cfg e d))"
  by (auto simp: sweeper_tick_db flip_offline_def site_ident_def intro!: config_same_site_update)

lemma config_same_handle: "handle e req d = (out, d') \<Longrightarrow> config_same d d'"
  unfolding handle_def Route_def site_token_validate_raw_def
  by (auto split: option.splits if_splits prod.splits sum.splits route_error.splits
      intro: config_same_touches)

lemma config_same_sa_touched: "sa_touched e d d' \<Longrightarrow> config_same d d'"
  by (auto simp: sa_touched_def config_same_touches)

subsection \<open>Handlers that only read\<close>

lemma read_handlers_same:
  "get_project e n cx w = (r1, w') \<Longrightarrow> w' = w"
  "list_projects e k tok cx w = (r2, w') \<Longrightarrow> w' = w"
  "get_site e n cx w = (r3, w') \<Longrightarrow> w' = w"
  "list_sites e p k tok cx w = (r4, w') \<Longrightarrow> w' = w"
  "get_service e n cx w = (r5, w') \<Longrightarrow> w' = w"
  "list_services e p k tok cx w = (r6, w') \<Longrightarrow> w' = w"
  "who_am_i cx w = (r7, w') \<Longrightarrow> w' = w"
  "list_operators e k32 tok cx w = (r8, w') \<Longrightarrow> w' = w"
  "get_operator e n cx w = (r9, w') \<Longrightarrow> w' = w"
  "list_project_access e n cx w = (r10, w') \<Longrightarrow> w' = w"
  "list_sa_tokens e n cx w = (r11, w') \<Longrightarrow> w' = w"
  "get_system_status rm e cx w = (r12, w') \<Longrightarrow> w' = w"
  "list_audit_logs e a cx w = (r13, w') \<Longrightarrow> w' = w"
  unfolding get_project_def list_projects_def get_site_def list_sites_def get_service_def
    list_services_def who_am_i_def list_operators_def get_operator_def list_project_access_def
    list_sa_tokens_def get_system_status_def list_audit_logs_def
  by (auto simp: Let_def split: option.splits sum.splits if_splits prod.splits)

subsection \<open>Every handler keeps the invariant\<close>

text \<open>The part of the database \<open>net_ok\<close> reads beside the tables' own invariant.\<close>

definition net_same :: "db \<Rightarrow> db \<Rightarrow> bool" where
  "net_same d d' \<longleftrightarrow> t_projects d' = t_projects d \<and> t_sites d' = t_sites d \<and> t_services d' = t_services d"

lemma net_same_refl [simp]: "net_same d d"
  by (simp add: net_same_def)

lemma net_same_trans [trans]: "net_same d d1 \<Longrightarrow> net_same d1 d2 \<Longrightarrow> net_same d d2"
  by (simp add: net_same_def)

lemma net_same_audited [simp]: "net_same d (audited e cx en d') = net_same d d'"
  by (simp add: net_same_def frame_simps)

lemma net_ok_same: "net_ok d \<Longrightarrow> net_same d d' \<Longrightarrow> db_wf d' \<Longrightarrow> net_ok d'"
  using ports_ok_frame [of d d'] projects_ok_frame [of d' d] by (simp add: net_ok_def net_same_def)

lemma dao_net_same:
  "session_issue e i ttl ua ip d = (r1, d') \<Longrightarrow> net_same d d'"
  "session_revoke_by_token e raw d = (r2, d') \<Longrightarrow> net_same d d'"
  "sa_token_issue e i desc ttl d = (r3, d') \<Longrightarrow> net_same d d'"
  "sa_token_revoke e i d = (r2, d') \<Longrightarrow> net_same d d'"
  "access_grant e i p role d = (r4, d') \<Longrightarrow> net_same d d'"
  "access_revoke e i p d = (r2, d') \<Longrightarrow> net_same d d'"
  "operator_create e em h a d = (r5, d') \<Longrightarrow> net_same d d'"
  "operator_delete e i d = (r2, d') \<Longrightarrow> net_same d d'"
  "operator_update_is_admin e i a d = (r2, d') \<Longrightarrow> net_same d d'"
  "operator_update_password e i h d = (r2, d') \<Longrightarrow> net_same d d'"
  unfolding net_same_def session_issue_def session_revoke_by_token_def sa_token_issue_def
    sa_token_revoke_def access_grant_def access_revoke_def operator_create_def operator_delete_def
    operator_update_is_admin_def operator_update_password_def
  by (auto simp: Let_def split: sum.splits option.splits prod.splits if_splits)

lemma dao_operators_same:
  "session_issue e i ttl ua ip d = (r1, d') \<Longrightarrow> t_operators d' = t_operators d"
  "session_revoke_by_token e raw d = (r2, d') \<Longrightarrow> t_operators d' = t_operators d"
  "sa_token_issue e i desc ttl d = (r3, d') \<Longrightarrow> t_operators d' = t_operators d"
  "sa_token_revoke e i d = (r2, d') \<Longrightarrow> t_operators d' = t_operators d"
  "access_grant e i p role d = (r4, d') \<Longrightarrow> t_operators d' = t_operators d"
  "access_revoke e i p d = (r2, d') \<Longrightarrow> t_operators d' = t_operators d"
  "project_create e pr d = (r6, d') \<Longrightarrow> t_operators d' = t_operators d"
  "project_update e pr d = (r2, d') \<Longrightarrow> t_operators d' = t_operators d"
  "project_delete e i d = (r2, d') \<Longrightarrow> t_operators d' = t_operators d"
  "site_create e si d = (r7, d') \<Longrightarrow> t_operators d' = t_operators d"
  "site_update e si d = (r2, d') \<Longrightarrow> t_operators d' = t_operators d"
  "site_delete e i d = (r2, d') \<Longrightarrow> t_operators d' = t_operators d"
  "site_token_issue e i ttl d = (r8, d') \<Longrightarrow> t_operators d' = t_operators d"
  "site_update_agent_meta e i hn os v cs d = (r2, d') \<Longrightarrow> t_operators d' = t_operators d"
  "service_create e sv d = (r9, d') \<Longrightarrow> t_operators d' = t_operators d"
  "service_update e sv d = (r2, d') \<Longrightarrow> t_operators d' = t_operators d"
  "service_delete e i d = (r2, d') \<Longrightarrow> t_operators d' = t_operators d"
  unfolding session_issue_def session_revoke_by_token_def sa_token_issue_def
    sa_token_revoke_def access_grant_def access_revoke_def project_create_def project_update_def
    project_delete_def site_create_def site_update_def site_delete_def site_token_issue_def
    site_update_agent_meta_def service_create_def service_update_def service_delete_def
  by (auto simp: Let_def split: sum.splits option.splits prod.splits if_splits)

lemma access_grant_wf:
  assumes "db_wf d" "access_grant e i p role d = (r, d')"
  shows "db_wf d'"
proof (cases "first_live (\<lambda>a. ac_operator_id a = i \<and> ac_project_id a = p) (t_accesses d)")
  case None
  show ?thesis
    using assms None unfolding access_grant_def
    by (auto simp: Let_def tbl_append_def stamp_new_def or_default_def split: if_splits
        intro!: db_wf_set_table(3) tbl_wf_snoc [OF db_wfD(4)] uniq_live_snoc [OF db_wfD(13) _ _ db_wfD(4)])
next
  case (Some a)
  let ?k = "\<lambda>r. (ac_operator_id r, ac_project_id r)"
  let ?a = "(touch (now e) a)\<lparr>ac_role := role\<rparr>"
  have a: "a \<in> set (rows (t_accesses d))" "live a" using first_live_Some [OF Some] by simp_all
  have ex: "\<exists>x\<in>set (rows (t_accesses d)). ID x = ID ?a" using a(1) by auto
  have "\<not> conflicts ?k (?k ?a) (ID ?a) (t_accesses d)"
    using db_wfD(13) [OF assms(1)] a unfolding conflicts_def uniq_live_def by fastforce
  then have "db_wf (d\<lparr>t_accesses := tbl_save ?a (t_accesses d)\<rparr>)"
    by (intro db_wf_set_table(3) [OF assms(1)] tbl_wf_save [OF db_wfD(4) [OF assms(1)] ex]
        uniq_live_save [OF db_wfD(13) [OF assms(1)] _ ex])
  then show ?thesis
    using assms Some unfolding access_grant_def by (auto simp: Let_def split: if_splits)
qed

lemma access_revoke_wf:
  assumes "db_wf d" "access_revoke e i p d = (r, d')"
  shows "db_wf d'"
  using assms unfolding access_revoke_def
  by (auto split: if_splits intro!: db_wf_set_table(3) tbl_wf_delete uniq_live_delete db_wfD)

lemma sa_token_revoke_wf:
  assumes "db_wf d" "sa_token_revoke e i d = (r, d')"
  shows "db_wf d'"
  using assms unfolding sa_token_revoke_def
  by (auto split: if_splits intro!: db_wf_set_table(6) tbl_wf_update uniq_live_update db_wfD)

lemma operator_create_wf:
  assumes "db_wf d" "operator_create e em h a d = (r, d')"
  shows "db_wf d'"
  using assms unfolding operator_create_def
  by (auto simp: Let_def tbl_append_def stamp_new_def split: if_splits
      intro!: db_wf_set_table(1) tbl_wf_snoc [OF db_wfD(1)] uniq_live_snoc [OF db_wfD(10) _ _ db_wfD(1)])

lemma audit_w_db [simp]: "wdb (audit_w e cx en w) = audited e cx en (wdb w)"
  by (simp add: audit_w_def)

text \<open>What the handlers of sessions, grants and tokens leave alone.\<close>

definition neutral :: "db \<Rightarrow> db \<Rightarrow> bool" where
  "neutral d d' \<longleftrightarrow>
     (db_wf d \<longrightarrow> db_wf d') \<and> net_same d d' \<and> t_operators d' = t_operators d"

lemma neutral_refl [simp]: "neutral d d"
  by (simp add: neutral_def)

lemma neutral_audited [simp]: "neutral d d' \<Longrightarrow> neutral d (audited e cx en d')"
  by (simp add: neutral_def frame_simps audited_db_wf)

lemma dao_neutral:
  "session_issue e i ttl ua ip d = (r1, d') \<Longrightarrow> neutral d d'"
  "session_revoke_by_token e raw d = (r2, d') \<Longrightarrow> neutral d d'"
  "sa_token_issue e i desc ttl d = (r3, d') \<Longrightarrow> neutral d d'"
  "sa_token_revoke e i d = (r2, d') \<Longrightarrow> neutral d d'"
  "access_grant e i p role d = (r4, d') \<Longrightarrow> neutral d d'"
  "access_revoke e i p d = (r2, d') \<Longrightarrow> neutral d d'"
proof -
  show "session_issue e i ttl ua ip d = (r1, d') \<Longrightarrow> neutral d d'"
    using session_issue_wf [of d e i ttl ua ip] by (simp add: neutral_def dao_net_same dao_operators_same)
  show "session_revoke_by_token e raw d = (r2, d') \<Longrightarrow> neutral d d'"
    using session_revoke_by_token_wf [of d e raw]
    by (simp add: neutral_def dao_net_same dao_operators_same)
  show "sa_token_issue e i desc ttl d = (r3, d') \<Longrightarrow> neutral d d'"
    using sa_token_issue_wf [of d e i desc ttl]
    by (simp add: neutral_def dao_net_same dao_operators_same)
  show "sa_token_revoke e i d = (r2, d') \<Longrightarrow> neutral d d'"
    using sa_token_revoke_wf [of d e i]
    by (simp add: neutral_def dao_net_same dao_operators_same)
  show "access_grant e i p role d = (r4, d') \<Longrightarrow> neutral d d'"
    using access_grant_wf [of d e i p role]
    by (simp add: neutral_def dao_net_same dao_operators_same)
  show "access_revoke e i p d = (r2, d') \<Longrightarrow> neutral d d'"
    using access_revoke_wf [of d e i p]
    by (simp add: neutral_def dao_net_same dao_operators_same)
qed

lemma neutral_handlers:
  "login ttl e em pw cx w = (r1, w') \<Longrightarrow> neutral (wdb w) (wdb w')"
  "logout e cx w = (r2, w') \<Longrightarrow> neutral (wdb w) (wdb w')"
  "grant_project_access e on s ro cx w = (r3, w') \<Longrightarrow> neutral (wdb w) (wdb w')"
  "revoke_project_access e on s cx w = (r2, w') \<Longrightarrow> neutral (wdb w) (wdb w')"
  "create_sa_token e on desc tt cx w = (r4, w') \<Longrightarrow> neutral (wdb w) (wdb w')"
  "revoke_sa_token e i cx w = (r2, w') \<Longrightarrow> neutral (wdb w) (wdb w')"
  unfolding login_def logout_def grant_project_access_def revoke_project_access_def
    create_sa_token_def revoke_sa_token_def
  by (auto simp: Let_def dao_neutral split: sum.splits option.splits prod.splits if_splits)

lemma operator_steps_net_same:
  "set_is_admin e cx caller target adm w = (r, w') \<Longrightarrow> net_same (wdb w) (wdb w')"
  "set_password e cx target pw w = (r, w') \<Longrightarrow> net_same (wdb w) (wdb w')"
  unfolding set_is_admin_def set_password_def
  by (auto simp: Let_def dao_net_same split: sum.splits option.splits prod.splits if_splits)

lemma operator_handlers_net_same:
  "create_operator e body pw cx w = (r1, w') \<Longrightarrow> net_same (wdb w) (wdb w')"
  "delete_operator e n cx w = (r2, w') \<Longrightarrow> net_same (wdb w) (wdb w')"
  "update_operator e body um pw cx w = (r1, w') \<Longrightarrow> net_same (wdb w) (wdb w')"
proof -
  show "create_operator e body pw cx w = (r1, w') \<Longrightarrow> net_same (wdb w) (wdb w')"
    unfolding create_operator_def
    by (auto simp: Let_def dao_net_same split: sum.splits option.splits prod.splits if_splits)
  show "delete_operator e n cx w = (r2, w') \<Longrightarrow> net_same (wdb w) (wdb w')"
    unfolding delete_operator_def
    by (auto simp: Let_def dao_net_same split: sum.splits option.splits prod.splits if_splits)
  assume "update_operator e body um pw cx w = (r1, w')"
  from update_operator_cases [OF this] consider "w' = w" | caller target target' w1 r1' adm where
    "w1 = w \<or> set_is_admin e cx caller target adm w = (r1', w1)"
    "w' = w1 \<or> (\<exists>r2. set_password e cx target' pw w1 = (r2, w'))"
    by blast
  then show "net_same (wdb w) (wdb w')"
  proof cases
    case 1
    then show ?thesis by simp
  next
    case 2
    have "net_same (wdb w) (wdb w1)" using 2(1) operator_steps_net_same(1) by fastforce
    moreover have "net_same (wdb w1) (wdb w')" using 2(2) operator_steps_net_same(2) by fastforce
    ultimately show ?thesis by (rule net_same_trans)
  qed
qed

lemma network_handlers_operators:
  "create_project rm e i b cx w = (r1, w') \<Longrightarrow> t_operators (wdb w') = t_operators (wdb w)"
  "update_project rm e b mk cx w = (r1, w') \<Longrightarrow> t_operators (wdb w') = t_operators (wdb w)"
  "delete_project rm e n f cx w = (r2, w') \<Longrightarrow> t_operators (wdb w') = t_operators (wdb w)"
  by (drule create_project_frame update_project_frame delete_project_frame,
      simp add: only_projects_def)+

lemma site_handlers_operators:
  "create_site rm e p i sb cx w = (r1, w') \<Longrightarrow> t_operators (wdb w') = t_operators (wdb w)"
  "update_site rm e sb mk cx w = (r1, w') \<Longrightarrow> t_operators (wdb w') = t_operators (wdb w)"
  "rotate_site_agent_token rm e n cx w = (r2, w') \<Longrightarrow> t_operators (wdb w') = t_operators (wdb w)"
  "get_site_install_command rm cfg e n os cx w = (r3, w') \<Longrightarrow> t_operators (wdb w') = t_operators (wdb w)"
  "delete_site rm e n f cx w = (r4, w') \<Longrightarrow> t_operators (wdb w') = t_operators (wdb w)"
  unfolding create_site_def update_site_def rotate_site_agent_token_def get_site_install_command_def
    delete_site_def
  by (auto simp: Let_def frame_simps dao_operators_same
      split: sum.splits option.splits prod.splits if_splits)

lemma service_handlers_operators:
  "create_service rm e p i sb cx w = (r1, w') \<Longrightarrow> t_operators (wdb w') = t_operators (wdb w)"
  "update_service rm e sb mk cx w = (r1, w') \<Longrightarrow> t_operators (wdb w') = t_operators (wdb w)"
  "delete_service rm e n cx w = (r4, w') \<Longrightarrow> t_operators (wdb w') = t_operators (wdb w)"
  unfolding create_service_def update_service_def delete_service_def
  by (auto simp: Let_def frame_simps dao_operators_same
      split: sum.splits option.splits prod.splits if_splits)

lemma server_okD: "server_ok d \<Longrightarrow> net_ok d" "server_ok d \<Longrightarrow> admins_ok d" "server_ok d \<Longrightarrow> db_wf d"
  by (simp_all add: server_ok_def net_ok_def)

lemma server_ok_neutral: "server_ok d \<Longrightarrow> neutral d d' \<Longrightarrow> server_ok d'"
  using net_ok_same [of d d'] admins_ok_frame [of d' d] net_okD(1) [of d]
  by (simp add: server_ok_def neutral_def)

lemma server_ok_operators: "admins_ok d \<Longrightarrow> t_operators d' = t_operators d \<Longrightarrow> net_ok d' \<Longrightarrow> server_ok d'"
  using admins_ok_frame by (simp add: server_ok_def)

lemma server_ok_admins: "net_ok d \<Longrightarrow> net_same d d' \<Longrightarrow> db_wf d' \<and> admins_ok d' \<Longrightarrow> server_ok d'"
  using net_ok_same by (simp add: server_ok_def)

lemma reply_eq: "reply f x = (r, w') \<Longrightarrow> \<exists>r0. x = (r0, w') \<and> r = map_sum id f r0"
  by (cases x) (simp add: reply_def)

lemma agent_handlers_operators:
  "bootstrap cfg e h os v cx w = (r1, w') \<Longrightarrow> t_operators (wdb w') = t_operators (wdb w)"
  "heartbeat e h os v cs cv cx w = (r2, w') \<Longrightarrow> t_operators (wdb w') = t_operators (wdb w)"
proof -
  show "t_operators (wdb w') = t_operators (wdb w)" if "bootstrap cfg e h os v cx w = (r1, w')"
    by (subst agent_handlers_frame(1) [OF that]) simp
  show "t_operators (wdb w') = t_operators (wdb w)" if "heartbeat e h os v cs cv cx w = (r2, w')"
    by (subst agent_handlers_frame(2) [OF that]) simp
qed

subsubsection \<open>The handlers, by service\<close>

lemma session_requests_keep:
  assumes "server_ok (wdb w)"
  shows "login ttl e em pw cx w = (r1, w') \<Longrightarrow> server_ok (wdb w')"
    and "logout e cx w = (r2, w') \<Longrightarrow> server_ok (wdb w')"
    and "grant_project_access e on s ro cx w = (r3, w') \<Longrightarrow> server_ok (wdb w')"
    and "revoke_project_access e on s cx w = (r2, w') \<Longrightarrow> server_ok (wdb w')"
    and "create_sa_token e on desc tt cx w = (r4, w') \<Longrightarrow> server_ok (wdb w')"
    and "revoke_sa_token e i cx w = (r2, w') \<Longrightarrow> server_ok (wdb w')"
  by (erule server_ok_neutral [OF assms neutral_handlers(1)] server_ok_neutral [OF assms neutral_handlers(2)]
      server_ok_neutral [OF assms neutral_handlers(3)] server_ok_neutral [OF assms neutral_handlers(4)]
      server_ok_neutral [OF assms neutral_handlers(5)] server_ok_neutral [OF assms neutral_handlers(6)])+

lemma operator_requests_keep:
  assumes "server_ok (wdb w)"
  shows "create_operator e body pw cx w = (r1, w') \<Longrightarrow> server_ok (wdb w')"
    and "update_operator e body um pw cx w = (r1, w') \<Longrightarrow> server_ok (wdb w')"
    and "delete_operator e n cx w = (r2, w') \<Longrightarrow> server_ok (wdb w')"
proof -
  note k = server_ok_admins [OF server_okD(1) [OF assms]]
    and wa = server_okD(3) [OF assms] server_okD(2) [OF assms]
  show "create_operator e body pw cx w = (r1, w') \<Longrightarrow> server_ok (wdb w')"
    by (rule k [OF operator_handlers_net_same(1) create_operator_keeps [OF wa]])
  show "update_operator e body um pw cx w = (r1, w') \<Longrightarrow> server_ok (wdb w')"
    by (rule k [OF operator_handlers_net_same(3) update_operator_keeps [OF wa]])
  show "delete_operator e n cx w = (r2, w') \<Longrightarrow> server_ok (wdb w')"
    by (rule k [OF operator_handlers_net_same(2) delete_operator_keeps [OF wa]])
qed

lemma project_requests_keep:
  assumes "server_ok (wdb w)"
  shows "create_project rm e i b cx w = (r1, w') \<Longrightarrow> server_ok (wdb w')"
    and "update_project rm e b mk cx w = (r1, w') \<Longrightarrow> server_ok (wdb w')"
    and "delete_project rm e n f cx w = (r2, w') \<Longrightarrow> server_ok (wdb w')"
    and "create_service rm e p i vb cx w = (r3, w') \<Longrightarrow> server_ok (wdb w')"
    and "update_service rm e vb mk cx w = (r3, w') \<Longrightarrow> server_ok (wdb w')"
    and "delete_service rm e n cx w = (r2, w') \<Longrightarrow> server_ok (wdb w')"
proof -
  note k = server_ok_operators [OF server_okD(2) [OF assms]] and n = server_okD(1) [OF assms]
  show "create_project rm e i b cx w = (r1, w') \<Longrightarrow> server_ok (wdb w')"
    by (rule k [OF network_handlers_operators(1) project_handlers_keep(1) [OF n]])
  show "update_project rm e b mk cx w = (r1, w') \<Longrightarrow> server_ok (wdb w')"
    by (rule k [OF network_handlers_operators(2) project_handlers_keep(2) [OF n]])
  show "delete_project rm e n f cx w = (r2, w') \<Longrightarrow> server_ok (wdb w')"
    by (rule k [OF network_handlers_operators(3) project_handlers_keep(3) [OF n]])
  show "create_service rm e p i vb cx w = (r3, w') \<Longrightarrow> server_ok (wdb w')"
    by (rule k [OF service_handlers_operators(1) service_handlers_keep(1) [OF n]])
  show "update_service rm e vb mk cx w = (r3, w') \<Longrightarrow> server_ok (wdb w')"
    by (rule k [OF service_handlers_operators(2) service_handlers_keep(2) [OF n]])
  show "delete_service rm e n cx w = (r2, w') \<Longrightarrow> server_ok (wdb w')"
    by (rule k [OF service_handlers_operators(3) service_handlers_keep(3) [OF n]])
qed

lemma site_requests_keep:
  assumes "server_ok (wdb w)"
  shows "create_site rm e p i sb cx w = (r1, w') \<Longrightarrow> server_ok (wdb w')"
    and "update_site rm e sb mk cx w = (r1, w') \<Longrightarrow> server_ok (wdb w')"
    and "rotate_site_agent_token rm e n cx w = (r2, w') \<Longrightarrow> server_ok (wdb w')"
    and "get_site_install_command rm cfg e n os cx w = (r3, w') \<Longrightarrow> server_ok (wdb w')"
    and "delete_site rm e n f cx w = (r4, w') \<Longrightarrow> server_ok (wdb w')"
    and "bootstrap acfg e h os v cx w = (r5, w') \<Longrightarrow> server_ok (wdb w')"
    and "heartbeat e h os v cs cv cx w = (r6, w') \<Longrightarrow> server_ok (wdb w')"
proof -
  note k = server_ok_operators [OF server_okD(2) [OF assms]] and n = server_okD(1) [OF assms]
  show "create_site rm e p i sb cx w = (r1, w') \<Longrightarrow> server_ok (wdb w')"
    by (rule k [OF site_handlers_operators(1) site_handlers_keep(1) [OF n]])
  show "update_site rm e sb mk cx w = (r1, w') \<Longrightarrow> server_ok (wdb w')"
    by (rule k [OF site_handlers_operators(2) site_handlers_keep(2) [OF n]])
  show "rotate_site_agent_token rm e n cx w = (r2, w') \<Longrightarrow> server_ok (wdb w')"
    by (rule k [OF site_handlers_operators(3) site_handlers_keep(3) [OF n]])
  show "get_site_install_command rm cfg e n os cx w = (r3, w') \<Longrightarrow> server_ok (wdb w')"
    by (rule k [OF site_handlers_operators(4) site_handlers_keep(4) [OF n]])
  show "delete_site rm e n f cx w = (r4, w') \<Longrightarrow> server_ok (wdb w')"
    by (rule k [OF site_handlers_operators(5) site_handlers_keep(5) [OF n]])
  show "bootstrap acfg e h os v cx w = (r5, w') \<Longrightarrow> server_ok (wdb w')"
    by (rule k [OF agent_handlers_operators(1) agent_handlers_keep(1) [OF n]])
  show "heartbeat e h os v cs cv cx w = (r6, w') \<Longrightarrow> server_ok (wdb w')"
    by (rule k [OF agent_handlers_operators(2) agent_handlers_keep(2) [OF n]])
qed

lemmas requests_keep =
  session_requests_keep operator_requests_keep project_requests_keep site_requests_keep

lemma dispatch_keeps:
  assumes ok: "server_ok (wdb w)" and d: "dispatch cfg rm e q cx w = (r, w')"
  shows "server_ok (wdb w')"
  using d by (cases q) (auto simp: ok dest!: reply_eq read_handlers_same dest: requests_keep [OF ok])

subsection \<open>A call through the interceptors\<close>

definition is_agent_request :: "request \<Rightarrow> bool" where
  "is_agent_request q = has_prefix agent_service_prefix (method_of q)"

lemma is_agent_request_cases:
  "is_agent_request q \<longleftrightarrow> (\<exists>h os v. q = BootstrapRequest h os v) \<or> (\<exists>h os v cs cv. q = HeartbeatRequest h os v cs cv)"
  by (cases q) (simp_all add: is_agent_request_def method_of_def agent_service_prefix_def has_prefix_def)

lemma login_method_iff: "method_of q = login_method \<longleftrightarrow> (\<exists>em pw. q = LoginRequest em pw)"
  by (cases q) (simp_all add: method_of_def login_method_def)

text \<open>What authentication may write: the last-used time of one token.\<close>

definition touched :: "env \<Rightarrow> db \<Rightarrow> db \<Rightarrow> bool" where
  "touched e d d' \<longleftrightarrow> sa_touched e d d' \<or> (\<exists>i. d' = touch_agent_used e i d)"

lemma touched_refl [simp]: "touched e d d"
  by (simp add: touched_def sa_touched_def)

lemma touched_config_same: "touched e d d' \<Longrightarrow> config_same d d'"
  by (auto simp: touched_def config_same_sa_touched config_same_touches)

lemma touched_neutral: "touched e d d' \<Longrightarrow> neutral d d'"
  by (auto simp: touched_def sa_touched_def neutral_def net_same_def touch_sa_token_def
      touch_agent_used_def intro!: db_wf_set_table(6,7) tbl_wf_update uniq_live_update dest: db_wfD)

lemma serve_cases:
  assumes "serve cfg rm e peer md q w = (res, w')"
  shows "(\<exists>cx d. touched e (wdb w) d \<and> (res, w') = dispatch cfg rm e q cx (w\<lparr>wdb := d\<rparr>) \<and>
      (\<forall>op. cx_operator cx = Some op \<longrightarrow>
         extract_bearer (raw_ctx md) \<noteq> [] \<and> bearer_of (now e) (extract_bearer (raw_ctx md)) (wdb w) op)) \<or>
    ((\<exists>c msg. res = Inl (Status c msg) \<and> c \<in> {Unauthenticated, Internal}) \<and> touched e (wdb w) (wdb w') \<and> wrelay w' = wrelay w)"
proof -
  have run: "server_chain peer e (method_of q) (dispatch cfg rm e q) (raw_ctx md) w = (res, w')"
    using assms by (simp add: serve_def)
  have ran: ?thesis
    if "touched e (wdb w) d" "dispatch cfg rm e q cx (w\<lparr>wdb := d\<rparr>) = (res, w')"
      "\<forall>op. cx_operator cx = Some op \<longrightarrow>
         extract_bearer (raw_ctx md) \<noteq> [] \<and> bearer_of (now e) (extract_bearer (raw_ctx md)) (wdb w) op"
    for cx d
    using that by metis
  consider "method_of q = login_method" | "is_agent_request q" | "method_of q \<noteq> login_method" "\<not> is_agent_request q"
    by blast
  then show ?thesis
  proof cases
    case 1
    let ?cx = "(raw_ctx md)\<lparr>cx_source_ip := extract_source_ip peer (raw_ctx md)\<rparr>"
    have "dispatch cfg rm e q ?cx w = (res, w')"
      using run 1 login_not_agent by (simp add: server_chain_operator unary_interceptor_def)
    then show ?thesis by (intro ran [of "wdb w" ?cx]) (simp_all add: raw_ctx_def)
  next
    case 2
    have none: "cx_operator (agent_ctx peer site (raw_ctx md)) = None" for site
      by (simp add: agent_ctx_def raw_ctx_def)
    from server_chain_agent_cases [OF 2 [unfolded is_agent_request_def] run] show ?thesis
    proof (elim disjE exE conjE, goal_cases)
      case (1 site i)
      show ?case
        by (rule ran [of "touch_agent_used e i (wdb w)" "agent_ctx peer site (raw_ctx md)"])
          (use 1(4) in \<open>auto simp: touched_def none\<close>)
    qed simp
  next
    case 3
    have some: "cx_operator (operator_ctx peer op (raw_ctx md)) = Some op" for op
      by (simp add: operator_ctx_def)
    from server_chain_operator_cases [OF 3(1) 3(2) [unfolded is_agent_request_def] run] show ?thesis
    proof (elim disjE exE conjE, goal_cases)
      case (1 op d)
      show ?case
        by (rule ran [of d "operator_ctx peer op (raw_ctx md)"])
          (use 1 in \<open>auto simp: touched_def some\<close>)
    qed (simp_all add: touched_def)
  qed
qed

lemma serve_keeps:
  assumes ok: "server_ok (wdb w)" and s: "serve cfg rm e peer md q w = (res, w')"
  shows "server_ok (wdb w')"
  using serve_cases [OF s]
proof (elim disjE exE conjE)
  fix cx d
  assume t: "touched e (wdb w) d" and d: "(res, w') = dispatch cfg rm e q cx (w\<lparr>wdb := d\<rparr>)"
  have "server_ok (wdb (w\<lparr>wdb := d\<rparr>))" using server_ok_neutral [OF ok touched_neutral [OF t]] by simp
  then show ?thesis by (rule dispatch_keeps [OF _ d [symmetric]])
qed (rule server_ok_neutral [OF ok touched_neutral])

subsection \<open>Every reachable world\<close>

lemma server_ok_agent_touch: "server_ok d \<Longrightarrow> server_ok (touch_agent_token e i d)"
  by (rule server_ok_neutral) (auto simp: neutral_def net_same_def touch_agent_token_def
      intro!: db_wf_set_table(7) tbl_wf_update uniq_live_update dest: db_wfD)

lemma handle_keeps: "server_ok d \<Longrightarrow> handle e req d = (out, d') \<Longrightarrow> server_ok d'"
  unfolding handle_def Route_def site_token_validate_raw_def
  by (auto split: option.splits if_splits prod.splits sum.splits route_error.splits
      intro: server_ok_agent_touch)

lemma tick_keeps: "server_ok d \<Longrightarrow> sweeper_tick sw e d = (res, d') \<Longrightarrow> server_ok d'"
  using net_ok_tick [of d sw e] admins_ok_frame [of d' d] arg_cong [OF sweeper_tick_db, of t_operators sw e d]
  by (simp add: server_ok_def split: if_splits)

lemma server_step_keeps: "server_step cfg rm sw w w' \<Longrightarrow> server_ok (wdb w) \<Longrightarrow> server_ok (wdb w')"
  by (erule server_stepE) (auto intro: serve_keeps tick_keeps handle_keeps)

lemma reachable_keeps: "reachable cfg rm sw w0 w \<Longrightarrow> server_ok (wdb w0) \<Longrightarrow> server_ok (wdb w)"
  by (induction rule: reachable.induct) (auto intro: server_step_keeps)

subsection \<open>Who can change the configuration\<close>

text \<open>A handler's effect when it changes no configuration.\<close>

definition inert :: "'r world \<Rightarrow> 'r world \<Rightarrow> bool" where
  "inert w w' \<longleftrightarrow> config_same (wdb w) (wdb w') \<and> wrelay w' = wrelay w"

lemma inert_refl [simp]: "inert w w"
  by (simp add: inert_def)

lemma inert_dao:
  "session_issue e i ttl ua ip (wdb w) = (r1, d') \<Longrightarrow> inert w (w\<lparr>wdb := d'\<rparr>)"
  "session_revoke_by_token e raw (wdb w) = (r2, d') \<Longrightarrow> inert w (w\<lparr>wdb := d'\<rparr>)"
  unfolding inert_def config_same_def session_issue_def session_revoke_by_token_def
  by (auto simp: Let_def split: sum.splits option.splits prod.splits if_splits)

lemma session_handlers_inert:
  "login ttl e em pw cx w = (r1, w') \<Longrightarrow> inert w w'"
  "logout e cx w = (r2, w') \<Longrightarrow> inert w w'"
  unfolding login_def logout_def
  by (auto simp: inert_dao split: sum.splits option.splits prod.splits if_splits)

lemma agent_handlers_inert:
  "bootstrap cfg e h os v cx w = (r1, w') \<Longrightarrow> inert w w'"
  "heartbeat e h os v cs cv cx w = (r2, w') \<Longrightarrow> inert w w'"
proof -
  have on: "site_update_agent_meta e i h os v cs (wdb w) = (r, d) \<Longrightarrow> inert w (w\<lparr>wdb := set_online e j d\<rparr>)"
      "site_update_agent_meta e i h os v cs (wdb w) = (r, d) \<Longrightarrow> inert w (w\<lparr>wdb := d\<rparr>)" for i cs r d j
    using config_same_trans [OF config_same_agent_meta config_same_set_online] config_same_agent_meta
    by (auto simp: inert_def)
  show "bootstrap cfg e h os v cx w = (r1, w') \<Longrightarrow> inert w w'"
    unfolding bootstrap_def
    by (auto simp: Let_def on split: sum.splits option.splits prod.splits if_splits)
  show "heartbeat e h os v cs cv cx w = (r2, w') \<Longrightarrow> inert w w'"
    unfolding heartbeat_def
    by (auto simp: Let_def on split: sum.splits option.splits prod.splits if_splits)
qed

lemma require_admin_Inr: "require_admin cx = Inr op \<Longrightarrow> is_admin_ctx cx"
  by (auto simp: require_admin_def is_admin_ctx_iff split: option.splits if_splits)

lemma operator_handlers_need_admin:
  assumes "\<not> is_admin_ctx cx"
  shows "create_operator e body pw cx w = (r1, w') \<Longrightarrow> w' = w"
    and "update_operator e body um pw cx w = (r1, w') \<Longrightarrow> w' = w"
    and "delete_operator e n cx w = (r2, w') \<Longrightarrow> w' = w"
    and "grant_project_access e on s ro cx w = (r3, w') \<Longrightarrow> w' = w"
    and "revoke_project_access e on s cx w = (r2, w') \<Longrightarrow> w' = w"
    and "create_sa_token e on desc tt cx w = (r4, w') \<Longrightarrow> w' = w"
    and "revoke_sa_token e i cx w = (r2, w') \<Longrightarrow> w' = w"
proof -
  obtain st where "require_admin cx = Inl st"
    using require_admin_Inr assms by (cases "require_admin cx") blast+
  note simps = this create_operator_def update_operator_def delete_operator_def grant_project_access_def
    revoke_project_access_def create_sa_token_def revoke_sa_token_def
  show "create_operator e body pw cx w = (r1, w') \<Longrightarrow> w' = w"
    "update_operator e body um pw cx w = (r1, w') \<Longrightarrow> w' = w"
    "delete_operator e n cx w = (r2, w') \<Longrightarrow> w' = w"
    "grant_project_access e on s ro cx w = (r3, w') \<Longrightarrow> w' = w"
    "revoke_project_access e on s cx w = (r2, w') \<Longrightarrow> w' = w"
    "create_sa_token e on desc tt cx w = (r4, w') \<Longrightarrow> w' = w"
    "revoke_sa_token e i cx w = (r2, w') \<Longrightarrow> w' = w"
    by (simp_all add: simps)
qed

lemma network_handlers_need_admin:
  assumes "\<not> is_admin_ctx cx"
  shows "create_project rm e i b cx w = (r1, w') \<Longrightarrow> w' = w"
    and "update_project rm e b mk cx w = (r1, w') \<Longrightarrow> w' = w"
    and "delete_project rm e n f cx w = (r2, w') \<Longrightarrow> w' = w"
    and "create_service rm e p i vb cx w = (r3, w') \<Longrightarrow> w' = w"
    and "update_service rm e vb mk cx w = (r3, w') \<Longrightarrow> w' = w"
    and "delete_service rm e n cx w = (r2, w') \<Longrightarrow> w' = w"
proof -
  have no: "\<not> (cx_operator cx = Some op \<and> op_is_admin op)" for op
    using assms by (auto simp: is_admin_ctx_iff)
  show "create_project rm e i b cx w = (r1, w') \<Longrightarrow> w' = w"
    using create_project_Inl create_project_Inr no by (cases r1) blast+
  show "update_project rm e b mk cx w = (r1, w') \<Longrightarrow> w' = w"
    using update_project_Inl update_project_Inr no by (cases r1) blast+
  show "delete_project rm e n f cx w = (r2, w') \<Longrightarrow> w' = w"
    using delete_project_Inl delete_project_Inr no by (cases r2) blast+
  show "create_service rm e p i vb cx w = (r3, w') \<Longrightarrow> w' = w"
    using create_service_Inl create_service_Inr assms by (cases r3) blast+
  show "update_service rm e vb mk cx w = (r3, w') \<Longrightarrow> w' = w"
    using update_service_Inl update_service_Inr assms by (cases r3) blast+
  show "delete_service rm e n cx w = (r2, w') \<Longrightarrow> w' = w"
    using delete_service_Inl delete_service_Inr assms by (cases r2) blast+
qed

lemma site_handlers_need_admin:
  assumes "\<not> is_admin_ctx cx"
  shows "create_site rm e p i sb cx w = (r1, w') \<Longrightarrow> w' = w"
    and "update_site rm e sb mk cx w = (r1, w') \<Longrightarrow> w' = w"
    and "rotate_site_agent_token rm e n cx w = (r2, w') \<Longrightarrow> w' = w"
    and "get_site_install_command rm cfg e n os cx w = (r3, w') \<Longrightarrow> w' = w"
    and "delete_site rm e n f cx w = (r4, w') \<Longrightarrow> w' = w"
proof -
  show "create_site rm e p i sb cx w = (r1, w') \<Longrightarrow> w' = w"
    using create_site_Inl create_site_Inr assms by (cases r1) blast+
  show "update_site rm e sb mk cx w = (r1, w') \<Longrightarrow> w' = w"
    using update_site_Inl update_site_Inr assms by (cases r1) blast+
  show "rotate_site_agent_token rm e n cx w = (r2, w') \<Longrightarrow> w' = w"
    using rotate_site_agent_token_Inl rotate_site_agent_token_Inr assms by (cases r2) blast+
  show "get_site_install_command rm cfg e n os cx w = (r3, w') \<Longrightarrow> w' = w"
    using get_site_install_command_Inl get_site_install_command_Inr assms by (cases r3) blast+
  show "delete_site rm e n f cx w = (r4, w') \<Longrightarrow> w' = w"
    using delete_site_Inl delete_site_Inr assms by (cases r4) blast+
qed

lemmas need_admin = operator_handlers_need_admin network_handlers_need_admin site_handlers_need_admin

lemma dispatch_nonadmin:
  assumes na: "\<not> is_admin_ctx cx" and d: "dispatch cfg rm e q cx w = (r, w')"
  shows "inert w w'"
  using d by (cases q) (auto dest!: reply_eq read_handlers_same need_admin [OF na]
      dest: session_handlers_inert agent_handlers_inert)

lemmas failures = create_project_Inl update_project_Inl delete_project_Inl create_site_Inl update_site_Inl
  rotate_site_agent_token_Inl get_site_install_command_Inl delete_site_Inl create_service_Inl
  update_service_Inl delete_service_Inl create_operator_Inl delete_operator_Inl
  grant_project_access_Inl revoke_project_access_Inl create_sa_token_Inl revoke_sa_token_Inl

lemma map_sum_Inl: "map_sum id f r = Inl st \<longleftrightarrow> r = Inl st"
  by (cases r) simp_all

lemma dispatch_failed:
  assumes d: "dispatch cfg rm e q cx w = (Inl st, w')" and n: "\<And>b mk pw. q \<noteq> UpdateOperatorRequest b mk pw"
  shows "inert w w'"
  using d n by (cases q) (auto simp: map_sum_Inl [THEN eq_iff_swap] dest!: reply_eq read_handlers_same failures
      dest: session_handlers_inert agent_handlers_inert)

end
