(* ===== verification/TokenSpec.thy ===== *)
theory TokenSpec
  imports Credentials Example
begin

section \<open>Credentials as a map\<close>

text \<open>
  What the token tables promise: a finite map from tokens to their owner at a time, with two
  operations, to add a token and to take tokens away. The lemmas show that issuing, rotating and
  revoking tokens on the tables (DaoOperator, DaoSite) are exactly these operations on
  \<open>session_owner\<close>, \<open>agent_owner\<close> and \<open>sa_owner\<close>, the maps the interceptors decide by.
\<close>

type_synonym credentials = "string \<rightharpoonup> nat"

text \<open>Tokens are told apart by their hash only.\<close>

definition grant_token :: "string \<Rightarrow> nat option \<Rightarrow> credentials \<Rightarrow> credentials" where
  "grant_token raw owner m = (\<lambda>r. if hash_token r = hash_token raw then owner else m r)"

definition drop_token :: "string \<Rightarrow> credentials \<Rightarrow> credentials" where
  "drop_token raw m = (\<lambda>r. if hash_token r = hash_token raw then None else m r)"

definition drop_owner :: "nat \<Rightarrow> credentials \<Rightarrow> credentials" where
  "drop_owner i m = (\<lambda>r. if m r = Some i then None else m r)"

definition session_map :: "time \<Rightarrow> db \<Rightarrow> credentials" where
  "session_map t d = (\<lambda>r. session_owner t r d)"

definition agent_map :: "time \<Rightarrow> db \<Rightarrow> credentials" where
  "agent_map t d = (\<lambda>r. agent_owner t r d)"

definition sa_map :: "time \<Rightarrow> db \<Rightarrow> credentials" where
  "sa_map t d = (\<lambda>r. sa_owner t r d)"

lemma session_issue_keeps_others:
  assumes "raw_of (session_issue e i ttl ua ip d) = (Inr raw, d')" "hash_token r \<noteq> hash_token raw"
  shows "session_owner t r d' = session_owner t r d"
proof -
  obtain x where x: "rows (t_sessions d') = rows (t_sessions d) @ [x]" "se_token_hash x = hash_token raw"
    using session_issue_Inr [OF assms(1)] by blast
  have "first_live (session_active t r) (t_sessions d') = first_live (session_active t r) (t_sessions d)"
    by (rule first_live_snoc_other [OF x(1)]) (use x(2) assms(2) in \<open>simp add: session_active_def\<close>)
  then show ?thesis by (simp add: session_owner_def)
qed

lemma sa_issue_keeps_others:
  assumes "raw_of (sa_token_issue e i desc ttl d) = (Inr raw, d')" "hash_token r \<noteq> hash_token raw"
  shows "sa_owner t r d' = sa_owner t r d"
proof -
  obtain x where x: "rows (t_sa_tokens d') = rows (t_sa_tokens d) @ [x]" "sa_token_hash x = hash_token raw"
    using sa_token_issue_Inr [OF assms(1)] by blast
  have "first_live (sa_active t r) (t_sa_tokens d') = first_live (sa_active t r) (t_sa_tokens d)"
    by (rule first_live_snoc_other [OF x(1)]) (use x(2) assms(2) in \<open>simp add: sa_active_def\<close>)
  then show ?thesis by (simp add: sa_owner_def)
qed

lemma agent_issue_keeps_others:
  assumes d: "db_wf d" and iss: "raw_of (site_token_issue e i ttl d) = (Inr raw, d')"
    and h: "hash_token r \<noteq> hash_token raw" and o: "agent_owner t r d = Some j" "j \<noteq> i"
  shows "agent_owner t r d' = Some j"
proof -
  let ?P = "\<lambda>x. at_token_hash x = hash_token r \<and> not_expired t (at_expires_at x)"
  define t1 where "t1 = delete_live (now e) (\<lambda>r. at_site_id r = i) (t_agent_tokens d)"
  from site_token_issue_Inr [OF iss] obtain y where
    y: "rows (t_agent_tokens d') = rows t1 @ [y]" "at_token_hash y = hash_token raw"
    unfolding t1_def by blast
  obtain x where x: "first_live ?P (t_agent_tokens d) = Some x" "at_site_id x = j"
    using o(1) by (auto simp: agent_owner_def agent_token_lookup_def)
  note xr = first_live_Some [OF x(1)]
  have "x \<in> set (rows t1)" using xr x(2) o(2) unfolding t1_def by (force simp: table_simps)
  moreover have "tbl_wf t1" "uniq_live at_token_hash t1"
    unfolding t1_def using db_wfD(6,16) [OF d] by (auto intro: tbl_wf_delete uniq_live_delete)
  ultimately have "first_live ?P t1 = Some x"
    using xr by (intro first_live_unique [where k = "hash_token r" and key = at_token_hash]) auto
  moreover have "first_live ?P (t_agent_tokens d') = first_live ?P t1"
    by (rule first_live_snoc_other [OF y(1)]) (use y(2) h in simp)
  ultimately show ?thesis using x(2) by (simp add: agent_owner_def agent_token_lookup_def)
qed

lemma raw_of_Inr: "f = (Inr (rec, raw), d') \<Longrightarrow> raw_of f = (Inr raw, d')"
  by (simp add: raw_of_def)

lemma agent_issue_fresh:
  assumes d: "db_wf d" and iss: "raw_of (site_token_issue e i ttl d) = (Inr raw, d')"
  shows "agent_owner t raw d' = (if 0 < ttl \<and> now e + ttl \<le> t then None else Some i)"
proof -
  define t1 where "t1 = delete_live (now e) (\<lambda>r. at_site_id r = i) (t_agent_tokens d)"
  from site_token_issue_Inr [OF iss] obtain r where
    r: "rows (t_agent_tokens d') = rows t1 @ [r]" "live r" "at_token_hash r = hash_token raw"
      "\<not> conflicts at_token_hash (hash_token raw) 0 t1" "at_site_id r = i"
      "at_expires_at r = (if 0 < ttl then Some (now e + ttl) else None)"
    unfolding t1_def by blast
  have "tbl_wf t1" unfolding t1_def using db_wfD(6) [OF d] by (rule tbl_wf_delete)
  from first_live_snoc_key [OF r(1,2,4) this r(3), of "\<lambda>r. at_token_hash r = hash_token raw \<and>
      not_expired t (at_expires_at r)"]
  show ?thesis using r(3,5,6) by (simp add: agent_owner_def agent_token_lookup_def not_expired_def)
qed

lemma owner_hash:
  "hash_token r = hash_token raw \<Longrightarrow> session_owner t r d = session_owner t raw d"
  "hash_token r = hash_token raw \<Longrightarrow> sa_owner t r d = sa_owner t raw d"
  "hash_token r = hash_token raw \<Longrightarrow> agent_owner t r d = agent_owner t raw d"
  by (rule sessions.lookup_hash sa_tokens.lookup_hash agent_tokens.lookup_hash, assumption)+

lemma agent_issue_map:
  assumes "db_wf d" "raw_of (site_token_issue e i ttl d) = (Inr raw, d')"
  shows "agent_map t d' =
    grant_token raw (if 0 < ttl \<and> now e + ttl \<le> t then None else Some i) (drop_owner i (agent_map t d))"
proof
  fix r
  show "agent_map t d' r =
    grant_token raw (if 0 < ttl \<and> now e + ttl \<le> t then None else Some i) (drop_owner i (agent_map t d)) r"
  proof (cases "hash_token r = hash_token raw")
    case True
    then show ?thesis
      using owner_hash(3) [OF True] agent_issue_fresh [OF assms] by (simp add: agent_map_def grant_token_def)
  next
    case False
    have "agent_owner t r d' = (if agent_owner t r d = Some i then None else agent_owner t r d)"
    proof (cases "agent_owner t r d")
      case None
      then show ?thesis
        using agent_tokens.issue_others [OF assms False] by (cases "agent_owner t r d'") auto
    next
      case (Some j)
      then show ?thesis
        using agent_issue_keeps_others [OF assms False Some] site_token_issue_rotates [OF assms False, of t t]
        by (cases "j = i") simp_all
    qed
    then show ?thesis using False by (simp add: agent_map_def grant_token_def drop_owner_def)
  qed
qed

text \<open>
  C17. The agent tokens refine a map from tokens to sites: issuing a token for a site first drops
  every token the site had, then adds the new one until it expires; other sites' tokens are as before.
\<close>
theorem agent_store_refines:
  assumes "db_wf d" and "site_token_issue e i ttl d = (Inr (row, raw), d')"
  shows "agent_map t d' =
    grant_token raw (if 0 < ttl \<and> now e + ttl \<le> t then None else Some i) (drop_owner i (agent_map t d))"
  by (rule agent_issue_map [OF assms(1) raw_of_Inr [OF assms(2)]])

lemma grant_tokenI:
  assumes "\<And>r. hash_token r = hash_token raw \<Longrightarrow> f r = x" "\<And>r. hash_token r \<noteq> hash_token raw \<Longrightarrow> f r = m r"
  shows "f = grant_token raw x m"
  using assms by (auto simp: grant_token_def)

lemma session_issue_map:
  assumes "db_wf d" "raw_of (session_issue e i ttl ua ip d) = (Inr raw, d')" "0 < ttl"
  shows "session_map t d' = grant_token raw (if t < now e + ttl then Some i else None) (session_map t d)"
  unfolding session_map_def
proof (rule grant_tokenI)
  fix r assume "hash_token r = hash_token raw"
  then show "session_owner t r d' = (if t < now e + ttl then Some i else None)"
    by (rule trans [OF owner_hash(1) sessions.issue_fresh [OF assms]])
next
  fix r assume "hash_token r \<noteq> hash_token raw"
  then show "session_owner t r d' = session_owner t r d" by (rule session_issue_keeps_others [OF assms(2)])
qed

lemma sa_issue_map:
  assumes "db_wf d" "raw_of (sa_token_issue e i desc ttl d) = (Inr raw, d')" "0 < ttl"
  shows "sa_map t d' = grant_token raw (if t < now e + ttl then Some i else None) (sa_map t d)"
  unfolding sa_map_def
proof (rule grant_tokenI)
  fix r assume "hash_token r = hash_token raw"
  then show "sa_owner t r d' = (if t < now e + ttl then Some i else None)"
    by (rule trans [OF owner_hash(2) sa_tokens.issue_fresh [OF assms]])
next
  fix r assume "hash_token r \<noteq> hash_token raw"
  then show "sa_owner t r d' = sa_owner t r d" by (rule sa_issue_keeps_others [OF assms(2)])
qed

lemma session_revoke_map:
  assumes "session_revoke_by_token e raw d = (Inr (), d')"
  shows "session_map t d' = drop_token raw (session_map t d)"
  unfolding session_map_def drop_token_def
proof
  fix r
  show "session_owner t r d' = (if hash_token r = hash_token raw then None else session_owner t r d)"
  proof (cases "hash_token r = hash_token raw")
    case True
    then show ?thesis using trans [OF owner_hash(1) [OF True] sessions.revoke_kills [OF assms]] by simp
  next
    case False
    then show ?thesis using sessions.revoke_others [OF False assms] by simp
  qed
qed

text \<open>
  Sessions and service-account tokens refine the same map: issuing adds the token for its owner
  until it expires, and revoking a session token takes out exactly that token.
\<close>
theorem operator_store_refines:
  assumes "db_wf d" and "0 < ttl"
    and "session_issue e i ttl ua ip d = (Inr (row, raw), d1)"
    and "sa_token_issue e2 j desc ttl d1 = (Inr (row2, raw2), d2)"
    and "session_revoke_by_token e3 old d2 = (Inr (), d3)"
  shows "session_map t d1 = grant_token raw (if t < now e + ttl then Some i else None) (session_map t d) \<and>
    sa_map t d2 = grant_token raw2 (if t < now e2 + ttl then Some j else None) (sa_map t d1) \<and>
    session_map t d3 = drop_token old (session_map t d2)"
proof -
  have "db_wf d1" using session_issue_wf [OF assms(1), of e i ttl ua ip] assms(3) by simp
  then show ?thesis
    using session_issue_map [OF assms(1) raw_of_Inr [OF assms(3)] assms(2)]
      sa_issue_map [OF _ raw_of_Inr [OF assms(4)] assms(2)] session_revoke_map [OF assms(5)] by blast
qed

text \<open>Examples: a new agent token for the example's site, and a session, a token and a logout.\<close>

lemma ex_issues:
  "\<exists>row raw d'. site_token_issue ex_env 1 ttl ex_db = (Inr (row, raw), d')"
  "\<exists>row raw d1 row2 raw2 d2 d3. session_issue ex_env 1 hour [] [] (ex_db\<lparr>t_sessions := tbl_empty\<rparr>) = (Inr (row, raw), d1) \<and>
     sa_token_issue ex_env 1 [] hour d1 = (Inr (row2, raw2), d2) \<and>
     session_revoke_by_token ex_env ''admin'' d2 = (Inr (), d3)"
proof -
  show "\<exists>row raw d'. site_token_issue ex_env 1 ttl ex_db = (Inr (row, raw), d')"
    by (simp add: Let_def site_token_issue_def issue_token_def tbl_append_def conflicts_def table_simps live_def)
  have h: "hash_token raw \<noteq> ''sa''" for raw using hash_token_length [of raw] by auto
  show "\<exists>row raw d1 row2 raw2 d2 d3. session_issue ex_env 1 hour [] [] (ex_db\<lparr>t_sessions := tbl_empty\<rparr>) = (Inr (row, raw), d1) \<and>
     sa_token_issue ex_env 1 [] hour d1 = (Inr (row2, raw2), d2) \<and>
     session_revoke_by_token ex_env ''admin'' d2 = (Inr (), d3)"
    by (simp add: session_issue_def issue_token_def sa_token_issue_def session_revoke_by_token_def
        tbl_append_def conflicts_def h h [symmetric] Let_def)
qed

theorem agent_store_refines_witness:
  "\<exists>row raw d'. site_token_issue ex_env 1 0 ex_db = (Inr (row, raw), d') \<and>
     agent_map 7 d' = grant_token raw (Some 1) (drop_owner 1 (agent_map 7 ex_db))"
proof -
  obtain row raw d' where i: "site_token_issue ex_env 1 0 ex_db = (Inr (row, raw), d')"
    using ex_issues(1) by blast
  show ?thesis using i agent_store_refines [OF ex_wf i, of 7] by auto
qed

theorem operator_store_refines_witness:
  "\<exists>raw d1. session_map 7 d1 =
     grant_token raw (Some 1) (session_map 7 (ex_db\<lparr>t_sessions := tbl_empty\<rparr>))"
proof -
  have wf: "db_wf (ex_db\<lparr>t_sessions := tbl_empty\<rparr>)"
    using db_wf_set_table(8) [OF ex_wf, of tbl_empty] by (simp add: uniq_live_def)
  from ex_issues(2) obtain row raw d1 row2 raw2 d2 d3 where
    i: "session_issue ex_env 1 hour [] [] (ex_db\<lparr>t_sessions := tbl_empty\<rparr>) = (Inr (row, raw), d1)"
      "sa_token_issue ex_env 1 [] hour d1 = (Inr (row2, raw2), d2)"
      "session_revoke_by_token ex_env ''admin'' d2 = (Inr (), d3)"
    by blast
  have "(0::int) < hour" "7 < now ex_env + hour" by (simp_all add: hour_def minute_def second_def)
  then show ?thesis using operator_store_refines [OF wf _ i, of 7] by auto
qed

end
