(* ===== verification/AdminCli.thy ===== *)
theory AdminCli
  imports System
begin

section \<open>quicktun-server admin (cmd/quicktun-server/cmd_admin*.go)\<close>

text \<open>
  The administrative commands, which open the server's database directly: no interceptor, no audit
  entry, no relay manager. Each is a function of its flags, the environment and the database; what
  it prints is its result. \<open>admin_run\<close> is the command tree.
\<close>

datatype admin_error =
    Usage err
  | Wrapped err dao_error
  | HasChildren err nat

definition openAdminDB :: "env \<Rightarrow> admin_error option" where
  "openAdminDB e =
     (if fault e ''admin: config'' then Some (Usage ''admin: %w'')
      else if fault e ''admin: open'' then Some (Usage ''admin: %w'')
      else None)"

type_synonym 'a admin_result = "(admin_error + 'a) \<times> db"

subsection \<open>Operators\<close>

definition adminCreateOperator :: "env \<Rightarrow> string \<Rightarrow> string \<Rightarrow> bool \<Rightarrow> db \<Rightarrow> operator_row admin_result" where
  "adminCreateOperator e email password isAdmin d =
     (if email = [] \<or> password = [] then (Inl (Usage ''admin: --email and --password are required''), d)
      else
        (case openAdminDB e of
           Some x \<Rightarrow> (Inl x, d)
         | None \<Rightarrow>
             (case bcrypt_hash e password of
                None \<Rightarrow> (Inl (Usage ''admin: hash password: %w''), d)
              | Some hash \<Rightarrow>
                  (case operator_create e email hash isAdmin d of
                     (Inl x, d) \<Rightarrow> (Inl (Wrapped ''admin: create operator: %w'' x), d)
                   | (Inr op, d) \<Rightarrow> (Inr op, d)))))"

definition operator_line :: "operator_row \<Rightarrow> string" where
  "operator_line o1 =
     format_uint (ID o1) @ [CHR 0x09] @ op_email o1 @ [CHR 0x09] @
     (if op_is_admin o1 then ''true'' else ''false'') @ [CHR 0x0A]"

definition adminListOperators :: "env \<Rightarrow> db \<Rightarrow> string admin_result" where
  "adminListOperators e d =
     (case openAdminDB e of
        Some x \<Rightarrow> (Inl x, d)
      | None \<Rightarrow>
          if fault e ''admin: list operators'' then (Inl (Wrapped ''admin: list operators: %w'' ErrIO), d)
          else (Inr (concat (map operator_line (select_live (\<lambda>_. True) (t_operators d)))), d))"

subsection \<open>Projects\<close>

definition adminProjectCreate :: "env \<Rightarrow> string \<Rightarrow> string \<Rightarrow> string \<Rightarrow> db \<Rightarrow> project_row admin_result" where
  "adminProjectCreate e slug displayName relayPortRange d =
     (if slug = [] \<or> displayName = [] \<or> relayPortRange = []
      then (Inl (Usage ''admin project create: --slug, --display-name, --relay-port-range required''), d)
      else
        (case validate_slug slug of
           Some _ \<Rightarrow> (Inl (Usage ''admin project create: %w''), d)
         | None \<Rightarrow>
             (case openAdminDB e of
                Some x \<Rightarrow> (Inl x, d)
              | None \<Rightarrow>
                  (case project_create e
                          \<lparr>ID = 0, CreatedAt = 0, DeletedAt = None, UpdatedAt = 0, pr_slug = slug,
                           pr_name = displayName, pr_default_mode = SiteModeEndpoint,
                           pr_backend = BackendRathole, pr_relay_port_range = relayPortRange,
                           pr_status = ProjectStatusActive\<rparr> d of
                     (Inl x, d) \<Rightarrow> (Inl (Wrapped ''admin project create: %w'' x), d)
                   | (Inr p, d) \<Rightarrow> (Inr p, d)))))"

definition adminProjectList :: "env \<Rightarrow> db \<Rightarrow> project_row list admin_result" where
  "adminProjectList e d =
     (case openAdminDB e of
        Some x \<Rightarrow> (Inl x, d)
      | None \<Rightarrow>
          (case project_list e 1000 [] d of
             Inl x \<Rightarrow> (Inl (Wrapped ''admin project list: %w'' x), d)
           | Inr rs \<Rightarrow> (Inr rs, d)))"

definition adminProjectDelete :: "env \<Rightarrow> string \<Rightarrow> bool \<Rightarrow> db \<Rightarrow> unit admin_result" where
  "adminProjectDelete e slug force d =
     (if slug = [] then (Inl (Usage ''admin project delete: --slug is required''), d)
      else
        (case openAdminDB e of
           Some x \<Rightarrow> (Inl x, d)
         | None \<Rightarrow>
             (case project_find_by_slug e slug d of
                Inl x \<Rightarrow> (Inl (Wrapped ''admin project delete: %w'' x), d)
              | Inr p \<Rightarrow>
                  (case (if force then Inr 0 else count_sites e (ID p) d) of
                     Inl x \<Rightarrow> (Inl (Wrapped ''admin project delete: %w'' x), d)
                   | Inr n \<Rightarrow>
                       if 0 < n
                       then (Inl (HasChildren ''admin project delete: project has %d sites; pass --force to cascade'' n), d)
                       else
                         (case project_delete e (ID p) d of
                            (Inl x, d) \<Rightarrow> (Inl (Wrapped ''admin project delete: %w'' x), d)
                          | (Inr _, d) \<Rightarrow> (Inr (), d))))))"

subsection \<open>Sites\<close>

definition adminSiteCreate :: "env \<Rightarrow> string \<Rightarrow> string \<Rightarrow> string \<Rightarrow> db \<Rightarrow> site_row admin_result" where
  "adminSiteCreate e projectSlug siteSlug displayName d =
     (if projectSlug = [] \<or> siteSlug = [] \<or> displayName = []
      then (Inl (Usage ''admin site create: --project, --slug, --display-name required''), d)
      else if validate_slug projectSlug \<noteq> None then (Inl (Usage ''admin site create: project: %w''), d)
      else if validate_slug siteSlug \<noteq> None then (Inl (Usage ''admin site create: site: %w''), d)
      else
        (case openAdminDB e of
           Some x \<Rightarrow> (Inl x, d)
         | None \<Rightarrow>
             (case project_find_by_slug e projectSlug d of
                Inl x \<Rightarrow> (Inl (Wrapped ''admin site create: %w'' x), d)
              | Inr p \<Rightarrow>
                  (case site_create e
                          \<lparr>ID = 0, CreatedAt = 0, DeletedAt = None, UpdatedAt = 0,
                           si_project_id = ID p, si_name = siteSlug, si_lan_cidrs = None,
                           si_mode = SiteModeEndpoint, si_backend = [], si_status = SiteStatusPending,
                           si_last_seen_at = None, si_hostname = [], si_os = [], si_agent_version = []\<rparr> d of
                     (Inl x, d) \<Rightarrow> (Inl (Wrapped ''admin site create: %w'' x), d)
                   | (Inr s, d) \<Rightarrow> (Inr s, d)))))"

definition adminSiteList :: "env \<Rightarrow> string \<Rightarrow> db \<Rightarrow> site_row list admin_result" where
  "adminSiteList e projectSlug d =
     (if projectSlug = [] then (Inl (Usage ''admin site list: --project required''), d)
      else
        (case openAdminDB e of
           Some x \<Rightarrow> (Inl x, d)
         | None \<Rightarrow>
             (case project_find_by_slug e projectSlug d of
                Inl x \<Rightarrow> (Inl (Wrapped ''admin site list: %w'' x), d)
              | Inr p \<Rightarrow>
                  (case site_list_by_project e (ID p) 1000 [] d of
                     Inl x \<Rightarrow> (Inl (Wrapped ''admin site list: %w'' x), d)
                   | Inr rs \<Rightarrow> (Inr rs, d)))))"

definition adminSiteDelete :: "env \<Rightarrow> string \<Rightarrow> string \<Rightarrow> bool \<Rightarrow> db \<Rightarrow> unit admin_result" where
  "adminSiteDelete e projectSlug siteSlug force d =
     (if projectSlug = [] \<or> siteSlug = []
      then (Inl (Usage ''admin site delete: --project and --slug required''), d)
      else
        (case openAdminDB e of
           Some x \<Rightarrow> (Inl x, d)
         | None \<Rightarrow>
             (case project_find_by_slug e projectSlug d of
                Inl x \<Rightarrow> (Inl (Wrapped ''admin site delete: %w'' x), d)
              | Inr p \<Rightarrow>
                  (case site_find_by_name e (ID p) siteSlug d of
                     Inl x \<Rightarrow> (Inl (Wrapped ''admin site delete: %w'' x), d)
                   | Inr site \<Rightarrow>
                       (case (if force then Inr 0 else count_services e (ID site) d) of
                          Inl x \<Rightarrow> (Inl (Wrapped ''admin site delete: %w'' x), d)
                        | Inr n \<Rightarrow>
                            if 0 < n
                            then (Inl (HasChildren ''admin site delete: site has %d services; pass --force'' n), d)
                            else
                              (case site_delete e (ID site) d of
                                 (Inl x, d) \<Rightarrow> (Inl (Wrapped ''admin site delete: %w'' x), d)
                               | (Inr _, d) \<Rightarrow> (Inr (), d)))))))"

subsection \<open>Services\<close>

text \<open>The way from the flags to the project and the site, the same in the three commands.\<close>

definition find_project_site ::
  "err \<Rightarrow> env \<Rightarrow> string \<Rightarrow> string \<Rightarrow> db \<Rightarrow> admin_error + (project_row \<times> site_row)" where
  "find_project_site what e projectSlug siteSlug d =
     (case project_find_by_slug e projectSlug d of
        Inl x \<Rightarrow> Inl (Wrapped what x)
      | Inr p \<Rightarrow>
          (case site_find_by_name e (ID p) siteSlug d of
             Inl x \<Rightarrow> Inl (Wrapped what x)
           | Inr site \<Rightarrow> Inr (p, site)))"

definition adminServiceCreate ::
  "env \<Rightarrow> string \<Rightarrow> string \<Rightarrow> string \<Rightarrow> string \<Rightarrow> port \<Rightarrow> db \<Rightarrow> service_row admin_result" where
  "adminServiceCreate e projectSlug siteSlug serviceSlug targetAddr targetPort d =
     (if projectSlug = [] \<or> siteSlug = [] \<or> serviceSlug = [] \<or> targetAddr = [] \<or> targetPort = 0
      then (Inl (Usage ''admin service create: --project, --site, --slug, --target-addr, --target-port required''), d)
      else if list_ex (\<lambda>v. validate_slug v \<noteq> None) [projectSlug, siteSlug, serviceSlug]
      then (Inl (Usage ''admin service create: %s: %w''), d)
      else
        (case openAdminDB e of
           Some x \<Rightarrow> (Inl x, d)
         | None \<Rightarrow>
             (case find_project_site ''admin service create: %w'' e projectSlug siteSlug d of
                Inl x \<Rightarrow> (Inl x, d)
              | Inr (p, site) \<Rightarrow>
                  (case allocate_relay_port e p d of
                     Inl x \<Rightarrow> (Inl (Wrapped ''admin service create: %w'' x), d)
                   | Inr relayPort \<Rightarrow>
                       (case service_create e
                               \<lparr>ID = 0, CreatedAt = 0, DeletedAt = None, UpdatedAt = 0,
                                sv_site_id = ID site, sv_name = serviceSlug, sv_target_addr = targetAddr,
                                sv_target_port = targetPort, sv_proto = ProtoTCP,
                                sv_relay_port = Some relayPort\<rparr> d of
                          (Inl x, d) \<Rightarrow> (Inl (Wrapped ''admin service create: %w'' x), d)
                        | (Inr v, d) \<Rightarrow> (Inr v, d))))))"

definition adminServiceList :: "env \<Rightarrow> string \<Rightarrow> string \<Rightarrow> db \<Rightarrow> service_row list admin_result" where
  "adminServiceList e projectSlug siteSlug d =
     (if projectSlug = [] \<or> siteSlug = []
      then (Inl (Usage ''admin service list: --project and --site required''), d)
      else
        (case openAdminDB e of
           Some x \<Rightarrow> (Inl x, d)
         | None \<Rightarrow>
             (case find_project_site ''admin service list: %w'' e projectSlug siteSlug d of
                Inl x \<Rightarrow> (Inl x, d)
              | Inr (p, site) \<Rightarrow>
                  (case service_list_by_site e (ID site) 1000 [] d of
                     Inl x \<Rightarrow> (Inl (Wrapped ''admin service list: %w'' x), d)
                   | Inr rs \<Rightarrow> (Inr rs, d)))))"

definition adminServiceDelete :: "env \<Rightarrow> string \<Rightarrow> string \<Rightarrow> string \<Rightarrow> db \<Rightarrow> unit admin_result" where
  "adminServiceDelete e projectSlug siteSlug serviceSlug d =
     (if projectSlug = [] \<or> siteSlug = [] \<or> serviceSlug = []
      then (Inl (Usage ''admin service delete: --project, --site, --slug required''), d)
      else
        (case openAdminDB e of
           Some x \<Rightarrow> (Inl x, d)
         | None \<Rightarrow>
             (case find_project_site ''admin service delete: %w'' e projectSlug siteSlug d of
                Inl x \<Rightarrow> (Inl x, d)
              | Inr (p, site) \<Rightarrow>
                  (case service_find_by_name e (ID site) serviceSlug d of
                     Inl x \<Rightarrow> (Inl (Wrapped ''admin service delete: %w'' x), d)
                   | Inr svc \<Rightarrow>
                       (case service_delete e (ID svc) d of
                          (Inl x, d) \<Rightarrow> (Inl (Wrapped ''admin service delete: %w'' x), d)
                        | (Inr _, d) \<Rightarrow> (Inr (), d))))))"

subsection \<open>The command tree\<close>

datatype admin_command =
    CreateOperatorCmd string string bool
  | ListOperatorsCmd
  | ProjectCreateCmd string string string
  | ProjectListCmd
  | ProjectDeleteCmd string bool
  | SiteCreateCmd string string string
  | SiteListCmd string
  | SiteDeleteCmd string string bool
  | ServiceCreateCmd string string string string port
  | ServiceListCmd string string
  | ServiceDeleteCmd string string string

fun admin_run :: "env \<Rightarrow> admin_command \<Rightarrow> db \<Rightarrow> db" where
  "admin_run e (CreateOperatorCmd email pw adm) d = snd (adminCreateOperator e email pw adm d)"
| "admin_run e ListOperatorsCmd d = snd (adminListOperators e d)"
| "admin_run e (ProjectCreateCmd slug name rng) d = snd (adminProjectCreate e slug name rng d)"
| "admin_run e ProjectListCmd d = snd (adminProjectList e d)"
| "admin_run e (ProjectDeleteCmd slug force) d = snd (adminProjectDelete e slug force d)"
| "admin_run e (SiteCreateCmd p s n) d = snd (adminSiteCreate e p s n d)"
| "admin_run e (SiteListCmd p) d = snd (adminSiteList e p d)"
| "admin_run e (SiteDeleteCmd p s force) d = snd (adminSiteDelete e p s force d)"
| "admin_run e (ServiceCreateCmd p s v addr port) d = snd (adminServiceCreate e p s v addr port d)"
| "admin_run e (ServiceListCmd p s) d = snd (adminServiceList e p s d)"
| "admin_run e (ServiceDeleteCmd p s v) d = snd (adminServiceDelete e p s v d)"

subsection \<open>What the commands keep\<close>

text \<open>The DAO calls behind the commands, on the whole server's invariant.\<close>

lemma dao_fails:
  "operator_create e em h a d = (Inl x, d') \<Longrightarrow> d' = d"
  "project_create e p d = (Inl x, d') \<Longrightarrow> d' = d"
  "project_delete e i d = (Inl x, d') \<Longrightarrow> d' = d"
  "site_create e s d = (Inl x, d') \<Longrightarrow> d' = d"
  "site_delete e i d = (Inl x, d') \<Longrightarrow> d' = d"
  "service_create e v d = (Inl x, d') \<Longrightarrow> d' = d"
  "service_delete e i d = (Inl x, d') \<Longrightarrow> d' = d"
  unfolding operator_create_def project_create_def project_delete_def site_create_def site_delete_def
    service_create_def service_delete_def
  by (auto simp: Let_def split: if_splits prod.splits)

lemma server_ok_operator_create:
  assumes "server_ok d" "operator_create e em h a d = (r, d')"
  shows "server_ok d'"
proof -
  have "net_ok d'"
    by (rule net_ok_same [OF server_okD(1) [OF assms(1)] dao_net_same(7) [OF assms(2)]
        operator_create_wf [OF server_okD(3) [OF assms(1)] assms(2)]])
  moreover have "admins_ok d'"
  proof (cases r)
    case (Inl x)
    then show ?thesis using dao_fails(1) assms server_okD(2) by blast
  next
    case (Inr op)
    then show ?thesis
      using operator_create_effect [of e em h a d op d'] assms server_okD(2) [OF assms(1)]
      unfolding admins_ok_def by auto
  qed
  ultimately show ?thesis by (simp add: server_ok_def)
qed

lemma server_ok_project_delete:
  assumes "server_ok d" "project_delete e i d = (Inr u, d')"
  shows "server_ok d'"
proof -
  have eff: "d' = d\<lparr>t_projects := delete_live (now e) (\<lambda>p. ID p = i) (t_projects d)\<rparr>"
    using project_delete_effect assms(2) by simp
  have "x \<in> set (rows (t_projects d))" if "x \<in> set (rows (t_projects d'))" "live x" for x
    using that delete_live_survivor unfolding eff by fastforce
  then have "projects_ok d'"
    using net_okD(2) [OF server_okD(1) [OF assms(1)]] unfolding projects_ok_def by blast
  moreover have "db_wf d'" using project_delete_wf [OF server_okD(3) [OF assms(1)]] assms(2) by simp
  moreover have "only_projects d d'" unfolding eff only_projects_def by simp
  ultimately have "net_ok d'" by (intro net_ok_only_projects [OF server_okD(1) [OF assms(1)]])
  then show ?thesis
    by (rule server_ok_operators [OF server_okD(2) [OF assms(1)], rotated]) (simp add: eff)
qed

lemma server_ok_site_create:
  "server_ok d \<Longrightarrow> site_create e s d = (Inr r, d') \<Longrightarrow> server_ok d'"
  by (rule server_ok_operators [OF server_okD(2) dao_operators_same(10) net_ok_site_create [OF server_okD(1)]])

lemma server_ok_site_delete:
  "server_ok d \<Longrightarrow> site_delete e i d = (Inr u, d') \<Longrightarrow> server_ok d'"
  using server_ok_operators [OF _ dao_operators_same(12), of d e i] site_delete_effect [of e i d d']
    net_ok_site_delete [OF server_okD(1)] by (simp add: server_okD)

lemma server_ok_service_delete:
  "server_ok d \<Longrightarrow> service_delete e i d = (Inr u, d') \<Longrightarrow> server_ok d'"
  using server_ok_operators [OF _ dao_operators_same(17), of d e i] service_delete_effect [of e i d d']
    net_ok_service_delete [OF server_okD(1)] by (simp add: server_okD)

lemma server_ok_service_create:
  assumes ok: "server_ok d" and s: "s \<in> set (rows (t_sites d))" "live s" "si_project_id s = ID p"
    and al: "allocate_relay_port e p d = Inr q"
    and cr: "service_create e v d = (Inr r, d')" "sv_site_id v = ID s" "sv_relay_port v = Some q"
  shows "server_ok d'"
proof -
  note wf = db_wfD(7,17) [OF server_okD(3) [OF ok]]
  have eff: "d' = d\<lparr>t_services := t_services d'\<rparr>" "rows (t_services d') = rows (t_services d) @ [r]"
    "seq (t_services d') = Suc (seq (t_services d))" "ID r = Suc (seq (t_services d))"
    "\<not> conflicts (\<lambda>r. (sv_site_id r, sv_name r)) (sv_site_id r, sv_name r) 0 (t_services d)"
    using service_create_effect [OF cr(1)] by blast+
  have "ports_ok d'"
    by (rule ports_ok_service_create [OF net_okD(1,3) [OF server_okD(1) [OF ok]] s al cr])
  then have "net_ok d'"
    by (rule net_ok_services [OF server_okD(1) [OF ok] eff(1) tbl_wf_snoc [OF wf(1) eff(2-4)]
          uniq_live_snoc [OF wf(2) eff(2,5) wf(1)]])
  then show ?thesis by (rule server_ok_operators [OF server_okD(2) [OF ok] dao_operators_same(15) [OF cr(1)]])
qed

text \<open>
  A project goes in unchecked: the invariant survives exactly when its range parses and meets no
  other live project's.
\<close>

definition range_free :: "string \<Rightarrow> db \<Rightarrow> bool" where
  "range_free rng d \<longleftrightarrow>
     (case parse_port_range rng of
        Inl _ \<Rightarrow> False
      | Inr (lo, hi) \<Rightarrow> \<not> overlaps_loop lo hi (select_live (\<lambda>_. True) (t_projects d)))"

lemma range_free_apart:
  assumes "projects_ok d" "pr_relay_port_range r = rng"
  shows "range_free rng d \<longleftrightarrow> is_ok (project_range r) \<and>
    (\<forall>x\<in>set (rows (t_projects d)). live x \<longrightarrow> ranges_apart r x)"
proof (cases "parse_port_range rng")
  case (Inl m)
  then show ?thesis using assms(2) by (simp add: range_free_def project_range_def)
next
  case (Inr ab)
  obtain lo hi where ab: "ab = (lo, hi)" by (cases ab)
  have r: "project_range r = Inr (lo, hi)" using Inr ab assms(2) by (simp add: project_range_def)
  have "ranges_apart r x \<longleftrightarrow>
      \<not> (\<exists>a b. parse_port_range (pr_relay_port_range x) = Inr (a, b) \<and> lo \<le> b \<and> a \<le> hi)"
    if x: "x \<in> set (rows (t_projects d))" "live x" for x
  proof -
    have "is_ok (project_range x)" using projects_okD(2) [OF assms(1) x] .
    then obtain a b where xr: "parse_port_range (pr_relay_port_range x) = Inr (a, b)"
      unfolding project_range_def by (cases "parse_port_range (pr_relay_port_range x)") auto
    then show ?thesis using r by (auto simp: ranges_apart_def project_range_def)
  qed
  then show ?thesis
    using Inr ab r by (auto simp: range_free_def overlaps_loop_iff set_select_live)
qed

lemma server_ok_project_create:
  assumes ok: "server_ok d" and cr: "project_create e p d = (Inr r, d')"
    and p: "validate_slug (pr_slug p) = None" "pr_status p = ProjectStatusActive"
  shows "server_ok d' \<longleftrightarrow> range_free (pr_relay_port_range p) d"
proof -
  note pok = net_okD(2) [OF server_okD(1) [OF ok]] and wf = server_okD(3) [OF ok]
  have eff: "d' = d\<lparr>t_projects := t_projects d'\<rparr>" "rows (t_projects d') = rows (t_projects d) @ [r]"
    "ID r = Suc (seq (t_projects d))" "live r" "pr_slug r = pr_slug p"
    "pr_relay_port_range r = pr_relay_port_range p" "pr_status r = ProjectStatusActive"
    using project_create_effect [OF cr] p(2) by (simp_all add: or_default_def ProjectStatusActive_def)
  have old: "ID x \<noteq> ID r" if "x \<in> set (rows (t_projects d))" for x
    using that db_wfD(3) [OF wf] unfolding eff(3) tbl_wf_def by fastforce
  have "projects_ok d' \<longleftrightarrow> range_free (pr_relay_port_range p) d"
    unfolding range_free_apart [OF pok eff(6)]
  proof
    assume "projects_ok d'"
    then show "is_ok (project_range r) \<and> (\<forall>x\<in>set (rows (t_projects d)). live x \<longrightarrow> ranges_apart r x)"
      using eff(2,4) old unfolding projects_ok_def project_ok_def by (metis Un_iff list.set_intros(1) set_append)
  next
    assume f: "is_ok (project_range r) \<and> (\<forall>x\<in>set (rows (t_projects d)). live x \<longrightarrow> ranges_apart r x)"
    show "projects_ok d'"
    proof (rule projects_ok_step [OF pok])
      show "project_ok r" using f eff(5,7) p(1) by (simp add: project_ok_def)
    qed (use f old eff(2) in auto)
  qed
  moreover have "db_wf d'" by (rule project_create_wf [OF wf cr])
  moreover have "only_projects d d'" unfolding only_projects_def by (subst (1 2 3 4 5 6 7) eff(1)) simp
  moreover have "admins_ok d'" using admins_ok_frame [OF dao_operators_same(7) [OF cr] server_okD(2) [OF ok]] .
  ultimately show ?thesis
    using net_ok_only_projects [OF server_okD(1) [OF ok]] by (auto simp: server_ok_def dest: net_okD(2))
qed

text \<open>A command the server's own check would let through.\<close>

definition checked :: "admin_command \<Rightarrow> db \<Rightarrow> bool" where
  "checked cmd d \<longleftrightarrow> (case cmd of ProjectCreateCmd slug name rng \<Rightarrow> range_free rng d | _ \<Rightarrow> True)"

lemma cli_reads:
  "adminListOperators e d = (r1, d') \<Longrightarrow> d' = d"
  "adminProjectList e d = (r2, d') \<Longrightarrow> d' = d"
  "adminSiteList e p d = (r3, d') \<Longrightarrow> d' = d"
  "adminServiceList e p s d = (r4, d') \<Longrightarrow> d' = d"
  unfolding adminListOperators_def adminProjectList_def adminSiteList_def adminServiceList_def
  by (auto split: if_splits option.splits sum.splits prod.splits)

lemma find_project_site_Inr:
  "find_project_site what e p s d = Inr (pr, site) \<Longrightarrow>
     site \<in> set (rows (t_sites d)) \<and> live site \<and> si_project_id site = ID pr"
  by (auto simp: find_project_site_def site_find_by_name_def split: sum.splits if_splits option.splits
      dest!: first_live_Some)

lemma project_create_admin:
  assumes "adminProjectCreate e slug name rng d = (r, d')"
  shows "(d' = d \<and> \<not> is_ok r) \<or> (\<exists>p row. project_create e p d = (Inr row, d') \<and> validate_slug (pr_slug p) = None \<and>
    pr_status p = ProjectStatusActive \<and> pr_relay_port_range p = rng \<and> r = Inr row)"
proof -
  let ?p = "\<lparr>ID = 0, CreatedAt = 0, DeletedAt = None, UpdatedAt = 0, pr_slug = slug, pr_name = name,
    pr_default_mode = SiteModeEndpoint, pr_backend = BackendRathole, pr_relay_port_range = rng,
    pr_status = ProjectStatusActive\<rparr>"
  have "(d' = d \<and> \<not> is_ok r) \<or> (\<exists>row. project_create e ?p d = (Inr row, d') \<and> validate_slug slug = None \<and> r = Inr row)"
    using assms unfolding adminProjectCreate_def
    by (auto split: if_splits option.splits sum.splits prod.splits dest: dao_fails)
  then show ?thesis by (elim disjE exE conjE) (simp, rule disjI2, rule exI [of _ ?p], simp)
qed

lemma cli_operator_project_keep:
  assumes "server_ok d"
  shows "adminCreateOperator e em pw a d = (r1, d') \<Longrightarrow> server_ok d'"
    and "adminProjectCreate e sl n rng d = (r2, d') \<Longrightarrow> range_free rng d \<Longrightarrow> server_ok d'"
    and "adminProjectDelete e sl f d = (r3, d') \<Longrightarrow> server_ok d'"
proof -
  show "adminCreateOperator e em pw a d = (r1, d') \<Longrightarrow> server_ok d'"
    using assms server_ok_operator_create unfolding adminCreateOperator_def
    by (auto split: if_splits option.splits sum.splits prod.splits)
  show "adminProjectCreate e sl n rng d = (r2, d') \<Longrightarrow> range_free rng d \<Longrightarrow> server_ok d'"
    using assms server_ok_project_create by (auto dest!: project_create_admin)
  show "adminProjectDelete e sl f d = (r3, d') \<Longrightarrow> server_ok d'"
    using assms unfolding adminProjectDelete_def
    by (auto split: if_splits option.splits sum.splits prod.splits
        dest: dao_fails intro: server_ok_project_delete)
qed

lemma cli_site_service_keep:
  assumes "server_ok d"
  shows "adminSiteCreate e p s n d = (r1, d') \<Longrightarrow> server_ok d'"
    and "adminSiteDelete e p s f d = (r2, d') \<Longrightarrow> server_ok d'"
    and "adminServiceDelete e p s v d = (r2, d') \<Longrightarrow> server_ok d'"
    and "adminServiceCreate e p s v addr port d = (r3, d') \<Longrightarrow> server_ok d'"
proof -
  show "adminSiteCreate e p s n d = (r1, d') \<Longrightarrow> server_ok d'"
    using assms unfolding adminSiteCreate_def
    by (auto split: if_splits option.splits sum.splits prod.splits dest: dao_fails intro: server_ok_site_create)
  show "adminSiteDelete e p s f d = (r2, d') \<Longrightarrow> server_ok d'"
    using assms unfolding adminSiteDelete_def
    by (auto split: if_splits option.splits sum.splits prod.splits dest: dao_fails intro: server_ok_site_delete)
  show "adminServiceDelete e p s v d = (r2, d') \<Longrightarrow> server_ok d'"
    using assms unfolding adminServiceDelete_def
    by (auto split: if_splits option.splits sum.splits prod.splits dest: dao_fails intro: server_ok_service_delete)
  show "adminServiceCreate e p s v addr port d = (r3, d') \<Longrightarrow> server_ok d'"
    using assms unfolding adminServiceCreate_def
    by (auto split: if_splits option.splits sum.splits prod.splits dest: dao_fails
        dest!: find_project_site_Inr intro: server_ok_service_create)
qed

lemma admin_run_keeps:
  assumes "server_ok d" "checked cmd d"
  shows "server_ok (admin_run e cmd d)"
proof -
  have via: "server_ok (snd x)" if "\<And>r d'. x = (r, d') \<Longrightarrow> server_ok d'" for x :: "'a admin_result"
    using that [of "fst x" "snd x"] by simp
  note keep = cli_operator_project_keep [OF assms(1)] cli_site_service_keep [OF assms(1)]
  show ?thesis
    using assms keep cli_reads [of _ _ _ ]
    by (cases cmd) (auto simp: checked_def intro!: via dest!: cli_reads)
qed

subsection \<open>A deployment: the server and its administrator's commands\<close>

inductive deployed :: "server_config \<Rightarrow> 'r relay_iface \<Rightarrow> sweeper_config \<Rightarrow> 'r world \<Rightarrow> 'r world \<Rightarrow> bool"
  for cfg rm sw w0 where
  start: "deployed cfg rm sw w0 w0"
| server: "deployed cfg rm sw w0 w \<Longrightarrow> server_step cfg rm sw w w' \<Longrightarrow> deployed cfg rm sw w0 w'"
| admin: "deployed cfg rm sw w0 w \<Longrightarrow> checked cmd (wdb w) \<Longrightarrow>
    deployed cfg rm sw w0 (w\<lparr>wdb := admin_run e cmd (wdb w)\<rparr>)"

inductive_cases deployedE: "deployed cfg rm sw w0 w"

lemma deployed_keeps: "deployed cfg rm sw w0 w \<Longrightarrow> server_ok (wdb w0) \<Longrightarrow> server_ok (wdb w)"
  by (induction rule: deployed.induct) (auto intro: server_step_keeps admin_run_keeps)

lemma reachable_deployed: "reachable cfg rm sw w0 w \<Longrightarrow> deployed cfg rm sw w0 w"
  by (induction rule: reachable.induct) (auto intro: deployed.intros)

text \<open>The empty database the migrations leave lacks an administrator and nothing else.\<close>

lemma net_ok_empty: "net_ok db_empty"
  by (simp add: net_ok_def db_wf_empty projects_ok_def ports_ok_def holds_port_def) (simp add: db_empty_def)

lemma first_admin:
  assumes "adminCreateOperator e em pw True db_empty = (Inr op, d)"
  shows "server_ok d \<and> op \<in> set (rows (t_operators d)) \<and> live op \<and> op_email op = em \<and> op_is_admin op \<and>
    bcrypt_hash e pw = Some (op_password_hash op)"
proof -
  obtain h where h: "bcrypt_hash e pw = Some h" "operator_create e em h True db_empty = (Inr op, d)"
    using assms unfolding adminCreateOperator_def
    by (auto split: if_splits option.splits sum.splits prod.splits)
  have "net_ok d"
    by (rule net_ok_same [OF net_ok_empty dao_net_same(7) [OF h(2)] operator_create_wf [OF db_wf_empty h(2)]])
  then show ?thesis
    using operator_create_effect [OF h(2)] h(1) unfolding server_ok_def admins_ok_def by auto
qed

text \<open>
  The administrator an installation starts with can log in: with the password given to
  \<open>admin create-operator\<close>, Login returns a token, and for its lifetime that token is the new
  administrator's. The one law of bcrypt used is that a hash accepts the password it was made from.
\<close>
theorem first_admin_can_login:
  assumes "adminCreateOperator e0 em pw True db_empty = (Inr op, d)"
    and "\<forall>h. bcrypt_hash e0 pw = Some h \<longrightarrow> bcrypt_ok e h pw"
    and "\<forall>s. \<not> fault e s" and "rnd e = Some bs" and "0 < ttl" and "wdb w = d"
  shows "\<exists>out w'. login ttl e em pw cx w = (Inr out, w') \<and>
    (\<forall>t < now e + ttl. session_owner t (lr_access_token out) (wdb w') = Some (ID op))"
proof -
  obtain h where cr: "bcrypt_hash e0 pw = Some h" "operator_create e0 em h True db_empty = (Inr op, d)"
      "em \<noteq> []" "pw \<noteq> []"
    using assms(1) unfolding adminCreateOperator_def
    by (auto split: if_splits option.splits sum.splits prod.splits)
  have ops: "rows (t_operators d) = [op]" "live op" "op_email op = em" "op_password_hash op = h"
    and "d = db_empty\<lparr>t_operators := t_operators d\<rparr>"
    using operator_create_effect [OF cr(2)] by (simp_all add: db_empty_def)
  then have se: "t_sessions d = tbl_empty" by (metis db.select_convs(2) db.surjective db.update_convs(1) db_empty_def)
  have find: "operator_find_by_email e em d = Inr op"
    using ops assms(3) by (simp add: operator_find_by_email_def first_live_def)
  obtain ua ip where meta: "caller_metadata cx = (ua, ip)" by fastforce
  obtain rec raw d' where iss: "session_issue e (ID op) ttl ua ip d = (Inr (rec, raw), d')"
    using assms(3,4) se by (auto simp: session_issue_def issue_token_def Let_def tbl_append_def conflicts_def)
  have l: "login ttl e em pw cx w = (Inr \<lparr>lr_access_token = raw, lr_expire_time = se_expires_at rec,
      lr_operator = operator_to_proto op\<rparr>, w\<lparr>wdb := d'\<rparr>)"
    using cr(1,3,4) assms(2,6) find meta iss ops(4) by (simp add: login_def)
  have wf: "db_wf d" using server_okD(3) first_admin [OF assms(1)] by blast
  have "session_owner t raw d' = Some (ID op)" if "t < now e + ttl" for t
    using sessions.issue_fresh [OF wf _ assms(5), of e "ID op" ua ip raw d' t] iss that by (simp add: raw_of_def)
  then show ?thesis using l by simp
qed

lemma ex_first_admin:
  "\<exists>op d. adminCreateOperator ex_env ''root'' ''pw'' True db_empty = (Inr op, d)"
  by (simp add: adminCreateOperator_def openAdminDB_def operator_create_def db_empty_def conflicts_def
      tbl_append_def Let_def)

theorem first_admin_can_login_witness:
  "\<exists>op d out w'. adminCreateOperator ex_env ''root'' ''pw'' True db_empty = (Inr op, d) \<and>
     login hour ex_env ''root'' ''pw'' (raw_ctx None) \<lparr>wdb = d, wrelay = ()\<rparr> = (Inr out, w') \<and>
     session_owner 1001 (lr_access_token out) (wdb w') = Some (ID op)"
proof -
  obtain op d where a: "adminCreateOperator ex_env ''root'' ''pw'' True db_empty = (Inr op, d)"
    using ex_first_admin by blast
  have "(0::int) < hour" "1001 < now ex_env + hour" by (simp_all add: hour_def minute_def second_def)
  from first_admin_can_login [OF a, of ex_env _ hour "\<lparr>wdb = d, wrelay = ()\<rparr>" "raw_ctx None"] this a
  show ?thesis by fastforce
qed

text \<open>
  \<open>admin project create\<close> does not look at the range it is given: a project it creates keeps the
  server's invariant exactly when the range parses and meets no live project's. (CreateProject, the
  RPC, refuses the others.)
\<close>
theorem admin_project_create_unchecked:
  assumes "server_ok d" and "adminProjectCreate e slug name rng d = (Inr row, d')"
  shows "server_ok d' \<longleftrightarrow>
    is_ok (parse_port_range rng) \<and> list_all (ranges_apart row) (select_live (\<lambda>_. True) (t_projects d))"
proof -
  obtain p where p: "project_create e p d = (Inr row, d')" "validate_slug (pr_slug p) = None"
    "pr_status p = ProjectStatusActive" "pr_relay_port_range p = rng"
    using project_create_admin [OF assms(2)] by auto
  have row: "pr_relay_port_range row = rng" using project_create_effect [OF p(1)] p(4) by simp
  show ?thesis
    using server_ok_project_create [OF assms(1) p(1-3)] p(4) row
      range_free_apart [OF net_okD(2) [OF server_okD(1) [OF assms(1)]] row]
    by (auto simp: project_range_def list_all_iff set_select_live)
qed

subsection \<open>What the invariant says\<close>

lemma server_ok_means:
  assumes ok: "server_ok d"
  shows "(\<forall>p\<in>set (rows (t_projects d)). \<forall>q\<in>set (rows (t_projects d)).
      live p \<longrightarrow> live q \<longrightarrow> p \<noteq> q \<longrightarrow> pr_slug p \<noteq> pr_slug q \<and> ranges_apart p q) \<and>
    (\<forall>p\<in>set (rows (t_projects d)). live p \<longrightarrow>
      validate_slug (pr_slug p) = None \<and> is_ok (parse_port_range (pr_relay_port_range p))) \<and>
    (\<forall>k q u v. holds_port d k u q \<longrightarrow> holds_port d k v q \<longrightarrow> u = v) \<and>
    (\<exists>op\<in>set (rows (t_operators d)). live op \<and> op_is_admin op)"
proof -
  note wf = server_okD(3) [OF ok] and pr = net_okD(2) [OF server_okD(1) [OF ok]]
    and po = net_okD(3) [OF server_okD(1) [OF ok]]
  have "pr_slug p \<noteq> pr_slug q \<and> ranges_apart p q"
    if "p \<in> set (rows (t_projects d))" "q \<in> set (rows (t_projects d))" "live p" "live q" "p \<noteq> q" for p q
  proof
    show "pr_slug p \<noteq> pr_slug q"
      using uniq_live_row [OF db_wfD(3,12) [OF wf] that(1,3,2,4)] that(5) by blast
    have "ID p \<noteq> ID q" using tbl_wf_inj [OF db_wfD(3) [OF wf] that(1,2)] that(5) by blast
    then show "ranges_apart p q" using pr that(1-4) unfolding projects_ok_def by blast
  qed
  moreover have "u = v" if "holds_port d k u q" "holds_port d k v q" for k q u v
    using ports_okD(2) [OF po that] tbl_wf_inj [OF db_wfD(7) [OF wf]] that unfolding holds_port_def by blast
  moreover have "validate_slug (pr_slug p) = None \<and> is_ok (parse_port_range (pr_relay_port_range p))"
    if "p \<in> set (rows (t_projects d))" "live p" for p
    using projects_okD(1,2) [OF pr that] by (simp add: project_range_def)
  ultimately show ?thesis using server_okD(2) [OF ok] unfolding admins_ok_def by blast
qed

lemma acme_slug: "validate_slug ''acme'' = None"
  by code_simp

lemma ex_server_ok: "server_ok ex_db"
  by (simp add: server_ok_def net_ok_def ex_wf admins_ok_def projects_ok_def project_ok_def
      project_range_def ports_ok_def holds_port_def acme_slug)

text \<open>A second project on the example project's range.\<close>

theorem admin_project_create_unchecked_witness:
  "\<exists>row d'. adminProjectCreate ex_env ''beta'' ''Beta'' (pr_relay_port_range ex_project) ex_db = (Inr row, d') \<and>
     \<not> server_ok d'"
proof -
  have v: "validate_slug ''beta'' = None" by code_simp
  have open_ok: "openAdminDB ex_env = None" by (simp add: openAdminDB_def)
  have ex: "\<exists>row d'. project_create ex_env p ex_db = (Inr row, d') \<and>
      pr_relay_port_range row = pr_relay_port_range p" if "pr_slug p = ''beta''" for p
    using that by (simp add: project_create_def conflicts_def tbl_append_def stamp_new_def Let_def)
  obtain row d' where c:
    "adminProjectCreate ex_env ''beta'' ''Beta'' (pr_relay_port_range ex_project) ex_db = (Inr row, d')"
    and row: "pr_relay_port_range row = pr_relay_port_range ex_project"
  proof -
    let ?p = "\<lparr>ID = 0, CreatedAt = 0, DeletedAt = None, UpdatedAt = 0, pr_slug = ''beta'', pr_name = ''Beta'',
      pr_default_mode = SiteModeEndpoint, pr_backend = BackendRathole,
      pr_relay_port_range = pr_relay_port_range ex_project, pr_status = ProjectStatusActive\<rparr>"
    obtain row d' where r: "project_create ex_env ?p ex_db = (Inr row, d')"
      "pr_relay_port_range row = pr_relay_port_range ?p"
      using ex [of ?p] by auto
    have "pr_relay_port_range ex_project \<noteq> []" by (simp add: ex_project_def)
    then show ?thesis using that [of row d'] r v open_ok by (simp add: adminProjectCreate_def)
  qed
  have "\<not> ranges_apart row ex_project"
    using row by (simp add: ranges_apart_def project_range_def)
  then show ?thesis
    using admin_project_create_unchecked [OF ex_server_ok c] c by (simp add: set_select_live list_all_iff)
qed

end
