(* ===== verification/Supervisor.thy ===== *)
theory Supervisor
  imports QtPrelude
begin

section \<open>Child processes and their alerts (internal/supervisor, internal/notify)\<close>

text \<open>
  Run restarts a child until its context ends, and waits between two starts: one second, doubled
  after every exit up to thirty, and back to one after a run of more than a minute. The child is
  the world's: a \<open>child_run\<close> says what one runOnce met (whether exec succeeded, when it ended, and
  when the context was cancelled), and \<open>Run\<close> turns a list of them into the actions the
  supervisor's callbacks see. CrashLoop.Record, called by the relay manager's OnExit, keeps each
  project's recent exits and raises one alert when there are enough of them in the window.
\<close>

subsection \<open>CrashLoop (notify/crashloop.go)\<close>

record crash_loop =
  cl_threshold :: int
  cl_window :: duration
  cl_events :: "string \<Rightarrow> time list"

record crash_event =
  ce_project_id :: string
  ce_crash_count :: nat
  ce_window :: duration
  ce_time :: time

definition NewCrashLoop :: "int \<Rightarrow> duration \<Rightarrow> crash_loop" where
  "NewCrashLoop threshold window =
     \<lparr>cl_threshold = threshold, cl_window = (if window \<le> 0 then minute else window),
      cl_events = (\<lambda>_. [])\<rparr>"

definition Record :: "time \<Rightarrow> string \<Rightarrow> crash_loop \<Rightarrow> crash_event option \<times> crash_loop" where
  "Record now project_id c =
     (if cl_threshold c \<le> 0 then (None, c)
      else
        (let cutoff = now - cl_window c;
             recent = filter (\<lambda>t. cutoff < t) (cl_events c project_id) @ [now]
         in if int (length recent) \<ge> cl_threshold c
            then (Some \<lparr>ce_project_id = project_id, ce_crash_count = length recent,
                        ce_window = cl_window c, ce_time = now\<rparr>,
                  c\<lparr>cl_events := (cl_events c)(project_id := [])\<rparr>)
            else (None, c\<lparr>cl_events := (cl_events c)(project_id := recent)\<rparr>)))"

text \<open>The server's detector (server.go): a window of five minutes where none is configured.\<close>

definition server_crash_loop :: "int \<Rightarrow> duration \<Rightarrow> crash_loop" where
  "server_crash_loop threshold window =
     NewCrashLoop threshold (if window \<le> 0 then 5 * minute else window)"

fun records :: "(time \<times> string) list \<Rightarrow> crash_loop \<Rightarrow> crash_event list \<times> crash_loop" where
  "records [] c = ([], c)"
| "records ((t, p) # rs) c =
     (let (a, c1) = Record t p c; (as, c2) = records rs c1 in (case a of None \<Rightarrow> as | Some x \<Rightarrow> x # as, c2))"

subsection \<open>Supervisor.Run (supervisor/supervisor.go)\<close>

record child_run =
  cr_launched :: bool
  cr_start :: time
  cr_exit :: time
  cr_err :: "err option"
  cr_cancelled :: bool
  cr_cancelled_wait :: bool

datatype sup_action = OnStart | OnExit time "err option" | Waiting duration | Returned

definition maxBackoff :: duration where "maxBackoff = 30 * second"

text \<open>The error runOnce returns: nil once the context has ended, if the child had been started.\<close>

definition runOnce :: "child_run \<Rightarrow> err option" where
  "runOnce r = (if cr_launched r \<and> cr_cancelled r then None else cr_err r)"

definition reset_backoff :: "child_run \<Rightarrow> duration \<Rightarrow> duration" where
  "reset_backoff r backoff = (if cr_exit r - cr_start r > 60 * second then second else backoff)"

definition double_backoff :: "duration \<Rightarrow> duration" where
  "double_backoff backoff = (let b = backoff * 2 in if b > maxBackoff then maxBackoff else b)"

text \<open>
  The loop over the runs; \<open>None\<close> is the context found done at the top. The list is what is observed
  of a loop that otherwise goes on for ever.
\<close>

fun run_loop :: "duration \<Rightarrow> child_run option list \<Rightarrow> sup_action list" where
  "run_loop backoff [] = []"
| "run_loop backoff (None # rs) = [Returned]"
| "run_loop backoff (Some r # rs) =
     (if cr_launched r then [OnStart] else []) @ OnExit (cr_exit r) (runOnce r) #
     (if cr_cancelled r then [Returned]
      else
        (let backoff = reset_backoff r backoff in
         Waiting backoff #
         (if cr_cancelled_wait r then [Returned] else run_loop (double_backoff backoff) rs)))"

definition Run :: "child_run option list \<Rightarrow> sup_action list" where
  "Run rs = run_loop second rs"

text \<open>The relay manager's OnExit hook: every exit is recorded for the project, whatever its error.\<close>

fun exits_of :: "nat \<Rightarrow> sup_action list \<Rightarrow> (time \<times> string) list" where
  "exits_of project_id [] = []"
| "exits_of project_id (OnExit t x # as) = (t, format_uint project_id) # exits_of project_id as"
| "exits_of project_id (OnStart # as) = exits_of project_id as"
| "exits_of project_id (Waiting b # as) = exits_of project_id as"
| "exits_of project_id (Returned # as) = exits_of project_id as"

subsection \<open>The loop's actions\<close>

definition waits :: "sup_action list \<Rightarrow> duration list" where
  "waits as = concat (map (\<lambda>a. case a of Waiting b \<Rightarrow> [b] | _ \<Rightarrow> []) as)"

lemma waits_simps [simp]:
  "waits [] = []" "waits (Waiting b # as) = b # waits as" "waits (OnStart # as) = waits as"
  "waits (OnExit t x # as) = waits as" "waits (Returned # as) = waits as" "waits (as @ bs) = waits as @ waits bs"
  by (simp_all add: waits_def)

text \<open>A run that ends by itself within a minute, and one that is not cancelled at all.\<close>

definition uncancelled :: "child_run \<Rightarrow> bool" where
  "uncancelled r \<longleftrightarrow> \<not> cr_cancelled r \<and> \<not> cr_cancelled_wait r"

definition short_run :: "child_run \<Rightarrow> bool" where
  "short_run r \<longleftrightarrow> uncancelled r \<and> cr_exit r - cr_start r \<le> 60 * second"

lemma double_backoff_bounds:
  "second \<le> b \<Longrightarrow> second \<le> double_backoff b \<and> double_backoff b \<le> maxBackoff"
  by (auto simp: double_backoff_def maxBackoff_def second_def Let_def)

lemma run_loop_waits_bounded:
  "second \<le> b \<Longrightarrow> b \<le> maxBackoff \<Longrightarrow> \<forall>x\<in>set (waits (run_loop b rs)). second \<le> x \<and> x \<le> maxBackoff"
proof (induction b rs rule: run_loop.induct)
  case (3 b r rs)
  have "second \<le> reset_backoff r b \<and> reset_backoff r b \<le> maxBackoff"
    using 3(2,3) by (simp add: reset_backoff_def maxBackoff_def second_def)
  then show ?case using 3 double_backoff_bounds [of "reset_backoff r b"] by (simp add: Let_def)
qed simp_all

definition backoff_at :: "nat \<Rightarrow> duration" where
  "backoff_at k = min (2 ^ k) 30 * second"

lemma double_backoff_at: "double_backoff (backoff_at k) = backoff_at (Suc k)"
proof -
  have "min (2 ^ k) (30 :: int) * 2 > 30 \<longleftrightarrow> 2 ^ Suc k > (30 :: int)" by (auto simp: min_def)
  then show ?thesis
    by (auto simp: double_backoff_def backoff_at_def maxBackoff_def second_def Let_def min_def)
qed

lemma run_loop_short:
  assumes "\<forall>r\<in>set rs. short_run r"
  shows "waits (run_loop (backoff_at k) (map Some rs)) = map backoff_at [k..<k + length rs]"
  using assms
proof (induction rs arbitrary: k)
  case (Cons r rs)
  have "reset_backoff r (backoff_at k) = backoff_at k" "\<not> cr_cancelled r" "\<not> cr_cancelled_wait r"
    using Cons.prems by (auto simp: short_run_def uncancelled_def reset_backoff_def)
  moreover have "[k..<k + length (r # rs)] = k # [Suc k..<Suc k + length rs]" by (simp add: upt_conv_Cons del: upt_Suc)
  ultimately show ?case using Cons by (simp add: double_backoff_at del: upt_Suc)
qed simp

text \<open>
  The restart backoff: a child that keeps exiting within a minute is restarted after 1, 2, 4, 8,
  16 and then every 30 seconds; whatever its runs, no wait is under a second or over thirty; and a
  run of more than a minute starts the sequence over.
\<close>
theorem supervisor_backoff:
  assumes "\<forall>r\<in>set rs. short_run r"
  shows "waits (Run (map Some rs)) = map (\<lambda>k. min (2 ^ k) 30 * second) [0..<length rs] \<and>
    (\<forall>x\<in>set (waits (Run all)). second \<le> x \<and> x \<le> 30 * second) \<and>
    (uncancelled r \<and> 60 * second < cr_exit r - cr_start r \<longrightarrow>
      waits (run_loop b (Some r # map Some rs)) =
        second # map (\<lambda>k. min (2 ^ k) 30 * second) [1..<Suc (length rs)])"
proof (intro conjI impI)
  have b0: "backoff_at 0 = second" "double_backoff second = backoff_at 1"
    using double_backoff_at [of 0] by (simp_all add: backoff_at_def)
  show "waits (Run (map Some rs)) = map (\<lambda>k. min (2 ^ k) 30 * second) [0..<length rs]"
    using run_loop_short [OF assms, of 0] b0 by (simp add: Run_def backoff_at_def)
  show "\<forall>x\<in>set (waits (Run all)). second \<le> x \<and> x \<le> 30 * second"
    using run_loop_waits_bounded [of second all] by (simp add: Run_def maxBackoff_def second_def)
  assume "uncancelled r \<and> 60 * second < cr_exit r - cr_start r"
  then have "waits (run_loop b (Some r # map Some rs)) = second # waits (run_loop (backoff_at 1) (map Some rs))"
    using b0 by (simp add: uncancelled_def reset_backoff_def)
  then show "waits (run_loop b (Some r # map Some rs)) =
      second # map (\<lambda>k. min (2 ^ k) 30 * second) [1..<Suc (length rs)]"
    using run_loop_short [OF assms, of 1] by (simp add: backoff_at_def [abs_def])
qed

text \<open>
  A cancelled context in the loop: in the iteration that meets it, during the run, during the wait or at
  the top of the loop, Run reports the exit of a running child once, returns, and never starts another,
  whatever would come later. When that is, in time, is in theory ChildIO.
\<close>
theorem run_loop_cancelled:
  assumes "\<forall>r\<in>set rs. uncancelled r"
  shows "(cr_cancelled r \<longrightarrow> Run (map Some rs @ Some r # later) =
      Run (map Some rs) @ (if cr_launched r then [OnStart] else []) @
        [OnExit (cr_exit r) (runOnce r), Returned]) \<and>
    Run (map Some rs @ None # later) = Run (map Some rs) @ [Returned] \<and>
    (\<not> cr_cancelled r \<and> cr_cancelled_wait r \<longrightarrow>
      Run (map Some rs @ Some r # later) = Run (map Some rs @ [Some r]) \<and>
      last (Run (map Some rs @ [Some r])) = Returned)"
proof -
  have app: "\<exists>b. run_loop b0 (map Some rs @ xs) = run_loop b0 (map Some rs) @ run_loop b xs \<and>
      (\<forall>ys. run_loop b0 (map Some rs @ ys) = run_loop b0 (map Some rs) @ run_loop b ys)" for b0 xs
    using assms
  proof (induction rs arbitrary: b0)
    case (Cons r rs)
    then show ?case by (simp add: uncancelled_def Let_def)
  qed auto
  obtain b where b: "\<And>ys. run_loop second (map Some rs @ ys) = run_loop second (map Some rs) @ run_loop b ys"
    using app [of second "[]"] by blast
  show ?thesis unfolding Run_def b by (auto simp: Let_def)
qed

subsection \<open>When an alert is raised\<close>

text \<open>
  The specification per project, which forgets nothing but at an alert: count the exits since the
  last alert that the window still covers, and raise the alert when there are enough.
\<close>

fun crash_spec :: "int \<Rightarrow> duration \<Rightarrow> time list \<Rightarrow> time list \<Rightarrow> (time \<times> nat) list" where
  "crash_spec threshold window since [] = []"
| "crash_spec threshold window since (t # ts) =
     (let n = Suc (length (filter (\<lambda>u. t - window < u) since))
      in if threshold \<le> int n then (t, n) # crash_spec threshold window [] ts
         else crash_spec threshold window (since @ [t]) ts)"

definition alerts_of :: "string \<Rightarrow> crash_event list \<Rightarrow> (time \<times> nat) list" where
  "alerts_of p es = map (\<lambda>e. (ce_time e, ce_crash_count e)) (filter (\<lambda>e. ce_project_id e = p) es)"

definition times_of :: "string \<Rightarrow> (time \<times> string) list \<Rightarrow> time list" where
  "times_of p rs = map fst (filter (\<lambda>r. snd r = p) rs)"

lemma Record_config:
  "Record t p c = (a, c') \<Longrightarrow> cl_threshold c' = cl_threshold c \<and> cl_window c' = cl_window c"
  by (auto simp: Record_def Let_def split: if_splits)

lemma Record_other: "Record t p c = (a, c') \<Longrightarrow> q \<noteq> p \<Longrightarrow> cl_events c' q = cl_events c q"
  by (auto simp: Record_def Let_def split: if_splits)

lemma filter_later:
  "t0 \<le> t \<Longrightarrow> filter (\<lambda>u. t - w < u) (filter (\<lambda>u. t0 - w < u) us) = filter (\<lambda>u. t - w < (u :: time)) us"
  by (induction us) auto

text \<open>
  The detector keeps, of the specification's list, what the window of its last record covered.
\<close>

lemma records_spec:
  assumes "0 < cl_threshold c" "0 < cl_window c" "sorted (map fst rs)"
    "cl_events c p = filter (\<lambda>u. t0 - cl_window c < u) since"
    "\<forall>r\<in>set rs. t0 \<le> fst r" "\<forall>u\<in>set since. u \<le> t0"
  shows "alerts_of p (fst (records rs c)) = crash_spec (cl_threshold c) (cl_window c) since (times_of p rs)"
  using assms
proof (induction rs arbitrary: c since t0)
  case Nil
  then show ?case by (simp add: alerts_of_def times_of_def)
next
  case (Cons x rs)
  obtain t q where x: "x = (t, q)" by (cases x)
  obtain a c1 where r: "Record t q c = (a, c1)" by (cases "Record t q c")
  obtain as c2 where rest: "records rs c1 = (as, c2)" by (cases "records rs c1")
  have t: "t0 \<le> t" "\<forall>r\<in>set rs. t \<le> fst r" "sorted (map fst rs)" using Cons.prems(3,5) x by auto
  have IH: "alerts_of p as = crash_spec (cl_threshold c) (cl_window c) since' (times_of p rs)"
    if "cl_events c1 p = filter (\<lambda>u. t1 - cl_window c < u) since'" "\<forall>u\<in>set since'. u \<le> t1" "t1 \<le> t"
    for since' t1
    using Cons.IH [of c1 t1 since'] Record_config [OF r] Cons.prems(1,2) t that rest by force
  show ?case
  proof (cases "q = p")
    case False
    have "ce_project_id e = q" if "a = Some e" for e
      using r that by (auto simp: Record_def Let_def split: if_splits)
    then have "alerts_of p (fst (records (x # rs) c)) = alerts_of p as"
      using x r rest False by (auto simp: alerts_of_def split: option.splits)
    moreover have "cl_events c1 p = filter (\<lambda>u. t0 - cl_window c < u) since"
      using Record_other [OF r, of p] False Cons.prems(4) by simp
    ultimately show ?thesis using IH [OF _ Cons.prems(6) t(1)] x False by (simp add: times_of_def)
  next
    case True
    let ?recent = "filter (\<lambda>u. t - cl_window c < u) since"
    have ev: "filter (\<lambda>u. t - cl_window c < u) (cl_events c p) = ?recent"
      using Cons.prems(4) filter_later [OF t(1)] by simp
    show ?thesis
    proof (cases "cl_threshold c \<le> int (Suc (length ?recent))")
      case fire: True
      have "a = Some \<lparr>ce_project_id = p, ce_crash_count = Suc (length ?recent), ce_window = cl_window c,
          ce_time = t\<rparr>" "cl_events c1 p = []"
        using r True fire Cons.prems(1) ev by (auto simp: Record_def Let_def)
      moreover from this have "alerts_of p as = crash_spec (cl_threshold c) (cl_window c) [] (times_of p rs)"
        by (intro IH [of t]) simp_all
      ultimately show ?thesis
        using x r rest True fire by (simp add: alerts_of_def times_of_def)
    next
      case quiet: False
      have "a = None" "cl_events c1 p = ?recent @ [t]"
        using r True quiet Cons.prems(1) ev by (auto simp: Record_def Let_def)
      moreover from this have
        "alerts_of p as = crash_spec (cl_threshold c) (cl_window c) (since @ [t]) (times_of p rs)"
        using t(1) Cons.prems(2,6) by (intro IH [of t]) auto
      ultimately show ?thesis
        using x r rest True quiet by (simp add: alerts_of_def times_of_def)
    qed
  qed
qed

text \<open>An alert reports exactly the threshold, and costs as many exits.\<close>

lemma crash_spec_counts:
  assumes "0 < threshold" "sorted (since @ ts)" "0 < window"
    "since \<noteq> [] \<longrightarrow> int (length (filter (\<lambda>u. last since - window < u) since)) < threshold"
  shows "(\<forall>a\<in>set (crash_spec threshold window since ts). int (snd a) = threshold) \<and>
    int (length (crash_spec threshold window since ts)) * threshold \<le> int (length since + length ts)"
  using assms
proof (induction threshold window since ts rule: crash_spec.induct)
  case (2 threshold window since t ts)
  let ?now = "filter (\<lambda>u. t - window < u) since"
  have le: "int (length ?now) < threshold"
  proof (cases "since = []")
    case False
    then have "last since \<le> t" using "2.prems"(2) by (simp add: sorted_append)
    then have "length ?now \<le> length (filter (\<lambda>u. last since - window < u) since)"
      by (induction since) auto
    then show ?thesis using "2.prems"(4) False by linarith
  qed (use "2.prems"(1) in simp)
  have len: "length ?now \<le> length since" by simp
  show ?case
  proof (cases "threshold \<le> int (Suc (length ?now))")
    case True
    have "(\<forall>a\<in>set (crash_spec threshold window [] ts). int (snd a) = threshold) \<and>
      int (length (crash_spec threshold window [] ts)) * threshold \<le> int (length ts)"
      using "2.IH"(1) [OF refl True] "2.prems" by (simp add: sorted_append)
    moreover have "crash_spec threshold window since (t # ts) =
        (t, Suc (length ?now)) # crash_spec threshold window [] ts"
      using True by simp
    moreover have "int (Suc (length ?now)) = threshold" using True le by linarith
    moreover have "threshold \<le> 1 + int (length since)" using True le len by linarith
    ultimately show ?thesis by (auto simp: distrib_right)
  next
    case False
    have "(\<forall>a\<in>set (crash_spec threshold window (since @ [t]) ts). int (snd a) = threshold) \<and>
      int (length (crash_spec threshold window (since @ [t]) ts)) * threshold \<le> int (Suc (length since) + length ts)"
      using "2.IH"(2) [OF refl False] "2.prems" False by (simp add: sorted_append)
    then show ?thesis using False by simp
  qed
qed (use assms in simp)

text \<open>
  C26. Crash-loop alerts, project by project, are those of a detector that forgets nothing: for any
  interleaving of the projects' exits in time order, a project's alerts come at the exits where
  the threshold is met by its exits since its last alert within the window, each reports exactly the
  threshold, and n exits raise at most n / threshold of them.
\<close>
theorem crash_loop_alerts:
  assumes "0 < threshold" and "sorted (map fst rs)"
  shows "alerts_of p (fst (records rs (NewCrashLoop threshold window))) =
      crash_spec threshold (if window \<le> 0 then minute else window) [] (times_of p rs) \<and>
    (\<forall>a\<in>set (alerts_of p (fst (records rs (NewCrashLoop threshold window)))). int (snd a) = threshold) \<and>
    int (length (alerts_of p (fst (records rs (NewCrashLoop threshold window))))) * threshold \<le>
      int (length (times_of p rs))"
proof -
  let ?w = "if window \<le> 0 then minute else window"
  obtain t0 where t0: "\<forall>r\<in>set rs. t0 \<le> fst r"
    using assms(2) by (cases rs) auto
  have w: "0 < ?w" by (simp add: minute_def second_def)
  have "alerts_of p (fst (records rs (NewCrashLoop threshold window))) = crash_spec threshold ?w [] (times_of p rs)"
    using records_spec [of "NewCrashLoop threshold window" rs p t0 "[]"] assms w t0
    by (simp add: NewCrashLoop_def)
  moreover have "sorted (times_of p rs)"
    using assms(2) unfolding times_of_def by (induction rs) auto
  ultimately show ?thesis using crash_spec_counts [of threshold "[]" "times_of p rs" ?w] assms(1) w by simp
qed

subsection \<open>The supervisor and the detector together\<close>

text \<open>The defaults of config.go: five exits in five minutes.\<close>

definition default_crash_loop :: crash_loop where
  "default_crash_loop = server_crash_loop 5 (5 * minute)"

lemma five_exits:
  assumes "t1 \<le> t2" "t2 \<le> t3" "t3 \<le> t4" "t4 \<le> t5" "t5 - t1 < 5 * minute"
  shows "fst (records (map (\<lambda>t. (t, p)) [t1, t2, t3, t4, t5]) default_crash_loop) =
    [\<lparr>ce_project_id = p, ce_crash_count = 5, ce_window = 5 * minute, ce_time = t5\<rparr>]"
  using assms
  by (simp add: default_crash_loop_def server_crash_loop_def NewCrashLoop_def Record_def Let_def
      minute_def second_def)

text \<open>A restart happens within ten seconds of the end of the wait.\<close>

fun prompt :: "duration \<Rightarrow> child_run list \<Rightarrow> bool" where
  "prompt b (r # s # rs) \<longleftrightarrow> cr_start s \<le> cr_exit r + reset_backoff r b + 10 * second \<and>
     cr_exit r \<le> cr_start s \<and> prompt (double_backoff (reset_backoff r b)) (s # rs)"
| "prompt b rs \<longleftrightarrow> True"

lemma exits_of_append: "exits_of p (as @ bs) = exits_of p as @ exits_of p bs"
  by (induction p as rule: exits_of.induct) simp_all

lemma exits_of_run_loop:
  "\<forall>r\<in>set rs. uncancelled r \<Longrightarrow>
     exits_of p (run_loop b (map Some rs)) = map (\<lambda>r. (cr_exit r, format_uint p)) rs"
  by (induction rs arbitrary: b) (simp_all add: uncancelled_def Let_def)

text \<open>
  A crash loop does not go unnoticed: with the default settings, a rathole-server that keeps
  dying within a minute of each start raises exactly one alert, at its fifth exit, as the backoff
  still leaves the five exits inside the five-minute window.
\<close>
theorem crash_loop_detected:
  assumes "length rs = 5" and "\<forall>r\<in>set rs. short_run r \<and> cr_start r \<le> cr_exit r" and "prompt second rs"
  shows "fst (records (exits_of p (Run (map Some rs))) default_crash_loop) =
    [\<lparr>ce_project_id = format_uint p, ce_crash_count = 5, ce_window = 5 * minute, ce_time = cr_exit (last rs)\<rparr>]"
proof -
  obtain r1 r2 r3 r4 r5 where rs: "rs = [r1, r2, r3, r4, r5]"
    using assms(1) by (auto simp: length_Suc_conv eval_nat_numeral)
  have short: "reset_backoff r b = b" if "r \<in> set rs" for r b
    using assms(2) that by (auto simp: short_run_def reset_backoff_def)
  have order: "cr_exit r1 \<le> cr_exit r2" "cr_exit r2 \<le> cr_exit r3" "cr_exit r3 \<le> cr_exit r4" "cr_exit r4 \<le> cr_exit r5"
    using assms(2,3) unfolding rs by auto
  have "cr_exit r5 - cr_exit r1 < 5 * minute"
    using assms(2,3) short unfolding rs
    by (simp add: short_run_def double_backoff_def maxBackoff_def Let_def minute_def second_def)
  moreover have "exits_of p (Run (map Some rs)) =
      map (\<lambda>t. (t, format_uint p)) [cr_exit r1, cr_exit r2, cr_exit r3, cr_exit r4, cr_exit r5]"
    using exits_of_run_loop [of rs p second] assms(2) unfolding Run_def rs by (simp add: short_run_def)
  ultimately show ?thesis using five_exits [OF order] rs by simp
qed

text \<open>
  The alert does not tell a crash from a reload: five Refreshes of a project inside five
  minutes, each of which cancels a healthy child, raise ``crashed 5 times'' although no child
  exited with an error.
\<close>
theorem refresh_counts_as_crash:
  assumes "\<forall>r\<in>{r1, r2, r3, r4, r5}. cr_launched r \<and> cr_cancelled r"
    and "sorted (map cr_exit [r1, r2, r3, r4, r5])" and "cr_exit r5 - cr_exit r1 < 5 * minute"
  shows "let as = concat (map (\<lambda>r. Run [Some r]) [r1, r2, r3, r4, r5])
    in (\<forall>a\<in>set as. a = OnStart \<or> a = Returned \<or> (\<exists>t. a = OnExit t None)) \<and>
       fst (records (exits_of p as) default_crash_loop) =
         [\<lparr>ce_project_id = format_uint p, ce_crash_count = 5, ce_window = 5 * minute, ce_time = cr_exit r5\<rparr>]"
proof -
  have "Run [Some r] = [OnStart, OnExit (cr_exit r) None, Returned]" if "r \<in> {r1, r2, r3, r4, r5}" for r
    using assms(1) that by (auto simp: Run_def runOnce_def)
  then have as: "concat (map (\<lambda>r. Run [Some r]) [r1, r2, r3, r4, r5]) =
      concat (map (\<lambda>r. [OnStart, OnExit (cr_exit r) None, Returned]) [r1, r2, r3, r4, r5])" by simp
  show ?thesis
    unfolding as using five_exits [of "cr_exit r1" "cr_exit r2" "cr_exit r3" "cr_exit r4" "cr_exit r5" "format_uint p"]
      assms(2,3) by simp
qed

subsection \<open>Examples\<close>

text \<open>A child that dies at once, five times, restarted on time; and one that is reloaded.\<close>

definition ex_run :: "time \<Rightarrow> time \<Rightarrow> bool \<Rightarrow> child_run" where
  "ex_run s t cancelled = \<lparr>cr_launched = True, cr_start = s * second, cr_exit = t * second,
     cr_err = Some ''exit status 1'', cr_cancelled = cancelled, cr_cancelled_wait = False\<rparr>"

lemma ex_run_simps [simp]:
  "cr_launched (ex_run s t c)" "cr_start (ex_run s t c) = s * second" "cr_exit (ex_run s t c) = t * second"
  "cr_cancelled (ex_run s t c) = c" "\<not> cr_cancelled_wait (ex_run s t c)"
  "cr_err (ex_run s t c) = Some ''exit status 1''"
  by (simp_all add: ex_run_def)

definition ex_crashes :: "child_run list" where
  "ex_crashes = [ex_run 0 1 False, ex_run 2 3 False, ex_run 5 6 False, ex_run 10 11 False, ex_run 19 20 False]"

theorem supervisor_backoff_witness: "waits (Run (map Some ex_crashes)) = map ((*) second) [1, 2, 4, 8, 16]"
  using supervisor_backoff [of ex_crashes "[]" "ex_run 0 1 False" second]
  by (simp add: ex_crashes_def short_run_def uncancelled_def second_def eval_nat_numeral)

theorem run_loop_cancelled_witness:
  "Run [Some (ex_run 0 1 False), Some (ex_run 2 3 True), Some (ex_run 4 5 False)] =
     [OnStart, OnExit second (Some ''exit status 1''), Waiting second, OnStart, OnExit (3 * second) None, Returned]"
  using run_loop_cancelled [of "[ex_run 0 1 False]" "ex_run 2 3 True" "[Some (ex_run 4 5 False)]"]
  by (simp add: uncancelled_def runOnce_def Run_def reset_backoff_def second_def)

theorem crash_loop_alerts_witness:
  "alerts_of ''1'' (fst (records [(0, ''1''), (1, ''2''), (2, ''1''), (3, ''1'')] (NewCrashLoop 2 10))) = [(2, 2)]"
  using crash_loop_alerts [of 2 "[(0, ''1''), (1, ''2''), (2, ''1''), (3, ''1'')]" "''1''" 10]
  by (simp add: times_of_def)

theorem crash_loop_detected_witness:
  "fst (records (exits_of 7 (Run (map Some ex_crashes))) default_crash_loop) =
     [\<lparr>ce_project_id = format_uint 7, ce_crash_count = 5, ce_window = 5 * minute, ce_time = 20 * second\<rparr>]"
  using crash_loop_detected [of ex_crashes 7]
  by (simp add: ex_crashes_def short_run_def uncancelled_def reset_backoff_def double_backoff_def
      maxBackoff_def second_def)

theorem refresh_counts_as_crash_witness:
  "fst (records (exits_of 7 (concat (map (\<lambda>t. Run [Some (ex_run 0 t True)]) [1, 2, 3, 4, 5]))) default_crash_loop) =
     [\<lparr>ce_project_id = format_uint 7, ce_crash_count = 5, ce_window = 5 * minute, ce_time = 5 * second\<rparr>]"
  using refresh_counts_as_crash [of "ex_run 0 1 True" "ex_run 0 2 True" "ex_run 0 3 True" "ex_run 0 4 True"
      "ex_run 0 5 True" 7]
  by (simp add: second_def minute_def)

end
