(* ===== verification/AgentRuntime.thy ===== *)
theory AgentRuntime
  imports Tunnel Router Supervisor TokenSpec
begin

section \<open>The site agent (internal/agent)\<close>

text \<open>
  The agent's configuration, its bootstrap with retries, the application of a bootstrap response
  (render, write, restart the client), the heartbeat loop, the health check, and the CONNECT
  bridge. What the world decides is in the arguments: the answer to each call (\<open>boot_attempt\<close>, the
  \<open>Tick\<close> events), when the context ends, the clock and the faults of the \<open>env\<close>. The supervisor's own
  loop is Supervisor.Run; here it is there (with its arguments) or not.
\<close>

subsection \<open>Configuration (config.go)\<close>

record agent_conf =
  ac_control_endpoint :: string
  ac_token :: string
  ac_state_dir :: string
  ac_rathole_binary :: string
  ac_rathole_args :: "string list"
  ac_tls_insecure :: bool
  ac_hostname_override :: string
  ac_health_listen_addr :: string
  ac_metrics_listen_addr :: string

definition applyDefaults :: "agent_conf \<Rightarrow> agent_conf" where
  "applyDefaults c =
     c\<lparr>ac_state_dir := (if ac_state_dir c = [] then ''/var/lib/quicktun-agent'' else ac_state_dir c),
       ac_rathole_args := (if ac_rathole_args c = [] then [''--client''] else ac_rathole_args c)\<rparr>"

definition validate :: "agent_conf \<Rightarrow> err option" where
  "validate c =
     (if ac_control_endpoint c = [] then Some ''agent: control_endpoint is required''
      else if ac_token c = [] then Some ''agent: token is required''
      else None)"

text \<open>Load, given what reading and parsing the file came to.\<close>

definition Load :: "err + agent_conf \<Rightarrow> err + agent_conf" where
  "Load parsed =
     (case parsed of
        Inl x \<Rightarrow> Inl x
      | Inr c \<Rightarrow>
          (let c = applyDefaults c in
           case validate c of Some x \<Rightarrow> Inl x | None \<Rightarrow> Inr c))"

subsection \<open>State\<close>

record bridge =
  bg_auth_proxy_addr :: string
  bg_bearer_token :: string
  bg_local_addr :: string

record runtime =
  rt_sup :: "string list option"
  rt_cur_version :: string
  rt_last_bootstrap :: "time option"
  rt_heartbeat_interval :: duration
  rt_bridge :: "bridge option"
  rt_files :: "string \<Rightarrow> string option"

definition defaultBootstrapRetry :: duration where "defaultBootstrapRetry = 5 * second"
definition maxBootstrapBackoff :: duration where "maxBootstrapBackoff = minute"
definition maxBootstrapAttempts :: nat where "maxBootstrapAttempts = 10"
definition defaultHeartbeat :: duration where "defaultHeartbeat = 15 * second"

text \<open>New: the state directory must be there, everything else starts empty.\<close>

definition NewRuntime :: "env \<Rightarrow> (string \<Rightarrow> string option) \<Rightarrow> err + runtime" where
  "NewRuntime e files =
     (if fault e ''agent: mkdir state dir'' then Inl ''agent: mkdir state dir: %w''
      else if fault e ''agent: dial'' then Inl ''agent: dial: %w''
      else Inr \<lparr>rt_sup = None, rt_cur_version = [], rt_last_bootstrap = None, rt_heartbeat_interval = 0,
                rt_bridge = None, rt_files = files\<rparr>)"

subsection \<open>Bootstrap with retries\<close>

datatype rpc_failure = Answered status | Unreachable string

record boot_attempt =
  ba_result :: "rpc_failure + bootstrap_response"
  ba_cancelled :: bool
  ba_cancelled_wait :: bool

datatype boot_error = TokenRejected rpc_failure | ContextDone | GaveUp "rpc_failure option"

definition is_unauthenticated :: "rpc_failure \<Rightarrow> bool" where
  "is_unauthenticated x = (case x of Answered st \<Rightarrow> st_code st = Unauthenticated | Unreachable _ \<Rightarrow> False)"

definition double_retry :: "duration \<Rightarrow> duration" where
  "double_retry backoff =
     (let b = backoff * 2 in if b > maxBootstrapBackoff then maxBootstrapBackoff else b)"

text \<open>
  The loop from attempt \<open>n\<close> on; \<open>world n\<close> is what the n-th call meets. The result carries the waits
  between the calls, so that their number is one less than that of the calls, or equal when all
  attempts are used up.
\<close>

function bootstrap_loop ::
  "(nat \<Rightarrow> boot_attempt) \<Rightarrow> nat \<Rightarrow> duration \<Rightarrow> rpc_failure option \<Rightarrow>
   (boot_error + bootstrap_response) \<times> duration list" where
  "bootstrap_loop world attempt backoff lastErr =
     (if maxBootstrapAttempts < attempt then (Inl (GaveUp lastErr), [])
      else
        (case ba_result (world attempt) of
           Inr resp \<Rightarrow> (Inr resp, [])
         | Inl x \<Rightarrow>
             if is_unauthenticated x then (Inl (TokenRejected x), [])
             else if ba_cancelled (world attempt) then (Inl ContextDone, [])
             else if ba_cancelled_wait (world attempt) then (Inl ContextDone, [backoff])
             else
               (let (r, ws) = bootstrap_loop world (Suc attempt) (double_retry backoff) (Some x)
                in (r, backoff # ws))))"
  by pat_completeness auto
termination
  by (relation "measure (\<lambda>(world, attempt, backoff, lastErr). Suc maxBootstrapAttempts - attempt)") auto

declare bootstrap_loop.simps [simp del]

definition bootstrapWithRetry ::
  "(nat \<Rightarrow> boot_attempt) \<Rightarrow> (boot_error + bootstrap_response) \<times> duration list" where
  "bootstrapWithRetry world = bootstrap_loop world 1 defaultBootstrapRetry None"

subsection \<open>Applying a bootstrap response\<close>

definition client_config_path :: "agent_conf \<Rightarrow> string" where
  "client_config_path cfg = ac_state_dir cfg @ ''/rathole-client.toml''"

definition stopSupervisor :: "runtime \<Rightarrow> runtime" where
  "stopSupervisor r = r\<lparr>rt_sup := None\<rparr>"

definition startSupervisor :: "agent_conf \<Rightarrow> string \<Rightarrow> runtime \<Rightarrow> runtime" where
  "startSupervisor cfg cfg_path r = r\<lparr>rt_sup := Some (ac_rathole_args cfg @ [cfg_path])\<rparr>"

definition remote_addr :: "bootstrap_response \<Rightarrow> runtime \<Rightarrow> string" where
  "remote_addr boot r =
     (case rt_bridge r of None \<Rightarrow> br_auth_proxy_endpoint boot | Some b \<Rightarrow> bg_local_addr b)"

definition applyBootstrap ::
  "agent_conf \<Rightarrow> env \<Rightarrow> bootstrap_response \<Rightarrow> runtime \<Rightarrow> (err + unit) \<times> runtime" where
  "applyBootstrap cfg e boot r =
     (case RenderRatholeClient (Some boot) (ac_token cfg) (remote_addr boot r) of
        Inl x \<Rightarrow> (Inl ''agent: render: %w'', r)
      | Inr toml \<Rightarrow>
          if fault e ''agent: write config'' then (Inl ''agent: write config: %w'', r)
          else
            (let r = r\<lparr>rt_files := (rt_files r)(client_config_path cfg \<mapsto> toml),
                       rt_cur_version := br_config_version boot, rt_last_bootstrap := Some (now e)\<rparr>
             in if ac_rathole_binary cfg = [] then (Inr (), r)
                else (Inr (), startSupervisor cfg (client_config_path cfg) (stopSupervisor r))))"

subsection \<open>The main loop\<close>

text \<open>
  What the select receives: the end of the context, or a tick with the answer to its heartbeat,
  whether the context had ended when it failed, and the world of a rebootstrap.
\<close>

datatype agent_event =
    CtxDone
  | Tick "rpc_failure + heartbeat_response" bool "nat \<Rightarrow> boot_attempt" env

text \<open>The version a heartbeat carries is \<open>rt_cur_version\<close>; \<open>None\<close> is a loop that goes on.\<close>

fun agent_loop ::
  "agent_conf \<Rightarrow> agent_event list \<Rightarrow> runtime \<Rightarrow> (boot_error + unit) option \<times> runtime" where
  "agent_loop cfg [] r = (None, r)"
| "agent_loop cfg (CtxDone # evs) r = (Some (Inr ()), stopSupervisor r)"
| "agent_loop cfg (Tick (Inl x) done world e # evs) r =
     (if done then (Some (Inr ()), stopSupervisor r) else agent_loop cfg evs r)"
| "agent_loop cfg (Tick (Inr resp) done world e # evs) r =
     (if hr_should_rebootstrap resp
      then (case fst (bootstrapWithRetry world) of
              Inl x \<Rightarrow> (Some (Inl x), r)
            | Inr boot \<Rightarrow> agent_loop cfg evs (snd (applyBootstrap cfg e boot r)))
      else agent_loop cfg evs r)"

definition startBridge :: "env \<Rightarrow> string \<Rightarrow> string \<Rightarrow> string \<Rightarrow> err + bridge" where
  "startBridge e addr bearer local =
     (if addr = [] then Inl ''agent: empty auth_proxy_endpoint''
      else if fault e ''agent: bridge listen'' then Inl ''agent: bridge listen: %w''
      else Inr \<lparr>bg_auth_proxy_addr = addr, bg_bearer_token = bearer, bg_local_addr = local\<rparr>)"

definition heartbeat_interval :: "bootstrap_response \<Rightarrow> duration" where
  "heartbeat_interval boot =
     (let i = br_heartbeat_seconds boot * second in if i \<le> 0 then defaultHeartbeat else i)"

datatype run_error = BootFailed boot_error | BridgeFailed err | ApplyFailed err

definition agent_run ::
  "agent_conf \<Rightarrow> env \<Rightarrow> (nat \<Rightarrow> boot_attempt) \<Rightarrow> string \<Rightarrow> agent_event list \<Rightarrow> runtime \<Rightarrow>
   (run_error + unit) option \<times> runtime" where
  "agent_run cfg e world local evs r =
     (case fst (bootstrapWithRetry world) of
        Inl x \<Rightarrow> (Some (Inl (BootFailed x)), r)
      | Inr boot \<Rightarrow>
          (case (if br_auth_proxy_endpoint boot \<noteq> [] \<and> rt_bridge r = None
                 then map_sum id Some (startBridge e (br_auth_proxy_endpoint boot) (ac_token cfg) local)
                 else Inr (rt_bridge r)) of
             Inl x \<Rightarrow> (Some (Inl (BridgeFailed x)), r)
           | Inr br \<Rightarrow>
               (case applyBootstrap cfg e boot (r\<lparr>rt_bridge := br\<rparr>) of
                  (Inl x, r) \<Rightarrow> (Some (Inl (ApplyFailed x)), r)
                | (Inr _, r) \<Rightarrow>
                    (let (out, r) = agent_loop cfg evs (r\<lparr>rt_heartbeat_interval := heartbeat_interval boot\<rparr>)
                     in (map_option (map_sum BootFailed id) out, r)))))"

subsection \<open>Credentials, health, bridge\<close>

definition GetRequestMetadata :: "string \<Rightarrow> metadata" where
  "GetRequestMetadata token =
     \<lparr>md_authorization = [''Bearer '' @ token], md_user_agent = [], md_x_forwarded_for = []\<rparr>"

definition RequireTransportSecurity :: "agent_conf \<Rightarrow> bool" where
  "RequireTransportSecurity cfg \<longleftrightarrow> \<not> ac_tls_insecure cfg"

text \<open>\<open>pid\<close> is the supervised child's process id, 0 between two runs.\<close>

definition healthCheck :: "agent_conf \<Rightarrow> time \<Rightarrow> nat \<Rightarrow> runtime \<Rightarrow> bool \<times> string list" where
  "healthCheck cfg t pid r =
     (let boot = (case rt_last_bootstrap r of
                    None \<Rightarrow> [''agent has not bootstrapped yet'']
                  | Some last_boot \<Rightarrow>
                      (let stale = 2 * rt_heartbeat_interval r;
                           stale = (if stale \<le> 0 then 2 * defaultHeartbeat else stale)
                       in if t - last_boot > stale then [''stale bootstrap''] else []));
          sup = (if ac_rathole_binary cfg \<noteq> [] \<and> (rt_sup r = None \<or> pid = 0)
                 then [''supervisor not running''] else []);
          reasons = boot @ sup
      in (reasons = [], reasons))"

definition bridge_request :: "bridge \<Rightarrow> connect_request" where
  "bridge_request b =
     (let host = (case split_host_port (bg_auth_proxy_addr b) of None \<Rightarrow> [] | Some (h, _) \<Rightarrow> h);
          host = (if host = [] then ''relay'' else host)
      in \<lparr>rq_method = ''CONNECT'', rq_authorization = ''Bearer '' @ bg_bearer_token b,
          rq_host = host @ '':443''\<rparr>)"

subsection \<open>The retries end\<close>

definition retry_at :: "nat \<Rightarrow> duration" where
  "retry_at k = min (5 * 2 ^ k) 60 * second"

lemma double_retry_at: "double_retry (retry_at k) = retry_at (Suc k)"
proof -
  have "min (5 * 2 ^ k) (60 :: int) * 2 > 60 \<longleftrightarrow> 5 * 2 ^ Suc k > (60 :: int)" by (auto simp: min_def)
  then show ?thesis
    by (auto simp: double_retry_def retry_at_def maxBootstrapBackoff_def minute_def second_def Let_def min_def)
qed

text \<open>What a result says of the calls from attempt \<open>Suc k\<close> on, \<open>n\<close> waits later.\<close>

definition failed_call :: "(nat \<Rightarrow> boot_attempt) \<Rightarrow> nat \<Rightarrow> bool" where
  "failed_call world n \<longleftrightarrow>
     (case ba_result (world n) of Inl x \<Rightarrow> \<not> is_unauthenticated x | Inr _ \<Rightarrow> False)"

definition explains :: "(nat \<Rightarrow> boot_attempt) \<Rightarrow> nat \<Rightarrow> nat \<Rightarrow> boot_error + bootstrap_response \<Rightarrow> bool" where
  "explains world k n r \<longleftrightarrow>
     list_all (failed_call world) [Suc k..<Suc (k + n)] \<and>
     (case r of
        Inr b \<Rightarrow> k + n < 10 \<and> ba_result (world (Suc (k + n))) = Inr b
      | Inl (TokenRejected x) \<Rightarrow>
          k + n < 10 \<and> ba_result (world (Suc (k + n))) = Inl x \<and> is_unauthenticated x
      | Inl ContextDone \<Rightarrow> k + n \<le> 10
      | Inl (GaveUp _) \<Rightarrow> k + n = 10)"

lemma explains_0: "k + 0 < 10 \<Longrightarrow> explains world k 0 (Inl ContextDone)"
  by (simp add: explains_def)

lemma explains_Suc:
  assumes "failed_call world (Suc k)" "explains world (Suc k) n r"
  shows "explains world k (Suc n) r"
proof -
  have "[Suc k..<Suc (k + Suc n)] = Suc k # [Suc (Suc k)..<Suc (Suc k + n)]" by (simp add: upt_conv_Cons del: upt_Suc)
  then show ?thesis
    using assms unfolding explains_def
    by (auto simp del: upt_Suc split: sum.splits boot_error.splits)
qed

lemma bootstrap_loop_explained:
  assumes "k \<le> 10" "bootstrap_loop world (Suc k) (retry_at k) x = (r, ws)"
  shows "ws = map retry_at [k..<k + length ws] \<and> explains world k (length ws) r"
  using assms
proof (induction "10 - k" arbitrary: k x r ws)
  case 0
  then show ?case
    by (auto simp: bootstrap_loop.simps maxBootstrapAttempts_def explains_def)
next
  case (Suc m)
  then have k: "k < 10" by simp
  note step = Suc.prems(2) [unfolded bootstrap_loop.simps [of world "Suc k"]]
  show ?case
  proof (cases "ba_result (world (Suc k))")
    case (Inr b)
    then show ?thesis using step k by (auto simp: maxBootstrapAttempts_def explains_def)
  next
    case (Inl y)
    show ?thesis
    proof (cases "is_unauthenticated y \<or> ba_cancelled (world (Suc k)) \<or> ba_cancelled_wait (world (Suc k))")
      case True
      then show ?thesis using step k Inl
        by (auto simp: maxBootstrapAttempts_def explains_def failed_call_def split: if_splits)
    next
      case False
      obtain r1 ws1 where l: "bootstrap_loop world (Suc (Suc k)) (retry_at (Suc k)) (Some y) = (r1, ws1)"
        by fastforce
      then have r: "r = r1" "ws = retry_at k # ws1"
        using step k Inl False by (auto simp: maxBootstrapAttempts_def double_retry_at)
      have IH: "ws1 = map retry_at [Suc k..<Suc k + length ws1] \<and> explains world (Suc k) (length ws1) r1"
        using Suc.hyps(1) [OF _ _ l] Suc.hyps(2) k by simp
      have "failed_call world (Suc k)" using Inl False by (simp add: failed_call_def)
      moreover have "[k..<k + length ws] = k # [Suc k..<Suc k + length ws1]"
        unfolding r(2) by (simp add: upt_conv_Cons del: upt_Suc)
      ultimately show ?thesis using IH r explains_Suc by simp
    qed
  qed
qed

text \<open>
  C14. Bootstrapping ends: whatever the server answers, the agent makes at most ten calls, waits 5,
  10, 20, 40 and then 60 seconds after a failure, and so at most 435 seconds in all. It returns the
  first answer; a rejected token ends it at once; it gives up exactly after ten failures that were
  no rejection.
\<close>
theorem bootstrap_retry_ends:
  "case bootstrapWithRetry world of (r, ws) \<Rightarrow>
     ws = map (\<lambda>k. min (5 * 2 ^ k) 60 * second) [0..<length ws] \<and> length ws \<le> 10 \<and>
     sum_list ws \<le> 435 * second \<and> explains world 0 (length ws) r"
proof (cases "bootstrapWithRetry world")
  case (Pair r ws)
  have "bootstrap_loop world (Suc 0) (retry_at 0) None = (r, ws)"
    using Pair by (simp add: bootstrapWithRetry_def retry_at_def defaultBootstrapRetry_def)
  from bootstrap_loop_explained [OF _ this] have
    w: "ws = map retry_at [0..<length ws]" and x: "explains world 0 (length ws) r" by simp_all
  have le: "length ws \<le> 10"
    using x by (cases r) (auto simp: explains_def split: boot_error.splits)
  have "sum_list (map retry_at [0..<n]) \<le> 435 * second" if "n \<le> 10" for n
  proof -
    have "sum_list (map retry_at [0..<n]) \<le> sum_list (map retry_at [0..<10])"
    proof -
      have "[0..<10] = [0..<n] @ [n..<10]" using that upt_add_eq_append [of 0 n "10 - n"] by simp
      moreover have "0 \<le> sum_list (map retry_at [n..<10])"
        by (rule sum_list_nonneg) (auto simp: retry_at_def second_def)
      ultimately show ?thesis by simp
    qed
    also have "\<dots> = 435 * second" by (simp add: retry_at_def second_def eval_nat_numeral)
    finally show ?thesis .
  qed
  then have "sum_list ws \<le> 435 * second" using w le by metis
  moreover have "ws = map (\<lambda>k. min (5 * 2 ^ k) 60 * second) [0..<length ws]"
    using w unfolding retry_at_def .
  ultimately show ?thesis using Pair le x by simp
qed

subsection \<open>The agent follows its site's services\<close>

lemma applyBootstrap_Inr:
  assumes "applyBootstrap cfg e boot r = (Inr (), r')"
  shows "\<exists>toml. RenderRatholeClient (Some boot) (ac_token cfg) (remote_addr boot r) = Inr toml \<and>
    rt_files r' (client_config_path cfg) = Some toml \<and> rt_cur_version r' = br_config_version boot \<and>
    rt_last_bootstrap r' = Some (now e) \<and>
    (ac_rathole_binary cfg \<noteq> [] \<longrightarrow> rt_sup r' = Some (ac_rathole_args cfg @ [client_config_path cfg]))"
  using assms
  by (auto simp: applyBootstrap_def Let_def startSupervisor_def stopSupervisor_def
      split: sum.splits if_splits)

text \<open>The remote address is there once the bridge is, and an empty token does not get past Load.\<close>

lemma applyBootstrap_ok:
  assumes "rt_bridge r = Some b" "bg_local_addr b \<noteq> []" "ac_token cfg \<noteq> []"
    "\<not> fault e ''agent: write config''"
  shows "\<exists>r'. applyBootstrap cfg e boot r = (Inr (), r')"
  using assms by (simp add: applyBootstrap_def RenderRatholeClient_def remote_addr_def Let_def)

text \<open>
  The agent converges: one tick whose calls the server answers brings the agent to the
  configuration the server serves. Whether or not the server asked for a rebootstrap, afterwards
  the agent's version is the server's; and if it was out of date, the file it runs rathole-client on
  is the rendering of the tunnels the server now serves to its site.
\<close>
theorem agent_converges:
  assumes "cx_agent cx = Some pr"
    and "heartbeat e1 hn os v [] (rt_cur_version r) cx w = (Inr resp, w1)"
    and "bootstrap acfg e2 hn os v cx w1 = (Inr boot, w2)"
    and "ba_result (world 1) = Inr boot"
    and "rt_bridge r = Some b" and "bg_local_addr b \<noteq> []" and "ac_token cfg \<noteq> []"
    and "\<not> fault e3 ''agent: write config''"
    and "agent_loop cfg [Tick (Inr resp) False world e3] r = (out, r')"
  shows "out = None \<and>
    rt_cur_version r' = compute_config_version (served_services (ap_site_id pr) (wdb w)) \<and>
    (rt_cur_version r \<noteq> rt_cur_version r' \<longrightarrow>
      br_tunnels boot = tunnels_of (served_services (ap_site_id pr) (wdb w)) \<and>
      (\<exists>toml. RenderRatholeClient (Some boot) (ac_token cfg) (bg_local_addr b) = Inr toml \<and>
        rt_files r' (client_config_path cfg) = Some toml))"
proof -
  obtain d1 where hb: "site_update_agent_meta e1 (ap_site_id pr) hn os v [] (wdb w) = (Inr (), d1)"
    "wdb w1 = set_online e1 (ap_site_id pr) d1"
    "hr_should_rebootstrap resp = (rt_cur_version r \<noteq> compute_config_version (served_services (ap_site_id pr) (wdb w)))"
    using heartbeat_Inr [OF assms(2)] assms(1) by auto
  have sv: "t_services (wdb w1) = t_services (wdb w)"
    using site_update_agent_meta_services [OF hb(1)] set_online_services hb(2) by metis
  have same: "served_services i (wdb w1) = served_services i (wdb w)" for i
    using sv by (simp add: served_services_def)
  obtain site where b: "site_find_by_id e2 (ap_site_id pr) (wdb w1) = Inr site"
    "br_tunnels boot = tunnels_of (served_services (ID site) (wdb w1))"
    "br_config_version boot = compute_config_version (served_services (ID site) (wdb w1))"
    using bootstrap_Inr [OF assms(3)] assms(1) by auto
  have site: "ID site = ap_site_id pr" using site_find_by_id_Inr [OF b(1)] by simp
  have boot: "fst (bootstrapWithRetry world) = Inr boot"
    using assms(4) by (simp add: bootstrapWithRetry_def bootstrap_loop.simps maxBootstrapAttempts_def)
  show ?thesis
  proof (cases "hr_should_rebootstrap resp")
    case True
    from applyBootstrap_ok [OF assms(5-8)] obtain r2 where ap: "applyBootstrap cfg e3 boot r = (Inr (), r2)"
      by blast
    have "out = None" "r' = r2" using assms(9) True boot ap by auto
    then show ?thesis
      using applyBootstrap_Inr [OF ap] b(2,3) site same assms(5) by (auto simp: remote_addr_def)
  next
    case False
    then show ?thesis using assms(9) hb(3) by auto
  qed
qed

text \<open>
  The health check calls a healthy agent stale: when every heartbeat is answered and no service
  changes, no bootstrap is due, and once two heartbeat intervals have passed since the first one
  /healthz reports ``stale bootstrap'' for as long as the agent runs.
\<close>
theorem healthy_agent_reported_stale:
  assumes "list_all (\<lambda>ev. \<exists>resp world e. ev = Tick (Inr resp) False world e \<and> \<not> hr_should_rebootstrap resp) evs"
    and "applyBootstrap cfg e boot r0 = (Inr (), r1)"
    and "agent_loop cfg evs (r1\<lparr>rt_heartbeat_interval := heartbeat_interval boot\<rparr>) = (out, r')"
    and "2 * heartbeat_interval boot < t - now e"
  shows "out = None \<and> rt_sup r' = rt_sup r1 \<and> fst (healthCheck cfg t pid r') = False \<and>
    ''stale bootstrap'' \<in> set (snd (healthCheck cfg t pid r'))"
proof -
  have keep: "agent_loop cfg evs r = (None, r)" for r
    using assms(1) by (induction evs) auto
  have r': "out = None" "r' = r1\<lparr>rt_heartbeat_interval := heartbeat_interval boot\<rparr>"
    using assms(3) keep by auto
  have "rt_last_bootstrap r1 = Some (now e)" using applyBootstrap_Inr [OF assms(2)] by blast
  moreover have "0 < heartbeat_interval boot"
    by (simp add: heartbeat_interval_def defaultHeartbeat_def second_def Let_def)
  ultimately show ?thesis using assms(4) r' by (simp add: healthCheck_def Let_def)
qed

subsection \<open>One token at both doors\<close>

lemma bearer_metadata:
  "raw \<noteq> [] \<Longrightarrow> list_all solid raw \<Longrightarrow> extract_bearer (raw_ctx (Some (GetRequestMetadata raw))) = raw"
  by (simp add: extract_bearer_def raw_ctx_def GetRequestMetadata_def bearer_prefix_def has_prefix_def
      trim_space_all_solid)

lemma bearer_connect: "bearerToken (''Bearer '' @ raw) = raw"
  by (simp add: bearerToken_def ascii_fold_def lower_byte_def)

text \<open>The proxy's way for an agent, step by step.\<close>

lemma handle_agent:
  assumes "\<forall>s. \<not> fault e s" "agent_owner (now e) raw d = Some (ID s)" "raw \<noteq> []"
    and "tbl_wf (t_sites d)" "tbl_wf (t_projects d)"
    and "s \<in> set (rows (t_sites d))" "live s" "p \<in> set (rows (t_projects d))" "live p" "ID p = si_project_id s"
    and "pr_status p = ProjectStatusActive" "parse_port_range (pr_relay_port_range p) = Inr (lo, hi)"
    and "rq_method rq = ''CONNECT''" "rq_authorization rq = ''Bearer '' @ raw"
  shows "\<exists>d'. handle e (Some rq) d = ((200, Some (loopback @ [colon] @ format_uint (unat lo))), d')"
proof -
  obtain tok where tok: "agent_token_lookup (now e) raw d = Some tok" "at_site_id tok = ID s"
    using assms(2) by (auto simp: agent_owner_def)
  let ?d = "touch_agent_token e (ID tok) d"
  have "routeSiteAgent e (ID s) ?d = Inr (loopback @ [colon] @ format_uint (unat lo))"
    using assms first_live_ID [OF assms(4,6,7)] first_live_ID [OF assms(5,8,9)]
    by (simp add: routeSiteAgent_def frame_simps)
  then have "Route e raw target d = (Inr (loopback @ [colon] @ format_uint (unat lo)), ?d)" for target
    using assms(1,3) tok by (simp add: Route_def site_token_validate_raw_def)
  then show ?thesis using assms(1,13,14) by (simp add: handle_def bearer_connect [simplified])
qed

subsection \<open>Examples\<close>

definition ex_conf :: agent_conf where
  "ex_conf = applyDefaults \<lparr>ac_control_endpoint = ''relay:9443'', ac_token = ''agent'', ac_state_dir = [],
     ac_rathole_binary = ''rathole'', ac_rathole_args = [], ac_tls_insecure = False,
     ac_hostname_override = [], ac_health_listen_addr = [], ac_metrics_listen_addr = []\<rparr>"

definition ex_bridge :: "string \<Rightarrow> bridge" where
  "ex_bridge raw = \<lparr>bg_auth_proxy_addr = ''relay:8443'', bg_bearer_token = raw, bg_local_addr = ''127.0.0.1:9''\<rparr>"

definition ex_runtime :: runtime where
  "ex_runtime = \<lparr>rt_sup = None, rt_cur_version = [], rt_last_bootstrap = None, rt_heartbeat_interval = 0,
     rt_bridge = Some (ex_bridge ''agent''), rt_files = (\<lambda>_. None)\<rparr>"

definition ex_attempts :: "bootstrap_response \<Rightarrow> nat \<Rightarrow> boot_attempt" where
  "ex_attempts b = (\<lambda>_. \<lparr>ba_result = Inr b, ba_cancelled = False, ba_cancelled_wait = False\<rparr>)"

lemma ex_tick:
  "\<exists>resp w1 boot w2. heartbeat ex_env ''h'' ''linux'' ''v1'' [] [] ex_agent_cx ex_world = (Inr resp, w1) \<and>
     bootstrap ex_agent_cfg ex_env ''h'' ''linux'' ''v1'' ex_agent_cx w1 = (Inr boot, w2)"
  by (simp add: heartbeat_def bootstrap_def ex_world_def site_find_by_id_def project_find_by_id_def
      first_live_def site_update_agent_meta_def set_online_db service_list_by_site_def Let_def
      update_live_simps ex_range [unfolded append.simps])

lemma ex_agent_simps [simp]:
  "ac_token ex_conf = ''agent''" "rt_bridge ex_runtime = Some (ex_bridge ''agent'')"
  "bg_local_addr (ex_bridge raw) = ''127.0.0.1:9''" "bg_bearer_token (ex_bridge raw) = raw"
  "rt_cur_version ex_runtime = []" "ba_result (ex_attempts b n) = Inr b"
  by (simp_all add: ex_conf_def applyDefaults_def ex_runtime_def ex_bridge_def ex_attempts_def)

text \<open>The example agent, which has no configuration yet, after one tick.\<close>

theorem agent_converges_witness:
  "\<exists>ev. rt_cur_version (snd (agent_loop ex_conf [ev] ex_runtime)) =
     compute_config_version (served_services 1 ex_db)"
proof -
  obtain resp w1 boot w2 where t:
    "heartbeat ex_env ''h'' ''linux'' ''v1'' [] (rt_cur_version ex_runtime) ex_agent_cx ex_world = (Inr resp, w1)"
    "bootstrap ex_agent_cfg ex_env ''h'' ''linux'' ''v1'' ex_agent_cx w1 = (Inr boot, w2)"
    using ex_tick by auto
  let ?ev = "Tick (Inr resp) False (ex_attempts boot) ex_env"
  obtain out r' where l: "agent_loop ex_conf [?ev] ex_runtime = (out, r')" by fastforce
  have "rt_cur_version r' = compute_config_version (served_services 1 (wdb ex_world))"
    using agent_converges [OF ex_agent_cx_simps(1) t _ _ _ _ _ l, of "ex_bridge ''agent''"] by simp
  then show ?thesis using l by (intro exI [of _ ?ev]) (simp add: ex_world_def)
qed

definition ex_boot :: bootstrap_response where
  "ex_boot = \<lparr>br_site_name = ''hq'', br_project_slug = ''acme'', br_site_slug = ''hq'',
     br_auth_proxy_endpoint = ''relay:8443'', br_tunnels = [], br_heartbeat_seconds = 15,
     br_config_version = ''v''\<rparr>"

lemma ex_boot_simps [simp]: "br_heartbeat_seconds ex_boot = 15"
  by (simp add: ex_boot_def)

text \<open>Thirty-one seconds after its bootstrap, with a heartbeat answered in between.\<close>

theorem healthy_agent_reported_stale_witness:
  "\<exists>ev r r'. agent_loop ex_conf [ev] r = (None, r') \<and> rt_last_bootstrap r = Some 1000 \<and>
     \<not> fst (healthCheck ex_conf (1000 + 31 * second) 1 r')"
proof -
  let ?ev = "Tick (Inr \<lparr>hr_should_rebootstrap = False, hr_server_time = 0\<rparr>) False (ex_attempts ex_boot) ex_env"
  obtain r1 where r1: "applyBootstrap ex_conf ex_env ex_boot ex_runtime = (Inr (), r1)"
    using applyBootstrap_ok [of ex_runtime _ ex_conf ex_env ex_boot] by auto
  let ?r = "r1\<lparr>rt_heartbeat_interval := heartbeat_interval ex_boot\<rparr>"
  obtain out r' where l: "agent_loop ex_conf [?ev] ?r = (out, r')" by fastforce
  have i: "2 * heartbeat_interval ex_boot < 1000 + 31 * second - now ex_env"
    by (simp add: heartbeat_interval_def second_def)
  from healthy_agent_reported_stale [OF _ r1 l i, of 1]
  have "out = None \<and> \<not> fst (healthCheck ex_conf (1000 + 31 * second) 1 r')" by simp
  moreover have "rt_last_bootstrap ?r = Some 1000" using applyBootstrap_Inr [OF r1] by auto
  ultimately show ?thesis using l by blast
qed

end
