(* ===== verification/OperatorCli.thy ===== *)
theory OperatorCli
  imports System AgentRuntime "HOL-Library.Log_Nat"
begin

section \<open>The operator's command line (cmd/quicktun, internal/clicred)\<close>

text \<open>
  The client side of the control plane: the names it accepts, the credentials it keeps, the RPC each
  command sends, and \<open>quicktun forward\<close>, which asks the server for a service's relay port and sends
  the auth proxy a CONNECT for it. A command is a function of its arguments and of the connection
  \<open>conn\<close>, through which it sends its requests; \<open>with_conn\<close> makes one from the loaded credentials and a
  server. What the commands print is in CliOutput; the copying of bytes in forward is left out.
\<close>

subsection \<open>Names (names.go)\<close>

definition canonicalProjectName :: "string \<Rightarrow> string" where
  "canonicalProjectName s = (if has_prefix ''projects/'' s then s else ''projects/'' @ s)"

definition canonicalOperatorName :: "string \<Rightarrow> string" where
  "canonicalOperatorName arg = (if has_prefix ''operators/'' arg then arg else ''operators/'' @ arg)"

definition bad_site_name :: err where
  "bad_site_name = ''invalid site name %q (expected p/s or projects/p/sites/s)''"

definition canonicalSiteName :: "string \<Rightarrow> err + string" where
  "canonicalSiteName s =
     (case split_on slash s of
        [a, b] \<Rightarrow>
          if a = [] \<or> b = [] then Inl bad_site_name
          else Inr (''projects/'' @ a @ ''/sites/'' @ b)
      | [a, b, c, d] \<Rightarrow>
          if a = ''projects'' \<and> c = ''sites'' \<and> b \<noteq> [] \<and> d \<noteq> [] then Inr s else Inl bad_site_name
      | _ \<Rightarrow> Inl bad_site_name)"

definition bad_service_name :: err where
  "bad_service_name = ''invalid service name %q (expected p/s/svc or projects/p/sites/s/services/svc)''"

definition canonicalServiceName :: "string \<Rightarrow> err + string" where
  "canonicalServiceName s =
     (case split_on slash s of
        [a, b, c] \<Rightarrow>
          if a = [] \<or> b = [] \<or> c = [] then Inl bad_service_name
          else Inr (''projects/'' @ a @ ''/sites/'' @ b @ ''/services/'' @ c)
      | [a, b, c, d, x, f] \<Rightarrow>
          if a = ''projects'' \<and> c = ''sites'' \<and> x = ''services'' \<and> b \<noteq> [] \<and> d \<noteq> [] \<and> f \<noteq> []
          then Inr s else Inl bad_service_name
      | _ \<Rightarrow> Inl bad_service_name)"

definition projectFromSiteName :: "string \<Rightarrow> string" where
  "projectFromSiteName siteName =
     (case split_on slash siteName of a # b # _ \<Rightarrow> a @ ''/'' @ b | _ \<Rightarrow> [])"

subsection \<open>Credentials and connection (clicred.go, dial.go)\<close>

record cli_credentials =
  cr_endpoint :: string
  cr_auth_proxy_endpoint :: string
  cr_session_token :: string
  cr_operator_email :: string
  cr_tls_insecure :: bool

text \<open>The variables QUICKTUN_CONFIG and XDG_CONFIG_HOME and the home directory, if there is one.\<close>

definition DefaultPath :: "string \<Rightarrow> string \<Rightarrow> string option \<Rightarrow> err + string" where
  "DefaultPath quicktun_config xdg_config_home home =
     (if quicktun_config \<noteq> [] then Inr quicktun_config
      else if xdg_config_home \<noteq> [] then Inr (xdg_config_home @ ''/quicktun/credentials.yaml'')
      else
        (case home of
           None \<Rightarrow> Inl ''clicred: resolve home dir: %w''
         | Some h \<Rightarrow> Inr (h @ ''/.config/quicktun/credentials.yaml'')))"

text \<open>
  The credentials file: what the path holds, read through yaml's \<open>unmarshal\<close>; written to a temporary
  file that is renamed over it, and removed when a step fails. The modes of the files are left out.
\<close>

type_synonym files = "string \<Rightarrow> string option"

definition clicred_Load :: "(string \<Rightarrow> err + cli_credentials) \<Rightarrow> string \<Rightarrow> files \<Rightarrow> err + cli_credentials" where
  "clicred_Load unmarshal path fs =
     (case fs path of
        None \<Rightarrow> Inl ''clicred: read %s: %w''
      | Some b \<Rightarrow> (case unmarshal b of Inl x \<Rightarrow> Inl ''clicred: parse %s: %w'' | Inr c \<Rightarrow> Inr c))"

definition Save ::
  "env \<Rightarrow> (cli_credentials \<Rightarrow> err + string) \<Rightarrow> string \<Rightarrow> string \<Rightarrow> cli_credentials option \<Rightarrow> files \<Rightarrow> (err + unit) \<times> files" where
  "Save e marshal tmp path creds fs =
     (case creds of
        None \<Rightarrow> (Inl ''clicred: nil credentials'', fs)
      | Some c \<Rightarrow>
          if fault e ''clicred: mkdir'' then (Inl ''clicred: mkdir %s: %w'', fs)
          else if fault e ''clicred: chmod'' then (Inl ''clicred: chmod %s: %w'', fs)
          else
            (case marshal c of
               Inl x \<Rightarrow> (Inl ''clicred: marshal: %w'', fs)
             | Inr b \<Rightarrow>
                 if fault e ''clicred: create temp'' then (Inl ''clicred: create temp: %w'', fs)
                 else
                   (let fs = fs(tmp \<mapsto> []); removed = fs(tmp := None) in
                    if fault e ''clicred: chmod temp'' then (Inl ''clicred: chmod temp: %w'', removed)
                    else if fault e ''clicred: write'' then (Inl ''clicred: write: %w'', removed)
                    else
                      (let fs = fs(tmp \<mapsto> b) in
                       if fault e ''clicred: close temp'' then (Inl ''clicred: close temp: %w'', fs(tmp := None))
                       else if fault e ''clicred: rename'' then (Inl ''clicred: rename: %w'', fs(tmp := None))
                       else (Inr (), fs(tmp := None, path \<mapsto> b))))))"

text \<open>Save replaces the file or changes nothing, and Load reads back what yaml reads back.\<close>

lemma Save_atomic:
  assumes "fs tmp = None" "tmp \<noteq> path"
  shows "case Save e marshal tmp path creds fs of
    (Inl _, fs') \<Rightarrow> fs' = fs
  | (Inr _, fs') \<Rightarrow> \<exists>c b. creds = Some c \<and> marshal c = Inr b \<and> fs' = fs(path \<mapsto> b)"
  using assms by (auto simp: Save_def Let_def fun_eq_iff split: option.splits sum.splits)

lemma Save_Load:
  assumes "Save e marshal tmp path (Some c) fs = (Inr u, fs')" "\<And>b. marshal c = Inr b \<Longrightarrow> unmarshal b = Inr c"
  shows "clicred_Load unmarshal path fs' = Inr c"
  using assms by (auto simp: Save_def clicred_Load_def Let_def split: sum.splits if_splits)

datatype cli_error = CliLocal err | CliRpc status

definition dialControl :: "cli_credentials \<Rightarrow> cli_error option" where
  "dialControl creds =
     (if cr_endpoint creds = [] then Some (CliLocal ''quicktun: missing endpoint; run `quicktun login` first'')
      else None)"

definition cli_metadata :: "cli_credentials \<Rightarrow> metadata option" where
  "cli_metadata creds =
     Some \<lparr>md_authorization =
             (if cr_session_token creds = [] then [] else [''Bearer '' @ cr_session_token creds]),
           md_user_agent = [], md_x_forwarded_for = []\<rparr>"

text \<open>\<open>loaded\<close> is what reading the credentials file came to.\<close>

definition loadAndDial :: "err + cli_credentials \<Rightarrow> cli_error + cli_credentials" where
  "loadAndDial loaded =
     (case loaded of
        Inl x \<Rightarrow> Inl (CliLocal ''load credentials: %w (run `quicktun login` first)'')
      | Inr creds \<Rightarrow> (case dialControl creds of Some x \<Rightarrow> Inl x | None \<Rightarrow> Inr creds))"

type_synonym 'w wire = "metadata option \<Rightarrow> request \<Rightarrow> 'w \<Rightarrow> response rpc \<times> 'w"
type_synonym 'w conn = "request \<Rightarrow> 'w \<Rightarrow> (cli_error + response) \<times> 'w"
type_synonym 'w command = "'w conn \<Rightarrow> 'w \<Rightarrow> (cli_error + response) \<times> 'w"

text \<open>
  What becomes of a request on its way: it is never sent, its answer is lost after the server has handled
  it, or the answer is back after some time. Every command gives each of its requests a context with a
  timeout; \<open>within_deadline\<close> is a wire with that timeout, and the wire without it is the one on which
  every answer comes in time. The statuses are grpc's, as is DeadlineExceeded.
\<close>

datatype rpc_fate = NotSent status | AnswerLost status | AnsweredIn duration

definition rpcTimeout :: duration where "rpcTimeout = 10 * second"

fun undelivered :: "rpc_fate \<Rightarrow> status option" where
  "undelivered (NotSent st) = Some st"
| "undelivered (AnswerLost st) = Some st"
| "undelivered (AnsweredIn t) =
     (if t < rpcTimeout then None else Some (Status DeadlineExceeded ''context deadline exceeded''))"

definition within_deadline :: "(request \<Rightarrow> rpc_fate) \<Rightarrow> 'w wire \<Rightarrow> 'w wire" where
  "within_deadline fate call md q w =
     (case fate q of
        NotSent st \<Rightarrow> (Inl st, w)
      | f \<Rightarrow>
          (case call md q w of
             (r, w) \<Rightarrow> (case undelivered f of None \<Rightarrow> (r, w) | Some st \<Rightarrow> (Inl st, w))))"

lemma within_deadline_in_time:
  "\<forall>q. \<exists>t. fate q = AnsweredIn t \<and> t < rpcTimeout \<Longrightarrow> within_deadline fate call = call"
proof (intro ext)
  fix md q w assume "\<forall>q. \<exists>t. fate q = AnsweredIn t \<and> t < rpcTimeout"
  then obtain t where "fate q = AnsweredIn t" "t < rpcTimeout" by blast
  then show "within_deadline fate call md q w = call md q w" by (simp add: within_deadline_def split: prod.split)
qed

lemma within_deadline_cases:
  assumes "within_deadline fate call md q w = (r, w')"
  shows "call md q w = (r, w') \<or>
    (\<exists>st. undelivered (fate q) = Some st \<and> r = Inl st \<and> (w' = w \<or> w' = snd (call md q w)))"
  using assms by (cases "fate q") (auto simp: within_deadline_def split: prod.splits if_splits)

definition with_conn :: "err + cli_credentials \<Rightarrow> 'w wire \<Rightarrow> 'w conn" where
  "with_conn loaded call q w =
     (case loadAndDial loaded of
        Inl x \<Rightarrow> (Inl x, w)
      | Inr creds \<Rightarrow>
          (case call (cli_metadata creds) q w of
             (Inl st, w) \<Rightarrow> (Inl (CliRpc st), w)
           | (Inr r, w) \<Rightarrow> (Inr r, w)))"

text \<open>What the operator typed at a prompt, as one word.\<close>

definition confirmYes :: "string \<Rightarrow> bool" where
  "confirmYes ans \<longleftrightarrow> to_lower (trim_space ans) = ''y''"

definition aborted :: cli_error where "aborted = CliLocal ''aborted''"

subsection \<open>login\<close>

text \<open>
  promptPassword: the answer, or the failure, of the terminal or of standard input. \<open>path\<close> is what the
  flag and DefaultPath come to, \<open>tmp\<close> the name CreateTemp picks, \<open>marshal\<close> yaml's.
\<close>

definition promptPassword :: "err + string \<Rightarrow> err + string" where
  "promptPassword typed = (case typed of Inl x \<Rightarrow> Inl x | Inr b \<Rightarrow> Inr (trim_space b))"

definition newLoginCmd ::
  "env \<Rightarrow> (cli_credentials \<Rightarrow> err + string) \<Rightarrow> string \<Rightarrow> err + string \<Rightarrow> 'w wire \<Rightarrow> string \<Rightarrow> string \<Rightarrow> string \<Rightarrow>
   bool \<Rightarrow> err + string \<Rightarrow> string \<Rightarrow> bool \<Rightarrow> files \<Rightarrow> 'w \<Rightarrow> (cli_error + cli_credentials) \<times> files \<times> 'w" where
  "newLoginCmd e marshal tmp path call endpoint email password readPwd typed authProxy insecure fs w =
     (if endpoint = [] \<or> email = [] then (Inl (CliLocal ''--endpoint and --email are required''), fs, w)
      else
        (case (if password = [] \<and> readPwd then promptPassword typed else Inr password) of
           Inl x \<Rightarrow> (Inl (CliLocal x), fs, w)
         | Inr password \<Rightarrow>
             if password = [] then (Inl (CliLocal ''--password (or --password-stdin) is required''), fs, w)
             else
               (let creds = \<lparr>cr_endpoint = endpoint, cr_auth_proxy_endpoint = [], cr_session_token = [],
                             cr_operator_email = [], cr_tls_insecure = insecure\<rparr>
                in case dialControl creds of
                     Some x \<Rightarrow> (Inl x, fs, w)
                   | None \<Rightarrow>
                       (case call (cli_metadata creds) (LoginRequest email password) w of
                          (Inr (LoginR resp), w) \<Rightarrow>
                            (let creds = creds\<lparr>cr_session_token := lr_access_token resp,
                                               cr_auth_proxy_endpoint := authProxy,
                                               cr_operator_email := email\<rparr>
                             in case path of
                                  Inl x \<Rightarrow> (Inl (CliLocal x), fs, w)
                                | Inr p \<Rightarrow>
                                    (case Save e marshal tmp p (Some creds) fs of
                                       (Inl x, fs) \<Rightarrow> (Inl (CliLocal ''save credentials: %w''), fs, w)
                                     | (Inr _, fs) \<Rightarrow> (Inr creds, fs, w)))
                        | (Inl st, w) \<Rightarrow> (Inl (CliRpc st), fs, w)
                        | (_, w) \<Rightarrow> (Inl (CliLocal ''login: %w''), fs, w)))))"

subsection \<open>project\<close>

text \<open>The zero messages the requests fill in.\<close>

definition zero_project :: project_pb where
  "zero_project = \<lparr>pp_name = [], pp_project_id = [], pp_create_time = 0, pp_update_time = 0,
     pp_display_name = [], pp_relay_port_range = [], pp_status = PROJECT_STATUS_UNSPECIFIED,
     pp_default_mode = SITE_MODE_UNSPECIFIED, pp_backend = BACKEND_UNSPECIFIED\<rparr>"

definition zero_operator :: operator_pb where
  "zero_operator = \<lparr>op_pb_name = [], op_pb_operator_id = [], op_pb_create_time = 0, op_pb_email = [],
     op_pb_is_admin = False\<rparr>"

definition newProjectListCmd :: "'w command" where
  "newProjectListCmd conn = conn (ListProjectsRequest 0 [])"

definition newProjectGetCmd :: "string \<Rightarrow> 'w command" where
  "newProjectGetCmd arg conn = conn (GetProjectRequest (canonicalProjectName arg))"

definition newProjectCreateCmd :: "string \<Rightarrow> string \<Rightarrow> string \<Rightarrow> 'w command" where
  "newProjectCreateCmd arg displayName portRange conn =
     conn (CreateProjectRequest arg
       (Some (zero_project\<lparr>pp_display_name := displayName, pp_relay_port_range := portRange\<rparr>)))"

definition newProjectDeleteCmd :: "string \<Rightarrow> bool \<Rightarrow> string \<Rightarrow> bool \<Rightarrow> 'w command" where
  "newProjectDeleteCmd arg yesFlag ans force conn w =
     (if \<not> yesFlag \<and> \<not> confirmYes ans then (Inl aborted, w)
      else conn (DeleteProjectRequest (canonicalProjectName arg) force) w)"

subsection \<open>site and service\<close>

definition zero_site :: site_pb where
  "zero_site = \<lparr>site_pb.sp_name = [], sp_site_id = [], sp_display_name = [], sp_mode = SITE_MODE_UNSPECIFIED,
     sp_backend = BACKEND_UNSPECIFIED, sp_status = SITE_STATUS_UNSPECIFIED, sp_hostname = [], sp_os = [],
     sp_agent_version = [], sp_create_time = 0, sp_update_time = 0, sp_last_seen_time = None,
     sp_lan_cidrs = []\<rparr>"

definition zero_service :: service_pb where
  "zero_service = \<lparr>vp_name = [], vp_service_id = [], vp_display_name = [], vp_target_addr = [],
     vp_target_port = 0, vp_proto = PROTO_UNSPECIFIED, vp_relay_port = 0, vp_create_time = 0,
     vp_update_time = 0\<rparr>"

definition parseSiteMode :: "string \<Rightarrow> err + site_mode_pb" where
  "parseSiteMode s =
     (if to_lower s = ''endpoint'' then Inr SITE_MODE_ENDPOINT
      else if to_lower s = ''subnet'' then Inr SITE_MODE_SUBNET
      else Inl ''invalid --mode %q (want endpoint or subnet)'')"

definition parseProto :: "string \<Rightarrow> err + proto_pb" where
  "parseProto s =
     (if to_lower s = [] \<or> to_lower s = ''tcp'' then Inr PROTO_TCP
      else if to_lower s = ''udp'' then Inr PROTO_UDP
      else Inl ''invalid --proto %q (want tcp or udp)'')"

definition newSiteListCmd :: "string \<Rightarrow> 'w command" where
  "newSiteListCmd arg conn = conn (ListSitesRequest (canonicalProjectName arg) 0 [])"

definition newSiteGetCmd :: "string \<Rightarrow> 'w command" where
  "newSiteGetCmd arg conn w =
     (case canonicalSiteName arg of
        Inl x \<Rightarrow> (Inl (CliLocal x), w)
      | Inr name \<Rightarrow> conn (GetSiteRequest name) w)"

definition newSiteCreateCmd :: "string \<Rightarrow> string \<Rightarrow> string \<Rightarrow> string \<Rightarrow> 'w command" where
  "newSiteCreateCmd project slug displayName mode conn w =
     (case (if mode = [] then Inr SITE_MODE_UNSPECIFIED else parseSiteMode mode) of
        Inl x \<Rightarrow> (Inl (CliLocal x), w)
      | Inr m \<Rightarrow>
          conn (CreateSiteRequest (canonicalProjectName project) slug
            (Some (zero_site\<lparr>sp_display_name := displayName, sp_mode := m\<rparr>))) w)"

definition newSiteDeleteCmd :: "string \<Rightarrow> bool \<Rightarrow> string \<Rightarrow> bool \<Rightarrow> 'w command" where
  "newSiteDeleteCmd arg yesFlag ans force conn w =
     (case canonicalSiteName arg of
        Inl x \<Rightarrow> (Inl (CliLocal x), w)
      | Inr name \<Rightarrow>
          if \<not> yesFlag \<and> \<not> confirmYes ans then (Inl aborted, w)
          else conn (DeleteSiteRequest name force) w)"

definition newServiceListCmd :: "string \<Rightarrow> 'w command" where
  "newServiceListCmd arg conn w =
     (case canonicalSiteName arg of
        Inl x \<Rightarrow> (Inl (CliLocal x), w)
      | Inr parent \<Rightarrow> conn (ListServicesRequest parent 0 []) w)"

definition newServiceGetCmd :: "string \<Rightarrow> 'w command" where
  "newServiceGetCmd arg conn w =
     (case canonicalServiceName arg of
        Inl x \<Rightarrow> (Inl (CliLocal x), w)
      | Inr name \<Rightarrow> conn (GetServiceRequest name) w)"

definition newServiceCreateCmd ::
  "string \<Rightarrow> string \<Rightarrow> string \<Rightarrow> string \<Rightarrow> 32 word \<Rightarrow> string \<Rightarrow> 'w command" where
  "newServiceCreateCmd site slug displayName targetAddr targetPort protoStr conn w =
     (case canonicalSiteName site of
        Inl x \<Rightarrow> (Inl (CliLocal x), w)
      | Inr parent \<Rightarrow>
          (case parseProto protoStr of
             Inl x \<Rightarrow> (Inl (CliLocal x), w)
           | Inr p \<Rightarrow>
               conn (CreateServiceRequest parent slug
                 (Some (zero_service\<lparr>vp_display_name := displayName, vp_target_addr := targetAddr,
                                     vp_target_port := targetPort, vp_proto := p\<rparr>))) w))"

definition newServiceDeleteCmd :: "string \<Rightarrow> bool \<Rightarrow> string \<Rightarrow> 'w command" where
  "newServiceDeleteCmd arg yesFlag ans conn w =
     (case canonicalServiceName arg of
        Inl x \<Rightarrow> (Inl (CliLocal x), w)
      | Inr name \<Rightarrow>
          if \<not> yesFlag \<and> \<not> confirmYes ans then (Inl aborted, w)
          else conn (DeleteServiceRequest name) w)"

definition serviceRow :: "service_pb \<Rightarrow> string list" where
  "serviceRow s =
     [vp_name s, vp_display_name s,
      vp_target_addr s @ '':'' @ format_uint (unat (vp_target_port s)),
      (case vp_proto s of PROTO_UNSPECIFIED \<Rightarrow> ''PROTO_UNSPECIFIED'' | PROTO_TCP \<Rightarrow> ''PROTO_TCP''
       | PROTO_UDP \<Rightarrow> ''PROTO_UDP''),
      format_uint (unat (vp_relay_port s))]"

subsection \<open>operator\<close>

definition newOperatorListCmd :: "'w command" where
  "newOperatorListCmd conn = conn (ListOperatorsRequest 0 [])"

definition newOperatorGetCmd :: "string \<Rightarrow> 'w command" where
  "newOperatorGetCmd arg conn = conn (GetOperatorRequest (canonicalOperatorName arg))"

definition newOperatorCreateCmd :: "string \<Rightarrow> string \<Rightarrow> bool \<Rightarrow> 'w command" where
  "newOperatorCreateCmd email password isAdmin conn w =
     (if email = [] \<or> password = [] then (Inl (CliLocal ''--email and --password are required''), w)
      else conn (CreateOperatorRequest
             (Some (zero_operator\<lparr>op_pb_email := email, op_pb_is_admin := isAdmin\<rparr>)) password) w)"

definition newOperatorDeleteCmd :: "string \<Rightarrow> bool \<Rightarrow> string \<Rightarrow> 'w command" where
  "newOperatorDeleteCmd arg yesFlag ans conn w =
     (if \<not> yesFlag \<and> \<not> confirmYes ans then (Inl aborted, w)
      else conn (DeleteOperatorRequest (canonicalOperatorName arg)) w)"

definition newOperatorSetAdminCmd :: "string \<Rightarrow> bool \<Rightarrow> 'w command" where
  "newOperatorSetAdminCmd arg isAdmin conn =
     conn (UpdateOperatorRequest
       (Some (zero_operator\<lparr>op_pb_name := canonicalOperatorName arg, op_pb_is_admin := isAdmin\<rparr>))
       ''is_admin'' [])"

definition newOperatorSetPasswordCmd :: "string \<Rightarrow> string \<Rightarrow> 'w command" where
  "newOperatorSetPasswordCmd arg password conn w =
     (if password = [] then (Inl (CliLocal ''--password is required''), w)
      else conn (UpdateOperatorRequest
             (Some (zero_operator\<lparr>op_pb_name := canonicalOperatorName arg\<rparr>)) ''password'' password) w)"

definition newOperatorGrantCmd :: "string \<Rightarrow> string \<Rightarrow> string \<Rightarrow> 'w command" where
  "newOperatorGrantCmd arg projectSlug role conn w =
     (if role = [] then (Inl (CliLocal ''--role is required (one of: viewer, operator, owner)''), w)
      else conn (GrantProjectAccessRequest (canonicalOperatorName arg) projectSlug role) w)"

definition newOperatorRevokeCmd :: "string \<Rightarrow> string \<Rightarrow> 'w command" where
  "newOperatorRevokeCmd arg projectSlug conn =
     conn (RevokeProjectAccessRequest (canonicalOperatorName arg) projectSlug)"

definition newOperatorAccessCmd :: "string \<Rightarrow> 'w command" where
  "newOperatorAccessCmd arg conn = conn (ListProjectAccessRequest (canonicalOperatorName arg))"

subsection \<open>token and status\<close>

text \<open>An operator's name, the caller's own when none is given (the callers pass fallbackToSelf).\<close>

definition resolveOperatorName :: "string \<Rightarrow> 'w conn \<Rightarrow> 'w \<Rightarrow> (cli_error + string) \<times> 'w" where
  "resolveOperatorName arg conn w =
     (if arg \<noteq> [] then (Inr (canonicalOperatorName arg), w)
      else
        (case conn WhoAmIRequest w of
           (Inr (OperatorR op), w) \<Rightarrow> (Inr (op_pb_name op), w)
         | (Inr _, w) \<Rightarrow> (Inr [], w)
         | (Inl x, w) \<Rightarrow> (Inl x, w)))"

definition newTokenListCmd :: "string \<Rightarrow> 'w command" where
  "newTokenListCmd arg conn w =
     (case resolveOperatorName arg conn w of
        (Inl x, w) \<Rightarrow> (Inl x, w)
      | (Inr name, w) \<Rightarrow> conn (ListServiceAccountTokensRequest name) w)"

text \<open>
  \<open>int64(ttl.Seconds())\<close>: whole seconds, toward zero. Seconds adds the fraction to the whole seconds
  as float64s, so the sum may round up to the next second: exactly when the fraction misses it by no
  more than half the distance of the float64s below it (ties go to the even one, the whole second).
\<close>

definition rounds_up :: "int \<Rightarrow> int \<Rightarrow> bool" where
  "rounds_up s n \<longleftrightarrow> (second - n) * 2 ^ 54 \<le> second * 2 ^ nat (bitlen s)"

definition whole_seconds :: "duration \<Rightarrow> int" where
  "whole_seconds ttl =
     (let s = \<bar>ttl\<bar> div second; n = \<bar>ttl\<bar> mod second;
          t = (if rounds_up s n then s + 1 else s)
      in if ttl < 0 then - t else t)"

definition newTokenCreateCmd :: "string \<Rightarrow> string \<Rightarrow> duration \<Rightarrow> 'w command" where
  "newTokenCreateCmd arg description ttl conn w =
     (case resolveOperatorName arg conn w of
        (Inl x, w) \<Rightarrow> (Inl x, w)
      | (Inr name, w) \<Rightarrow>
          conn (CreateServiceAccountTokenRequest name description (word_of_int (whole_seconds ttl))) w)"

text \<open>Sscanf with \<open>%d\<close>: white space without a newline, then the digits there are; what follows
  them is not looked at.\<close>

definition parseUintArg :: "string \<Rightarrow> nat option" where
  "parseUintArg s =
     (let t = trim_left s
      in if CHR 0x0A \<in> set (take (length s - length t) s) then None
         else parse_uint 64 (takeWhile is_digit t))"

definition newTokenRevokeCmd :: "string \<Rightarrow> bool \<Rightarrow> string \<Rightarrow> 'w command" where
  "newTokenRevokeCmd arg yesFlag ans conn w =
     (case parseUintArg arg of
        None \<Rightarrow> (Inl (CliLocal ''invalid token id %q: %w''), w)
      | Some i \<Rightarrow>
          if \<not> yesFlag \<and> \<not> confirmYes ans then (Inl aborted, w)
          else conn (RevokeServiceAccountTokenRequest i) w)"

definition newStatusCmd :: "'w command" where
  "newStatusCmd conn = conn GetSystemStatusRequest"

subsection \<open>forward\<close>

text \<open>What the listener needs: the proxy's address, the session token and the CONNECT target.\<close>

definition newForwardCmd ::
  "string \<Rightarrow> err + cli_credentials \<Rightarrow> 'w wire \<Rightarrow> 'w \<Rightarrow> (cli_error + (string \<times> string \<times> string)) \<times> 'w" where
  "newForwardCmd arg loaded call w =
     (case canonicalServiceName arg of
        Inl x \<Rightarrow> (Inl (CliLocal x), w)
      | Inr name \<Rightarrow>
          (case loadAndDial loaded of
             Inl x \<Rightarrow> (Inl x, w)
           | Inr creds \<Rightarrow>
               if cr_auth_proxy_endpoint creds = []
               then (Inl (CliLocal ''credentials missing auth_proxy_endpoint; re-run `quicktun login --auth-proxy <addr>`''), w)
               else
                 (case call (cli_metadata creds) (GetServiceRequest name) w of
                    (Inr (ServiceR svc), w) \<Rightarrow>
                      if vp_relay_port svc = 0
                      then (Inl (CliLocal ''service %s has no allocated relay port''), w)
                      else (Inr (cr_auth_proxy_endpoint creds, cr_session_token creds,
                                 ''127.0.0.1:'' @ format_uint (unat (vp_relay_port svc))), w)
                  | (Inl st, w) \<Rightarrow> (Inl (CliRpc st), w)
                  | (_, w) \<Rightarrow> (Inl (CliLocal ''get service: %w''), w))))"

text \<open>The request handleForward writes for each connection; it goes on only after a 200.\<close>

definition handleForward :: "string \<Rightarrow> string \<Rightarrow> connect_request" where
  "handleForward token target =
     \<lparr>rq_method = ''CONNECT'', rq_authorization = ''Bearer '' @ token, rq_host = target\<rparr>"

subsection \<open>The command tree (main.go)\<close>

datatype cli_command =
    CliProjectList | CliProjectGet string | CliProjectCreate string string string
  | CliProjectDelete string bool string bool
  | CliSiteList string | CliSiteGet string | CliSiteCreate string string string string
  | CliSiteDelete string bool string bool
  | CliServiceList string | CliServiceGet string
  | CliServiceCreate string string string string "32 word" string | CliServiceDelete string bool string
  | CliOperatorList | CliOperatorGet string | CliOperatorCreate string string bool
  | CliOperatorDelete string bool string | CliOperatorSetAdmin string bool
  | CliOperatorSetPassword string string | CliOperatorGrant string string string
  | CliOperatorRevoke string string | CliOperatorAccess string
  | CliTokenList string | CliTokenCreate string string duration | CliTokenRevoke string bool string
  | CliStatus

fun cli_run :: "cli_command \<Rightarrow> 'w command" where
  "cli_run CliProjectList = newProjectListCmd"
| "cli_run (CliProjectGet n) = newProjectGetCmd n"
| "cli_run (CliProjectCreate s d r) = newProjectCreateCmd s d r"
| "cli_run (CliProjectDelete n y a f) = newProjectDeleteCmd n y a f"
| "cli_run (CliSiteList p) = newSiteListCmd p"
| "cli_run (CliSiteGet n) = newSiteGetCmd n"
| "cli_run (CliSiteCreate p s d m) = newSiteCreateCmd p s d m"
| "cli_run (CliSiteDelete n y a f) = newSiteDeleteCmd n y a f"
| "cli_run (CliServiceList p) = newServiceListCmd p"
| "cli_run (CliServiceGet n) = newServiceGetCmd n"
| "cli_run (CliServiceCreate p s d ad po pr) = newServiceCreateCmd p s d ad po pr"
| "cli_run (CliServiceDelete n y a) = newServiceDeleteCmd n y a"
| "cli_run CliOperatorList = newOperatorListCmd"
| "cli_run (CliOperatorGet n) = newOperatorGetCmd n"
| "cli_run (CliOperatorCreate em pw ad) = newOperatorCreateCmd em pw ad"
| "cli_run (CliOperatorDelete n y a) = newOperatorDeleteCmd n y a"
| "cli_run (CliOperatorSetAdmin n ad) = newOperatorSetAdminCmd n ad"
| "cli_run (CliOperatorSetPassword n pw) = newOperatorSetPasswordCmd n pw"
| "cli_run (CliOperatorGrant n p r) = newOperatorGrantCmd n p r"
| "cli_run (CliOperatorRevoke n p) = newOperatorRevokeCmd n p"
| "cli_run (CliOperatorAccess n) = newOperatorAccessCmd n"
| "cli_run (CliTokenList n) = newTokenListCmd n"
| "cli_run (CliTokenCreate n d t) = newTokenCreateCmd n d t"
| "cli_run (CliTokenRevoke i y a) = newTokenRevokeCmd i y a"
| "cli_run CliStatus = newStatusCmd"

subsection \<open>The names the client makes are the names the server reads\<close>

lemma slug_nonempty: "slug_grammar s \<Longrightarrow> s \<noteq> []"
  by (auto simp: slug_grammar_def)

lemma slug_no_slash: "slug_grammar s \<Longrightarrow> slash \<notin> set s"
  using valid_slug_no_slash validate_slug_iff by simp

lemma service_name_text:
  "format_service_name p t v = ''projects/'' @ p @ ''/sites/'' @ t @ ''/services/'' @ v"
  by (simp add: format_service_name_def collectionProjects_def collectionSites_def collectionServices_def slash_def)

lemma split_service_name:
  assumes "slash \<notin> set p" "slash \<notin> set t" "slash \<notin> set v"
  shows "split_on slash (format_service_name p t v) =
    [collectionProjects, p, collectionSites, t, collectionServices, v]"
  using assms by (simp add: format_service_name_def split_on_append split_on_no_sep)

text \<open>The two forms canonicalServiceName takes, of any three non-empty parts.\<close>

lemma canonicalServiceName_forms:
  assumes "slash \<notin> set p" "slash \<notin> set t" "slash \<notin> set v" "p \<noteq> []" "t \<noteq> []" "v \<noteq> []"
  shows "canonicalServiceName (p @ slash # t @ slash # v) = Inr (format_service_name p t v)"
    and "canonicalServiceName (format_service_name p t v) = Inr (format_service_name p t v)"
proof -
  have "split_on slash (p @ slash # t @ slash # v) = [p, t, v]"
    using assms(1-3) by (simp add: split_on_append split_on_no_sep)
  then show "canonicalServiceName (p @ slash # t @ slash # v) = Inr (format_service_name p t v)"
    using assms(4-6) by (simp add: canonicalServiceName_def service_name_text)
  show "canonicalServiceName (format_service_name p t v) = Inr (format_service_name p t v)"
    using assms split_service_name [OF assms(1-3)]
    by (simp add: canonicalServiceName_def collectionProjects_def collectionSites_def collectionServices_def)
qed

lemma canonicalServiceName_Inr:
  assumes "canonicalServiceName s = Inr x"
  shows "(\<exists>p t v. s = p @ slash # t @ slash # v \<and> x = format_service_name p t v \<and>
      slash \<notin> set p \<and> slash \<notin> set t \<and> slash \<notin> set v) \<or> x = s"
proof -
  have parts: "slash \<notin> set q" if "q \<in> set (split_on slash s)" for q
    using split_on_parts that by blast
  from assms consider a b c where "split_on slash s = [a, b, c]"
      "x = ''projects/'' @ a @ ''/sites/'' @ b @ ''/services/'' @ c" | "x = s"
    unfolding canonicalServiceName_def by (auto split: list.splits if_splits)
  then show ?thesis
  proof cases
    case 1
    then have "s = a @ slash # b @ slash # c" using join_split_on [of slash s] by simp
    then show ?thesis using 1 parts by (auto simp: service_name_text)
  qed simp
qed

text \<open>
  The command line and the server agree on service names: what an operator types is sent as a
  name the server reads as project \<open>p\<close>, site \<open>t\<close>, service \<open>v\<close> exactly when the three are slugs and
  what was typed is \<open>p/t/v\<close> or the full name; nothing else reaches a service.
\<close>
theorem cli_service_name_spec:
  "(\<exists>x. canonicalServiceName s = Inr x \<and>
      parse_service_name x = Inr \<lparr>vn_project = p, vn_site = t, vn_service = v\<rparr>) \<longleftrightarrow>
    slug_grammar p \<and> slug_grammar t \<and> slug_grammar v \<and>
    (s = p @ slash # t @ slash # v \<or> s = format_service_name p t v)"
proof
  assume "\<exists>x. canonicalServiceName s = Inr x \<and>
      parse_service_name x = Inr \<lparr>vn_project = p, vn_site = t, vn_service = v\<rparr>"
  then obtain x where x: "canonicalServiceName s = Inr x" "slug_grammar p" "slug_grammar t" "slug_grammar v"
    "x = format_service_name p t v"
    unfolding parse_service_name_iff by auto
  note ns = x(2-4) [THEN slug_no_slash]
  from canonicalServiceName_Inr [OF x(1)]
  show "slug_grammar p \<and> slug_grammar t \<and> slug_grammar v \<and>
    (s = p @ slash # t @ slash # v \<or> s = format_service_name p t v)"
  proof (elim disjE exE conjE)
    fix p' t' v'
    assume s: "s = p' @ slash # t' @ slash # v'" "x = format_service_name p' t' v'"
      and n': "slash \<notin> set p'" "slash \<notin> set t'" "slash \<notin> set v'"
    have "[p', t', v'] = [p, t, v]"
      using split_service_name [OF ns] split_service_name [OF n'] x(5) s(2) by simp
    then show ?thesis using x(2-4) s(1) by simp
  qed (use x in simp)
next
  assume a: "slug_grammar p \<and> slug_grammar t \<and> slug_grammar v \<and>
    (s = p @ slash # t @ slash # v \<or> s = format_service_name p t v)"
  then have "canonicalServiceName s = Inr (format_service_name p t v)"
    using canonicalServiceName_forms [of p t v] slug_no_slash slug_nonempty by blast
  then show "\<exists>x. canonicalServiceName s = Inr x \<and>
      parse_service_name x = Inr \<lparr>vn_project = p, vn_site = t, vn_service = v\<rparr>"
    using a parse_service_name_iff by simp
qed

subsection \<open>Lifetimes\<close>

lemma rounds_up_near:
  assumes "rounds_up s n" "n < second" "0 \<le> s" "s < 2 ^ 34"
  shows "0 < s" "second - n < 1000"
proof -
  have "nat (bitlen s) \<le> 34" using assms(3,4) bitlen_le_iff_power [of s 34] by simp
  then have "(2 :: int) ^ nat (bitlen s) \<le> 2 ^ 34" by (intro power_increasing) simp_all
  then show "second - n < 1000" using assms(1) by (simp add: rounds_up_def second_def)
  show "0 < s"
  proof (rule ccontr)
    assume "\<not> 0 < s"
    then have "s = 0" using assms(3) by simp
    then show False using assms(1,2) by (simp add: rounds_up_def second_def bitlen_def floorlog_def)
  qed
qed

lemma whole_seconds_near:
  assumes "- (2 ^ 63) \<le> ttl" "ttl < 2 ^ 63"
  shows "\<bar>whole_seconds ttl\<bar> \<le> 9223372036" "\<bar>ttl\<bar> - second < \<bar>whole_seconds ttl * second\<bar>"
    "\<bar>whole_seconds ttl * second\<bar> < \<bar>ttl\<bar> + 1000" "ttl < second \<Longrightarrow> whole_seconds ttl \<le> 0"
proof -
  define s n where sn: "s = \<bar>ttl\<bar> div second" "n = \<bar>ttl\<bar> mod second"
  have t: "\<bar>ttl\<bar> = s * second + n" "0 \<le> n" "n < second" "0 \<le> s" "\<bar>ttl\<bar> \<le> 2 ^ 63"
    using assms unfolding sn by (simp_all add: second_def)
  then have lt: "s < 2 ^ 34" by (simp add: second_def)
  note up = rounds_up_near [OF _ t(3,4) lt]
  have w: "\<bar>whole_seconds ttl\<bar> = (if rounds_up s n then s + 1 else s)"
    using t(4) by (simp add: whole_seconds_def Let_def sn [symmetric])
  have b: "\<bar>whole_seconds ttl\<bar> \<le> 9223372036 \<and> \<bar>ttl\<bar> - second < \<bar>whole_seconds ttl\<bar> * second \<and>
      \<bar>whole_seconds ttl\<bar> * second < \<bar>ttl\<bar> + 1000"
    using t up(2) unfolding w second_def by (cases "rounds_up s n") auto
  then show "\<bar>whole_seconds ttl\<bar> \<le> 9223372036" "\<bar>ttl\<bar> - second < \<bar>whole_seconds ttl * second\<bar>"
    "\<bar>whole_seconds ttl * second\<bar> < \<bar>ttl\<bar> + 1000"
    by (simp_all add: abs_mult second_def)
  show "whole_seconds ttl \<le> 0" if "ttl < second"
  proof (cases "ttl < 0")
    case True
    then show ?thesis using t(4) unfolding sn by (simp add: whole_seconds_def Let_def)
  next
    case False
    then have "s = 0" using that by (simp add: sn second_def)
    then show ?thesis using up(1) False unfolding sn by (auto simp: whole_seconds_def Let_def)
  qed
qed

lemma ttl_of_whole_seconds:
  assumes "- (2 ^ 63) \<le> ttl" and "ttl < 2 ^ 63"
  shows "ttl_of_seconds (word_of_int (whole_seconds ttl)) = whole_seconds ttl * second"
proof -
  have "word_of_int (whole_seconds ttl) * (1000000000 :: 64 word) = word_of_int (whole_seconds ttl * 1000000000)"
    by simp
  then have m: "sint (word_of_int (whole_seconds ttl) * (1000000000 :: 64 word)) =
      signed_take_bit 63 (whole_seconds ttl * 1000000000)"
    by (simp add: sint_sbintrunc' del: of_int_mult)
  show ?thesis
    using whole_seconds_near(1) [OF assms] unfolding ttl_of_seconds_def m second_def
    by (intro signed_take_bit_int_eq_self) auto
qed

text \<open>
  C40. The lifetime given to \<open>token create\<close> never overflows on the server: for every duration an
  int64 of nanoseconds can hold, the lifetime the server computes is a whole number of seconds, the
  duration cut off at a second (or, by float64 rounding, up to a microsecond over it). But one of
  less than a second comes out as zero, which is a token that never expires.
\<close>
theorem cli_ttl_exact:
  assumes "- (2 ^ 63) \<le> ttl" and "ttl < 2 ^ 63"
  shows "ttl_of_seconds (word_of_int (whole_seconds ttl)) = whole_seconds ttl * second \<and>
    \<bar>ttl\<bar> - second < \<bar>whole_seconds ttl * second\<bar> \<and>
    \<bar>whole_seconds ttl * second\<bar> < \<bar>ttl\<bar> + 1000 \<and>
    (ttl < second \<longrightarrow> sa_token_issue e i desc (ttl_of_seconds (word_of_int (whole_seconds ttl))) d =
        (Inr (r, raw), d') \<longrightarrow> sa_expires_at r = None)"
proof -
  note near = whole_seconds_near [OF assms]
  have "ttl_of_seconds (word_of_int (whole_seconds ttl)) = whole_seconds ttl * second"
    by (rule ttl_of_whole_seconds [OF assms])
  moreover have "sa_expires_at r = None"
    if "ttl < second" "sa_token_issue e i desc t d = (Inr (r, raw), d')" "t = whole_seconds ttl * second" for t
  proof -
    have "t \<le> 0" using near(4) [OF that(1)] that(3) by (simp add: second_def)
    then show ?thesis using that(2)
      by (auto simp: sa_token_issue_def Let_def tbl_append_def sa_stamp_def
          split: option.splits prod.splits if_splits)
  qed
  ultimately show ?thesis using near(2,3) by auto
qed

text \<open>Half a second, for the example's administrator.\<close>

theorem cli_ttl_exact_witness:
  "\<exists>r raw d'. sa_token_issue ex_env 1 [] (ttl_of_seconds (word_of_int (whole_seconds 500000000))) ex_db =
     (Inr (r, raw), d') \<and> sa_expires_at r = None"
proof -
  have z: "ttl_of_seconds (word_of_int (whole_seconds 500000000)) = 0"
    by (simp add: whole_seconds_def rounds_up_def Let_def second_def ttl_of_seconds_def)
  have h: "hash_token raw \<noteq> ''sa''" for raw using hash_token_length [of raw] by auto
  obtain r raw d' where i: "sa_token_issue ex_env 1 [] 0 ex_db = (Inr (r, raw), d')"
    using h [symmetric] by (auto simp: sa_token_issue_def tbl_append_def conflicts_def Let_def)
  from cli_ttl_exact [of 500000000 ex_env 1 "[]" ex_db r raw d'] i z show ?thesis
    by (simp add: second_def)
qed

end
