(* ===== verification/CliServer.thy ===== *)
theory CliServer
  imports OperatorCli
begin

section \<open>The operator's commands against the server\<close>

text \<open>
  The commands of OperatorCli with the control plane's \<open>serve\<close> and the proxy's \<open>handle\<close> at the other
  end: forward reaches the service's relay port, what login stored opens the server to the commands
  after it, and a command that fails has changed nothing.
\<close>

subsection \<open>forward, through the server and the proxy\<close>

lemma cli_bearer:
  "cr_session_token creds \<noteq> [] \<Longrightarrow> list_all solid (cr_session_token creds) \<Longrightarrow>
     extract_bearer ((raw_ctx (cli_metadata creds))\<lparr>cx_source_ip := ip\<rparr>) = cr_session_token creds"
  by (simp add: extract_bearer_def raw_ctx_def cli_metadata_def bearer_prefix_def has_prefix_def
      trim_space_all_solid)

text \<open>A session of a live operator, at the server and at the proxy.\<close>

lemma session_validates:
  assumes "\<not> fault e ''dao: session lookup''" "\<not> fault e ''dao: session operator lookup''"
    and "tbl_wf (t_operators d)" "session_owner (now e) tok d = Some (ID op)"
    and "op \<in> set (rows (t_operators d))" "live op"
  shows "session_validate e tok d = Inr op"
  using assms(1,2,4) first_live_ID [OF assms(3,5,6)]
  by (auto simp: session_validate_def session_owner_def split: option.splits)

lemma serve_session:
  assumes "session_validate e (cr_session_token creds) (wdb w) = Inr op"
    and "cr_session_token creds \<noteq> []" "list_all solid (cr_session_token creds)"
    and "method_of q \<noteq> login_method" "\<not> is_agent_request q"
  shows "serve cfg rm e peer (cli_metadata creds) q w =
    dispatch cfg rm e q (operator_ctx peer op (raw_ctx (cli_metadata creds))) w"
proof -
  have "\<not> has_prefix agent_service_prefix (method_of q)" using assms(5) by (simp add: is_agent_request_def)
  then show ?thesis
    using assms(1,4) cli_bearer [OF assms(2,3)] cli_bearer [OF assms(2,3), of "cx_source_ip (raw_ctx (cli_metadata creds))"]
    unfolding serve_def server_chain_operator [OF \<open>\<not> has_prefix _ _\<close>]
    by (simp add: unary_interceptor_def server_validators_def operator_ctx_def assms(2)
        WithRawToken_def WithOperator_def Let_def)
qed

lemma first_live_and: "first_live P t = Some z \<Longrightarrow> Q z \<Longrightarrow> first_live (\<lambda>x. P x \<and> Q x) t = Some z"
  unfolding first_live_def by (induction "rows t") (auto simp: find_Some_iff)

lemma handle_session:
  assumes "\<forall>s. \<not> fault e s" "db_wf d" "session_owner (now e) tok d = Some (ID op)"
    and "agent_owner (now e) tok d = None" "tok \<noteq> []"
    and "op \<in> set (rows (t_operators d))" "live op"
    and "routeOperator e (ID op) (op_is_admin op) target d = Inr target"
  shows "handle e (Some (handleForward tok target)) d = ((200, Some target), d)"
proof -
  obtain z where z: "first_live (session_active (now e) tok) (t_sessions d) = Some z" "se_operator_id z = ID op"
    using assms(3) by (auto simp: session_owner_def)
  have op: "first_live (\<lambda>x. ID x = ID op) (t_operators d) = Some op"
    by (rule first_live_ID [OF db_wfD(1) [OF assms(2)] assms(6,7)])
  have "first_live (\<lambda>s. session_active (now e) tok s \<and>
      first_live (\<lambda>x. ID x = se_operator_id s) (t_operators d) \<noteq> None) (t_sessions d) = Some z"
    by (rule first_live_and [OF z(1)]) (simp add: z(2) op)
  then have v: "session_validate_raw e tok d = Inr (ID op, op_is_admin op)"
    using assms(1) z(2) op by (simp add: session_validate_raw_def)
  have "site_token_validate_raw e tok d = (Inl ErrInvalidToken, d)"
    using assms(1,4) by (simp add: site_token_validate_raw_def agent_owner_def)
  then have "Route e tok target d = (Inr target, d)"
    using assms(5,8) v by (simp add: Route_def)
  then show ?thesis using assms(1) by (simp add: handle_def handleForward_def bearer_connect [simplified])
qed

text \<open>The server resolves the full name of a live service for a member.\<close>

lemma resolve_service_member:
  assumes "\<forall>s. \<not> fault e s" "db_wf d" "cx_operator cx = Some op"
    and "p \<in> set (rows (t_projects d))" "live p" "slug_grammar (pr_slug p)"
    and "s \<in> set (rows (t_sites d))" "live s" "si_project_id s = ID p" "slug_grammar (si_name s)"
    and "v \<in> set (rows (t_services d))" "live v" "sv_site_id v = ID s" "slug_grammar (sv_name v)"
    and "op_is_admin op \<or> granted (ID op) (ID p) d"
  shows "resolve_service e cx (format_service_name (pr_slug p) (si_name s) (sv_name v)) d = Inr (p, s, v)"
proof -
  note wf = db_wfD [OF assms(2)]
  have "first_live (\<lambda>x. pr_slug x = pr_slug p) (t_projects d) = Some p"
    by (rule first_live_key [OF wf(3,12) assms(4,5) refl])
  moreover have "first_live (\<lambda>x. si_project_id x = ID p \<and> si_name x = si_name s) (t_sites d) = Some s"
    using first_live_key [OF wf(5,14) assms(7,8) refl] assms(9) by simp
  moreover have "first_live (\<lambda>x. sv_site_id x = ID s \<and> sv_name x = sv_name v) (t_services d) = Some v"
    using first_live_key [OF wf(7,17) assms(11,12) refl] assms(13) by simp
  moreover have "parse_service_name (format_service_name (pr_slug p) (si_name s) (sv_name v)) =
      Inr \<lparr>vn_project = pr_slug p, vn_site = si_name s, vn_service = sv_name v\<rparr>"
    using assms(6,10,14) parse_service_name_iff by simp
  ultimately show ?thesis
    using assms(1,3,15) by (auto simp: resolve_service_def project_find_by_slug_def site_find_by_name_def
        service_find_by_name_def has_project_access_def)
qed

text \<open>What forward asks the server for, and what the proxy does with the request it then sends.\<close>

lemma forward_resolves:
  assumes "\<forall>s. \<not> fault e s" and "db_wf (wdb w)"
    and "session_owner (now e) (cr_session_token creds) (wdb w) = Some (ID op)"
    and "op \<in> set (rows (t_operators (wdb w)))" and "live op"
    and "cr_session_token creds \<noteq> []" and "list_all solid (cr_session_token creds)"
    and "cr_endpoint creds \<noteq> []" and "cr_auth_proxy_endpoint creds \<noteq> []"
    and "p \<in> set (rows (t_projects (wdb w)))" and "live p" and "slug_grammar (pr_slug p)"
    and "op_is_admin op \<or> granted (ID op) (ID p) (wdb w)"
    and "s \<in> set (rows (t_sites (wdb w)))" and "live s" and "si_project_id s = ID p" and "slug_grammar (si_name s)"
    and "v \<in> set (rows (t_services (wdb w)))" and "live v" and "sv_site_id v = ID s" and "slug_grammar (sv_name v)"
    and "sv_relay_port v = Some q" and "q \<noteq> 0"
  shows "newForwardCmd (pr_slug p @ slash # si_name s @ slash # sv_name v) (Inr creds) (serve cfg rm e peer) w =
      (Inr (cr_auth_proxy_endpoint creds, cr_session_token creds, loopback @ [colon] @ format_uint (unat q)), w)"
proof -
  let ?name = "format_service_name (pr_slug p) (si_name s) (sv_name v)"
  let ?cx = "operator_ctx peer op (raw_ctx (cli_metadata creds))"
  note slugs = assms(12,17,21)
  have n: "canonicalServiceName (pr_slug p @ slash # si_name s @ slash # sv_name v) = Inr ?name"
    by (rule canonicalServiceName_forms(1) [OF slugs [THEN slug_no_slash] slugs [THEN slug_nonempty]])
  have r: "resolve_service e ?cx ?name (wdb w) = Inr (p, s, v)"
    by (rule resolve_service_member [OF assms(1,2) _ assms(10-12,14-21,13)]) (simp add: operator_ctx_def)
  have "serve cfg rm e peer (cli_metadata creds) (GetServiceRequest ?name) w =
      dispatch cfg rm e (GetServiceRequest ?name) ?cx w"
  proof (rule serve_session)
    show "session_validate e (cr_session_token creds) (wdb w) = Inr op"
      using assms(1) by (intro session_validates [OF _ _ db_wfD(1) [OF assms(2)] assms(3-5)]) simp_all
  qed (simp_all add: assms(6,7) login_method_iff is_agent_request_cases)
  then have g: "serve cfg rm e peer (cli_metadata creds) (GetServiceRequest ?name) w =
      (Inr (ServiceR (service_to_proto p s v)), w)"
    using r by (simp add: get_service_def reply_def)
  have port: "vp_relay_port (service_to_proto p s v) = ucast q"
    using assms(22) by (simp add: service_to_proto_def)
  have u: "unat (ucast q :: 32 word) = unat q" by (rule port_up)
  have nz: "ucast q \<noteq> (0 :: 32 word)"
  proof
    assume "ucast q = (0 :: 32 word)"
    then have "unat q = 0" using u by simp
    then show False using assms(23) by (simp add: unat_eq_0)
  qed
  show ?thesis
    using n g port u nz assms(8,9)
    by (simp add: newForwardCmd_def loadAndDial_def dialControl_def loopback_def colon_def)
qed

lemma forward_dials:
  assumes "\<forall>s. \<not> fault e s" and "db_wf d" and "session_owner (now e) tok d = Some (ID op)"
    and "agent_owner (now e) tok d = None" and "op \<in> set (rows (t_operators d))" and "live op" and "tok \<noteq> []"
    and "p \<in> set (rows (t_projects d))" and "live p" and "pr_status p = ProjectStatusActive"
    and "op_is_admin op \<or> granted (ID op) (ID p) d"
    and "s \<in> set (rows (t_sites d))" and "live s" and "si_project_id s = ID p"
    and "v \<in> set (rows (t_services d))" and "live v" and "sv_site_id v = ID s" and "sv_relay_port v = Some q"
    and "\<forall>u\<in>set (rows (t_services d)). live u \<longrightarrow> sv_relay_port u = Some q \<longrightarrow> u = v"
  shows "handle e (Some (handleForward tok (loopback @ [colon] @ format_uint (unat q)))) d =
    ((200, Some (loopback @ [colon] @ format_uint (unat q))), d)"
proof -
  let ?target = "loopback @ [colon] @ format_uint (unat q)"
  have "serves d q p" unfolding serves_def using assms(8-10,12-18) by metis
  then have "routeOperator e (ID op) (op_is_admin op) ?target d = Inr ?target"
    using assms(19) by (intro route_admits_member [OF assms(1) db_wfD(7,5,3) [OF assms(2)] _ assms(11)]) auto
  then show ?thesis by (rule handle_session [OF assms(1-4,7,5,6)])
qed

text \<open>
  C4. \<open>quicktun forward\<close> gets through: an operator with a session that may see the project types
  \<open>p/t/v\<close> for a live service with a relay port on a live site of an active project. Then the server
  answers with the port, and the proxy, given the request the command sends for a connection, dials
  exactly 127.0.0.1 and that port, provided no other live service row has the port and the session
  token is no agent's.
\<close>
theorem forward_end_to_end:
  assumes "\<forall>s. \<not> fault e s" and "db_wf (wdb w)"
    and "session_owner (now e) (cr_session_token creds) (wdb w) = Some (ID op)"
    and "agent_owner (now e) (cr_session_token creds) (wdb w) = None"
    and "op \<in> set (rows (t_operators (wdb w)))" and "live op"
    and "cr_session_token creds \<noteq> []" and "list_all solid (cr_session_token creds)"
    and "cr_endpoint creds \<noteq> []" and "cr_auth_proxy_endpoint creds \<noteq> []"
    and "p \<in> set (rows (t_projects (wdb w)))" and "live p" and "slug_grammar (pr_slug p)"
    and "pr_status p = ProjectStatusActive" and "op_is_admin op \<or> granted (ID op) (ID p) (wdb w)"
    and "s \<in> set (rows (t_sites (wdb w)))" and "live s" and "si_project_id s = ID p" and "slug_grammar (si_name s)"
    and "v \<in> set (rows (t_services (wdb w)))" and "live v" and "sv_site_id v = ID s" and "slug_grammar (sv_name v)"
    and "sv_relay_port v = Some q" and "q \<noteq> 0"
    and "\<forall>u\<in>set (rows (t_services (wdb w))). live u \<longrightarrow> sv_relay_port u = Some q \<longrightarrow> u = v"
  shows "newForwardCmd (pr_slug p @ slash # si_name s @ slash # sv_name v) (Inr creds) (serve cfg rm e peer) w =
      (Inr (cr_auth_proxy_endpoint creds, cr_session_token creds,
            loopback @ [colon] @ format_uint (unat q)), w) \<and>
    handle e (Some (handleForward (cr_session_token creds) (loopback @ [colon] @ format_uint (unat q)))) (wdb w) =
      ((200, Some (loopback @ [colon] @ format_uint (unat q))), wdb w)"
  using forward_resolves [OF assms(1-3,5-13,15-25)] forward_dials [OF assms(1-7,11,12,14-18,20-22,24,26)] by simp

text \<open>The example's administrator forwards to its one service.\<close>

definition ex_creds :: cli_credentials where
  "ex_creds = \<lparr>cr_endpoint = ''relay:9443'', cr_auth_proxy_endpoint = ''relay:8443'',
     cr_session_token = ''admin'', cr_operator_email = ''root'', cr_tls_insecure = False\<rparr>"

lemma ex_creds_simps [simp]:
  "cr_endpoint ex_creds \<noteq> []" "cr_auth_proxy_endpoint ex_creds = ''relay:8443''" "cr_session_token ex_creds = ''admin''"
  by (simp_all add: ex_creds_def)

lemma ex_slugs: "slug_grammar ''acme''" "slug_grammar ''hq''" "slug_grammar ''ssh''"
  unfolding validate_slug_iff [symmetric] by code_simp+

definition ex_cfg :: server_config where
  "ex_cfg = \<lparr>cfg_relay_addr = ''relay:7000'', cfg_public_base_url = [], cfg_public_grpc_endpoint = [],
     cfg_auth_proxy_public_addr = [], cfg_session_ttl = 0\<rparr>"

definition ex_sw :: sweeper_config where
  "ex_sw = \<lparr>sw_interval = 30 * second, sw_offline_after = 90 * second\<rparr>"

theorem forward_end_to_end_witness:
  "\<exists>w. fst (newForwardCmd (''acme'' @ slash # ''hq'' @ slash # ''ssh'') (Inr ex_creds)
       (serve ex_cfg noop_relay ex_env None) w) =
     Inr (''relay:8443'', ''admin'', loopback @ [colon] @ format_uint 7001)"
proof -
  let ?d = "ex_db\<lparr>t_agent_tokens := tbl_empty\<rparr>" and ?w = "\<lparr>wdb = ex_db\<lparr>t_agent_tokens := tbl_empty\<rparr>, wrelay = ()\<rparr>"
  have wf: "db_wf (wdb ?w)"
    using db_wf_set_table(7) [OF ex_wf, of tbl_empty] by (simp add: uniq_live_def)
  have own: "session_owner (now ex_env) (cr_session_token ex_creds) (wdb ?w) = Some (ID ex_admin)"
    using ex_session_owner [of 1000] by (simp add: session_owner_def)
  have none: "agent_owner (now ex_env) (cr_session_token ex_creds) (wdb ?w) = None"
    by (simp add: agent_owner_def agent_token_lookup_def first_live_def)
  have solid: "list_all solid (cr_session_token ex_creds)" using ex_solid by simp
  from forward_end_to_end [OF _ wf own none, of ex_project ex_site ex_service 7001 ex_cfg noop_relay None] solid
  show ?thesis by (intro exI [of _ ?w]) (simp add: ex_slugs)
qed

subsection \<open>Commands that fail\<close>

lemmas cli_defs = newProjectListCmd_def newProjectGetCmd_def newProjectCreateCmd_def newProjectDeleteCmd_def
  newSiteListCmd_def newSiteGetCmd_def newSiteCreateCmd_def newSiteDeleteCmd_def newServiceListCmd_def
  newServiceGetCmd_def newServiceCreateCmd_def newServiceDeleteCmd_def newOperatorListCmd_def
  newOperatorGetCmd_def newOperatorCreateCmd_def newOperatorDeleteCmd_def newOperatorSetAdminCmd_def
  newOperatorSetPasswordCmd_def newOperatorGrantCmd_def newOperatorRevokeCmd_def newOperatorAccessCmd_def
  newTokenRevokeCmd_def newStatusCmd_def

text \<open>The requests whose failure the server leaves no trace of: an update of one field at most.\<close>

definition settled :: "request \<Rightarrow> bool" where
  "settled q \<longleftrightarrow>
     (case q of UpdateOperatorRequest b mk pw \<Rightarrow> mk = ''is_admin'' \<or> mk = ''password'' | _ \<Rightarrow> True)"

lemma one_field_masks:
  "operator_mask_loop (map trim_space (split_on (CHR '','') ''is_admin'')) False False = Inr (True, False)"
  "operator_mask_loop (map trim_space (split_on (CHR '','') ''password'')) False False = Inr (False, True)"
  by code_simp+

lemma update_live_none:
  assumes "count_live P t = 0"
  shows "update_live P f t = t"
proof -
  have "map (\<lambda>r. if live r \<and> P r then f r else r) (rows t) = rows t"
    using assms by (intro map_idI) (auto simp: count_live_def select_live_def filter_empty_conv)
  then show ?thesis unfolding update_live_def by simp
qed

lemma operator_parts_Inl:
  "set_is_admin e cx caller target adm w = (Inl st, w') \<Longrightarrow> w' = w"
  "set_password e cx target pw w = (Inl st, w') \<Longrightarrow> w' = w"
proof -
  have u: "operator_update_is_admin e i a d = (Inl x, d') \<Longrightarrow> d' = d"
    "operator_update_password e i h d = (Inl x, d') \<Longrightarrow> d' = d" for i a h x d d'
    unfolding operator_update_is_admin_def operator_update_password_def
    by (auto simp: Let_def update_live_none split: if_splits)
  show "set_is_admin e cx caller target adm w = (Inl st, w') \<Longrightarrow> w' = w"
    "set_password e cx target pw w = (Inl st, w') \<Longrightarrow> w' = w"
    unfolding set_is_admin_def set_password_def
    by (auto split: sum.splits option.splits if_splits prod.splits dest!: u)
qed

lemma update_one_field_Inl:
  assumes "mk = ''is_admin'' \<or> mk = ''password''" "update_operator e b mk pw cx w = (Inl st, w')"
  shows "w' = w"
  using assms one_field_masks unfolding update_operator_def
  by (auto split: sum.splits option.splits if_splits prod.splits dest: operator_parts_Inl)

lemma dispatch_settled:
  assumes "dispatch cfg rm e q cx w = (Inl st, w')" "settled q"
  shows "inert w w'"
proof (cases "\<exists>b mk pw. q = UpdateOperatorRequest b mk pw")
  case True
  then obtain b mk pw where q: "q = UpdateOperatorRequest b mk pw" by blast
  have "update_operator e b mk pw cx w = (Inl st, w')"
    using assms(1) unfolding q by (auto simp: map_sum_Inl [THEN eq_iff_swap] dest!: reply_eq)
  then have "w' = w" using assms(2) unfolding q settled_def by (intro update_one_field_Inl) auto
  then show ?thesis by simp
qed (use assms(1) dispatch_failed in blast)

lemma serve_settled:
  assumes "serve cfg rm e peer md q w = (Inl st, w')" and "settled q"
  shows "inert w w'"
  using serve_cases [OF assms(1)]
proof (elim disjE exE conjE, goal_cases)
  case (1 cx d)
  have "inert (w\<lparr>wdb := d\<rparr>) w'" by (rule dispatch_settled [OF 1(2) [symmetric] assms(2)])
  then show ?case using config_same_trans [OF touched_config_same [OF 1(1)]] by (simp add: inert_def)
next
  case 2
  then show ?case using touched_config_same by (auto simp: inert_def)
qed

lemma who_am_i_inert:
  assumes "serve cfg rm e peer md WhoAmIRequest w = (res, w')"
  shows "inert w w'"
  using serve_cases [OF assms]
proof (elim disjE exE conjE, goal_cases)
  case (1 cx d)
  have "w' = w\<lparr>wdb := d\<rparr>"
    using 1(2) [symmetric] read_handlers_same(7) by (auto dest!: reply_eq)
  then show ?case using touched_config_same [OF 1(1)] by (simp add: inert_def)
next
  case 2
  then show ?case using touched_config_same by (auto simp: inert_def)
qed

text \<open>
  A request of a command came to its end in one of two ways: the configuration and the relay manager are as
  they were, or the server did what was asked and the answer did not come back.
\<close>

definition answer_lost ::
  "(request \<Rightarrow> rpc_fate) \<Rightarrow> (metadata option \<Rightarrow> request \<Rightarrow> 'r world \<Rightarrow> response rpc \<times> 'r world) \<Rightarrow>
   'r world \<Rightarrow> cli_error \<Rightarrow> 'r world \<Rightarrow> bool" where
  "answer_lost fate call w x w' \<longleftrightarrow>
     (\<exists>w1 md q st r. inert w w1 \<and> call md q w1 = (Inr r, w') \<and> undelivered (fate q) = Some st \<and> x = CliRpc st)"

lemma inert_trans: "inert w w1 \<Longrightarrow> inert w1 w2 \<Longrightarrow> inert w w2"
  unfolding inert_def using config_same_trans by auto

lemma inert_lost: "inert w w1 \<Longrightarrow> answer_lost fate call w1 x w' \<Longrightarrow> answer_lost fate call w x w'"
  unfolding answer_lost_def using inert_trans by blast

lemma deadline_settled:
  assumes "within_deadline fate (serve cfg rm e peer) md q w = (Inl st, w')" and "settled q"
  shows "inert w w' \<or> answer_lost fate (serve cfg rm e peer) w (CliRpc st) w'"
  using within_deadline_cases [OF assms(1)]
proof (elim disjE exE conjE)
  assume "serve cfg rm e peer md q w = (Inl st, w')"
  then show ?thesis using serve_settled assms(2) by blast
next
  fix st' assume l: "undelivered (fate q) = Some st'" "Inl st = Inl st'" "w' = snd (serve cfg rm e peer md q w)"
  show ?thesis
  proof (cases "serve cfg rm e peer md q w")
    case (Pair r w1)
    then have "w1 = w'" "st' = st" using l by simp_all
    then show ?thesis
      using Pair l(1) serve_settled [OF _ assms(2), of cfg rm e peer md w] inert_refl [of w]
      unfolding answer_lost_def by (cases r) blast+
  qed
qed simp

lemma conn_settled:
  assumes "with_conn loaded (within_deadline fate (serve cfg rm e peer)) q w = (Inl x, w')" and "settled q"
  shows "inert w w' \<or> answer_lost fate (serve cfg rm e peer) w x w'"
  using assms unfolding with_conn_def by (auto split: sum.splits prod.splits dest: deadline_settled)

lemma who_am_i_deadline:
  assumes "within_deadline fate (serve cfg rm e peer) md WhoAmIRequest w = (res, w')"
  shows "inert w w'"
  using within_deadline_cases [OF assms] who_am_i_inert [where w = w, OF prod.collapse [symmetric]]
  by (auto dest: who_am_i_inert)

lemma conn_who_am_i:
  assumes "with_conn loaded (within_deadline fate (serve cfg rm e peer)) WhoAmIRequest w = (res, w')"
  shows "inert w w'"
  using assms unfolding with_conn_def by (auto split: sum.splits prod.splits dest: who_am_i_deadline)

lemma resolve_inert:
  "resolveOperatorName arg (with_conn loaded (within_deadline fate (serve cfg rm e peer))) w = (res, w') \<Longrightarrow> inert w w'"
  unfolding resolveOperatorName_def
  by (auto split: if_splits sum.splits prod.splits response.splits dest: conn_who_am_i)



subsection \<open>Lists\<close>

text \<open>
  \<open>project list\<close> sends no page size and never asks for the next page: it shows fifty projects at
  most, whatever there are.
\<close>

lemma page_live_length: "length (page_live P cur n t) \<le> n"
  by (auto simp: page_live_def split: option.splits)

lemma project_list_first_page_only:
  assumes "newProjectListCmd (with_conn loaded (serve cfg rm e peer)) w = (Inr (ProjectsR resp), w')"
  shows "length (lpr_projects resp) \<le> 50"
proof -
  obtain md where s: "serve cfg rm e peer md (ListProjectsRequest 0 []) w = (Inr (ProjectsR resp), w')"
    using assms by (auto simp: newProjectListCmd_def with_conn_def split: sum.splits prod.splits)
  from serve_cases [OF s] obtain cx d where
    "(Inr (ProjectsR resp), w') = dispatch cfg rm e (ListProjectsRequest 0 []) cx (w\<lparr>wdb := d\<rparr>)"
    by auto
  then obtain r0 where r0: "list_projects e 0 [] cx (w\<lparr>wdb := d\<rparr>) = (r0, w')"
    "Inr (ProjectsR resp) = map_sum id ProjectsR r0"
    by (auto dest!: reply_eq [OF sym])
  then have "list_projects e 0 [] cx (w\<lparr>wdb := d\<rparr>) = (Inr resp, w')" by (cases r0) auto
  then show ?thesis
    by (auto simp: list_projects_def project_list_def project_list_accessible_def clamp_page_size_def
        split: option.splits sum.splits if_splits intro: order_trans [OF page_live_length])
qed

subsection \<open>login, and the commands after it\<close>

text \<open>A login that went through: the server's answer, and what is in the file.\<close>

lemma newLoginCmd_Inr:
  assumes "newLoginCmd e marshal tmp (Inr path) call endpoint email pw readPwd typed authProxy insecure fs w =
    (Inr creds, fs', w')"
  shows "\<exists>pw' md resp. call md (LoginRequest email pw') w = (Inr (LoginR resp), w') \<and>
    cr_session_token creds = lr_access_token resp \<and> cr_endpoint creds = endpoint \<and> endpoint \<noteq> [] \<and>
    Save e marshal tmp path (Some creds) fs = (Inr (), fs')"
  using assms unfolding newLoginCmd_def Let_def
  by (fastforce simp: dialControl_def split: if_splits sum.splits option.splits prod.splits response.splits)

lemma serve_login:
  "serve cfg rm e peer md (LoginRequest email pw) w = (Inr (LoginR out), w') \<Longrightarrow>
     \<exists>cx. login (session_ttl cfg) e email pw cx w = (Inr out, w')"
proof -
  assume a: "serve cfg rm e peer md (LoginRequest email pw) w = (Inr (LoginR out), w')"
  have m: "method_of (LoginRequest email pw) = login_method" by (simp add: login_method_iff)
  have "\<exists>cx. serve cfg rm e peer md (LoginRequest email pw) w =
      reply LoginR (login (session_ttl cfg) e email pw cx w)"
    unfolding serve_def m server_chain_operator [OF login_not_agent] by (auto simp: unary_interceptor_def)
  then obtain cx where "reply LoginR (login (session_ttl cfg) e email pw cx w) = (Inr (LoginR out), w')"
    using a by auto
  moreover obtain r w2 where l: "login (session_ttl cfg) e email pw cx w = (r, w2)" by fastforce
  ultimately have "r = Inr out" "w2 = w'" by (cases r; simp add: reply_def)+
  then show ?thesis using l by blast
qed

lemma session_issue_solid:
  "session_issue e i ttl ua ip d = (Inr (rec, raw), d') \<Longrightarrow> list_all solid raw"
  using b64_encode_solid
  by (auto simp: session_issue_def issue_token_def Let_def split: option.splits prod.splits if_splits sum.splits)

text \<open>
  C20. What \<open>quicktun login\<close> leaves in the credentials file works: until the session expires, a command
  that loads the file and sends any operator RPC has its handler run as the operator with the email
  that was given, one that was live in the database, whatever peer the command calls from. Of yaml it
  is used that what it writes for a credentials record it reads back.
\<close>
theorem login_then_commands:
  assumes "db_wf (wdb w)" and "0 < session_ttl cfg"
    and "newLoginCmd e marshal tmp (Inr path) (serve cfg rm e peer) endpoint email pw readPwd typed authProxy
        insecure fs w = (Inr creds, fs', w')"
    and "\<forall>c b. marshal c = Inr b \<longrightarrow> unmarshal b = Inr c"
    and "\<forall>s. \<not> fault e' s" and "now e' < now e + session_ttl cfg" and "cr_session_token creds \<noteq> []"
    and "method_of q \<noteq> login_method" and "\<not> is_agent_request q"
  shows "\<exists>op. op \<in> set (rows (t_operators (wdb w))) \<and> live op \<and> op_email op = email \<and>
    with_conn (clicred_Load unmarshal path fs') (serve cfg rm e' peer') q w' =
      (case dispatch cfg rm e' q (operator_ctx peer' op (raw_ctx (cli_metadata creds))) w' of
         (Inl st, w2) \<Rightarrow> (Inl (CliRpc st), w2) | (Inr r, w2) \<Rightarrow> (Inr r, w2))"
proof -
  obtain pw' md resp where c: "serve cfg rm e peer md (LoginRequest email pw') w = (Inr (LoginR resp), w')"
    "cr_session_token creds = lr_access_token resp" "cr_endpoint creds \<noteq> []"
    "Save e marshal tmp path (Some creds) fs = (Inr (), fs')"
    using newLoginCmd_Inr [OF assms(3)] by blast
  obtain cx where l: "login (session_ttl cfg) e email pw' cx w = (Inr resp, w')"
    using serve_login [OF c(1)] by blast
  obtain op ua ip d rec where op: "op \<in> set (rows (t_operators (wdb w)))" "live op" "op_email op = email"
    "session_issue e (ID op) (session_ttl cfg) ua ip (wdb w) = (Inr (rec, cr_session_token creds), d)"
    "w' = w\<lparr>wdb := d\<rparr>"
    using login_Inr [OF l] c(2) by metis
  have iss: "raw_of (session_issue e (ID op) (session_ttl cfg) ua ip (wdb w)) = (Inr (cr_session_token creds), d)"
    using op(4) by (simp add: raw_of_def)
  have owner: "session_owner (now e') (cr_session_token creds) d = Some (ID op)"
    using sessions.issue_fresh [OF assms(1) iss assms(2)] assms(6) by simp
  have "d = (wdb w)\<lparr>t_sessions := t_sessions d\<rparr>" using session_issue_Inr [OF iss] by blast
  then have ops: "t_operators d = t_operators (wdb w)"
    by (metis db.select_convs(1) db.surjective db.update_convs(2))
  have v: "session_validate e' (cr_session_token creds) (wdb w') = Inr op"
    using assms(5) op(1,2,5) owner
    by (intro session_validates) (simp_all add: ops db_wfD(1) [OF assms(1)])
  have "clicred_Load unmarshal path fs' = Inr creds" using assms(4) by (intro Save_Load [OF c(4)]) blast
  then show ?thesis
    using op(1-3) c(3) serve_session [OF v assms(7) session_issue_solid [OF op(4)] assms(8,9), of cfg rm peer']
    by (auto simp: with_conn_def loadAndDial_def dialControl_def)
qed

text \<open>A file format for the witness: the fields, one to a line.\<close>

definition ex_marshal :: "cli_credentials \<Rightarrow> err + string" where
  "ex_marshal c =
     (if CHR 0x0A \<in> set (cr_endpoint c @ cr_auth_proxy_endpoint c @ cr_session_token c @ cr_operator_email c)
      then Inl []
      else Inr (cr_endpoint c @ CHR 0x0A # cr_auth_proxy_endpoint c @ CHR 0x0A # cr_session_token c @
             CHR 0x0A # cr_operator_email c @ CHR 0x0A # (if cr_tls_insecure c then ''true'' else [])))"

definition ex_unmarshal :: "string \<Rightarrow> err + cli_credentials" where
  "ex_unmarshal b =
     (case split_on (CHR 0x0A) b of
        [x, p, t, m, i] \<Rightarrow> Inr \<lparr>cr_endpoint = x, cr_auth_proxy_endpoint = p, cr_session_token = t,
          cr_operator_email = m, cr_tls_insecure = (i = ''true'')\<rparr>
      | _ \<Rightarrow> Inl [])"

lemma ex_marshal_back: "ex_marshal c = Inr b \<Longrightarrow> ex_unmarshal b = Inr c"
  by (cases c) (auto simp: ex_marshal_def ex_unmarshal_def split_on_append split_on_no_sep split: if_splits)

lemma ex_login_ctx:
  "\<exists>out w'. login ttl ex_env ''root'' ''pw'' cx ex_fresh = (Inr out, w') \<and> lr_access_token out = ex_raw"
proof -
  obtain ua ip where "caller_metadata cx = (ua, ip)" by fastforce
  then show ?thesis
    by (auto simp: login_def operator_find_by_email_def first_live_def ex_fresh_def
        session_issue_def issue_token_def tokenBytes_def conflicts_def tbl_append_def Let_def ex_raw_def)
qed

theorem login_then_commands_witness:
  "\<exists>creds fs' w' op. newLoginCmd ex_env ex_marshal ''tmp'' (Inr ''creds'') (serve ex_cfg noop_relay ex_env None)
      ''relay:9443'' ''root'' ''pw'' False (Inl []) ''relay:8443'' True Map.empty ex_fresh = (Inr creds, fs', w') \<and>
    op_email op = ''root'' \<and>
    with_conn (clicred_Load ex_unmarshal ''creds'' fs') (serve ex_cfg noop_relay ex_env None) WhoAmIRequest w' =
      (Inr (OperatorR (operator_to_proto op)), w')"
proof -
  let ?call = "serve ex_cfg noop_relay ex_env None"
  let ?cmd = "newLoginCmd ex_env ex_marshal ''tmp'' (Inr ''creds'') ?call ''relay:9443'' ''root'' ''pw'' False
    (Inl []) ''relay:8443'' True Map.empty ex_fresh"
  let ?md = "cli_metadata \<lparr>cr_endpoint = ''relay:9443'', cr_auth_proxy_endpoint = [], cr_session_token = [],
    cr_operator_email = [], cr_tls_insecure = True\<rparr>"
  have m: "method_of (LoginRequest ''root'' ''pw'') = login_method" by (simp add: login_method_iff)
  obtain out w' where l: "?call ?md (LoginRequest ''root'' ''pw'') ex_fresh = (Inr (LoginR out), w')"
    and raw: "lr_access_token out = ex_raw"
  proof -
    obtain cx where "?call ?md (LoginRequest ''root'' ''pw'') ex_fresh =
        reply LoginR (login (session_ttl ex_cfg) ex_env ''root'' ''pw'' cx ex_fresh)"
      unfolding serve_def m server_chain_operator [OF login_not_agent] by (auto simp: unary_interceptor_def)
    then show ?thesis using ex_login_ctx [of "session_ttl ex_cfg" cx] that by (auto simp: reply_def)
  qed
  have "CHR 0x0A \<notin> set ex_raw" using ex_raw_props(2) by (auto simp: list_all_iff solid_def)
  then obtain creds fs' where c: "?cmd = (Inr creds, fs', w')" "cr_session_token creds = ex_raw"
    using l raw
    by (simp add: newLoginCmd_def Let_def dialControl_def Save_def ex_marshal_def ex_creds_def)
  have t: "(0::int) < session_ttl ex_cfg"
    by (simp add: session_ttl_def ex_cfg_def hour_def minute_def second_def)
  have q: "method_of WhoAmIRequest \<noteq> login_method" "\<not> is_agent_request WhoAmIRequest"
    by (simp_all add: login_method_iff is_agent_request_cases)
  obtain op where "op_email op = ''root''"
    "with_conn (clicred_Load ex_unmarshal ''creds'' fs') ?call WhoAmIRequest w' =
      (case dispatch ex_cfg noop_relay ex_env WhoAmIRequest
          (operator_ctx None op (raw_ctx (cli_metadata creds))) w' of
         (Inl st, w2) \<Rightarrow> (Inl (CliRpc st), w2) | (Inr r, w2) \<Rightarrow> (Inr r, w2))"
    using login_then_commands [where e' = ex_env and peer' = None, OF ex_fresh_wf t c(1) _ _ _ _ q, of ex_unmarshal] c(2)
      ex_raw_props(1) t ex_marshal_back by auto
  then show ?thesis using c(1) by (auto simp: who_am_i_def reply_def operator_ctx_def)
qed

end
