(* ===== verification/Deploy.thy ===== *)
theory Deploy
  imports Server Supervisor
begin

section \<open>Configuration and life cycle (internal/config, internal/authproxy/config.go, server.Run)\<close>

text \<open>
  What the configuration files decide, and how a server starts and ends. A configuration file is a
  record of optional values (a key that is absent, or has the type its Go field has); reading and
  parsing it is viper's and yaml's and comes in as a sum. Run is modelled by what it does to the relay
  manager: \<open>run_world\<close> says which listener and which gateway registration fails, and how serving ends.
\<close>

subsection \<open>The server's configuration (config.go)\<close>

record server_file =
  f_grpc_listen :: "string option"
  f_http_listen :: "string option"
  f_relay_addr :: "string option"
  f_public_base_url :: "string option"
  f_public_grpc_endpoint :: "string option"
  f_driver :: "string option"
  f_dsn :: "string option"
  f_default_ttl :: "duration option"
  f_log_path :: "string option"
  f_log_level :: "string option"
  f_max_size_mb :: "int option"
  f_max_age_days :: "int option"
  f_max_backups :: "int option"
  f_rathole_binary :: "string option"
  f_rathole_args :: "string list option"
  f_rathole_config_dir :: "string option"
  f_auth_proxy_public_addr :: "string option"
  f_sweeper_interval :: "duration option"
  f_site_offline_after :: "duration option"
  f_metrics_listen_addr :: "string option"
  f_webhook_url :: "string option"
  f_webhook_timeout :: "duration option"
  f_crash_loop_threshold :: "int option"
  f_crash_loop_window :: "duration option"

record server_conf =
  sc_grpc_listen :: string
  sc_http_listen :: string
  sc_relay_addr :: string
  sc_public_base_url :: string
  sc_public_grpc_endpoint :: string
  sc_driver :: string
  sc_dsn :: string
  sc_default_ttl :: duration
  sc_log_path :: string
  sc_log_level :: string
  sc_max_size_mb :: int
  sc_max_age_days :: int
  sc_max_backups :: int
  sc_rathole_binary :: string
  sc_rathole_args :: "string list"
  sc_rathole_config_dir :: string
  sc_auth_proxy_public_addr :: string
  sc_sweeper_interval :: duration
  sc_site_offline_after :: duration
  sc_metrics_listen_addr :: string
  sc_webhook_url :: string
  sc_webhook_timeout :: duration
  sc_crash_loop_threshold :: int
  sc_crash_loop_window :: duration

definition key :: "'a \<Rightarrow> 'a option \<Rightarrow> 'a" where
  "key dflt v = (case v of None \<Rightarrow> dflt | Some x \<Rightarrow> x)"

text \<open>Unmarshal after setDefaults: the value of the file, else the default, else the zero value.\<close>

definition setDefaults :: "server_file \<Rightarrow> server_conf" where
  "setDefaults f =
     \<lparr>sc_grpc_listen = key ''0.0.0.0:9443'' (f_grpc_listen f),
      sc_http_listen = key ''0.0.0.0:9080'' (f_http_listen f),
      sc_relay_addr = key ''relay.example.com:443'' (f_relay_addr f),
      sc_public_base_url = key [] (f_public_base_url f),
      sc_public_grpc_endpoint = key [] (f_public_grpc_endpoint f),
      sc_driver = key ''sqlite'' (f_driver f),
      sc_dsn = key [] (f_dsn f),
      sc_default_ttl = key (8 * hour) (f_default_ttl f),
      sc_log_path = key [] (f_log_path f),
      sc_log_level = key ''info'' (f_log_level f),
      sc_max_size_mb = key 100 (f_max_size_mb f),
      sc_max_age_days = key 30 (f_max_age_days f),
      sc_max_backups = key 7 (f_max_backups f),
      sc_rathole_binary = key ''rathole'' (f_rathole_binary f),
      sc_rathole_args = key [''--server''] (f_rathole_args f),
      sc_rathole_config_dir = key ''/var/lib/quicktun/relays'' (f_rathole_config_dir f),
      sc_auth_proxy_public_addr = key [] (f_auth_proxy_public_addr f),
      sc_sweeper_interval = key (30 * second) (f_sweeper_interval f),
      sc_site_offline_after = key (90 * second) (f_site_offline_after f),
      sc_metrics_listen_addr = key [] (f_metrics_listen_addr f),
      sc_webhook_url = key [] (f_webhook_url f),
      sc_webhook_timeout = key (5 * second) (f_webhook_timeout f),
      sc_crash_loop_threshold = key 5 (f_crash_loop_threshold f),
      sc_crash_loop_window = key (5 * minute) (f_crash_loop_window f)\<rparr>"

definition Validate :: "server_conf \<Rightarrow> err option" where
  "Validate c =
     (if sc_driver c = [] then Some ''config: database.driver is required''
      else if sc_driver c \<noteq> ''sqlite''
      then Some ''config: only sqlite driver supported in Phase 1, got %q''
      else if sc_dsn c = [] then Some ''config: database.dsn is required''
      else if sc_grpc_listen c = [] then Some ''config: control_plane.grpc_listen is required''
      else if sc_default_ttl c \<le> 0 then Some ''config: session.default_ttl must be positive''
      else None)"

definition server_Load :: "err + server_file \<Rightarrow> err + server_conf" where
  "server_Load parsed =
     (case parsed of
        Inl x \<Rightarrow> Inl x
      | Inr f \<Rightarrow> (let c = setDefaults f in case Validate c of Some x \<Rightarrow> Inl x | None \<Rightarrow> Inr c))"

text \<open>The parts serve and New make of it.\<close>

definition serve_server :: "server_conf \<Rightarrow> server_config" where
  "serve_server c =
     \<lparr>cfg_relay_addr = sc_relay_addr c, cfg_public_base_url = sc_public_base_url c,
      cfg_public_grpc_endpoint = sc_public_grpc_endpoint c,
      cfg_auth_proxy_public_addr = sc_auth_proxy_public_addr c,
      cfg_session_ttl = sc_default_ttl c\<rparr>"

definition serve_relay :: "server_conf \<Rightarrow> relay_config" where
  "serve_relay c =
     default_config_dir
       \<lparr>mc_binary = sc_rathole_binary c, mc_binary_args = sc_rathole_args c,
        mc_config_dir = sc_rathole_config_dir c\<rparr>"

definition serve_sweeper :: "server_conf \<Rightarrow> sweeper_config" where
  "serve_sweeper c = \<lparr>sw_interval = sc_sweeper_interval c, sw_offline_after = sc_site_offline_after c\<rparr>"

definition serve_crash_loop :: "server_conf \<Rightarrow> crash_loop" where
  "serve_crash_loop c = server_crash_loop (sc_crash_loop_threshold c) (sc_crash_loop_window c)"

subsection \<open>The auth proxy's configuration (authproxy/config.go)\<close>

record proxy_conf =
  ap_listen_addr :: string
  ap_health_listen_addr :: string
  ap_metrics_listen_addr :: string
  ap_dsn :: string
  ap_log_level :: string

definition proxy_applyDefaults :: "proxy_conf \<Rightarrow> proxy_conf" where
  "proxy_applyDefaults c =
     c\<lparr>ap_listen_addr := or_default (ap_listen_addr c) '':8443'',
       ap_health_listen_addr := or_default (ap_health_listen_addr c) ''127.0.0.1:8444'',
       ap_log_level := or_default (ap_log_level c) ''info''\<rparr>"

definition proxy_validate :: "proxy_conf \<Rightarrow> err option" where
  "proxy_validate c = (if ap_dsn c = [] then Some ''authproxy: database.dsn is required'' else None)"

definition LoadConfig :: "err + proxy_conf \<Rightarrow> err + proxy_conf" where
  "LoadConfig parsed =
     (case parsed of
        Inl x \<Rightarrow> Inl x
      | Inr c \<Rightarrow>
          (let c = proxy_applyDefaults c in case proxy_validate c of Some x \<Rightarrow> Inl x | None \<Rightarrow> Inr c))"

subsection \<open>Run (server.go)\<close>

record run_world =
  rw_listen :: bool
  rw_gateways :: "bool list"
  rw_served :: "err option"
  rw_shutdown :: "err option"

text \<open>The registrations in their order, with the message of each.\<close>

definition gateway_names :: "string list" where
  "gateway_names = ['''', ''project '', ''site '', ''service '', ''admin '', ''audit '', ''operator '',
     ''service-account '']"

fun register_gateways :: "(string \<times> bool) list \<Rightarrow> err option" where
  "register_gateways [] = None"
| "register_gateways ((n, ok) # gs) =
     (if \<not> ok then Some (''server: register '' @ n @ ''gateway: %w'') else register_gateways gs)"

text \<open>\<open>serving\<close> is what the calls served in between did to the manager.\<close>

definition server_run ::
  "relay_config \<Rightarrow> env \<Rightarrow> db \<Rightarrow> run_world \<Rightarrow> (relay_state \<Rightarrow> relay_state) \<Rightarrow> relay_state \<Rightarrow>
   (err + unit) \<times> relay_state" where
  "server_run cfg e d rw serving r =
     (case Start cfg e d r of
        (Inl _, r) \<Rightarrow> (Inl ''server: relay manager start: %w'', r)
      | (Inr _, r) \<Rightarrow>
          if \<not> rw_listen rw then (Inl ''server: listen grpc %q: %w'', Stop r)
          else
            (case register_gateways (zip gateway_names (rw_gateways rw)) of
               Some x \<Rightarrow> (Inl x, Stop r)
             | None \<Rightarrow>
                 (let firstErr = rw_served rw;
                      firstErr = (if firstErr = None then rw_shutdown rw else firstErr)
                  in (case firstErr of None \<Rightarrow> Inr () | Some x \<Rightarrow> Inl x, Stop (serving r)))))"

subsection \<open>Errors through the gateway (server.go)\<close>

fun code_number :: "code \<Rightarrow> nat" where
  "code_number InvalidArgument = 3"
| "code_number DeadlineExceeded = 4"
| "code_number NotFound = 5"
| "code_number AlreadyExists = 6"
| "code_number PermissionDenied = 7"
| "code_number ResourceExhausted = 8"
| "code_number FailedPrecondition = 9"
| "code_number Internal = 13"
| "code_number Unavailable = 14"
| "code_number Unauthenticated = 16"

fun code_string :: "code \<Rightarrow> string" where
  "code_string InvalidArgument = ''InvalidArgument''"
| "code_string NotFound = ''NotFound''"
| "code_string AlreadyExists = ''AlreadyExists''"
| "code_string PermissionDenied = ''PermissionDenied''"
| "code_string ResourceExhausted = ''ResourceExhausted''"
| "code_string FailedPrecondition = ''FailedPrecondition''"
| "code_string Internal = ''Internal''"
| "code_string DeadlineExceeded = ''DeadlineExceeded''"
| "code_string Unavailable = ''Unavailable''"
| "code_string Unauthenticated = ''Unauthenticated''"

record gateway_error =
  ge_http_status :: nat
  ge_headers :: "(string \<times> string) list"
  ge_code :: nat
  ge_status :: string
  ge_message :: string

text \<open>\<open>http_status\<close> is grpc-gateway's HTTPStatusFromCode.\<close>

definition gatewayErrorHandler :: "(code \<Rightarrow> nat) \<Rightarrow> status \<Rightarrow> gateway_error" where
  "gatewayErrorHandler http_status st =
     \<lparr>ge_http_status = http_status (st_code st),
      ge_headers = (''Content-Type'', ''application/json'') #
        (if st_code st = Unauthenticated
         then [(''WWW-Authenticate'', ''Bearer realm='' @ [CHR 0x22] @ ''quicktun'' @ [CHR 0x22])] else []),
      ge_code = code_number (st_code st), ge_status = code_string (st_code st),
      ge_message = st_msg st\<rparr>"

subsection \<open>What a loaded configuration is\<close>

lemma server_Load_Inr:
  assumes "server_Load parsed = Inr c"
  shows "sc_driver c = ''sqlite'' \<and> sc_dsn c \<noteq> [] \<and> sc_grpc_listen c \<noteq> [] \<and> 0 < sc_default_ttl c"
  using assms by (auto simp: server_Load_def Let_def Validate_def split: sum.splits option.splits if_splits)

text \<open>A session of a server that loaded its configuration has a lifetime, the configured one.\<close>

lemma loaded_session_ttl:
  "server_Load parsed = Inr c \<Longrightarrow>
     session_ttl (serve_server c) = sc_default_ttl c \<and> 0 < session_ttl (serve_server c)"
  by (drule server_Load_Inr) (simp add: session_ttl_def serve_server_def)

text \<open>A file with nothing but the data source gives the documented defaults.\<close>

definition minimal_file :: "string \<Rightarrow> server_file" where
  "minimal_file dsn =
     \<lparr>f_grpc_listen = None, f_http_listen = None, f_relay_addr = None, f_public_base_url = None,
      f_public_grpc_endpoint = None, f_driver = None, f_dsn = Some dsn, f_default_ttl = None,
      f_log_path = None, f_log_level = None, f_max_size_mb = None, f_max_age_days = None,
      f_max_backups = None, f_rathole_binary = None, f_rathole_args = None, f_rathole_config_dir = None,
      f_auth_proxy_public_addr = None, f_sweeper_interval = None, f_site_offline_after = None,
      f_metrics_listen_addr = None, f_webhook_url = None, f_webhook_timeout = None,
      f_crash_loop_threshold = None, f_crash_loop_window = None\<rparr>"

lemma minimal_file_serves:
  assumes "dsn \<noteq> []"
  shows "\<exists>c. server_Load (Inr (minimal_file dsn)) = Inr c \<and> session_ttl (serve_server c) = 8 * hour \<and>
    serve_sweeper c = \<lparr>sw_interval = 30 * second, sw_offline_after = 90 * second\<rparr> \<and>
    serve_crash_loop c = default_crash_loop \<and> mc_binary (serve_relay c) = ''rathole''"
  using assms
  by (simp add: server_Load_def minimal_file_def setDefaults_def Validate_def key_def Let_def session_ttl_def
      serve_server_def serve_sweeper_def serve_crash_loop_def default_crash_loop_def serve_relay_def
      default_config_dir_def hour_def minute_def second_def)

text \<open>
  The proxy's health endpoint cannot be switched off: an empty \<open>health_listen_addr\<close> is replaced by
  the default, so the configuration that reaches the command never has one.
\<close>

lemma proxy_health_always_on:
  "LoadConfig (Inr c) = Inr c' \<Longrightarrow> ap_health_listen_addr c = [] \<Longrightarrow> ap_health_listen_addr c' = ''127.0.0.1:8444''"
  by (auto simp: LoadConfig_def proxy_applyDefaults_def Let_def or_default_def split: option.splits)

subsection \<open>Run and the relay manager\<close>

lemma Start_fails: "Start cfg e d r = (Inl x, r') \<Longrightarrow> r' = r"
  by (auto simp: Start_def split: if_splits)

lemma Stop_stops: "rs_sups (Stop r) = []" "rs_closed (Stop r)"
  by (simp_all add: Stop_def)

lemma closed_stays:
  "rs_closed r \<Longrightarrow> AddProject cfg e i d r = (Inl ErrManagerClosed, r)"
  "rs_closed r \<Longrightarrow> Refresh cfg e i d r = (Inl ErrManagerClosed, r)"
  by (simp_all add: AddProject_def Refresh_def)

text \<open>
  However Run ends, no rathole-server is left supervised: whether the relay manager does not
  start, a listener or a gateway fails, serving ends with an error or by the context, and whatever the
  calls in between started. Afterwards the manager stays shut: a late AddProject or Refresh is refused
  and changes nothing.
\<close>
theorem run_stops_relay:
  "case server_run cfg e d rw serving (NewManager files) of
     (res, r') \<Rightarrow> rs_sups r' = [] \<and>
       ((rs_closed r' \<and>
         (\<forall>e i d. AddProject cfg e i d r' = (Inl ErrManagerClosed, r') \<and>
                  Refresh cfg e i d r' = (Inl ErrManagerClosed, r'))) \<or>
        (res = Inl ''server: relay manager start: %w'' \<and> r' = NewManager files))"
proof (cases "Start cfg e d (NewManager files)")
  case (Pair res r)
  show ?thesis
  proof (cases res)
    case (Inl x)
    then have "r = NewManager files" using Pair Start_fails by blast
    then show ?thesis using Pair Inl by (simp add: server_run_def NewManager_def)
  next
    case (Inr u)
    have s: "case x of (res, r') \<Rightarrow> rs_sups r' = [] \<and>
       ((rs_closed r' \<and>
         (\<forall>e i d. AddProject cfg e i d r' = (Inl ErrManagerClosed, r') \<and>
                  Refresh cfg e i d r' = (Inl ErrManagerClosed, r'))) \<or>
        (res = Inl ''server: relay manager start: %w'' \<and> r' = NewManager files))"
      if "snd x = Stop r0" for x :: "(err + unit) \<times> relay_state" and r0
      using that Stop_stops [of r0] closed_stays by (cases x) simp
    obtain r0 where r0: "snd (server_run cfg e d rw serving (NewManager files)) = Stop r0"
    proof -
      have "\<exists>r0. snd (server_run cfg e d rw serving (NewManager files)) = Stop r0"
        using Pair Inr by (auto simp: server_run_def Let_def split: option.splits)
      then show ?thesis using that by blast
    qed
    show ?thesis by (rule s [OF r0])
  qed
qed

subsection \<open>Codes in the order of their numbers\<close>

lemma code_number_inj: "code_number a = code_number b \<Longrightarrow> a = b"
  by (cases a; cases b) simp_all

instantiation code :: linorder
begin

definition less_eq_code :: "code \<Rightarrow> code \<Rightarrow> bool" where
  "less_eq_code a b \<longleftrightarrow> code_number a \<le> code_number b"

definition less_code :: "code \<Rightarrow> code \<Rightarrow> bool" where
  "less_code a b \<longleftrightarrow> code_number a < code_number b"

instance
  by standard (auto simp: less_eq_code_def less_code_def intro: code_number_inj)

end

text \<open>An error read back from the gateway is the status the handler returned, code and message.\<close>

lemma gateway_error_inj:
  "gatewayErrorHandler h st = gatewayErrorHandler h st' \<Longrightarrow> st = st'"
  by (cases st; cases st') (auto simp: gatewayErrorHandler_def intro: code_number_inj)

text \<open>Exactly the highest code, Unauthenticated, carries the challenge.\<close>

lemma gateway_challenge:
  "length (ge_headers (gatewayErrorHandler h st)) = 2 \<longleftrightarrow> (\<forall>c. c \<le> st_code st)"
proof -
  have "(\<forall>c. c \<le> st_code st) \<longleftrightarrow> st_code st = Unauthenticated"
  proof
    assume "\<forall>c. c \<le> st_code st"
    then have "Unauthenticated \<le> st_code st" by blast
    then show "st_code st = Unauthenticated" by (cases "st_code st") (simp_all add: less_eq_code_def)
  next
    assume u: "st_code st = Unauthenticated"
    have "c \<le> Unauthenticated" for c by (cases c) (simp_all add: less_eq_code_def)
    then show "\<forall>c. c \<le> st_code st" using u by simp
  qed
  then show ?thesis by (simp add: gatewayErrorHandler_def)
qed

end
