(* ===== verification/CliOutput.thy ===== *)
theory CliOutput
  imports CliServer AdminCli Deploy
begin

section \<open>What the operator's commands print (cmd/quicktun)\<close>

text \<open>
  The lines on standard output and standard error of every command, as tables (before the alignment of
  tabwriter), lines, or the JSON of a message. Of the values, only names, texts and numbers are put in;
  prompts are left out. Then: what \<open>service list\<close> prints is what \<open>service get\<close> accepts, and what
  \<open>token create\<close> prints on standard output is a token the server accepts.
\<close>

datatype json_doc =
    JsonResponse response
  | JsonProjects "project_pb list" | JsonSites "site_pb list" | JsonServices "service_pb list"
  | JsonOperators "operator_pb list" | JsonAccesses "access_pb list" | JsonTokens "sa_token_pb list"

datatype printed = Out string | Err string | Table "string list" "string list list" | Json json_doc

definition printTable :: "string list \<Rightarrow> string list list \<Rightarrow> printed list" where
  "printTable headers table = [Table headers table]"

definition renderOrJSON :: "bool \<Rightarrow> json_doc \<Rightarrow> printed list \<Rightarrow> printed list" where
  "renderOrJSON asJSON doc human = (if asJSON then [Json doc] else human)"

subsection \<open>Times\<close>

text \<open>
  \<open>t.UTC().Format(time.RFC3339)\<close> of a time in nanoseconds since 1970, by counting days: a calendar repeats
  after 400 years, 146097 days.
\<close>

definition leap_year :: "nat \<Rightarrow> bool" where
  "leap_year y \<longleftrightarrow> y mod 4 = 0 \<and> (y mod 100 \<noteq> 0 \<or> y mod 400 = 0)"

definition year_days :: "nat \<Rightarrow> nat" where
  "year_days y = (if leap_year y then 366 else 365)"

function civil_year :: "nat \<Rightarrow> nat \<Rightarrow> nat \<times> nat" where
  "civil_year y n = (if n < year_days y then (y, n) else civil_year (Suc y) (n - year_days y))"
  by pat_completeness auto
termination
  by (relation "measure snd") (auto simp: year_days_def)

declare civil_year.simps [simp del]

definition month_days :: "nat \<Rightarrow> nat list" where
  "month_days y = [31, if leap_year y then 29 else 28, 31, 30, 31, 30, 31, 31, 30, 31, 30, 31]"

fun civil_month :: "nat list \<Rightarrow> nat \<Rightarrow> nat \<times> nat" where
  "civil_month [] n = (1, Suc n)"
| "civil_month (m # ms) n = (if n < m then (1, Suc n) else (let (k, i) = civil_month ms (n - m) in (Suc k, i)))"

text \<open>Year, month and day of a day, counted from 1970-01-01.\<close>

definition civil :: "int \<Rightarrow> int \<times> nat \<times> nat" where
  "civil n =
     (let (y, i) = civil_year 1970 (nat (n mod 146097));
          (m, k) = civil_month (month_days y) i
      in (int y + 400 * (n div 146097), m, k))"

definition pad :: "nat \<Rightarrow> nat \<Rightarrow> string" where
  "pad w n = replicate (w - length (format_uint n)) (CHR ''0'') @ format_uint n"

definition rfc3339 :: "time \<Rightarrow> string" where
  "rfc3339 t =
     (let s = t div second; (y, m, k) = civil (s div 86400); r = nat (s mod 86400)
      in pad 4 (nat y) @ ''-'' @ pad 2 m @ ''-'' @ pad 2 k @ ''T'' @ pad 2 (r div 3600) @ '':'' @
         pad 2 (r div 60 mod 60) @ '':'' @ pad 2 (r mod 60) @ ''Z'')"

text \<open>The years 1 to 9999.\<close>

definition IsValid :: "time \<Rightarrow> bool" where
  "IsValid t \<longleftrightarrow> -62135596800 \<le> t div second \<and> t div second \<le> 253402300799"

definition formatTimestamp :: "time option \<Rightarrow> string" where
  "formatTimestamp ts =
     (case ts of
        None \<Rightarrow> ''-''
      | Some t \<Rightarrow> if \<not> IsValid t \<or> t = 0 then ''-'' else rfc3339 t)"

subsection \<open>project\<close>

fun project_status_string :: "project_status_pb \<Rightarrow> string" where
  "project_status_string PROJECT_STATUS_UNSPECIFIED = ''PROJECT_STATUS_UNSPECIFIED''"
| "project_status_string PROJECT_STATUS_ACTIVE = ''PROJECT_STATUS_ACTIVE''"
| "project_status_string PROJECT_STATUS_DISABLED = ''PROJECT_STATUS_DISABLED''"

definition project_row_cells :: "project_pb \<Rightarrow> string list" where
  "project_row_cells p =
     [pp_name p, pp_display_name p, project_status_string (pp_status p), pp_relay_port_range p]"

definition project_headers :: "string list" where
  "project_headers = [''NAME'', ''DISPLAY'', ''STATUS'', ''PORT_RANGE'']"

definition print_projects :: "bool \<Rightarrow> project_pb list \<Rightarrow> printed list" where
  "print_projects asJSON ps =
     renderOrJSON asJSON (JsonProjects ps) (printTable project_headers (map project_row_cells ps))"

definition print_project :: "bool \<Rightarrow> project_pb \<Rightarrow> printed list" where
  "print_project asJSON p =
     renderOrJSON asJSON (JsonResponse (ProjectR p)) (printTable project_headers [project_row_cells p])"

definition print_created_project :: "bool \<Rightarrow> project_pb \<Rightarrow> printed list" where
  "print_created_project asJSON p =
     renderOrJSON asJSON (JsonResponse (ProjectR p)) [Out (''Created '' @ pp_name p)]"

subsection \<open>site\<close>

fun site_status_string :: "site_status_pb \<Rightarrow> string" where
  "site_status_string SITE_STATUS_UNSPECIFIED = ''SITE_STATUS_UNSPECIFIED''"
| "site_status_string SITE_STATUS_PENDING = ''SITE_STATUS_PENDING''"
| "site_status_string SITE_STATUS_ONLINE = ''SITE_STATUS_ONLINE''"
| "site_status_string SITE_STATUS_OFFLINE = ''SITE_STATUS_OFFLINE''"

fun site_mode_string :: "site_mode_pb \<Rightarrow> string" where
  "site_mode_string SITE_MODE_UNSPECIFIED = ''SITE_MODE_UNSPECIFIED''"
| "site_mode_string SITE_MODE_ENDPOINT = ''SITE_MODE_ENDPOINT''"
| "site_mode_string SITE_MODE_SUBNET = ''SITE_MODE_SUBNET''"

definition site_row_cells :: "site_pb \<Rightarrow> string list" where
  "site_row_cells s =
     [site_pb.sp_name s, sp_display_name s, site_status_string (sp_status s), site_mode_string (sp_mode s),
      formatTimestamp (sp_last_seen_time s), sp_hostname s]"

definition site_headers :: "string list" where
  "site_headers = [''NAME'', ''DISPLAY'', ''STATUS'', ''MODE'', ''LAST_SEEN'', ''HOSTNAME'']"

definition print_sites :: "bool \<Rightarrow> site_pb list \<Rightarrow> printed list" where
  "print_sites asJSON ss =
     renderOrJSON asJSON (JsonSites ss) (printTable site_headers (map site_row_cells ss))"

definition print_site :: "bool \<Rightarrow> site_pb \<Rightarrow> printed list" where
  "print_site asJSON s =
     renderOrJSON asJSON (JsonResponse (SiteR s)) (printTable site_headers [site_row_cells s])"

definition print_created_site :: "bool \<Rightarrow> site_pb \<Rightarrow> printed list" where
  "print_created_site asJSON s =
     renderOrJSON asJSON (JsonResponse (SiteR s)) [Out (''Created '' @ site_pb.sp_name s)]"

subsection \<open>service\<close>

definition serviceHeaders :: "string list" where
  "serviceHeaders = [''NAME'', ''DISPLAY'', ''TARGET'', ''PROTO'', ''RELAY_PORT'']"

definition print_services :: "bool \<Rightarrow> service_pb list \<Rightarrow> printed list" where
  "print_services asJSON ss =
     renderOrJSON asJSON (JsonServices ss) (printTable serviceHeaders (map serviceRow ss))"

definition print_service :: "bool \<Rightarrow> service_pb \<Rightarrow> printed list" where
  "print_service asJSON s =
     renderOrJSON asJSON (JsonResponse (ServiceR s)) (printTable serviceHeaders [serviceRow s])"

definition print_created_service :: "bool \<Rightarrow> service_pb \<Rightarrow> printed list" where
  "print_created_service asJSON s =
     renderOrJSON asJSON (JsonResponse (ServiceR s))
       [Out (''Created '' @ vp_name s @ '' (relay_port='' @ format_uint (unat (vp_relay_port s)) @ '')'')]"

subsection \<open>operator\<close>

definition bool_string :: "bool \<Rightarrow> string" where
  "bool_string b = (if b then ''true'' else ''false'')"

definition operator_cells :: "operator_pb \<Rightarrow> string list" where
  "operator_cells op = [op_pb_name op, op_pb_email op, if op_pb_is_admin op then ''yes'' else ''no'']"

definition operator_headers :: "string list" where
  "operator_headers = [''NAME'', ''EMAIL'', ''ADMIN'']"

definition print_operators :: "bool \<Rightarrow> operator_pb list \<Rightarrow> printed list" where
  "print_operators asJSON ops =
     renderOrJSON asJSON (JsonOperators ops) (printTable operator_headers (map operator_cells ops))"

definition print_operator :: "bool \<Rightarrow> operator_pb \<Rightarrow> printed list" where
  "print_operator asJSON op =
     renderOrJSON asJSON (JsonResponse (OperatorR op)) (printTable operator_headers [operator_cells op])"

definition print_created_operator :: "bool \<Rightarrow> operator_pb \<Rightarrow> printed list" where
  "print_created_operator asJSON op =
     renderOrJSON asJSON (JsonResponse (OperatorR op))
       [Out (''Created '' @ op_pb_name op @ '' (email='' @ op_pb_email op @ '', admin='' @
         bool_string (op_pb_is_admin op) @ '')'')]"

definition print_updated_operator :: "bool \<Rightarrow> operator_pb \<Rightarrow> printed list" where
  "print_updated_operator asJSON op =
     renderOrJSON asJSON (JsonResponse (OperatorR op))
       [Out (''Updated '' @ op_pb_name op @ '' (admin='' @ bool_string (op_pb_is_admin op) @ '')'')]"

definition print_granted :: "access_pb \<Rightarrow> printed list" where
  "print_granted a =
     [Out (''Granted '' @ acp_role a @ '' access to '' @ acp_operator a @ '' on '' @ acp_project_slug a)]"

definition print_accesses :: "bool \<Rightarrow> access_pb list \<Rightarrow> printed list" where
  "print_accesses asJSON as =
     renderOrJSON asJSON (JsonAccesses as)
       (printTable [''OPERATOR'', ''PROJECT'', ''ROLE'']
         (map (\<lambda>a. [acp_operator a, acp_project_slug a, acp_role a]) as))"

subsection \<open>token\<close>

definition valid_time :: "time option \<Rightarrow> time option" where
  "valid_time ts = (case ts of None \<Rightarrow> None | Some t \<Rightarrow> if IsValid t then Some t else None)"

definition token_cells :: "sa_token_pb \<Rightarrow> string list" where
  "token_cells t =
     [format_uint (sap_id t), sap_operator t, sap_description t,
      (if valid_time (sap_revoke_time t) \<noteq> None then ''revoked'' else ''active''),
      (case valid_time (sap_expire_time t) of None \<Rightarrow> ''-'' | Some x \<Rightarrow> rfc3339 x),
      (case valid_time (sap_last_used_time t) of None \<Rightarrow> ''-'' | Some x \<Rightarrow> rfc3339 x)]"

definition print_tokens :: "bool \<Rightarrow> sa_token_pb list \<Rightarrow> printed list" where
  "print_tokens asJSON ts =
     renderOrJSON asJSON (JsonTokens ts)
       (printTable [''ID'', ''OPERATOR'', ''DESCRIPTION'', ''STATUS'', ''EXPIRES'', ''LAST_USED'']
         (map token_cells ts))"

text \<open>The warnings, in UTF-8.\<close>

definition token_warnings :: "string list" where
  "token_warnings =
    [''WARNING: '' @ [CHR 0xE6, CHR 0xAD, CHR 0xA4] @ '' token '' @
     [CHR 0xE4, CHR 0xBB, CHR 0x85, CHR 0xE6, CHR 0x98, CHR 0xBE, CHR 0xE7, CHR 0xA4, CHR 0xBA,
      CHR 0xE4, CHR 0xB8, CHR 0x80, CHR 0xE6, CHR 0xAC, CHR 0xA1, CHR 0xEF, CHR 0xBC, CHR 0x8C,
      CHR 0xE8, CHR 0xAF, CHR 0xB7, CHR 0xE5, CHR 0xA6, CHR 0xA5, CHR 0xE5, CHR 0x96, CHR 0x84,
      CHR 0xE4, CHR 0xBF, CHR 0x9D, CHR 0xE5, CHR 0xAD, CHR 0x98],
     ''WARNING: this token is shown only once '' @ [CHR 0xE2, CHR 0x80, CHR 0x94] @ '' save it now'']"

definition print_token :: "bool \<Rightarrow> sa_token_pb \<Rightarrow> string \<Rightarrow> printed list" where
  "print_token asJSON t raw =
     (if asJSON then [Json (JsonResponse (SaTokenR t raw))]
      else
        [Err (replicate 60 (CHR ''='')), Err ''Service-account token created'', Err (replicate 60 (CHR ''='')),
         Err (''id:          '' @ format_uint (sap_id t)), Err (''operator:    '' @ sap_operator t),
         Err (''description: '' @ sap_description t),
         (case valid_time (sap_expire_time t) of
            None \<Rightarrow> Err ''expires:     never''
          | Some x \<Rightarrow> Err (''expires:     '' @ rfc3339 x)),
         Err (replicate 60 (CHR ''-''))] @ map Err token_warnings @ [Err (replicate 60 (CHR ''-'')), Out raw])"

subsection \<open>status\<close>

definition print_status :: "bool \<Rightarrow> system_status \<Rightarrow> printed list" where
  "print_status asJSON s =
     (if asJSON then [Json (JsonResponse (StatusR s))]
      else
        (let num = (\<lambda>n. format_uint (unat (n :: 32 word))) in
         [Out (''operators:        '' @ num (ss_operator_count s)),
          Out (''projects:         '' @ num (ss_project_count_active s) @ '' active, '' @
            num (ss_project_count_disabled s) @ '' disabled''),
          Out (''sites:            '' @ num (ss_site_count_online s) @ '' online, '' @
            num (ss_site_count_offline s) @ '' offline, '' @ num (ss_site_count_pending s) @ '' pending''),
          Out (''services:         '' @ num (ss_service_count s)),
          Out (''supervisors:      '' @ num (ss_supervisor_running_count s))] @
         (if ss_stale_sites s = [] then []
          else [Out [], Out ''stale sites (no recent heartbeat):''] @
            map (\<lambda>h. Out (''  '' @ sh_name h @ ''  last_seen='' @
              (case sh_last_seen_at h of None \<Rightarrow> ''never'' | Some t \<Rightarrow> rfc3339 t) @
              ''  hostname='' @ sh_hostname h)) (ss_stale_sites s))))"

subsection \<open>Every command\<close>

text \<open>
  What a command prints after its answer; the commands without a --json flag do not look at it. An error
  is printed by main on standard error.
\<close>

fun name_or_self :: "err + string \<Rightarrow> string" where
  "name_or_self (Inr n) = n"
| "name_or_self (Inl x) = []"

fun cli_print :: "cli_command \<Rightarrow> bool \<Rightarrow> response \<Rightarrow> printed list" where
  "cli_print CliProjectList js r =
     (case r of ProjectsR x \<Rightarrow> print_projects js (lpr_projects x) | _ \<Rightarrow> [])"
| "cli_print (CliProjectGet n) js r =
     (case r of ProjectR p \<Rightarrow> print_project js p | _ \<Rightarrow> [])"
| "cli_print (CliProjectCreate s d pr) js r =
     (case r of ProjectR p \<Rightarrow> print_created_project js p | _ \<Rightarrow> [])"
| "cli_print (CliProjectDelete n y a f) js r = [Out (''Deleted '' @ canonicalProjectName n)]"
| "cli_print (CliSiteList p) js r =
     (case r of SitesR x \<Rightarrow> print_sites js (lsr_sites x) | _ \<Rightarrow> [])"
| "cli_print (CliSiteGet n) js r =
     (case r of SiteR s \<Rightarrow> print_site js s | _ \<Rightarrow> [])"
| "cli_print (CliSiteCreate p s d m) js r =
     (case r of SiteR x \<Rightarrow> print_created_site js x | _ \<Rightarrow> [])"
| "cli_print (CliSiteDelete n y a f) js r =
     [Out (''Deleted '' @ name_or_self (canonicalSiteName n))]"
| "cli_print (CliServiceList p) js r =
     (case r of ServicesR x \<Rightarrow> print_services js (lvr_services x) | _ \<Rightarrow> [])"
| "cli_print (CliServiceGet n) js r =
     (case r of ServiceR s \<Rightarrow> print_service js s | _ \<Rightarrow> [])"
| "cli_print (CliServiceCreate p s d ad po pr) js r =
     (case r of ServiceR x \<Rightarrow> print_created_service js x | _ \<Rightarrow> [])"
| "cli_print (CliServiceDelete n y a) js r =
     [Out (''Deleted '' @ name_or_self (canonicalServiceName n))]"
| "cli_print CliOperatorList js r =
     (case r of OperatorsR x \<Rightarrow> print_operators js (lor_operators x) | _ \<Rightarrow> [])"
| "cli_print (CliOperatorGet n) js r =
     (case r of OperatorR op \<Rightarrow> print_operator js op | _ \<Rightarrow> [])"
| "cli_print (CliOperatorCreate em pw ad) js r =
     (case r of OperatorR op \<Rightarrow> print_created_operator js op | _ \<Rightarrow> [])"
| "cli_print (CliOperatorDelete n y a) js r = [Out (''Deleted '' @ canonicalOperatorName n)]"
| "cli_print (CliOperatorSetAdmin n ad) js r =
     (case r of OperatorR op \<Rightarrow> print_updated_operator js op | _ \<Rightarrow> [])"
| "cli_print (CliOperatorSetPassword n pw) js r =
     [Out (''Rotated password for '' @ canonicalOperatorName n)]"
| "cli_print (CliOperatorGrant n p ro) js r =
     (case r of AccessR a \<Rightarrow> print_granted a | _ \<Rightarrow> [])"
| "cli_print (CliOperatorRevoke n p) js r =
     [Out (''Revoked access from '' @ canonicalOperatorName n @ '' on '' @ p)]"
| "cli_print (CliOperatorAccess n) js r =
     (case r of AccessesR as \<Rightarrow> print_accesses js as | _ \<Rightarrow> [])"
| "cli_print (CliTokenList n) js r =
     (case r of SaTokensR ts \<Rightarrow> print_tokens js ts | _ \<Rightarrow> [])"
| "cli_print (CliTokenCreate n d t) js r =
     (case r of SaTokenR tk raw \<Rightarrow> print_token js tk raw | _ \<Rightarrow> [])"
| "cli_print (CliTokenRevoke i y a) js r =
     [Out (''Revoked service-account token '' @ (case parseUintArg i of None \<Rightarrow> [] | Some k \<Rightarrow> format_uint k))]"
| "cli_print CliStatus js r =
     (case r of StatusR s \<Rightarrow> print_status js s | _ \<Rightarrow> [])"

text \<open>The process: its exit code and what its own code printed (cobra adds its usage text to an error), an
  error by its format or as grpc-go writes a status.\<close>

fun error_text :: "cli_error \<Rightarrow> string" where
  "error_text (CliLocal x) = x"
| "error_text (CliRpc st) = ''rpc error: code = '' @ code_string (st_code st) @ '' desc = '' @ st_msg st"

definition cli_main :: "cli_command \<Rightarrow> bool \<Rightarrow> 'w conn \<Rightarrow> 'w \<Rightarrow> (nat \<times> printed list) \<times> 'w" where
  "cli_main c js conn w =
     (case cli_run c conn w of
        (Inl x, w) \<Rightarrow> ((1, [Err (error_text x)]), w)
      | (Inr r, w) \<Rightarrow> ((0, cli_print c js r), w))"

fun stdout_of :: "printed list \<Rightarrow> printed list" where
  "stdout_of [] = []"
| "stdout_of (Err l # ps) = stdout_of ps"
| "stdout_of (p # ps) = p # stdout_of ps"

text \<open>The calendar is right: the days before the year, and before the month in it, add up to the day.\<close>

lemma civil_year_days:
  "civil_year y n = (y1, i) \<Longrightarrow> y \<le> y1 \<and> i < year_days y1 \<and> (\<Sum>k\<leftarrow>[y..<y1]. year_days k) + i = n"
proof (induction y n rule: civil_year.induct)
  case (1 y n)
  show ?case
  proof (cases "n < year_days y")
    case True
    then show ?thesis using 1(2) by (simp add: civil_year.simps [of y n])
  next
    case False
    then have r: "civil_year (Suc y) (n - year_days y) = (y1, i)" using 1(2) by (simp add: civil_year.simps [of y n])
    have ih: "Suc y \<le> y1" "i < year_days y1" "(\<Sum>k\<leftarrow>[Suc y..<y1]. year_days k) + i = n - year_days y"
      using 1(1) [OF False r] by auto
    have "[y..<y1] = y # [Suc y..<y1]" using ih(1) by (simp add: upt_conv_Cons)
    then show ?thesis using ih False by simp
  qed
qed

lemma civil_month_days:
  "n < sum_list ms \<Longrightarrow> civil_month ms n = (m, k) \<Longrightarrow>
     1 \<le> m \<and> m \<le> length ms \<and> 1 \<le> k \<and> k \<le> ms ! (m - 1) \<and> sum_list (take (m - 1) ms) + k = Suc n"
proof (induction ms n arbitrary: m k rule: civil_month.induct)
  case (2 x ms n)
  show ?case
  proof (cases "n < x")
    case True
    then show ?thesis using 2(3) by auto
  next
    case False
    obtain m1 k1 where r: "civil_month ms (n - x) = (m1, k1)" by fastforce
    have "n - x < sum_list ms" using 2(2) False by simp
    from 2(1) [OF False this r] obtain m2 where "m1 = Suc m2" "m1 \<le> length ms" "1 \<le> k1" "k1 \<le> ms ! m2"
      "sum_list (take m2 ms) + k1 = Suc (n - x)" by (cases m1) auto
    then show ?thesis using 2(3) False r by auto
  qed
qed simp

lemma month_days_sum: "sum_list (month_days y) = year_days y"
  by (simp add: month_days_def year_days_def)

lemma civil_right:
  assumes "civil n = (y, m, k)"
  shows "\<exists>y1. y = int y1 + 400 * (n div 146097) \<and> 1970 \<le> y1 \<and> 1 \<le> m \<and> m \<le> 12 \<and> 1 \<le> k \<and>
    k \<le> month_days y1 ! (m - 1) \<and>
    int ((\<Sum>j\<leftarrow>[1970..<y1]. year_days j) + sum_list (take (m - 1) (month_days y1)) + k) = n mod 146097 + 1"
proof -
  obtain y1 i where y: "civil_year 1970 (nat (n mod 146097)) = (y1, i)" by fastforce
  obtain m1 k1 where mk: "civil_month (month_days y1) i = (m1, k1)" by fastforce
  note yd = civil_year_days [OF y]
  have "i < sum_list (month_days y1)" using yd month_days_sum by simp
  note md = civil_month_days [OF this mk]
  have "length (month_days y1) = 12" by (simp add: month_days_def)
  then show ?thesis using assms y mk yd md by (auto simp: civil_def)
qed

subsection \<open>What list prints, get accepts\<close>

lemma parent_slugs:
  assumes "resolve_site_from_parent e cx parent d = Inr (p, s)"
  shows "slug_grammar (pr_slug p) \<and> slug_grammar (si_name s)"
  using assms unfolding resolve_site_from_parent_def parse_site_parent_def
  by (auto simp: parse_site_name_iff validate_slug_iff dest!: project_find_by_slug_Inr site_find_by_name_Inr
      split: option.splits sum.splits if_splits)

lemma listed_services:
  assumes "service_list_by_site e i n tok d = Inr page" "v \<in> set page"
  shows "v \<in> set (rows (t_services d)) \<and> live v \<and> sv_site_id v = i"
  using assms by (auto simp: service_list_by_site_def page_live_def select_live_def
      split: sum.splits if_splits dest!: in_set_takeD)

lemma with_conn_session:
  assumes "session_validate e (cr_session_token creds) (wdb w) = Inr op" and "cr_endpoint creds \<noteq> []"
    and "cr_session_token creds \<noteq> []" "list_all solid (cr_session_token creds)"
    and "method_of q \<noteq> login_method" "\<not> is_agent_request q"
  shows "with_conn (Inr creds) (serve cfg rm e peer) q w =
    (case dispatch cfg rm e q (operator_ctx peer op (raw_ctx (cli_metadata creds))) w of
       (Inl st, w) \<Rightarrow> (Inl (CliRpc st), w) | (Inr r, w) \<Rightarrow> (Inr r, w))"
  using serve_session [OF assms(1,3-6)] assms(2)
  by (simp add: with_conn_def loadAndDial_def dialControl_def)

text \<open>
  C39. What \<open>service list\<close> prints can be typed back: when an operator with a session has listed the
  services of a site, \<open>service get\<close> of the name in any row succeeds and prints that row, whatever the
  site was called on the command line.
\<close>
theorem listed_services_can_be_got:
  assumes "\<forall>s. \<not> fault e2 s" and "db_wf (wdb w)"
    and "\<forall>v\<in>set (rows (t_services (wdb w))). slug_grammar (sv_name v)"
    and "cr_endpoint creds \<noteq> []" and "cr_session_token creds \<noteq> []" and "list_all solid (cr_session_token creds)"
    and "session_validate e1 (cr_session_token creds) (wdb w) = Inr op"
    and "session_validate e2 (cr_session_token creds) (wdb w) = Inr op"
    and "cli_main (CliServiceList arg) False (with_conn (Inr creds) (serve cfg rm e1 peer)) w = ((0, out), w')"
  shows "\<exists>table. out = [Table serviceHeaders table] \<and>
    (\<forall>row\<in>set table.
       cli_main (CliServiceGet (hd row)) False (with_conn (Inr creds) (serve cfg rm e2 peer)) w' =
         ((0, [Table serviceHeaders [row]]), w'))"
proof -
  let ?cx = "operator_ctx peer op (raw_ctx (cli_metadata creds))"
  obtain parent where c: "canonicalSiteName arg = Inr parent"
    using assms(9) by (auto simp: cli_main_def newServiceListCmd_def split: sum.splits)
  have l: "with_conn (Inr creds) (serve cfg rm e1 peer) (ListServicesRequest parent 0 []) w =
      (case reply ServicesR (list_services e1 parent 0 [] ?cx w) of
         (Inl st, w) \<Rightarrow> (Inl (CliRpc st), w) | (Inr r, w) \<Rightarrow> (Inr r, w))"
    by (subst with_conn_session [OF assms(7,4-6)]) (simp_all add: login_method_iff is_agent_request_cases)
  obtain p s page where r: "resolve_site_from_parent e1 ?cx parent (wdb w) = Inr (p, s)"
    "service_list_by_site e1 (ID s) 0 [] (wdb w) = Inr page" "w' = w"
    "out = [Table serviceHeaders (map (\<lambda>v. serviceRow (service_to_proto p s v)) page)]"
    using assms(9) c l
    by (auto simp: cli_main_def newServiceListCmd_def list_services_def reply_def print_services_def
        renderOrJSON_def printTable_def split: sum.splits prod.splits if_splits)
  note slugs = parent_slugs [OF r(1)]
  have "cli_main (CliServiceGet (hd (serviceRow (service_to_proto p s v)))) False
      (with_conn (Inr creds) (serve cfg rm e2 peer)) w =
        ((0, [Table serviceHeaders [serviceRow (service_to_proto p s v)]]), w)" if "v \<in> set page" for v
  proof -
    let ?name = "format_service_name (pr_slug p) (si_name s) (sv_name v)"
    note v = listed_services [OF r(2) that]
    have sv: "slug_grammar (sv_name v)" using assms(3) v by blast
    have n: "hd (serviceRow (service_to_proto p s v)) = ?name" by (simp add: serviceRow_def service_to_proto_def)
    have k: "canonicalServiceName ?name = Inr ?name"
      using slugs sv by (intro canonicalServiceName_forms(2) slug_no_slash slug_nonempty) auto
    have "resolve_service e2 ?cx ?name (wdb w) = Inr (p, s, v)"
      using resolve_site_from_parent_Inr [OF r(1)] slugs sv v
      by (intro resolve_service_member [OF assms(1,2), of _ op]) (auto simp: operator_ctx_def)
    then have "with_conn (Inr creds) (serve cfg rm e2 peer) (GetServiceRequest ?name) w =
        (Inr (ServiceR (service_to_proto p s v)), w)"
      by (subst with_conn_session [OF assms(8,4-6)])
        (simp_all add: login_method_iff is_agent_request_cases get_service_def reply_def)
    then show ?thesis
      using k n by (simp add: cli_main_def newServiceGetCmd_def print_service_def renderOrJSON_def printTable_def)
  qed
  then show ?thesis using r(3,4) by auto
qed

text \<open>The example's one service, listed and then fetched.\<close>

lemma ex_listed:
  "\<exists>row. cli_main (CliServiceList ''acme/hq'') False (with_conn (Inr ex_creds) (serve ex_cfg noop_relay ex_env None))
      \<lparr>wdb = ex_db, wrelay = ()\<rparr> = ((0, [Table serviceHeaders [row]]), \<lparr>wdb = ex_db, wrelay = ()\<rparr>)"
proof -
  let ?w = "\<lparr>wdb = ex_db, wrelay = ()\<rparr>" and ?n = "''projects/acme/sites/hq''"
  have v: "session_validate ex_env (cr_session_token ex_creds) (wdb ?w) = Inr ex_admin"
    by (simp add: session_validate_def first_live_def session_active_def)
  have c: "canonicalSiteName ''acme/hq'' = Inr ?n" by code_simp
  have p: "parse_site_parent ?n = Inr \<lparr>sn_project = ''acme'', sn_site = ''hq''\<rparr>" by code_simp
  let ?cx = "operator_ctx None ex_admin (raw_ctx (cli_metadata ex_creds))"
  have r: "resolve_site_from_parent ex_env ?cx ?n ex_db = Inr (ex_project, ex_site)"
    using p by (simp add: resolve_site_from_parent_def project_find_by_slug_def site_find_by_name_def
        first_live_def operator_ctx_def)
  have l: "service_list_by_site ex_env 1 0 [] ex_db = Inr [ex_service]"
    by (simp add: service_list_by_site_def cursor_of_def page_live_def clamp_page_size_def select_live_def)
  have "with_conn (Inr ex_creds) (serve ex_cfg noop_relay ex_env None) (ListServicesRequest ?n 0 []) ?w =
      (Inr (ServicesR \<lparr>lvr_services = [service_to_proto ex_project ex_site ex_service],
        lvr_next_page_token = NextServicePageToken [ex_service]\<rparr>), ?w)"
    using ex_solid r l
    by (subst with_conn_session [OF v])
      (simp_all add: login_method_iff is_agent_request_cases list_services_def reply_def)
  then show ?thesis
    using c by (auto simp: cli_main_def newServiceListCmd_def print_services_def renderOrJSON_def printTable_def)
qed

theorem listed_services_can_be_got_witness:
  "\<exists>row. cli_main (CliServiceGet (hd row)) False (with_conn (Inr ex_creds) (serve ex_cfg noop_relay ex_env None))
      \<lparr>wdb = ex_db, wrelay = ()\<rparr> = ((0, [Table serviceHeaders [row]]), \<lparr>wdb = ex_db, wrelay = ()\<rparr>)"
proof -
  let ?w = "\<lparr>wdb = ex_db, wrelay = ()\<rparr>"
  obtain row where l: "cli_main (CliServiceList ''acme/hq'') False
      (with_conn (Inr ex_creds) (serve ex_cfg noop_relay ex_env None)) ?w = ((0, [Table serviceHeaders [row]]), ?w)"
    using ex_listed by blast
  have v: "session_validate ex_env (cr_session_token ex_creds) (wdb ?w) = Inr ex_admin"
    by (simp add: session_validate_def first_live_def session_active_def)
  have "db_wf (wdb ?w)" "\<forall>v\<in>set (rows (t_services (wdb ?w))). slug_grammar (sv_name v)"
    using ex_wf ex_slugs by simp_all
  from listed_services_can_be_got [OF _ this _ _ _ v v l] show ?thesis using ex_solid by auto
qed

subsection \<open>token create\<close>

lemma sa_issue_owner:
  assumes "db_wf d" "raw_of (sa_token_issue e i desc ttl d) = (Inr raw, d')"
  shows "sa_owner t raw d' = (if 0 < ttl \<and> now e + ttl \<le> t then None else Some i)"
proof -
  from sa_token_issue_Inr [OF assms(2)] obtain r where
    r: "rows (t_sa_tokens d') = rows (t_sa_tokens d) @ [r]" "live r" "sa_token_hash r = hash_token raw"
      "\<not> conflicts sa_token_hash (hash_token raw) 0 (t_sa_tokens d)" "sa_operator_id r = i"
      "sa_expires_at r = (if 0 < ttl then Some (now e + ttl) else None)" "sa_revoked_at r = None"
    by auto
  have "first_live (sa_active t raw) (t_sa_tokens d') = (if sa_active t raw r then Some r else None)"
    by (rule first_live_snoc_key [OF r(1,2,4) db_wfD(9) [OF assms(1)] r(3)]) (simp add: sa_active_def)
  then show ?thesis using r by (simp add: sa_owner_def sa_active_def)
qed

lemma sa_issue_solid:
  "sa_token_issue e i desc ttl d = (Inr (rec, raw), d') \<Longrightarrow>
     raw \<noteq> [] \<and> list_all solid raw \<and> sa_operator_id rec = i"
proof -
  have "list_all solid SATokenPrefix" by code_simp
  then show "sa_token_issue e i desc ttl d = (Inr (rec, raw), d') \<Longrightarrow>
     raw \<noteq> [] \<and> list_all solid raw \<and> sa_operator_id rec = i"
    using b64_encode_solid
    by (auto simp: sa_token_issue_def Let_def tbl_append_def sa_stamp_def SATokenPrefix_def
        split: option.splits prod.splits if_splits)
qed

lemma serve_sa:
  assumes "session_validate e (cr_session_token creds) (wdb w) = Inl x"
    and "sa_token_validate_raw e (cr_session_token creds) (wdb w) = (Inr i, d)"
    and "operator_find_by_id e i d = Inr op"
    and "cr_session_token creds \<noteq> []" "list_all solid (cr_session_token creds)"
    and "method_of q \<noteq> login_method" "\<not> is_agent_request q"
  shows "serve cfg rm e peer (cli_metadata creds) q w =
    dispatch cfg rm e q (operator_ctx peer op (raw_ctx (cli_metadata creds))) (w\<lparr>wdb := d\<rparr>)"
proof -
  have "\<not> has_prefix agent_service_prefix (method_of q)" using assms(7) by (simp add: is_agent_request_def)
  then show ?thesis
    using assms(1-3,6) cli_bearer [OF assms(4,5)] cli_bearer [OF assms(4,5), of "cx_source_ip (raw_ctx (cli_metadata creds))"]
    unfolding serve_def server_chain_operator [OF \<open>\<not> has_prefix _ _\<close>]
    by (simp add: unary_interceptor_def server_validators_def operator_ctx_def assms(4)
        WithRawToken_def WithOperator_def Let_def)
qed

lemma resolve_keeps:
  assumes "server_ok (wdb w)"
    and "resolveOperatorName arg (with_conn loaded (serve cfg rm e peer)) w = (res, w')"
  shows "server_ok (wdb w')"
proof -
  have "server_ok (wdb w2)" if "with_conn loaded (serve cfg rm e peer) q w = (r, w2)" for q r w2
    using that assms(1) unfolding with_conn_def
    by (auto split: sum.splits prod.splits dest: serve_keeps)
  then show ?thesis
    using assms unfolding resolveOperatorName_def
    by (auto split: if_splits sum.splits prod.splits response.splits)
qed

text \<open>What a token creation that went through did.\<close>

lemma token_created:
  assumes "server_ok (wdb w)"
    and "cli_run (CliTokenCreate arg desc ttl) (with_conn loaded (serve cfg rm e peer)) w = (Inr r, w')"
  shows "\<exists>rec raw i op d d'. r = SaTokenR (sa_token_to_proto rec) raw \<and> server_ok d \<and>
    sa_token_issue e i desc (ttl_of_seconds (word_of_int (whole_seconds ttl))) d = (Inr (rec, raw), d') \<and>
    op \<in> set (rows (t_operators d)) \<and> live op \<and> ID op = i \<and>
    t_sa_tokens (wdb w') = t_sa_tokens d' \<and> t_operators (wdb w') = t_operators d' \<and> server_ok (wdb w')"
proof -
  let ?conn = "with_conn loaded (serve cfg rm e peer)" and ?n = "word_of_int (whole_seconds ttl) :: 64 word"
  obtain name w1 where n: "resolveOperatorName arg ?conn w = (Inr name, w1)"
    "?conn (CreateServiceAccountTokenRequest name desc ?n) w1 = (Inr r, w')"
    using assms(2) by (auto simp: newTokenCreateCmd_def split: sum.splits prod.splits)
  have ok1: "server_ok (wdb w1)" by (rule resolve_keeps [OF assms(1) n(1)])
  obtain creds where s: "serve cfg rm e peer (cli_metadata creds) (CreateServiceAccountTokenRequest name desc ?n) w1 = (Inr r, w')"
    using n(2) by (auto simp: with_conn_def split: sum.splits prod.splits)
  obtain cx d where t: "touched e (wdb w1) d"
    "dispatch cfg rm e (CreateServiceAccountTokenRequest name desc ?n) cx (w1\<lparr>wdb := d\<rparr>) = (Inr r, w')"
    using serve_cases [OF s] by auto
  have ok: "server_ok d" by (rule server_ok_neutral [OF ok1 touched_neutral [OF t(1)]])
  obtain tr where c: "create_sa_token e name desc ?n cx (w1\<lparr>wdb := d\<rparr>) = (Inr tr, w')"
    "r = (case tr of (t, raw) \<Rightarrow> SaTokenR t raw)"
    using t(2) by (auto simp: map_sum_def split: sum.splits prod.splits dest!: reply_eq)
  obtain rec raw i op d' where i: "tr = (sa_token_to_proto rec, raw)"
    "sa_token_issue e i desc (ttl_of_seconds ?n) d = (Inr (rec, raw), d')"
    "operator_find_by_id e i d = Inr op"
    "t_sa_tokens (wdb w') = t_sa_tokens d'" "t_operators (wdb w') = t_operators d'"
    using c(1) unfolding create_sa_token_def by (auto simp: audited_frame split: sum.splits if_splits prod.splits)
  have "server_ok (wdb w')" by (rule serve_keeps [OF ok1 s])
  then show ?thesis using operator_find_by_id_Inr [OF i(3)] c(2) i ok
    by (intro exI [of _ rec] exI [of _ raw] exI [of _ i] exI [of _ op] exI [of _ d] exI [of _ d']) simp
qed

text \<open>A service-account token, as the client's session token, is served as its owner.\<close>

lemma sa_token_served:
  assumes "server_ok (wdb w)" and "sa_owner (now e) raw (wdb w) = Some (ID op)"
    and "op \<in> set (rows (t_operators (wdb w)))" and "live op" and "session_owner (now e) raw (wdb w) = None"
    and "list_all solid raw \<and> raw \<noteq> []" and tok: "cr_session_token creds = raw"
    and "\<forall>s. \<not> fault e s" and "method_of q \<noteq> login_method" and "\<not> is_agent_request q"
  shows "\<exists>d. sa_touched e (wdb w) d \<and> serve cfg rm e peer (cli_metadata creds) q w =
    dispatch cfg rm e q (operator_ctx peer op (raw_ctx (cli_metadata creds))) (w\<lparr>wdb := d\<rparr>)"
proof -
  obtain z where z: "first_live (sa_active (now e) raw) (t_sa_tokens (wdb w)) = Some z" "sa_operator_id z = ID op"
    using assms(2) by (auto simp: sa_owner_def)
  let ?d = "touch_sa_token e (ID z) (wdb w)"
  have v: "sa_token_validate_raw e raw (wdb w) = (Inr (ID op), ?d)"
    using z assms(8) by (simp add: sa_token_validate_raw_def)
  have "first_live (\<lambda>x. ID x = ID op) (t_operators (wdb w)) = Some op"
    using first_live_ID [OF db_wfD(1) [OF server_okD(3) [OF assms(1)]]] assms(3,4) by simp
  then have f: "operator_find_by_id e (ID op) ?d = Inr op"
    using assms(8) by (simp add: operator_find_by_id_def frame_simps)
  have x: "session_validate e raw (wdb w) = Inl ErrInvalidToken"
    using assms(5,8) by (simp add: session_validate_def session_owner_def)
  have "serve cfg rm e peer (cli_metadata creds) q w =
      dispatch cfg rm e q (operator_ctx peer op (raw_ctx (cli_metadata creds))) (w\<lparr>wdb := ?d\<rparr>)"
    using assms(6) unfolding tok [symmetric]
    by (intro serve_sa [OF x [folded tok] v [folded tok] f _ _ assms(9,10)]) simp_all
  then show ?thesis by (auto simp: sa_touched_def)
qed

text \<open>
  C18. \<open>TOKEN=$(quicktun token create ...)\<close> works: standard output is one line, the raw token, the rest
  goes to standard error; and until it expires (for ever, when the lifetime is below a second) a
  client that has it as its session token has every operator RPC handled as the live operator the
  output names, provided the text is not a session's token too.
\<close>
theorem created_token_works:
  assumes "server_ok (wdb w)" and "- (2 ^ 63) \<le> ttl" and "ttl < 2 ^ 63"
    and "cli_main (CliTokenCreate arg desc ttl) False (with_conn loaded (serve cfg rm e peer)) w = ((0, out), w')"
    and "\<forall>s. \<not> fault e2 s" and "method_of q \<noteq> login_method" and "\<not> is_agent_request q"
  shows "\<exists>raw op. stdout_of out = [Out raw] \<and>
    op \<in> set (rows (t_operators (wdb w'))) \<and> live op \<and> Err (''operator:    '' @ format_operator_name (ID op)) \<in> set out \<and>
    (session_owner (now e2) raw (wdb w') = None \<and>
       (whole_seconds ttl \<le> 0 \<or> now e2 < now e + whole_seconds ttl * second) \<longrightarrow>
     (\<forall>creds. cr_session_token creds = raw \<longrightarrow>
       (\<exists>d. sa_touched e2 (wdb w') d \<and> serve cfg rm e2 peer2 (cli_metadata creds) q w' =
         dispatch cfg rm e2 q (operator_ctx peer2 op (raw_ctx (cli_metadata creds))) (w'\<lparr>wdb := d\<rparr>))))"
proof -
  obtain r where run: "cli_run (CliTokenCreate arg desc ttl) (with_conn loaded (serve cfg rm e peer)) w = (Inr r, w')"
    and out: "out = cli_print (CliTokenCreate arg desc ttl) False r"
    using assms(4) by (auto simp: cli_main_def split: sum.splits prod.splits)
  obtain rec raw op d d' where c: "r = SaTokenR (sa_token_to_proto rec) raw" "server_ok d"
    "sa_token_issue e (ID op) desc (whole_seconds ttl * second) d = (Inr (rec, raw), d')"
    "op \<in> set (rows (t_operators d))" "live op" "t_sa_tokens (wdb w') = t_sa_tokens d'"
    "t_operators (wdb w') = t_operators d'" "server_ok (wdb w')"
    using token_created [OF assms(1) run] ttl_of_whole_seconds [OF assms(2,3)] by auto
  have iss: "raw_of (sa_token_issue e (ID op) desc (whole_seconds ttl * second) d) = (Inr raw, d')"
    using c(3) by (simp add: raw_of_def)
  have ops: "t_operators d' = t_operators d" using sa_token_issue_Inr [OF iss] by (metis db.select_convs(1) db.surjective db.update_convs(9))
  have own: "sa_owner t raw (wdb w') =
      (if 0 < whole_seconds ttl * second \<and> now e + whole_seconds ttl * second \<le> t then None else Some (ID op))" for t
    using sa_issue_owner [OF server_okD(3) [OF c(2)] iss, of t] c(6) by (simp add: sa_owner_def)
  have served: "\<exists>d. sa_touched e2 (wdb w') d \<and> serve cfg rm e2 peer2 (cli_metadata creds) q w' =
        dispatch cfg rm e2 q (operator_ctx peer2 op (raw_ctx (cli_metadata creds))) (w'\<lparr>wdb := d\<rparr>)"
    if "session_owner (now e2) raw (wdb w') = None"
      and t: "whole_seconds ttl \<le> 0 \<or> now e2 < now e + whole_seconds ttl * second"
      and "cr_session_token creds = raw" for creds
  proof (rule sa_token_served [OF c(8) _ _ c(5) that(1) _ that(3) assms(5-7)])
    show "sa_owner (now e2) raw (wdb w') = Some (ID op)" using t unfolding own by (auto simp: second_def)
    show "op \<in> set (rows (t_operators (wdb w')))" using c(4,7) ops by simp
  qed (use sa_issue_solid [OF c(3)] in simp_all)
  have "stdout_of out = [Out raw]" "Err (''operator:    '' @ format_operator_name (ID op)) \<in> set out"
    using out c(1) sa_issue_solid [OF c(3)]
    by (auto simp: print_token_def token_warnings_def sa_token_to_proto_def split: option.splits)
  moreover have "op \<in> set (rows (t_operators (wdb w')))" using c(4,7) ops by simp
  ultimately show ?thesis using served c(5)
    by (intro exI [of _ raw] exI [of _ op] conjI impI allI) blast+
qed

text \<open>The example's administrator makes a token that never expires, and uses it after the session is over.\<close>

definition ex_later :: env where
  "ex_later = ex_env\<lparr>now := 6000\<rparr>"

lemma ex_later_simps [simp]: "now ex_later = 6000" "fault ex_later s = False"
  by (simp_all add: ex_later_def)

lemma ex_token_created:
  "\<exists>out w'. cli_main (CliTokenCreate (format_operator_name 1) ''ci'' 0) False (with_conn (Inr ex_creds) (serve ex_cfg noop_relay ex_env None))
     ex_world = ((0, out), w') \<and> t_sessions (wdb w') = t_sessions ex_db"
proof -
  let ?cx = "operator_ctx None ex_admin (raw_ctx (cli_metadata ex_creds))"
  let ?q = "CreateServiceAccountTokenRequest (format_operator_name 1) ''ci'' (word_of_int (whole_seconds 0))"
  have v: "session_validate ex_env (cr_session_token ex_creds) (wdb ex_world) = Inr ex_admin"
    by (simp add: session_validate_def first_live_def session_active_def)
  have n: "canonicalOperatorName (format_operator_name 1) = format_operator_name 1"
    "parse_operator_name (format_operator_name 1) = Inr 1"
    using operator_name_roundtrip_aux [of 1]
    by (simp_all add: canonicalOperatorName_def format_operator_name_def operators_prefix_def has_prefix_def)
  have f: "operator_find_by_id ex_env 1 ex_db = Inr ex_admin"
    by (simp add: operator_find_by_id_def first_live_def)
  have h: "hash_token raw \<noteq> ''sa''" for raw using hash_token_length [of raw] by auto
  obtain rec raw d' where i: "sa_token_issue ex_env 1 ''ci'' (ttl_of_seconds (word_of_int (whole_seconds 0))) ex_db =
      (Inr (rec, raw), d')" "t_sessions d' = t_sessions ex_db"
    using h [symmetric] by (auto simp: sa_token_issue_def tbl_append_def Let_def)
  obtain w2 where c: "create_sa_token ex_env (format_operator_name 1) ''ci'' (word_of_int (whole_seconds 0)) ?cx ex_world =
      (Inr (sa_token_to_proto rec, raw), w2)" "t_sessions (wdb w2) = t_sessions ex_db"
    using n f i by (simp add: create_sa_token_def operator_ctx_def require_admin_def audited_frame)
  have "with_conn (Inr ex_creds) (serve ex_cfg noop_relay ex_env None) ?q ex_world =
      (Inr (SaTokenR (sa_token_to_proto rec) raw), w2)"
    using ex_solid c(1)
    by (subst with_conn_session [OF v]) (simp_all add: login_method_iff is_agent_request_cases reply_def)
  then show ?thesis using c n
    by (auto simp: cli_main_def newTokenCreateCmd_def resolveOperatorName_def format_operator_name_def operators_prefix_def)
qed

theorem created_token_works_witness:
  "\<exists>raw w' op creds d. cr_session_token creds = raw \<and> op \<in> set (rows (t_operators (wdb w'))) \<and>
     serve ex_cfg noop_relay ex_later None (cli_metadata creds) WhoAmIRequest w' =
       dispatch ex_cfg noop_relay ex_later WhoAmIRequest (operator_ctx None op (raw_ctx (cli_metadata creds))) (w'\<lparr>wdb := d\<rparr>)"
proof -
  obtain out w' where c: "cli_main (CliTokenCreate (format_operator_name 1) ''ci'' 0) False
      (with_conn (Inr ex_creds) (serve ex_cfg noop_relay ex_env None)) ex_world = ((0, out), w')"
    "t_sessions (wdb w') = t_sessions ex_db"
    using ex_token_created by blast
  have "session_owner (now ex_later) raw (wdb w') = None" for raw
    using c(2) by (simp add: session_owner_def first_live_def session_active_def)
  moreover have "whole_seconds 0 \<le> 0" by (simp add: whole_seconds_def rounds_up_def second_def)
  moreover have "server_ok (wdb ex_world)" using ex_server_ok by simp
  moreover have "method_of WhoAmIRequest \<noteq> login_method" "\<not> is_agent_request WhoAmIRequest"
    by (simp_all add: login_method_iff is_agent_request_cases)
  ultimately obtain raw op where "op \<in> set (rows (t_operators (wdb w')))"
    "\<forall>creds. cr_session_token creds = raw \<longrightarrow>
       (\<exists>d. sa_touched ex_later (wdb w') d \<and> serve ex_cfg noop_relay ex_later None (cli_metadata creds) WhoAmIRequest w' =
         dispatch ex_cfg noop_relay ex_later WhoAmIRequest (operator_ctx None op (raw_ctx (cli_metadata creds))) (w'\<lparr>wdb := d\<rparr>))"
    using created_token_works [OF _ _ _ c(1), of ex_later WhoAmIRequest None] by auto
  then show ?thesis by (metis cli_credentials.select_convs(3))
qed

end
