(* ===== verification/RelayConc.thy ===== *)
theory RelayConc
  imports Relay
begin

section \<open>The relay manager under concurrent calls (internal/relay/manager.go)\<close>

text \<open>
  The server's handlers call the manager from as many goroutines as there are requests. Here a call is
  a thread with a program counter, and a step is what the source does without letting go of the mutex,
  or between two critical sections: look up, read the database and render, write the file, publish the
  supervisor, start its goroutine, cancel, wait. A supervisor is its number in the list of all that were
  ever published; \<open>cm_sups\<close> is the map under the mutex. The database is a version number that \<open>Commit\<close>
  raises, the rendering of a version is the version, and a child knows the version its configuration
  file held when it was started. \<open>cs_removed\<close> records what the code has no variable for: that
  RemoveProject or Stop took the supervisor out of the map.
\<close>

record csup =
  cs_project :: nat
  cs_cancelled :: bool
  cs_running :: bool
  cs_done :: bool
  cs_removed :: bool
  cs_conf :: "nat option"

datatype pc =
    Idle
  | AddLock nat
  | SpawnRender nat
  | SpawnWrite nat nat
  | SpawnPublish nat
  | SpawnGo nat
  | RemoveLock nat
  | RemoveCancel nat
  | RefreshLock nat
  | RefreshRender nat nat
  | RefreshWrite nat nat nat
  | RefreshCancel nat nat
  | RefreshWait nat nat
  | RefreshDrop nat nat
  | StopLock
  | StopCancel "nat list"
  | StopWait
  | Returned "err option"

record cstate =
  cm_sups :: "nat \<Rightarrow> nat option"
  cm_closed :: bool
  cm_all :: "csup list"
  cm_pc :: "nat \<Rightarrow> pc"
  cm_files :: "nat \<Rightarrow> nat"
  cm_version :: nat
  cm_root_done :: bool

definition conc_init :: cstate where
  "conc_init = \<lparr>cm_sups = Map.empty, cm_closed = False, cm_all = [], cm_pc = (\<lambda>_. Idle),
     cm_files = (\<lambda>_. 0), cm_version = 0, cm_root_done = False\<rparr>"

definition goto :: "nat \<Rightarrow> pc \<Rightarrow> cstate \<Rightarrow> cstate" where
  "goto t p st = st\<lparr>cm_pc := (cm_pc st)(t := p)\<rparr>"

definition set_sup :: "nat \<Rightarrow> (csup \<Rightarrow> csup) \<Rightarrow> cstate \<Rightarrow> cstate" where
  "set_sup s f st = st\<lparr>cm_all := (cm_all st)[s := f (cm_all st ! s)]\<rparr>"

definition cancel :: "csup \<Rightarrow> csup" where "cancel x = x\<lparr>cs_cancelled := True\<rparr>"
definition remove :: "csup \<Rightarrow> csup" where "remove x = x\<lparr>cs_removed := True\<rparr>"

text \<open>The supervisors Stop takes: those in the map.\<close>

definition in_map :: "cstate \<Rightarrow> nat list" where
  "in_map st = filter (\<lambda>s. cm_sups st (cs_project (cm_all st ! s)) = Some s) [0..<length (cm_all st)]"

text \<open>
  The next step of thread \<open>t\<close>. \<open>fails\<close> is the step's own failure: the database or the file system in the
  rendering, the end of the request's context in the wait.
\<close>

definition advance :: "relay_config \<Rightarrow> bool \<Rightarrow> nat \<Rightarrow> cstate \<Rightarrow> cstate option" where
  "advance cfg fails t st =
     (case cm_pc st t of
        Idle \<Rightarrow> None
      | Returned _ \<Rightarrow> None
      | AddLock i \<Rightarrow>
          Some (goto t (if cm_closed st then Returned (Some ErrManagerClosed)
                        else if cm_sups st i \<noteq> None then Returned None else SpawnRender i) st)
      | SpawnRender i \<Rightarrow>
          Some (goto t (if fails then Returned (Some ''relay: %w'') else SpawnWrite i (cm_version st)) st)
      | SpawnWrite i v \<Rightarrow>
          if fails then Some (goto t (Returned (Some ''relay: write config: %w'')) st)
          else Some (goto t (if mc_binary cfg = [] then Returned None else SpawnPublish i)
                       (st\<lparr>cm_files := (cm_files st)(i := v)\<rparr>))
      | SpawnPublish i \<Rightarrow>
          if cm_closed st then Some (goto t (Returned (Some ErrManagerClosed)) st)
          else if cm_sups st i \<noteq> None then Some (goto t (Returned None) st)
          else
            (let s = length (cm_all st) in
             Some (goto t (SpawnGo s)
               (st\<lparr>cm_sups := (cm_sups st)(i \<mapsto> s),
                   cm_all := cm_all st @ [\<lparr>cs_project = i, cs_cancelled = cm_root_done st, cs_running = False,
                     cs_done = False, cs_removed = False, cs_conf = None\<rparr>]\<rparr>)))
      | SpawnGo s \<Rightarrow> Some (goto t (Returned None) (set_sup s (cs_running_update (\<lambda>_. True)) st))
      | RemoveLock i \<Rightarrow>
          (case cm_sups st i of
             None \<Rightarrow> Some (goto t (Returned None) st)
           | Some s \<Rightarrow>
               Some (goto t (RemoveCancel s)
                 (set_sup s remove (st\<lparr>cm_sups := (cm_sups st)(i := None)\<rparr>))))
      | RemoveCancel s \<Rightarrow> Some (goto t (Returned None) (set_sup s cancel st))
      | RefreshLock i \<Rightarrow>
          if cm_closed st then Some (goto t (Returned (Some ErrManagerClosed)) st)
          else Some (goto t (case cm_sups st i of None \<Rightarrow> AddLock i | Some s \<Rightarrow> RefreshRender i s) st)
      | RefreshRender i s \<Rightarrow>
          Some (goto t (if fails then Returned (Some ''relay: %w'') else RefreshWrite i s (cm_version st)) st)
      | RefreshWrite i s v \<Rightarrow>
          if fails then Some (goto t (Returned (Some ''relay: write config: %w'')) st)
          else Some (goto t (if mc_binary cfg = [] then Returned None else RefreshCancel i s)
                       (st\<lparr>cm_files := (cm_files st)(i := v)\<rparr>))
      | RefreshCancel i s \<Rightarrow> Some (goto t (RefreshWait i s) (set_sup s cancel st))
      | RefreshWait i s \<Rightarrow>
          if fails then Some (goto t (Returned (Some ''context canceled'')) st)
          else if cs_done (cm_all st ! s) then Some (goto t (RefreshDrop i s) st)
          else None
      | RefreshDrop i s \<Rightarrow>
          Some (goto t (AddLock i)
            (if cm_sups st i = Some s then st\<lparr>cm_sups := (cm_sups st)(i := None)\<rparr> else st))
      | StopLock \<Rightarrow>
          Some (goto t (StopCancel (in_map st))
            (st\<lparr>cm_closed := True, cm_sups := Map.empty,
                cm_all := map (\<lambda>s. if s \<in> set (in_map st) then remove (cm_all st ! s) else cm_all st ! s)
                            [0..<length (cm_all st)]\<rparr>))
      | StopCancel [] \<Rightarrow> Some (goto t StopWait st)
      | StopCancel (s # ss) \<Rightarrow> Some (goto t (StopCancel ss) (set_sup s cancel st))
      | StopWait \<Rightarrow>
          if \<forall>x\<in>set (cm_all st). cs_running x \<longrightarrow> cs_done x then Some (goto t (Returned None) st)
          else None)"

text \<open>
  What can happen: a goroutine calls a method, a thread goes on, a supervisor's goroutine starts its
  child (unless its context has ended) or, its context having ended, returns; the database changes;
  the context Start was given ends, and with it that of every child.
\<close>

datatype conc_event =
    Call nat pc
  | Thread nat bool
  | Exec nat
  | Exit nat
  | Commit
  | RootDone

fun entry :: "pc \<Rightarrow> bool" where
  "entry (AddLock i) = True"
| "entry (RemoveLock i) = True"
| "entry (RefreshLock i) = True"
| "entry StopLock = True"
| "entry p = False"

fun resting :: "pc \<Rightarrow> bool" where
  "resting Idle = True"
| "resting (Returned x) = True"
| "resting p = False"

fun conc_step :: "relay_config \<Rightarrow> conc_event \<Rightarrow> cstate \<Rightarrow> cstate option" where
  "conc_step cfg (Call t p) st = (if resting (cm_pc st t) \<and> entry p then Some (goto t p st) else None)"
| "conc_step cfg (Thread t fails) st = advance cfg fails t st"
| "conc_step cfg (Exec s) st =
     (if s < length (cm_all st) \<and> cs_running (cm_all st ! s) \<and> \<not> cs_done (cm_all st ! s) \<and>
         \<not> cs_cancelled (cm_all st ! s)
      then Some (set_sup s (cs_conf_update (\<lambda>_. Some (cm_files st (cs_project (cm_all st ! s))))) st)
      else None)"
| "conc_step cfg (Exit s) st =
     (if s < length (cm_all st) \<and> cs_running (cm_all st ! s) \<and> \<not> cs_done (cm_all st ! s) \<and>
         cs_cancelled (cm_all st ! s)
      then Some (set_sup s (cs_done_update (\<lambda>_. True)) st) else None)"
| "conc_step cfg Commit st = Some (st\<lparr>cm_version := Suc (cm_version st)\<rparr>)"
| "conc_step cfg RootDone st =
     Some (st\<lparr>cm_root_done := True, cm_all := map cancel (cm_all st)\<rparr>)"

fun conc_run :: "relay_config \<Rightarrow> conc_event list \<Rightarrow> cstate \<Rightarrow> cstate option" where
  "conc_run cfg [] st = Some st"
| "conc_run cfg (ev # evs) st =
     (case conc_step cfg ev st of None \<Rightarrow> None | Some st1 \<Rightarrow> conc_run cfg evs st1)"


subsection \<open>The invariant\<close>

text \<open>A thread that is going to cancel a supervisor it took out of the map.\<close>

fun canceller :: "nat \<Rightarrow> pc \<Rightarrow> bool" where
  "canceller s (RemoveCancel u) = (u = s)"
| "canceller s (StopCancel us) = (s \<in> set us)"
| "canceller s p = False"

fun pc_ok :: "csup list \<Rightarrow> pc \<Rightarrow> bool" where
  "pc_ok xs (SpawnGo s) = (s < length xs)"
| "pc_ok xs (RemoveCancel s) = (s < length xs)"
| "pc_ok xs (RefreshRender i s) = (s < length xs)"
| "pc_ok xs (RefreshWrite i s v) = (s < length xs)"
| "pc_ok xs (RefreshCancel i s) = (s < length xs)"
| "pc_ok xs (RefreshWait i s) = (s < length xs \<and> cs_cancelled (xs ! s))"
| "pc_ok xs (RefreshDrop i s) = (s < length xs \<and> cs_done (xs ! s))"
| "pc_ok xs (StopCancel ss) = (\<forall>s\<in>set ss. s < length xs)"
| "pc_ok xs p = True"

definition map_ok :: "cstate \<Rightarrow> bool" where
  "map_ok st \<longleftrightarrow>
     (\<forall>i s. cm_sups st i = Some s \<longrightarrow>
        s < length (cm_all st) \<and> cs_project (cm_all st ! s) = i \<and> \<not> cs_removed (cm_all st ! s)) \<and>
     (cm_closed st \<longrightarrow> cm_sups st = Map.empty)"

definition sup_ok :: "cstate \<Rightarrow> nat \<Rightarrow> bool" where
  "sup_ok st s \<longleftrightarrow>
     (let x = cm_all st ! s in
      (\<not> cs_removed x \<and> \<not> cs_done x \<longrightarrow> cm_sups st (cs_project x) = Some s) \<and>
      (cs_removed x \<and> \<not> cs_cancelled x \<longrightarrow> (\<exists>t. canceller s (cm_pc st t))) \<and>
      (cs_done x \<longrightarrow> cs_cancelled x \<and> cs_running x) \<and>
      (\<not> cs_running x \<longrightarrow> (\<exists>t. cm_pc st t = SpawnGo s)))"

definition conc_ok :: "cstate \<Rightarrow> bool" where
  "conc_ok st \<longleftrightarrow> map_ok st \<and> (\<forall>s<length (cm_all st). sup_ok st s) \<and> (\<forall>t. pc_ok (cm_all st) (cm_pc st t))"

lemma conc_okD:
  assumes "conc_ok st"
  shows "map_ok st" "s < length (cm_all st) \<Longrightarrow> sup_ok st s" "pc_ok (cm_all st) (cm_pc st t)"
  using assms by (simp_all add: conc_ok_def)

lemma conc_ok_init: "conc_ok conc_init"
  by (simp add: conc_ok_def map_ok_def conc_init_def)

lemma set_sup_simps [simp]:
  "cm_sups (set_sup s f st) = cm_sups st" "cm_closed (set_sup s f st) = cm_closed st"
  "cm_pc (set_sup s f st) = cm_pc st" "length (cm_all (set_sup s f st)) = length (cm_all st)"
  "cm_all (set_sup s f st) = (cm_all st)[s := f (cm_all st ! s)]"
  by (simp_all add: set_sup_def)

lemma goto_simps [simp]:
  "cm_sups (goto t p st) = cm_sups st" "cm_closed (goto t p st) = cm_closed st"
  "cm_pc (goto t p st) = (cm_pc st)(t := p)" "cm_all (goto t p st) = cm_all st"
  by (simp_all add: goto_def)

text \<open>The supervisors only ever gain flags, and the new flags keep what the counters rely on.\<close>

definition grows :: "csup list \<Rightarrow> csup list \<Rightarrow> bool" where
  "grows xs ys \<longleftrightarrow> length xs \<le> length ys \<and>
     (\<forall>s<length xs. cs_project (ys ! s) = cs_project (xs ! s) \<and>
        (cs_cancelled (xs ! s) \<longrightarrow> cs_cancelled (ys ! s)) \<and> (cs_done (xs ! s) \<longrightarrow> cs_done (ys ! s)))"

lemma pc_ok_grows: "pc_ok xs p \<Longrightarrow> grows xs ys \<Longrightarrow> pc_ok ys p"
  by (cases p) (auto simp: grows_def)

lemma grows_refl [simp]: "grows xs xs"
  by (simp add: grows_def)

lemma grows_set: "cs_project y = cs_project (xs ! s) \<Longrightarrow> (cs_cancelled (xs ! s) \<longrightarrow> cs_cancelled y) \<Longrightarrow>
    (cs_done (xs ! s) \<longrightarrow> cs_done y) \<Longrightarrow> grows xs (xs[s := y])"
  by (cases "s < length xs") (auto simp: grows_def nth_list_update)

lemma conc_ok_step:
  assumes "conc_ok st" "grows (cm_all st) (cm_all st')" "cm_pc st' = (cm_pc st)(t := p)"
    and "map_ok st'" "\<And>s. s < length (cm_all st') \<Longrightarrow> sup_ok st' s" "pc_ok (cm_all st') p"
  shows "conc_ok st'"
  using assms pc_ok_grows [OF conc_okD(3) [OF assms(1)] assms(2)] by (auto simp: conc_ok_def)

text \<open>
  A supervisor that is left alone, or only gains the flag of being cancelled or running, stays right
  when its thread was not the one to cancel or to start it.
\<close>

lemma sup_ok_keep:
  assumes "sup_ok st s" "cm_pc st' = (cm_pc st)(t := p)"
    and "cs_project (cm_all st' ! s) = cs_project (cm_all st ! s)"
    and "cs_removed (cm_all st' ! s) = cs_removed (cm_all st ! s)"
    and "cs_done (cm_all st' ! s) = cs_done (cm_all st ! s)"
    and "cs_cancelled (cm_all st ! s) \<Longrightarrow> cs_cancelled (cm_all st' ! s)"
    and "cs_running (cm_all st ! s) \<Longrightarrow> cs_running (cm_all st' ! s)"
    and "\<not> cs_removed (cm_all st ! s) \<Longrightarrow> \<not> cs_done (cm_all st ! s) \<Longrightarrow>
      cm_sups st (cs_project (cm_all st ! s)) = Some s \<Longrightarrow> cm_sups st' (cs_project (cm_all st ! s)) = Some s"
    and "canceller s (cm_pc st t) \<Longrightarrow> cs_cancelled (cm_all st' ! s) \<or> canceller s p"
    and "cm_pc st t = SpawnGo s \<Longrightarrow> cs_running (cm_all st' ! s)"
  shows "sup_ok st' s"
proof -
  note ok = assms(1) [unfolded sup_ok_def Let_def]
  have c: "\<exists>u. canceller s (cm_pc st' u)"
    if r: "cs_removed (cm_all st ! s)" "\<not> cs_cancelled (cm_all st' ! s)"
  proof -
    obtain u where u: "canceller s (cm_pc st u)" using ok r assms(6) by blast
    show ?thesis
    proof (cases "u = t")
      case True
      then have "canceller s (cm_pc st' t)" using assms(2,9) u r(2) by auto
      then show ?thesis by blast
    next
      case False
      then have "canceller s (cm_pc st' u)" using assms(2) u by simp
      then show ?thesis by blast
    qed
  qed
  have g: "\<exists>u. cm_pc st' u = SpawnGo s" if r: "\<not> cs_running (cm_all st' ! s)"
  proof -
    obtain u where u: "cm_pc st u = SpawnGo s" using ok r assms(7) by blast
    then have "u \<noteq> t" using assms(10) r by blast
    then have "cm_pc st' u = SpawnGo s" using assms(2) u by simp
    then show ?thesis by blast
  qed
  show ?thesis
    unfolding sup_ok_def Let_def using ok assms(3-8) c g by auto
qed

lemma map_ok_same:
  assumes "map_ok st" "cm_sups st' = cm_sups st" "cm_closed st' = cm_closed st"
    "length (cm_all st) = length (cm_all st')"
    "\<And>s. s < length (cm_all st) \<Longrightarrow> cs_project (cm_all st' ! s) = cs_project (cm_all st ! s) \<and>
      cs_removed (cm_all st' ! s) = cs_removed (cm_all st ! s)"
  shows "map_ok st'"
  using assms unfolding map_ok_def by auto

text \<open>Most steps: one supervisor may gain a flag, or none, and the thread moves on.\<close>

lemma conc_ok_flag:
  assumes ok: "conc_ok st" and "cm_pc st' = (cm_pc st)(t := p)"
    and "cm_sups st' = cm_sups st" "cm_closed st' = cm_closed st"
    and u: "u < length (cm_all st)" and all: "cm_all st' = (cm_all st)[u := y]"
    and y: "cs_project y = cs_project (cm_all st ! u)" "cs_removed y = cs_removed (cm_all st ! u)"
      "cs_done y = cs_done (cm_all st ! u)" "cs_cancelled (cm_all st ! u) \<Longrightarrow> cs_cancelled y"
      "cs_running (cm_all st ! u) \<Longrightarrow> cs_running y"
    and "pc_ok (cm_all st') p"
    and "\<And>s. canceller s (cm_pc st t) \<Longrightarrow> s = u \<and> cs_cancelled y \<or> canceller s p"
    and "\<And>s. cm_pc st t = SpawnGo s \<Longrightarrow> s = u \<and> cs_running y"
  shows "conc_ok st'"
proof (rule conc_ok_step [OF ok _ assms(2) _ _ assms(12)])
  show "grows (cm_all st) (cm_all st')" unfolding all using y by (intro grows_set) auto
  show "map_ok st'"
    using y u by (intro map_ok_same [OF conc_okD(1) [OF ok] assms(3,4)]) (auto simp: all nth_list_update)
  fix s assume s: "s < length (cm_all st')"
  then have s': "s < length (cm_all st)" by (simp add: all)
  show "sup_ok st' s"
    by (rule sup_ok_keep [OF conc_okD(2) [OF ok s'] assms(2)])
      (use y u s' assms(3,13,14) in \<open>auto simp: all nth_list_update\<close>)
qed

lemma conc_ok_goto:
  assumes ok: "conc_ok st" and "cm_pc st' = (cm_pc st)(t := p)"
    and "cm_sups st' = cm_sups st" "cm_closed st' = cm_closed st" and all: "cm_all st' = cm_all st"
    and "pc_ok (cm_all st) p"
    and "\<And>s. canceller s (cm_pc st t) \<Longrightarrow> canceller s p" "\<And>s. cm_pc st t \<noteq> SpawnGo s"
  shows "conc_ok st'"
proof (rule conc_ok_step [OF ok _ assms(2)])
  show "map_ok st'" by (rule map_ok_same [OF conc_okD(1) [OF ok] assms(3,4)]) (simp_all add: all)
  show "sup_ok st' s" if s: "s < length (cm_all st')" for s
    by (rule sup_ok_keep [OF conc_okD(2) [OF ok] assms(2)]) (use s assms(3,7,8) in \<open>simp_all add: all\<close>)
qed (simp_all add: all assms(6))

lemma conc_ok_publish:
  assumes ok: "conc_ok st" and "cm_pc st t = SpawnPublish i" "\<not> cm_closed st" "cm_sups st i = None"
    and "cm_sups st' = (cm_sups st)(i \<mapsto> length (cm_all st))" "cm_closed st' = cm_closed st"
    and "cm_pc st' = (cm_pc st)(t := SpawnGo (length (cm_all st)))" and "cm_all st' = cm_all st @ [x]"
    and x: "cs_project x = i" "\<not> cs_removed x" "\<not> cs_done x" "\<not> cs_running x"
  shows "conc_ok st'"
proof (rule conc_ok_step [OF ok _ assms(7)])
  note m = conc_okD(1) [OF ok, unfolded map_ok_def]
  show "grows (cm_all st) (cm_all st')" by (simp add: grows_def assms(8) nth_append)
  show "map_ok st'"
    using m assms(3) x unfolding map_ok_def assms(5,6,8) by (auto simp: nth_append less_SucI)
  show "sup_ok st' s" if s: "s < length (cm_all st')" for s
  proof (cases "s = length (cm_all st)")
    case True
    have "cm_pc st' t = SpawnGo s" by (simp add: True assms(7))
    then show ?thesis using x unfolding sup_ok_def Let_def by (auto simp: True assms(5,8))
  next
    case False
    then have s': "s < length (cm_all st)" using s assms(8) by simp
    show ?thesis
      by (rule sup_ok_keep [OF conc_okD(2) [OF ok s'] assms(7)])
        (use s' assms(2,4) in \<open>auto simp: assms(5,8) nth_append\<close>)
  qed
qed (simp add: assms(8))

lemma conc_ok_unmap:
  assumes ok: "conc_ok st" and "cm_pc st t = RefreshDrop i s0" "cm_sups st i = Some s0"
    and "cm_sups st' = (cm_sups st)(i := None)" "cm_closed st' = cm_closed st"
    and "cm_pc st' = (cm_pc st)(t := AddLock i)" and all: "cm_all st' = cm_all st"
  shows "conc_ok st'"
proof (rule conc_ok_step [OF ok _ assms(6)])
  note m = conc_okD(1) [OF ok, unfolded map_ok_def]
  have d: "cs_done (cm_all st ! s0)" using conc_okD(3) [OF ok, of t] assms(2) by simp
  show "map_ok st'" using m unfolding map_ok_def assms(4,5) all by auto
  show "sup_ok st' s" if s: "s < length (cm_all st')" for s
    by (rule sup_ok_keep [OF conc_okD(2) [OF ok] assms(6)])
      (use s d assms(2,3) in \<open>auto simp: all assms(4)\<close>)
qed (simp_all add: all)

lemma conc_ok_remove:
  assumes ok: "conc_ok st" and "cm_pc st t = RemoveLock i" "cm_sups st i = Some s0"
    and "cm_sups st' = (cm_sups st)(i := None)" "cm_closed st' = cm_closed st"
    and "cm_pc st' = (cm_pc st)(t := RemoveCancel s0)"
    and all: "cm_all st' = (cm_all st)[s0 := remove (cm_all st ! s0)]"
  shows "conc_ok st'"
proof (rule conc_ok_step [OF ok _ assms(6)])
  note m = conc_okD(1) [OF ok, unfolded map_ok_def]
  have s0: "s0 < length (cm_all st)" "cs_project (cm_all st ! s0) = i" using m assms(3) by auto
  show "grows (cm_all st) (cm_all st')" unfolding all by (intro grows_set) (simp_all add: remove_def)
  show "map_ok st'"
    using m s0 unfolding map_ok_def assms(4,5) all by (auto simp: nth_list_update remove_def)
  show "pc_ok (cm_all st') (RemoveCancel s0)" using s0 by (simp add: all)
  show "sup_ok st' s" if s: "s < length (cm_all st')" for s
  proof (cases "s = s0")
    case True
    have "canceller s (cm_pc st' t)" by (simp add: True assms(6))
    then show ?thesis
      using conc_okD(2) [OF ok s0(1)] s0 assms(2) unfolding sup_ok_def Let_def all True
      by (auto simp: remove_def assms(6); metis fun_upd_apply pc.distinct)
  next
    case False
    then have s': "s < length (cm_all st)" using s all by simp
    show ?thesis
      by (rule sup_ok_keep [OF conc_okD(2) [OF ok s'] assms(6)])
        (use False s0 assms(2,3) in \<open>auto simp: all assms(4)\<close>)
  qed
qed

lemma in_map_iff:
  "map_ok st \<Longrightarrow> s \<in> set (in_map st) \<longleftrightarrow> (\<exists>i. cm_sups st i = Some s)"
  unfolding map_ok_def in_map_def by auto

lemma conc_ok_stop:
  assumes ok: "conc_ok st" and "cm_pc st t = StopLock"
    and "cm_sups st' = Map.empty" "cm_closed st'"
    and "cm_pc st' = (cm_pc st)(t := StopCancel (in_map st))"
    and all: "cm_all st' = map (\<lambda>s. if s \<in> set (in_map st) then remove (cm_all st ! s) else cm_all st ! s)
      [0..<length (cm_all st)]"
  shows "conc_ok st'"
proof (rule conc_ok_step [OF ok _ assms(5)])
  note m = conc_okD(1) [OF ok]
  have len: "length (cm_all st') = length (cm_all st)" by (simp add: all)
  have nth: "cm_all st' ! s = (if s \<in> set (in_map st) then remove (cm_all st ! s) else cm_all st ! s)"
    if "s < length (cm_all st)" for s
    using that by (simp add: all)
  show "grows (cm_all st) (cm_all st')" by (simp add: grows_def len nth remove_def)
  show "map_ok st'" using assms(3,4) by (simp add: map_ok_def)
  show "pc_ok (cm_all st') (StopCancel (in_map st))"
    using m unfolding map_ok_def by (auto simp: len in_map_iff [OF m])
  show "sup_ok st' s" if "s < length (cm_all st')" for s
  proof -
    have s: "s < length (cm_all st)" using that len by simp
    note o = conc_okD(2) [OF ok s, unfolded sup_ok_def Let_def]
    have c: "\<exists>u. canceller s (cm_pc st' u)" if "canceller s (cm_pc st u)" for u
    proof -
      have "u \<noteq> t" using that assms(2) by auto
      then have "canceller s (cm_pc st' u)" using that assms(5) by simp
      then show ?thesis by blast
    qed
    have g: "\<exists>u. cm_pc st' u = SpawnGo s" if "cm_pc st u = SpawnGo s" for u
    proof -
      have "u \<noteq> t" using that assms(2) by auto
      then have "cm_pc st' u = SpawnGo s" using that assms(5) by simp
      then show ?thesis by blast
    qed
    have "canceller s (cm_pc st' t)" if "s \<in> set (in_map st)" using that assms(5) by simp
    then show ?thesis
      using o c g in_map_iff [OF m, of s] unfolding sup_ok_def Let_def nth [OF s]
      by (auto simp: remove_def split: if_splits)
  qed
qed

text \<open>Every step of a thread keeps the invariant.\<close>

lemma advance_ok:
  assumes ok: "conc_ok st" and st: "advance cfg fails t st = Some st'"
  shows "conc_ok st'"
proof (cases "cm_pc st t")
  case (SpawnPublish i)
  show ?thesis
  proof (cases "cm_closed st \<or> cm_sups st i \<noteq> None")
    case True
    then show ?thesis
      using st SpawnPublish by (auto simp: advance_def split: if_splits intro!: conc_ok_goto [OF ok])
  next
    case False
    then show ?thesis
      using st SpawnPublish by (intro conc_ok_publish [OF ok SpawnPublish]) (auto simp: advance_def Let_def)
  qed
next
  case (SpawnGo s)
  have "s < length (cm_all st)" using conc_okD(3) [OF ok, of t] SpawnGo by simp
  then show ?thesis
    using st SpawnGo
    by (intro conc_ok_flag [OF ok, where t = t and u = s and y = "(cm_all st ! s)\<lparr>cs_running := True\<rparr>"]) (auto simp: advance_def)
next
  case (RemoveLock i)
  show ?thesis
  proof (cases "cm_sups st i")
    case None
    then show ?thesis using st RemoveLock by (auto simp: advance_def intro!: conc_ok_goto [OF ok])
  next
    case (Some s)
    then show ?thesis
      using st RemoveLock by (intro conc_ok_remove [OF ok RemoveLock Some]) (auto simp: advance_def)
  qed
next
  case (RemoveCancel s)
  have "s < length (cm_all st)" using conc_okD(3) [OF ok, of t] RemoveCancel by simp
  then show ?thesis
    using st RemoveCancel
    by (intro conc_ok_flag [OF ok, where t = t and u = s and y = "cancel (cm_all st ! s)"]) (auto simp: advance_def cancel_def)
next
  case (RefreshCancel i s)
  have "s < length (cm_all st)" using conc_okD(3) [OF ok, of t] RefreshCancel by simp
  then show ?thesis
    using st RefreshCancel
    by (intro conc_ok_flag [OF ok, where t = t and u = s and y = "cancel (cm_all st ! s)"]) (auto simp: advance_def cancel_def)
next
  case (RefreshDrop i s)
  show ?thesis
  proof (cases "cm_sups st i = Some s")
    case True
    then show ?thesis
      using st RefreshDrop by (intro conc_ok_unmap [OF ok RefreshDrop True]) (auto simp: advance_def)
  next
    case False
    then show ?thesis using st RefreshDrop by (auto simp: advance_def intro!: conc_ok_goto [OF ok])
  qed
next
  case StopLock
  then show ?thesis using st by (intro conc_ok_stop [OF ok StopLock]) (auto simp: advance_def)
next
  case (StopCancel ss)
  then show ?thesis
  proof (cases ss)
    case (Cons s us)
    have b: "\<forall>u\<in>set ss. u < length (cm_all st)" using conc_okD(3) [OF ok, of t] StopCancel by simp
    then show ?thesis
      using st StopCancel Cons
      by (intro conc_ok_flag [OF ok, where t = t and u = s and y = "cancel (cm_all st ! s)"])
        (auto simp: advance_def cancel_def)
  qed (use st in \<open>auto simp: advance_def intro!: conc_ok_goto [OF ok]\<close>)
next
  case (RefreshWait i s)
  then show ?thesis
    using st conc_okD(3) [OF ok, of t]
    by (auto simp: advance_def split: if_splits intro!: conc_ok_goto [OF ok])
next
  case (RefreshLock i)
  show ?thesis
  proof (cases "cm_sups st i")
    case (Some s)
    then have "s < length (cm_all st)" using conc_okD(1) [OF ok] by (simp add: map_ok_def)
    then show ?thesis
      using st RefreshLock Some by (auto simp: advance_def split: if_splits intro!: conc_ok_goto [OF ok])
  qed (use st RefreshLock in \<open>auto simp: advance_def split: if_splits intro!: conc_ok_goto [OF ok]\<close>)
qed (use st conc_okD(3) [OF ok, of t] in
    \<open>auto simp: advance_def split: if_splits intro!: conc_ok_goto [OF ok]\<close>)

lemma sup_ok_env:
  assumes "sup_ok st s" "cm_pc st' = cm_pc st" "cm_sups st' = cm_sups st"
    and "cs_project (cm_all st' ! s) = cs_project (cm_all st ! s)"
    and "cs_removed (cm_all st' ! s) = cs_removed (cm_all st ! s)"
    and "cs_running (cm_all st' ! s) = cs_running (cm_all st ! s)"
    and "cs_cancelled (cm_all st ! s) \<Longrightarrow> cs_cancelled (cm_all st' ! s)"
    and "cs_done (cm_all st ! s) \<Longrightarrow> cs_done (cm_all st' ! s)"
    and "cs_done (cm_all st' ! s) \<Longrightarrow> cs_cancelled (cm_all st' ! s) \<and> cs_running (cm_all st' ! s)"
  shows "sup_ok st' s"
  using assms unfolding sup_ok_def Let_def by auto

text \<open>What the children and the contexts do by themselves.\<close>

lemma conc_ok_env:
  assumes ok: "conc_ok st" and "cm_pc st' = cm_pc st" "cm_sups st' = cm_sups st" "cm_closed st' = cm_closed st"
    and "length (cm_all st') = length (cm_all st)" "grows (cm_all st) (cm_all st')"
    and "\<And>s. s < length (cm_all st) \<Longrightarrow>
      cs_removed (cm_all st' ! s) = cs_removed (cm_all st ! s) \<and>
      cs_running (cm_all st' ! s) = cs_running (cm_all st ! s) \<and>
      (cs_done (cm_all st' ! s) \<longrightarrow> cs_done (cm_all st ! s) \<or>
        cs_cancelled (cm_all st' ! s) \<and> cs_running (cm_all st' ! s))"
  shows "conc_ok st'"
proof -
  have g: "cs_project (cm_all st' ! s) = cs_project (cm_all st ! s)"
    "cs_cancelled (cm_all st ! s) \<Longrightarrow> cs_cancelled (cm_all st' ! s)"
    "cs_done (cm_all st ! s) \<Longrightarrow> cs_done (cm_all st' ! s)" if "s < length (cm_all st)" for s
    using assms(6) that unfolding grows_def by auto
  have "sup_ok st' s" if s: "s < length (cm_all st)" for s
    by (rule sup_ok_env [OF conc_okD(2) [OF ok s] assms(2,3)])
      (use g s assms(7) [OF s] conc_okD(2) [OF ok s] in \<open>auto simp: sup_ok_def Let_def\<close>)
  moreover have "map_ok st'"
    by (rule map_ok_same [OF conc_okD(1) [OF ok] assms(3,4)]) (use assms(5,7) g in auto)
  moreover have "pc_ok (cm_all st') (cm_pc st' t)" for t
    using pc_ok_grows [OF conc_okD(3) [OF ok] assms(6)] assms(2) by simp
  ultimately show ?thesis by (simp add: conc_ok_def assms(5))
qed

lemma conc_step_ok:
  assumes ok: "conc_ok st" and st: "conc_step cfg ev st = Some st'"
  shows "conc_ok st'"
proof (cases ev)
  case (Call t p)
  then have r: "resting (cm_pc st t)" "entry p" "st' = goto t p st" using st by (auto split: if_splits)
  have "\<not> canceller s (cm_pc st t)" "cm_pc st t \<noteq> SpawnGo s" for s using r(1) by (cases "cm_pc st t"; simp)+
  moreover have "pc_ok (cm_all st) p" using r(2) by (cases p) auto
  ultimately show ?thesis using r(3) by (intro conc_ok_goto [OF ok, where t = t and p = p]) auto
next
  case (Thread t fails)
  then show ?thesis using st advance_ok [OF ok] by auto
next
  case (Exec s)
  then show ?thesis
    using st by (auto simp: grows_set nth_list_update split: if_splits intro!: conc_ok_env [OF ok])
next
  case (Exit s)
  then show ?thesis
    using st by (auto simp: grows_set nth_list_update split: if_splits intro!: conc_ok_env [OF ok])
next
  case Commit
  then show ?thesis using st by (auto intro!: conc_ok_env [OF ok])
next
  case RootDone
  then show ?thesis using st by (auto simp: grows_def cancel_def intro!: conc_ok_env [OF ok])
qed

lemma conc_run_ok: "conc_run cfg evs st = Some st' \<Longrightarrow> conc_ok st \<Longrightarrow> conc_ok st'"
  by (induction cfg evs st rule: conc_run.induct) (auto split: option.splits dest: conc_step_ok)

text \<open>Stop closes the manager before it cancels and waits.\<close>

fun stopping :: "pc \<Rightarrow> bool" where
  "stopping (StopCancel ss) = True"
| "stopping StopWait = True"
| "stopping p = False"

lemma advance_stopping:
  assumes "\<forall>t. stopping (cm_pc st t) \<longrightarrow> cm_closed st" "advance cfg fails t st = Some st'"
  shows "\<forall>t. stopping (cm_pc st' t) \<longrightarrow> cm_closed st'"
proof (cases "cm_pc st t")
  case (StopCancel ss)
  then show ?thesis using assms spec [OF assms(1), of t] by (cases ss) (auto simp: advance_def split: if_splits)
qed (use assms spec [OF assms(1), of t] in \<open>auto simp: advance_def Let_def split: if_splits option.splits\<close>)

lemma conc_run_stopping:
  "conc_run cfg evs st = Some st' \<Longrightarrow> \<forall>t. stopping (cm_pc st t) \<longrightarrow> cm_closed st \<Longrightarrow>
     \<forall>t. stopping (cm_pc st' t) \<longrightarrow> cm_closed st'"
proof (induction cfg evs st rule: conc_run.induct)
  case (2 cfg ev evs st)
  obtain st1 where s: "conc_step cfg ev st = Some st1" "conc_run cfg evs st1 = Some st'"
    using "2.prems"(1) by (auto split: option.splits)
  have "\<forall>t. stopping (cm_pc st1 t) \<longrightarrow> cm_closed st1"
  proof (cases ev)
    case (Call t p)
    then have "st1 = goto t p st" "entry p" using s(1) by (auto split: if_splits)
    then show ?thesis using "2.prems"(2) by (cases p) auto
  next
    case (Thread t fails)
    then show ?thesis using s(1) advance_stopping [OF "2.prems"(2)] by auto
  qed (use s(1) "2.prems"(2) in \<open>auto split: if_splits\<close>)
  then show ?case using "2.IH" s by blast
qed simp

subsection \<open>Safety\<close>

text \<open>
  C11. However calls interleave, a project never has two rathole-servers but by RemoveProject or Stop:
  of two supervisors of a project whose goroutines have not ended, one was taken out of the map by
  those (so neither AddProject nor Refresh, alone or against each other, starts a second one beside a
  first). And a supervisor that is not cancelled is the one in the map, of an open manager, unless some
  call is just about to cancel it.
\<close>
theorem one_child_per_project:
  assumes "conc_run cfg evs conc_init = Some st"
  shows "(\<forall>s u. s < length (cm_all st) \<and> u < length (cm_all st) \<and> s \<noteq> u \<and>
      cs_project (cm_all st ! s) = cs_project (cm_all st ! u) \<and>
      \<not> cs_done (cm_all st ! s) \<and> \<not> cs_done (cm_all st ! u) \<longrightarrow>
      cs_removed (cm_all st ! s) \<or> cs_removed (cm_all st ! u)) \<and>
    (\<forall>s < length (cm_all st). \<not> cs_cancelled (cm_all st ! s) \<longrightarrow>
      cm_sups st (cs_project (cm_all st ! s)) = Some s \<and> \<not> cm_closed st \<or>
      (\<exists>t. canceller s (cm_pc st t)))"
proof -
  have ok: "conc_ok st" by (rule conc_run_ok [OF assms conc_ok_init])
  note sup = conc_okD(2) [OF ok, unfolded sup_ok_def Let_def] and m = conc_okD(1) [OF ok, unfolded map_ok_def]
  have "cs_removed (cm_all st ! s) \<or> cs_removed (cm_all st ! u)"
    if "s < length (cm_all st)" "u < length (cm_all st)" "s \<noteq> u"
      "cs_project (cm_all st ! s) = cs_project (cm_all st ! u)"
      "\<not> cs_done (cm_all st ! s)" "\<not> cs_done (cm_all st ! u)" for s u
    using sup [OF that(1)] sup [OF that(2)] that(3-6) by force
  moreover have "cm_sups st (cs_project (cm_all st ! s)) = Some s \<and> \<not> cm_closed st \<or> (\<exists>t. canceller s (cm_pc st t))"
    if "s < length (cm_all st)" "\<not> cs_cancelled (cm_all st ! s)" for s
    using sup [OF that(1)] that(2) m by (cases "cs_removed (cm_all st ! s)") auto
  ultimately show ?thesis by blast
qed

subsection \<open>Calls return\<close>

text \<open>
  What happens of itself: a thread's next step or the return of a cancelled supervisor; and what of it
  happens without anything failing, no rendering and no request's context.
\<close>

fun moves :: "conc_event \<Rightarrow> bool" where
  "moves (Thread t fails) = True"
| "moves (Exit s) = True"
| "moves ev = False"

fun progress :: "conc_event \<Rightarrow> bool" where
  "progress (Thread t fails) = (\<not> fails)"
| "progress (Exit s) = True"
| "progress ev = False"

lemma enabled:
  "\<not> resting (cm_pc st t) \<Longrightarrow> \<forall>i s. cm_pc st t \<noteq> RefreshWait i s \<Longrightarrow> cm_pc st t \<noteq> StopWait \<Longrightarrow>
     advance cfg False t st \<noteq> None"
  by (cases "cm_pc st t") (auto simp: advance_def Let_def split: option.splits list.splits)

lemma never_stuck:
  assumes ok: "conc_ok st" and stop: "\<forall>t. stopping (cm_pc st t) \<longrightarrow> cm_closed st" and t: "\<not> resting (cm_pc st t)"
  shows "\<exists>ev. progress ev \<and> conc_step cfg ev st \<noteq> None"
proof -
  have go: "\<exists>ev. progress ev \<and> conc_step cfg ev st \<noteq> None" if "advance cfg False u st \<noteq> None" for u
    using that by (intro exI [of _ "Thread u False"]) simp
  have ends: "\<exists>ev. progress ev \<and> conc_step cfg ev st \<noteq> None"
    if s: "s < length (cm_all st)" "cs_cancelled (cm_all st ! s)" "\<not> cs_done (cm_all st ! s)" for s
  proof (cases "cs_running (cm_all st ! s)")
    case True
    then show ?thesis using s by (intro exI [of _ "Exit s"]) simp
  next
    case False
    then obtain u where "cm_pc st u = SpawnGo s"
      using conc_okD(2) [OF ok s(1)] by (auto simp: sup_ok_def Let_def)
    then show ?thesis by (intro go [of u] enabled) auto
  qed
  show ?thesis
  proof (cases "(\<exists>i s. cm_pc st t = RefreshWait i s) \<or> cm_pc st t = StopWait")
    case False
    then show ?thesis using t by (intro go [of t] enabled) auto
  next
    case True
    then consider i s where "cm_pc st t = RefreshWait i s" | "cm_pc st t = StopWait" by blast
    then show ?thesis
    proof cases
      case 1
      have s: "s < length (cm_all st)" "cs_cancelled (cm_all st ! s)" using conc_okD(3) [OF ok, of t] 1 by auto
      show ?thesis
      proof (cases "cs_done (cm_all st ! s)")
        case True
        then show ?thesis using 1 by (intro go [of t]) (simp add: advance_def)
      qed (rule ends [OF s])
    next
      case 2
      show ?thesis
      proof (cases "\<forall>x\<in>set (cm_all st). cs_running x \<longrightarrow> cs_done x")
        case True
        then show ?thesis using 2 by (intro go [of t]) (simp add: advance_def)
      next
        case False
        then obtain s where s: "s < length (cm_all st)" "cs_running (cm_all st ! s)" "\<not> cs_done (cm_all st ! s)"
          by (auto simp: in_set_conv_nth)
        show ?thesis
        proof (cases "cs_cancelled (cm_all st ! s)")
          case False
          have "cm_closed st" using stop 2 by (metis stopping.simps(2))
          then have "cm_sups st = Map.empty" using conc_okD(1) [OF ok] by (simp add: map_ok_def)
          then obtain u where u: "canceller s (cm_pc st u)"
            using conc_okD(2) [OF ok s(1)] False s(3) by (auto simp: sup_ok_def Let_def)
          then show ?thesis by (intro go [of u] enabled) (cases "cm_pc st u"; simp)+
        qed (rule ends [OF s(1) _ s(3)])
      qed
    qed
  qed
qed

text \<open>How far a thread has still to go, StopLock apart, whose list is not known before.\<close>

fun todo :: "pc \<Rightarrow> nat" where
  "todo (AddLock i) = 6"
| "todo (SpawnRender i) = 5"
| "todo (SpawnWrite i v) = 4"
| "todo (SpawnPublish i) = 3"
| "todo (SpawnGo s) = 1"
| "todo (RemoveLock i) = 2"
| "todo (RemoveCancel s) = 1"
| "todo (RefreshLock i) = 12"
| "todo (RefreshRender i s) = 11"
| "todo (RefreshWrite i s v) = 10"
| "todo (RefreshCancel i s) = 9"
| "todo (RefreshWait i s) = 8"
| "todo (RefreshDrop i s) = 7"
| "todo (StopCancel ss) = length ss + 2"
| "todo StopWait = 1"
| "todo p = 0"

definition active :: "cstate \<Rightarrow> nat set" where
  "active st = {t. \<not> resting (cm_pc st t)}"

definition unfinished :: "csup list \<Rightarrow> nat" where
  "unfinished xs = length (filter (\<lambda>x. \<not> cs_done x) xs)"

definition left_over :: "cstate \<Rightarrow> nat" where
  "left_over st = (\<Sum>t\<in>active st. todo (cm_pc st t)) + unfinished (cm_all st)"

definition to_stop :: "cstate \<Rightarrow> nat" where
  "to_stop st = card {t \<in> active st. cm_pc st t = StopLock}"

lemma unfinished_card: "unfinished xs = card {s. s < length xs \<and> \<not> cs_done (xs ! s)}"
  by (simp add: unfinished_def length_filter_conv_card)

lemma unfinished_flag: "cs_done y = cs_done (xs ! s) \<Longrightarrow> unfinished (xs[s := y]) = unfinished xs"
  by (cases "s < length xs") (auto simp: unfinished_card nth_list_update intro!: arg_cong [where f = card])

lemma unfinished_exit:
  assumes "s < length xs" "\<not> cs_done (xs ! s)" "cs_done y"
  shows "unfinished (xs[s := y]) < unfinished xs"
proof -
  have "{u. u < length (xs[s := y]) \<and> \<not> cs_done (xs[s := y] ! u)} \<subset> {u. u < length xs \<and> \<not> cs_done (xs ! u)}"
    using assms by (auto simp: nth_list_update split: if_splits)
  then show ?thesis unfolding unfinished_card by (intro psubset_card_mono) simp_all
qed

lemma unfinished_map: "\<forall>s < length xs. cs_done (f s) = cs_done (xs ! s) \<Longrightarrow>
    unfinished (map f [0..<length xs]) = unfinished xs"
  unfolding unfinished_card by (intro arg_cong [where f = card]) auto

lemma unfinished_snoc [simp]: "\<not> cs_done x \<Longrightarrow> unfinished (xs @ [x]) = Suc (unfinished xs)"
  by (simp add: unfinished_def)

text \<open>A thread's step, StopLock apart, brings it nearer to its end.\<close>

lemma advance_nearer:
  assumes "advance cfg fails t st = Some st'" "cm_pc st t \<noteq> StopLock"
  shows "\<exists>p. cm_pc st' = (cm_pc st)(t := p) \<and> p \<noteq> StopLock \<and>
    todo p + unfinished (cm_all st') < todo (cm_pc st t) + unfinished (cm_all st)"
proof (cases "cm_pc st t")
  case (StopCancel ss)
  then show ?thesis
    using assms by (cases ss) (auto simp: advance_def unfinished_flag cancel_def split: if_splits)
qed (use assms in \<open>auto simp: advance_def Let_def unfinished_flag cancel_def remove_def split: if_splits option.splits\<close>)

lemma advance_stop:
  assumes "advance cfg fails t st = Some st'" "cm_pc st t = StopLock"
  shows "\<exists>ss. cm_pc st' = (cm_pc st)(t := StopCancel ss)"
  using assms by (auto simp: advance_def)

lemma active_move:
  assumes "cm_pc st' = (cm_pc st)(t := p)" "t \<in> active st"
  shows "active st' = (if resting p then active st - {t} else active st)"
  using assms by (auto simp: active_def)

lemma todo_move:
  assumes "cm_pc st' = (cm_pc st)(t := p)" "t \<in> active st" "finite (active st)"
  shows "(\<Sum>u\<in>active st'. todo (cm_pc st' u)) + todo (cm_pc st t) =
    (\<Sum>u\<in>active st. todo (cm_pc st u)) + todo p"
proof -
  let ?A = "active st - {t}"
  have r: "resting p \<Longrightarrow> todo p = 0" by (cases p) simp_all
  have "(\<Sum>u\<in>?A. todo (cm_pc st' u)) = (\<Sum>u\<in>?A. todo (cm_pc st u))"
    by (rule sum.cong) (auto simp: assms(1))
  moreover have "(\<Sum>u\<in>active st. todo (cm_pc st u)) = todo (cm_pc st t) + (\<Sum>u\<in>?A. todo (cm_pc st u))"
    by (rule sum.remove [OF assms(3,2)])
  moreover have "(\<Sum>u\<in>active st'. todo (cm_pc st' u)) = todo p + (\<Sum>u\<in>?A. todo (cm_pc st' u))"
  proof (cases "resting p")
    case True
    then show ?thesis using active_move [OF assms(1,2)] r by simp
  next
    case False
    then have "active st' = active st" using active_move [OF assms(1,2)] by simp
    then show ?thesis using sum.remove [OF assms(3,2), of "\<lambda>u. todo (cm_pc st' u)"] by (simp add: assms(1))
  qed
  ultimately show ?thesis by simp
qed

lemma thread_decreases:
  assumes a: "advance cfg fails t st = Some st'" and fin: "finite (active st)"
  shows "to_stop st' < to_stop st \<or> to_stop st' = to_stop st \<and> left_over st' < left_over st"
proof -
  have t: "t \<in> active st" using a by (auto simp: advance_def active_def split: pc.splits)
  show ?thesis
  proof (cases "cm_pc st t = StopLock")
    case True
    then obtain ss where "cm_pc st' = (cm_pc st)(t := StopCancel ss)" using advance_stop [OF a] by blast
    then have "{u \<in> active st'. cm_pc st' u = StopLock} = {u \<in> active st. cm_pc st u = StopLock} - {t}"
      by (auto simp: active_def split: if_splits)
    then have "{u \<in> active st'. cm_pc st' u = StopLock} \<subset> {u \<in> active st. cm_pc st u = StopLock}"
      using t True by blast
    then show ?thesis unfolding to_stop_def using fin by (intro disjI1 psubset_card_mono) simp_all
  next
    case False
    then obtain p where p: "cm_pc st' = (cm_pc st)(t := p)" "p \<noteq> StopLock"
      "todo p + unfinished (cm_all st') < todo (cm_pc st t) + unfinished (cm_all st)"
      using advance_nearer [OF a] by blast
    have "{u \<in> active st'. cm_pc st' u = StopLock} = {u \<in> active st. cm_pc st u = StopLock}"
      using p(1,2) False t by (auto simp: active_def split: if_splits)
    then show ?thesis using todo_move [OF p(1) t fin] p(3) by (simp add: to_stop_def left_over_def)
  qed
qed

lemma moves_decreases:
  assumes "moves ev" "conc_step cfg ev st = Some st'" "finite (active st)"
  shows "to_stop st' < to_stop st \<or> to_stop st' = to_stop st \<and> left_over st' < left_over st"
proof (cases ev)
  case (Thread t fails)
  then show ?thesis using assms thread_decreases by simp
next
  case (Exit s)
  then have "active st' = active st" "cm_pc st' = cm_pc st"
    "unfinished (cm_all st') < unfinished (cm_all st)"
    using assms(2) by (auto simp: active_def unfinished_exit split: if_splits)
  then show ?thesis by (simp add: to_stop_def left_over_def)
qed (use assms in simp_all)

text \<open>
  C29. Calls return: the threads in the manager's methods all come to their end, whatever calls
  interleaved and whatever a Refresh or Stop is waiting for. The steps of threads and the ends of
  cancelled supervisors cannot go on for ever, failing or not; and while a call has not returned, one of
  them is possible in which nothing fails: no waiting Refresh needs its request's context to end, and
  there is no deadlock.
\<close>
theorem manager_calls_return:
  "wf {(st', st). finite (active st) \<and> (\<exists>ev. moves ev \<and> conc_step cfg ev st = Some st')} \<and>
   (case conc_run cfg evs conc_init of
      None \<Rightarrow> True
    | Some st \<Rightarrow> finite (active st) \<and>
        (active st = {} \<or> (\<exists>ev. progress ev \<and> conc_step cfg ev st \<noteq> None)))"
proof
  let ?r = "inv_image (less_than <*lex*> less_than) (\<lambda>st. (to_stop st, left_over st))"
  have "wf ?r" by (intro wf_inv_image wf_lex_prod wf_less_than)
  then show "wf {(st', st). finite (active st) \<and> (\<exists>ev. moves ev \<and> conc_step cfg ev st = Some st')}"
    by (rule wf_subset) (auto dest: moves_decreases)
  have fin: "finite (active st')" if "conc_run cfg evs st = Some st'" "finite (active st)" for evs st st'
    using that
  proof (induction cfg evs st rule: conc_run.induct)
    case (2 cfg ev evs st)
    obtain st1 where s: "conc_step cfg ev st = Some st1" "conc_run cfg evs st1 = Some st'"
      using "2.prems"(1) by (auto split: option.splits)
    have "cm_pc st1 = cm_pc st \<or> (\<exists>t p. cm_pc st1 = (cm_pc st)(t := p))"
    proof (cases ev)
      case (Call t p)
      then show ?thesis using s(1) by (intro disjI2 exI [of _ t] exI [of _ p]) (auto split: if_splits)
    next
      case (Thread t fails)
      then show ?thesis
        using s(1) advance_nearer [of cfg fails t st st1] advance_stop [of cfg fails t st st1] by auto
    qed (use s(1) in \<open>auto split: if_splits\<close>)
    then obtain t p where "cm_pc st1 = (cm_pc st)(t := p)" by (metis fun_upd_triv)
    then have "active st1 \<subseteq> insert t (active st)" by (auto simp: active_def split: if_splits)
    then have "finite (active st1)" using "2.prems"(2) finite_subset by blast
    then show ?case using "2.IH" s by blast
  qed simp
  show "case conc_run cfg evs conc_init of None \<Rightarrow> True
    | Some st \<Rightarrow> finite (active st) \<and> (active st = {} \<or> (\<exists>ev. progress ev \<and> conc_step cfg ev st \<noteq> None))"
  proof (cases "conc_run cfg evs conc_init")
    case (Some st)
    have "finite (active st)" by (rule fin [OF Some]) (simp add: active_def conc_init_def)
    moreover have "\<exists>ev. progress ev \<and> conc_step cfg ev st \<noteq> None" if "t \<in> active st" for t
      using that conc_run_ok [OF Some conc_ok_init] conc_run_stopping [OF Some]
      by (intro never_stuck [of st t]) (simp_all add: active_def conc_init_def)
    ultimately show ?thesis using Some by auto
  qed simp
qed

subsection \<open>A refresh that is lost\<close>

text \<open>
  A project is served. A change starts a Refresh, on thread \<open>t\<close>, which has taken the old supervisor \<open>s\<close>
  down, read the database and written the file when another change and its Refresh come, on thread \<open>u\<close>.
  The second call finds no supervisor, reads and renders the newer configuration; but before it writes, the
  first one has published its supervisor, number \<open>n\<close>, whose child starts on the older file. The second call
  drops its own.
\<close>

definition threads :: "nat \<Rightarrow> nat \<Rightarrow> conc_event list" where
  "threads t n = replicate n (Thread t False)"

definition lost_refresh_run :: "nat \<Rightarrow> nat \<Rightarrow> nat \<Rightarrow> nat \<Rightarrow> nat \<Rightarrow> conc_event list" where
  "lost_refresh_run t u i s n =
     [Commit, Call t (RefreshLock i)] @ threads t 4 @ [Exit s] @ threads t 5 @
     [Commit, Call u (RefreshLock i)] @ threads u 3 @ threads t 2 @ [Exec n] @ threads u 2"

lemma conc_run_append:
  "conc_run cfg (evs @ evs') st = (case conc_run cfg evs st of None \<Rightarrow> None | Some st1 \<Rightarrow> conc_run cfg evs' st1)"
  by (induction evs arbitrary: st) (simp_all split: option.splits)

text \<open>When no call is under way, every supervisor in the map has been started.\<close>

lemma resting_running:
  assumes "conc_ok st" "\<forall>t. resting (cm_pc st t)" "cm_sups st i = Some u"
  shows "u < length (cm_all st) \<and> cs_running (cm_all st ! u)"
proof -
  have u: "u < length (cm_all st)" using conc_okD(1) [OF assms(1)] assms(3) by (auto simp: map_ok_def)
  have "\<not> (\<exists>t. cm_pc st t = SpawnGo u)" using assms(2) by (metis resting.simps(7))
  then show ?thesis using u conc_okD(2) [OF assms(1) u] by (auto simp: sup_ok_def Let_def)
qed

lemmas run_simps = conc_run_append threads_def numeral_eq_Suc advance_def goto_def set_sup_def cancel_def Let_def

text \<open>The first Refresh up to its publishing, and then the two together.\<close>

lemma lost_refresh_first:
  assumes "resting (cm_pc st t)" and "cm_sups st i = Some s" and "\<not> cm_closed st" and "mc_binary cfg \<noteq> []"
    and s: "s < length (cm_all st)" "cs_running (cm_all st ! s)" "\<not> cs_done (cm_all st ! s)"
  shows "\<exists>st1. conc_run cfg ([Commit, Call t (RefreshLock i)] @ threads t 4 @ [Exit s] @ threads t 5) st = Some st1 \<and>
    cm_pc st1 = (cm_pc st)(t := SpawnPublish i) \<and> cm_sups st1 = (cm_sups st)(i := None) \<and> \<not> cm_closed st1 \<and>
    cm_root_done st1 = cm_root_done st \<and> length (cm_all st1) = length (cm_all st) \<and>
    cm_version st1 = Suc (cm_version st) \<and> cm_files st1 = (cm_files st)(i := Suc (cm_version st))"
  using assms by (simp add: run_simps)

lemma lost_refresh_second:
  assumes "cm_pc st t = SpawnPublish i" and "resting (cm_pc st u)" and "cm_sups st i = None" and "\<not> cm_closed st"
    and "\<not> cm_root_done st" and "mc_binary cfg \<noteq> []" and "t \<noteq> u" and n: "n = length (cm_all st)"
  shows "\<exists>st1. conc_run cfg ([Commit, Call u (RefreshLock i)] @ threads u 3 @ threads t 2 @ [Exec n] @ threads u 2) st = Some st1 \<and>
    cm_pc st1 = (cm_pc st)(t := Returned None, u := Returned None) \<and> cm_sups st1 = (cm_sups st)(i \<mapsto> n) \<and>
    cm_version st1 = Suc (cm_version st) \<and> cm_files st1 = (cm_files st)(i := Suc (cm_version st)) \<and>
    length (cm_all st1) = Suc n \<and> cs_running (cm_all st1 ! n) \<and> \<not> cs_cancelled (cm_all st1 ! n) \<and>
    \<not> cs_done (cm_all st1 ! n) \<and> cs_conf (cm_all st1 ! n) = Some (cm_files st i)"
  using assms by (simp add: run_simps fun_upd_twist)

text \<open>
  C33. A Refresh can be lost to a concurrent one. In every state the manager can reach, with no call under
  way, for every project with an uncancelled supervisor, two changes and their two Refreshes can interleave
  so that nothing fails and both return without an error, each having begun after its change; and then the
  project's file holds the newest configuration, while its one tracked, running, uncancelled rathole-server
  works on an older one, which it will keep until it is restarted.
\<close>
theorem refresh_can_be_lost:
  assumes "conc_run cfg evs conc_init = Some st" and "\<forall>t. resting (cm_pc st t)" and "\<not> cm_closed st"
    and "\<not> cm_root_done st" and "mc_binary cfg \<noteq> []" and "cm_sups st i = Some s" and "\<not> cs_cancelled (cm_all st ! s)"
    and "t \<noteq> u"
  shows "case conc_run cfg (lost_refresh_run t u i s (length (cm_all st))) st of
      None \<Rightarrow> False
    | Some st' \<Rightarrow>
        cm_pc st' = (cm_pc st)(t := Returned None, u := Returned None) \<and>
        cm_version st' = cm_version st + 2 \<and> cm_files st' i = cm_version st' \<and>
        (\<exists>n. cm_sups st' i = Some n \<and> n < length (cm_all st') \<and> cs_running (cm_all st' ! n) \<and>
           \<not> cs_cancelled (cm_all st' ! n) \<and> \<not> cs_done (cm_all st' ! n) \<and>
           cs_conf (cm_all st' ! n) = Some (cm_version st' - 1))"
proof -
  note ok = conc_run_ok [OF assms(1) conc_ok_init]
  have s: "s < length (cm_all st)" "cs_running (cm_all st ! s)" using resting_running [OF ok assms(2,6)] by simp_all
  have "\<not> cs_done (cm_all st ! s)" using conc_okD(2) [OF ok s(1)] assms(7) by (auto simp: sup_ok_def Let_def)
  from lost_refresh_first [OF assms(2) [THEN spec] assms(6,3,5) s this, of t] obtain st1 where st1:
    "conc_run cfg ([Commit, Call t (RefreshLock i)] @ threads t 4 @ [Exit s] @ threads t 5) st = Some st1"
    "cm_pc st1 = (cm_pc st)(t := SpawnPublish i)" "cm_sups st1 = (cm_sups st)(i := None)" "\<not> cm_closed st1"
    "cm_root_done st1 = cm_root_done st" "length (cm_all st1) = length (cm_all st)"
    "cm_version st1 = Suc (cm_version st)" "cm_files st1 = (cm_files st)(i := Suc (cm_version st))"
    by blast
  have "resting (cm_pc st1 u)" "cm_pc st1 t = SpawnPublish i" "cm_sups st1 i = None" "\<not> cm_root_done st1"
    using assms(2,4,8) st1(2,3,5) by simp_all
  from lost_refresh_second [OF this(2,1,3) st1(4) this(4) assms(5,8) refl] obtain st2 where st2:
    "conc_run cfg ([Commit, Call u (RefreshLock i)] @ threads u 3 @ threads t 2 @ [Exec (length (cm_all st1))] @ threads u 2) st1 =
      Some st2"
    "cm_pc st2 = (cm_pc st1)(t := Returned None, u := Returned None)" "cm_sups st2 = (cm_sups st1)(i \<mapsto> length (cm_all st1))"
    "cm_version st2 = Suc (cm_version st1)" "cm_files st2 = (cm_files st1)(i := Suc (cm_version st1))"
    "length (cm_all st2) = Suc (length (cm_all st1))" "cs_running (cm_all st2 ! length (cm_all st1))"
    "\<not> cs_cancelled (cm_all st2 ! length (cm_all st1))" "\<not> cs_done (cm_all st2 ! length (cm_all st1))"
    "cs_conf (cm_all st2 ! length (cm_all st1)) = Some (cm_files st1 i)"
    by blast
  have "lost_refresh_run t u i s (length (cm_all st)) =
      ([Commit, Call t (RefreshLock i)] @ threads t 4 @ [Exit s] @ threads t 5) @
      ([Commit, Call u (RefreshLock i)] @ threads u 3 @ threads t 2 @ [Exec (length (cm_all st1))] @ threads u 2)"
    by (simp add: lost_refresh_run_def st1(6))
  then have "conc_run cfg (lost_refresh_run t u i s (length (cm_all st))) st = Some st2"
    using st1(1) st2(1) by (simp only: conc_run_append option.case)
  then show ?thesis using st1(2,3,6-8) st2(2-10) by (simp add: fun_upd_twist)
qed

definition served_run :: "conc_event list" where
  "served_run = [Commit, Call 1 (AddLock 7)] @ threads 1 5 @ [Exec 0]"

lemma served_run_end:
  "case conc_run ex_relay_config served_run conc_init of
     None \<Rightarrow> False
   | Some st \<Rightarrow> cm_pc st 1 = Returned None \<and> (\<forall>t. t \<noteq> 1 \<longrightarrow> cm_pc st t = Idle) \<and> \<not> cm_closed st \<and>
       \<not> cm_root_done st \<and> cm_sups st 7 = Some 0 \<and> \<not> cs_cancelled (cm_all st ! 0) \<and>
       length (cm_all st) = 1 \<and> cm_version st = 1"
  by (simp add: served_run_def run_simps conc_init_def ex_relay_config_def)

theorem refresh_can_be_lost_witness:
  "case conc_run ex_relay_config (served_run @ lost_refresh_run 2 3 7 0 1) conc_init of
     None \<Rightarrow> False
   | Some st \<Rightarrow> cm_version st = 3 \<and> cm_files st 7 = 3 \<and>
       (\<exists>n. cm_sups st 7 = Some n \<and> cs_conf (cm_all st ! n) = Some 2)"
proof (cases "conc_run ex_relay_config served_run conc_init")
  case None
  then show ?thesis using served_run_end by simp
next
  case (Some st)
  note e = served_run_end [unfolded Some, simplified]
  have rest: "\<forall>t. resting (cm_pc st t)" using e by (metis resting.simps(1,2))
  have bin: "mc_binary ex_relay_config \<noteq> []" by (simp add: ex_relay_config_def)
  from refresh_can_be_lost [OF Some rest _ _ bin, of 7 0 2 3] show ?thesis
    using e by (auto simp: conc_run_append Some split: option.splits)
qed

text \<open>
  Two supervisors of one project at once: a project that is disabled and enabled again. RemoveProject
  does not wait for the child it cancels, so the next one is started while the first still ends.
\<close>

definition removed_run :: "conc_event list" where
  "removed_run = Call 1 (AddLock 7) # threads 1 5 @ Call 1 (RemoveLock 7) # threads 1 2 @
     Call 2 (AddLock 7) # threads 2 5 @ [Exec 1]"

lemma removed_run_end:
  "case conc_run ex_relay_config removed_run conc_init of
     None \<Rightarrow> False
   | Some st \<Rightarrow> map cs_project (cm_all st) = [7, 7] \<and> map cs_done (cm_all st) = [False, False] \<and>
       map cs_running (cm_all st) = [True, True]"
  by code_simp

theorem one_child_per_project_witness:
  "case conc_run ex_relay_config removed_run conc_init of
     None \<Rightarrow> False
   | Some st \<Rightarrow> cs_removed (cm_all st ! 0) \<or> cs_removed (cm_all st ! 1)"
proof (cases "conc_run ex_relay_config removed_run conc_init")
  case None
  then show ?thesis using removed_run_end by simp
next
  case (Some st)
  have len: "length (cm_all st) = 2" and e: "map cs_project (cm_all st) = [7, 7]" "map cs_done (cm_all st) = [False, False]"
    using removed_run_end Some by (auto dest: arg_cong [where f = length])
  then have "cs_project (cm_all st ! 0) = 7" "cs_project (cm_all st ! 1) = 7"
      "\<not> cs_done (cm_all st ! 0)" "\<not> cs_done (cm_all st ! 1)"
    by (auto simp: map_eq_Cons_conv)
  moreover have "0 < length (cm_all st)" "1 < length (cm_all st)" "(0::nat) \<noteq> 1" using len by simp_all
  ultimately show ?thesis using Some one_child_per_project [OF Some, THEN conjunct1] by auto
qed

end
