(* ===== verification/RelaySeq.thy ===== *)
theory RelaySeq
  imports RelayConc
begin

section \<open>The relay manager's calls, one at a time\<close>

text \<open>
  Theory Relay gives the methods as functions, RelayConc their steps. Here: a call of a function is the run
  of that method's steps in one thread in which no other thread moves. The two states are related by the
  closed flag, by the map (the same projects, and for each a supervisor that is cancelled or not alike), and
  by the number of supervisors there have ever been, which counts the restarts.
\<close>

fun slot_ok :: "csup list \<Rightarrow> nat \<Rightarrow> nat option \<Rightarrow> project_sup option \<Rightarrow> bool" where
  "slot_ok xs i None None = True"
| "slot_ok xs i (Some s) (Some ps) =
     (s < length xs \<and> cs_project (xs ! s) = i \<and> cs_cancelled (xs ! s) = sp_cancelled ps)"
| "slot_ok xs i u v = False"

definition same :: "cstate \<Rightarrow> relay_state \<Rightarrow> bool" where
  "same st r \<longleftrightarrow> distinct (map fst (rs_sups r)) \<and> cm_closed st = rs_closed r \<and> \<not> cm_root_done st \<and>
     length (cm_all st) = length (rs_sups r) + length (rs_gone r) \<and>
     (\<forall>i. slot_ok (cm_all st) i (cm_sups st i) (map_of (rs_sups r) i))"

text \<open>
  What one thread's call consists of after its beginning: its own steps, and the end of the supervisor
  \<open>w\<close> that it may wait for.
\<close>

fun own :: "nat \<Rightarrow> nat option \<Rightarrow> conc_event \<Rightarrow> bool" where
  "own t w (Thread u fails) = (u = t)"
| "own t w (Exit s) = (w = Some s)"
| "own t w ev = False"

text \<open>The same answer, the text of a failed rendering apart.\<close>

definition answers :: "err option \<Rightarrow> err + unit \<Rightarrow> bool" where
  "answers out res \<longleftrightarrow>
     (case res of
        Inr _ \<Rightarrow> out = None
      | Inl x \<Rightarrow> \<exists>y. out = Some y \<and> (\<forall>z\<in>{ErrManagerClosed, ''context canceled''}. (x = z) = (y = z)))"

definition runs_to :: "relay_config \<Rightarrow> nat \<Rightarrow> nat option \<Rightarrow> cstate \<Rightarrow> (err + unit) \<Rightarrow> relay_state \<Rightarrow> bool" where
  "runs_to cfg t w st res r1 \<longleftrightarrow>
     (\<exists>evs st1 out. list_all (own t w) evs \<and> conc_run cfg evs st = Some st1 \<and>
        cm_pc st1 = (cm_pc st)(t := Returned out) \<and> answers out res \<and> same st1 r1)"

lemma runs_to_step:
  assumes "conc_step cfg ev st = Some st1" "own t w ev" "runs_to cfg t w st1 res r1"
    and "\<forall>u. u \<noteq> t \<longrightarrow> cm_pc st1 u = cm_pc st u"
  shows "runs_to cfg t w st res r1"
proof -
  obtain evs st2 out where "list_all (own t w) evs" "conc_run cfg evs st1 = Some st2"
    "cm_pc st2 = (cm_pc st1)(t := Returned out)" "answers out res" "same st2 r1"
    using assms(3) unfolding runs_to_def by blast
  moreover have "(cm_pc st1)(t := Returned out) = (cm_pc st)(t := Returned out)" for out
    using assms(4) by auto
  ultimately show ?thesis
    using assms(1,2) unfolding runs_to_def
    by (intro exI [of _ "ev # evs"] exI [of _ st2] exI [of _ out]) auto
qed

text \<open>Where the steps go on in the same thread, and where they end.\<close>

lemma runs_on:
  "advance cfg fails t st = Some st1 \<Longrightarrow> \<forall>u. u \<noteq> t \<longrightarrow> cm_pc st1 u = cm_pc st u \<Longrightarrow>
     runs_to cfg t w st1 res r1 \<Longrightarrow> runs_to cfg t w st res r1"
  by (rule runs_to_step [of cfg "Thread t fails" st st1]) simp_all

lemma runs_end:
  "advance cfg fails t st = Some st1 \<Longrightarrow> cm_pc st1 = (cm_pc st)(t := Returned out) \<Longrightarrow>
     answers out res \<Longrightarrow> same st1 r1 \<Longrightarrow> runs_to cfg t w st res r1"
  unfolding runs_to_def by (intro exI [of _ "[Thread t fails]"] exI [of _ st1] exI [of _ out]) simp

subsection \<open>What keeps the two states alike\<close>

lemma slot_ok_cases:
  assumes "slot_ok xs i u v"
  obtains "u = None" "v = None"
  | s ps where "u = Some s" "v = Some ps" "s < length xs" "cs_project (xs ! s) = i" "cs_cancelled (xs ! s) = sp_cancelled ps"
  using assms by (cases u; cases v) simp_all

lemma sameD:
  assumes "same st r"
  shows "cm_closed st = rs_closed r" "slot_ok (cm_all st) i (cm_sups st i) (map_of (rs_sups r) i)"
    "(cm_sups st i = None) = (map_of (rs_sups r) i = None)"
proof -
  show at: "slot_ok (cm_all st) i (cm_sups st i) (map_of (rs_sups r) i)" "cm_closed st = rs_closed r"
    using assms by (simp_all add: same_def)
  show "(cm_sups st i = None) = (map_of (rs_sups r) i = None)" using at(1) by (cases rule: slot_ok_cases) simp_all
qed

lemma same_goto [simp]: "same (goto t p st) r = same st r" "same (st\<lparr>cm_files := f\<rparr>) r = same st r"
  by (simp_all add: same_def goto_def)

lemma same_render:
  "renderToFile cfg e i d r = (res, r1) \<Longrightarrow> same st r1 = same st r"
  using renderToFile_frame [of cfg e i d r res r1] by (simp add: same_def)

text \<open>A new flag of a supervisor, if it is not the one the map compares, or the supervisor is in no slot.\<close>

lemma slot_ok_set:
  "slot_ok xs i v q \<Longrightarrow> cs_project y = cs_project (xs ! u) \<Longrightarrow> cs_cancelled y = cs_cancelled (xs ! u) \<or> v \<noteq> Some u \<Longrightarrow>
     slot_ok (xs[u := y]) i v q"
  by (cases v; cases q; cases "u < length xs") (auto simp: nth_list_update list_update_beyond)

lemma same_flag:
  assumes "same st r" and "cs_project (f (cm_all st ! u)) = cs_project (cm_all st ! u)"
    and "cs_cancelled (f (cm_all st ! u)) = cs_cancelled (cm_all st ! u) \<or> (\<forall>i. cm_sups st i \<noteq> Some u)"
  shows "same (set_sup u f st) r"
  using assms slot_ok_set [OF sameD(2) [OF assms(1)] assms(2)] by (auto simp: same_def set_sup_def)

lemma length_alist_update:
  "map_of al k = Some x \<Longrightarrow> length (AList.update k v al) = length al"
  "map_of al k = None \<Longrightarrow> length (AList.update k v al) = Suc (length al)"
  by (induction al) (auto split: if_splits)

lemma length_alist_delete:
  "map_of al k = Some x \<Longrightarrow> distinct (map fst al) \<Longrightarrow> Suc (length (AList.delete k al)) = length al"
proof (induction al)
  case (Cons y al)
  show ?case
  proof (cases "fst y = k")
    case True
    then have "AList.delete k al = al" using Cons.prems(2) by (intro delete_id) auto
    then show ?thesis using True by (cases y) simp
  qed (use Cons in \<open>cases y; simp\<close>)
qed simp

lemma same_drop:
  assumes "same st r" and "map_of (rs_sups r) i = Some old"
  shows "same (st\<lparr>cm_sups := (cm_sups st)(i := None)\<rparr>)
    (r\<lparr>rs_sups := AList.delete i (rs_sups r), rs_gone := x # rs_gone r\<rparr>)"
  using assms length_alist_delete [OF assms(2)] by (simp add: same_def delete_conv' distinct_delete)

lemma same_cancel:
  assumes "same st r" and "cm_sups st i = Some u" and "map_of (rs_sups r) i = Some old"
  shows "same (set_sup u cancel st) (r\<lparr>rs_sups := AList.update i (sup_cancel old) (rs_sups r)\<rparr>)"
proof -
  have u: "u < length (cm_all st)" "cs_project (cm_all st ! u) = i" using sameD(2) [OF assms(1), of i] assms(2,3) by simp_all
  have "slot_ok ((cm_all st)[u := cancel (cm_all st ! u)]) j (cm_sups st j) (map_of (AList.update i (sup_cancel old) (rs_sups r)) j)" for j
  proof (cases "j = i")
    case True
    then show ?thesis using u assms(2) by (simp add: update_conv' cancel_def)
  next
    case False
    then have "cm_sups st j \<noteq> Some u" using sameD(2) [OF assms(1), of j] u(2) by (auto elim: slot_ok_cases)
    then show ?thesis
      using False slot_ok_set [OF sameD(2) [OF assms(1)], of "cancel (cm_all st ! u)" u j] by (simp add: update_conv' cancel_def)
  qed
  then show ?thesis
    using assms(1) length_alist_update(1) [OF assms(3)] by (simp add: same_def set_sup_def distinct_update)
qed

lemma same_publish:
  assumes "same st r" and "map_of (rs_sups r) i = None" and "\<not> sp_cancelled ps"
    and x: "cs_project x = i" "\<not> cs_cancelled x"
  shows "same (st\<lparr>cm_sups := (cm_sups st)(i \<mapsto> length (cm_all st)), cm_all := cm_all st @ [x]\<rparr>)
    (r\<lparr>rs_sups := AList.update i ps (rs_sups r)\<rparr>)"
proof -
  have "slot_ok (cm_all st @ [x]) j (cm_sups st j) (map_of (rs_sups r) j)" for j
    using sameD(2) [OF assms(1), of j] by (elim slot_ok_cases) (simp_all add: nth_append)
  moreover have "slot_ok (cm_all st @ [x]) i (Some (length (cm_all st))) (Some ps)" using assms(3) x by simp
  ultimately have "slot_ok (cm_all st @ [x]) j (((cm_sups st)(i \<mapsto> length (cm_all st))) j)
      (map_of (AList.update i ps (rs_sups r)) j)" for j
    by (cases "j = i") (simp_all add: update_conv')
  then show ?thesis
    using assms(1) length_alist_update(2) [OF assms(2)] by (simp add: same_def distinct_update del: fun_upd_apply)
qed

subsection \<open>The methods\<close>

lemma renderToFile_error:
  "renderToFile cfg e i d r = (Inl x, r1) \<Longrightarrow> x \<noteq> ErrManagerClosed \<and> x \<noteq> ''context canceled''"
proof -
  have "site_bindings e d sites = Inl y \<Longrightarrow> y \<noteq> ErrManagerClosed \<and> y \<noteq> ''context canceled''" for sites y
    by (induction sites arbitrary: y) (auto simp: ErrManagerClosed_def split: if_splits sum.splits)
  then show "renderToFile cfg e i d r = (Inl x, r1) \<Longrightarrow> x \<noteq> ErrManagerClosed \<and> x \<noteq> ''context canceled''"
    by (auto simp: renderToFile_def RenderRatholeServer_def ErrManagerClosed_def split: sum.splits if_splits)
qed

lemma answers_simps:
  "answers None (Inr u)" "answers (Some ErrManagerClosed) (Inl ErrManagerClosed)"
  "answers (Some ''context canceled'') (Inl ''context canceled'')"
  "renderToFile cfg e i d r = (Inl x, r1) \<Longrightarrow> answers (Some ''relay: %w'') (Inl x)"
  using renderToFile_error [of cfg e i d r x r1] by (simp_all add: answers_def ErrManagerClosed_def)

lemma spawn_runs:
  assumes pc: "cm_pc st t = SpawnRender i" and s: "same st r" "\<not> rs_closed r" "map_of (rs_sups r) i = None"
    and sp: "spawn cfg e i d r = (res, r1)"
  shows "runs_to cfg t w st res r1"
proof (cases "renderToFile cfg e i d r")
  case (Pair q r2)
  note ren = same_render [OF Pair] and fr = renderToFile_frame [OF Pair]
  show ?thesis
  proof (cases q)
    case (Inl x)
    then show ?thesis
      using sp Pair pc ren s(1) answers_simps(4) [OF Pair [unfolded Inl]]
      by (intro runs_end [of cfg True t st "goto t (Returned (Some ''relay: %w'')) st"]) (simp_all add: advance_def spawn_def)
  next
    case (Inr path)
    let ?st1 = "goto t (SpawnWrite i (cm_version st)) st"
    let ?files = "(cm_files st)(i := cm_version st)"
    let ?st2 = "goto t (SpawnPublish i) (?st1\<lparr>cm_files := ?files\<rparr>)"
    have "runs_to cfg t w ?st1 res r1"
    proof (cases "mc_binary cfg = []")
      case True
      have "same (?st1\<lparr>cm_files := ?files\<rparr>) r1" using sp Pair Inr True ren s(1) by (simp add: spawn_def)
      then show ?thesis
        using sp Pair Inr True answers_simps(1)
        by (intro runs_end [of cfg False t ?st1 "goto t (Returned None) (?st1\<lparr>cm_files := ?files\<rparr>)" None])
          (auto simp: advance_def spawn_def goto_def same_def)
    next
      case False
      let ?n = "length (cm_all st)"
      let ?x = "\<lparr>cs_project = i, cs_cancelled = cm_root_done st, cs_running = False, cs_done = False,
        cs_removed = False, cs_conf = None\<rparr>"
      let ?pub = "?st2\<lparr>cm_sups := (cm_sups st)(i \<mapsto> ?n), cm_all := cm_all st @ [?x]\<rparr>"
      obtain ps where r1: "res = Inr ()" "r1 = r2\<lparr>rs_sups := AList.update i ps (rs_sups r2)\<rparr>" "\<not> sp_cancelled ps"
        using sp Pair Inr False s fr by (auto simp: spawn_def)
      have free: "cm_sups st i = None" "\<not> cm_closed st" "\<not> cm_root_done st"
        using s sameD [OF s(1)] by (auto simp: same_def)
      have "same ?st2 r2" using ren s(1) by simp
      from same_publish [OF this, of i ps ?x] have pub: "same ?pub r1"
        using r1 free s(3) fr by (simp add: goto_def)
      have "runs_to cfg t w (goto t (SpawnGo ?n) ?pub) res r1"
      proof (rule runs_end [of cfg False t _ "goto t (Returned None) (set_sup ?n (cs_running_update (\<lambda>_. True)) (goto t (SpawnGo ?n) ?pub))" None])
        show "same (goto t (Returned None) (set_sup ?n (cs_running_update (\<lambda>_. True)) (goto t (SpawnGo ?n) ?pub))) r1"
          using pub by (simp add: same_flag)
      qed (simp_all add: advance_def r1 answers_simps)
      then have "runs_to cfg t w ?st2 res r1"
        by (rule runs_on [of cfg False t, rotated 2]) (use free in \<open>simp_all add: advance_def Let_def goto_def\<close>)
      then show ?thesis
        by (rule runs_on [of cfg False t, rotated 2]) (use False in \<open>simp_all add: advance_def goto_def\<close>)
    qed
    then show ?thesis by (rule runs_on [of cfg False t, rotated 2]) (use pc in \<open>simp_all add: advance_def\<close>)
  qed
qed

lemma AddProject_runs:
  assumes pc: "cm_pc st t = AddLock i" and s: "same st r" and ap: "AddProject cfg e i d r = (res, r1)"
  shows "runs_to cfg t w st res r1"
proof (cases "rs_closed r \<or> map_of (rs_sups r) i \<noteq> None")
  case True
  then show ?thesis
    using ap s pc sameD [OF s]
    by (intro runs_end [of cfg False t st
          "goto t (if rs_closed r then Returned (Some ErrManagerClosed) else Returned None) st"
          "if rs_closed r then Some ErrManagerClosed else None"])
      (auto simp: advance_def AddProject_def answers_simps split: if_splits)
next
  case False
  have "runs_to cfg t w (goto t (SpawnRender i) st) res r1"
    using ap s False by (intro spawn_runs [of _ t i r]) (auto simp: AddProject_def)
  then show ?thesis
    by (rule runs_on [of cfg False t, rotated 2]) (use pc False sameD [OF s] in \<open>auto simp: advance_def\<close>)
qed

lemma only_slot:
  assumes "same st r" "cm_sups st i = Some u"
  shows "u < length (cm_all st)" "cm_sups st j = Some u \<Longrightarrow> j = i"
proof -
  have at: "u < length (cm_all st) \<and> cs_project (cm_all st ! u) = k" if "cm_sups st k = Some u" for k
    using sameD(2) [OF assms(1), of k] that by (auto elim: slot_ok_cases)
  show "u < length (cm_all st)" "cm_sups st j = Some u \<Longrightarrow> j = i" using at assms(2) by blast+
qed

lemma RemoveProject_runs:
  assumes pc: "cm_pc st t = RemoveLock i" and s: "same st r" and rp: "RemoveProject i r = (res, r1)"
  shows "runs_to cfg t w st res r1"
proof (cases "map_of (rs_sups r) i")
  case None
  then have "AList.delete i (rs_sups r) = rs_sups r" by (intro delete_id) (simp add: map_of_eq_None_iff)
  then have "res = Inr ()" "r1 = r" using rp None by (simp_all add: RemoveProject_def)
  then show ?thesis
    using pc None s sameD(3) [OF s, of i]
    by (intro runs_end [of cfg False t st "goto t (Returned None) st" None]) (simp_all add: advance_def answers_simps)
next
  case (Some ps)
  then obtain u where u: "cm_sups st i = Some u" using sameD(3) [OF s, of i] by auto
  have r1: "res = Inr ()" "r1 = r\<lparr>rs_sups := AList.delete i (rs_sups r), rs_gone := (i, sup_cancel ps) # rs_gone r\<rparr>"
    using rp Some by (simp_all add: RemoveProject_def)
  let ?d = "st\<lparr>cm_sups := (cm_sups st)(i := None)\<rparr>"
  let ?st1 = "goto t (RemoveCancel u) (set_sup u remove ?d)"
  have sm: "same ?st1 r1"
    using same_drop [OF s Some] by (simp add: r1(2) same_flag remove_def)
  have "cm_sups ?d j \<noteq> Some u" for j using only_slot(2) [OF s u, of j] by auto
  then have "same (set_sup u cancel ?st1) r1" using sm by (intro same_flag) (auto simp: cancel_def)
  then have "runs_to cfg t w ?st1 res r1"
    by (intro runs_end [of cfg False t ?st1 "goto t (Returned None) (set_sup u cancel ?st1)" None])
      (simp_all add: advance_def r1(1) answers_simps)
  then show ?thesis by (rule runs_on [of cfg False t, rotated 2]) (use pc u in \<open>simp_all add: advance_def\<close>)
qed

text \<open>Refresh, from the wait on: the old supervisor ends, and AddProject takes its place.\<close>

lemma refresh_rest:
  assumes pc: "cm_pc st t = RefreshWait i u" and u: "cm_sups st i = Some u"
      "cs_running (cm_all st ! u)" "cs_cancelled (cm_all st ! u)"
    and s: "same st r" and old: "map_of (rs_sups r) i = Some ps"
    and ap: "AddProject cfg e i d (r\<lparr>rs_sups := AList.delete i (rs_sups r), rs_gone := x # rs_gone r\<rparr>) = (res, r1)"
  shows "runs_to cfg t (Some u) st res r1"
proof -
  note len = only_slot(1) [OF s u(1)]
  have rest: "runs_to cfg t (Some u) st' res r1"
    if pc': "cm_pc st' t = RefreshWait i u" "cs_done (cm_all st' ! u)" "cm_sups st' i = Some u" and s': "same st' r" for st'
  proof -
    let ?st1 = "goto t (RefreshDrop i u) st'"
    let ?st2 = "goto t (AddLock i) (?st1\<lparr>cm_sups := (cm_sups ?st1)(i := None)\<rparr>)"
    have "same ?st1 r" using s' by simp
    from same_drop [OF this old, of x]
    have sm: "same ?st2 (r\<lparr>rs_sups := AList.delete i (rs_sups r), rs_gone := x # rs_gone r\<rparr>)" by simp
    have "runs_to cfg t (Some u) ?st2 res r1" by (rule AddProject_runs [OF _ sm ap]) simp
    then have "runs_to cfg t (Some u) ?st1 res r1"
      by (rule runs_on [of cfg False t, rotated 2]) (use pc' in \<open>simp_all add: advance_def\<close>)
    then show ?thesis
      by (rule runs_on [of cfg False t, rotated 2]) (use pc' in \<open>simp_all add: advance_def\<close>)
  qed
  show ?thesis
  proof (cases "cs_done (cm_all st ! u)")
    case True
    then show ?thesis using rest [of st] pc u s by simp
  next
    case False
    let ?st1 = "set_sup u (cs_done_update (\<lambda>_. True)) st"
    have "runs_to cfg t (Some u) ?st1 res r1" using pc u len s by (intro rest) (simp_all add: same_flag)
    then show ?thesis
      by (rule runs_to_step [of cfg "Exit u" st ?st1, rotated 2]) (use False u len in simp_all)
  qed
qed

lemma refresh_restarts:
  assumes pc: "cm_pc st t = RefreshCancel i u" and u: "cm_sups st i = Some u" "cs_running (cm_all st ! u)"
    and s: "same st r" and old: "map_of (rs_sups r) i = Some old"
    and fin: "(if fault e ''relay: refresh wait''
       then (Inl ''context canceled'', r\<lparr>rs_sups := AList.update i (sup_cancel old) (rs_sups r)\<rparr>)
       else AddProject cfg (again e) i d
         (r\<lparr>rs_sups := AList.delete i (rs_sups r), rs_gone := (i, sup_cancel old) # rs_gone r\<rparr>)) = (res, r1)"
  shows "runs_to cfg t (Some u) st res r1"
proof -
  let ?st1 = "goto t (RefreshWait i u) (set_sup u cancel st)"
  let ?r = "r\<lparr>rs_sups := AList.update i (sup_cancel old) (rs_sups r)\<rparr>"
  have s1: "same ?st1 ?r" using same_cancel [OF s u(1) old] by simp
  have "runs_to cfg t (Some u) ?st1 res r1"
  proof (cases "fault e ''relay: refresh wait''")
    case True
    then have "res = Inl ''context canceled''" "r1 = ?r" using fin by simp_all
    then show ?thesis
      using s1
      by (intro runs_end [of cfg True t ?st1
            "goto t (Returned (Some ''context canceled'')) ?st1" "Some ''context canceled''"])
        (simp_all add: advance_def answers_simps)
  next
    case False
    have eq: "?r\<lparr>rs_sups := AList.delete i (rs_sups ?r), rs_gone := (i, sup_cancel old) # rs_gone ?r\<rparr> =
        r\<lparr>rs_sups := AList.delete i (rs_sups r), rs_gone := (i, sup_cancel old) # rs_gone r\<rparr>"
      by (simp add: delete_update_same)
    show ?thesis
    proof (rule refresh_rest [OF _ _ _ _ s1])
      show "AddProject cfg (again e) i d
          (?r\<lparr>rs_sups := AList.delete i (rs_sups ?r), rs_gone := (i, sup_cancel old) # rs_gone ?r\<rparr>) = (res, r1)"
        unfolding eq using fin False by simp
      show "map_of (rs_sups ?r) i = Some (sup_cancel old)" by (simp add: update_conv')
    qed (use u only_slot(1) [OF s u(1)] in \<open>simp_all add: cancel_def\<close>)
  qed
  then show ?thesis by (rule runs_on [of cfg False t, rotated 2]) (use pc in \<open>simp_all add: advance_def\<close>)
qed

lemma refresh_writes:
  assumes pc: "cm_pc st t = RefreshWrite i u v" and u: "cm_sups st i = Some u" "cs_running (cm_all st ! u)"
    and s: "same st r" and old: "map_of (rs_sups r) i = Some old"
    and fin: "(if mc_binary cfg = [] then (Inr (), r)
       else if fault e ''relay: refresh wait''
       then (Inl ''context canceled'', r\<lparr>rs_sups := AList.update i (sup_cancel old) (rs_sups r)\<rparr>)
       else AddProject cfg (again e) i d
         (r\<lparr>rs_sups := AList.delete i (rs_sups r), rs_gone := (i, sup_cancel old) # rs_gone r\<rparr>)) = (res, r1)"
  shows "runs_to cfg t (Some u) st res r1"
proof (cases "mc_binary cfg = []")
  case True
  have "same (goto t (Returned None) (st\<lparr>cm_files := (cm_files st)(i := v)\<rparr>)) r" using s by simp
  then show ?thesis
    using fin pc True
    by (intro runs_end [of cfg False t st "goto t (Returned None) (st\<lparr>cm_files := (cm_files st)(i := v)\<rparr>)" None])
      (auto simp: advance_def answers_simps goto_def)
next
  case False
  let ?st1 = "goto t (RefreshCancel i u) (st\<lparr>cm_files := (cm_files st)(i := v)\<rparr>)"
  have "runs_to cfg t (Some u) ?st1 res r1"
    by (rule refresh_restarts [OF _ _ _ _ old]) (use s u fin False in simp_all)
  then show ?thesis
    by (rule runs_on [of cfg False t, rotated 2]) (use pc False in \<open>simp_all add: advance_def goto_def\<close>)
qed

lemma Refresh_runs:
  assumes pc: "cm_pc st t = RefreshLock i" and s: "same st r" and rp: "Refresh cfg e i d r = (res, r1)"
    and live: "\<forall>u. cm_sups st i = Some u \<longrightarrow> cs_running (cm_all st ! u)"
  shows "runs_to cfg t (cm_sups st i) st res r1"
proof (cases "rs_closed r")
  case True
  then show ?thesis
    using rp s pc sameD(1) [OF s]
    by (intro runs_end [of cfg False t st "goto t (Returned (Some ErrManagerClosed)) st" "Some ErrManagerClosed"])
      (auto simp: advance_def Refresh_def answers_simps)
next
  case opn: False
  then have op: "\<not> cm_closed st" using sameD(1) [OF s] by simp
  show ?thesis
  proof (cases "map_of (rs_sups r) i")
    case None
    then have no: "cm_sups st i = None" using sameD(3) [OF s] by simp
    have "runs_to cfg t (cm_sups st i) (goto t (AddLock i) st) res r1"
      using rp opn None s by (intro AddProject_runs [of _ t i r]) (auto simp: Refresh_def)
    then show ?thesis
      by (rule runs_on [of cfg False t, rotated 2]) (use pc op no in \<open>simp_all add: advance_def\<close>)
  next
    case (Some old)
    then obtain u where u: "cm_sups st i = Some u" "cs_running (cm_all st ! u)"
      using live sameD(3) [OF s, of i] by auto
    obtain q r2 where ren: "renderToFile cfg e i d r = (q, r2)" by fastforce
    note same2 = same_render [OF ren] and fr = renderToFile_frame [OF ren]
    let ?st1 = "goto t (RefreshRender i u) st"
    have "runs_to cfg t (Some u) ?st1 res r1"
    proof (cases q)
      case (Inl x)
      then show ?thesis
        using rp opn Some ren same2 s answers_simps(4) [OF ren [unfolded Inl]]
        by (intro runs_end [of cfg True t ?st1 "goto t (Returned (Some ''relay: %w'')) ?st1"])
          (auto simp: advance_def Refresh_def)
    next
      case (Inr path)
      let ?st2 = "goto t (RefreshWrite i u (cm_version st)) ?st1"
      have "runs_to cfg t (Some u) ?st2 res r1"
      proof (rule refresh_writes)
        show "same ?st2 r2" using same2 s by simp
        show "map_of (rs_sups r2) i = Some old" using Some fr by simp
      qed (use rp opn Some ren Inr u in \<open>simp_all add: Refresh_def\<close>)
      then show ?thesis
        by (rule runs_on [of cfg False t, rotated 2]) (simp_all add: advance_def goto_def)
    qed
    then show ?thesis
      unfolding u(1) by (rule runs_on [of cfg False t, rotated 2]) (use pc op u in \<open>simp_all add: advance_def\<close>)
  qed
qed

subsection \<open>A call is a run of one thread\<close>

datatype call = Add nat | Rem nat | Ref nat

fun call_project :: "call \<Rightarrow> nat" where
  "call_project (Add i) = i"
| "call_project (Rem i) = i"
| "call_project (Ref i) = i"

fun call_pc :: "call \<Rightarrow> pc" where
  "call_pc (Add i) = AddLock i"
| "call_pc (Rem i) = RemoveLock i"
| "call_pc (Ref i) = RefreshLock i"

fun run_call :: "relay_config \<Rightarrow> env \<Rightarrow> db \<Rightarrow> call \<Rightarrow> relay_state \<Rightarrow> (err + unit) \<times> relay_state" where
  "run_call cfg e d (Add i) r = AddProject cfg e i d r"
| "run_call cfg e d (Rem i) r = RemoveProject i r"
| "run_call cfg e d (Ref i) r = Refresh cfg e i d r"


text \<open>A manager that serves project 7, and the removal of that project.\<close>

definition served_state :: relay_state where
  "served_state = (NewManager (\<lambda>_. None))\<lparr>rs_sups :=
     [(7, \<lparr>sp_name = ''rathole-project-7'', sp_binary = ''rathole'', sp_args = [], sp_cancelled = False\<rparr>)]\<rparr>"

lemma served_run_same:
  "case conc_run ex_relay_config served_run conc_init of
     None \<Rightarrow> False
   | Some st \<Rightarrow> (\<forall>t. resting (cm_pc st t)) \<and> cm_sups st 7 = Some 0 \<and> same st served_state"
  by (simp add: served_run_def run_simps conc_init_def ex_relay_config_def same_def served_state_def NewManager_def)


end
