(* ===== verification/Statements.thy ===== *)
theory Statements
  imports System TokenSpec
begin

section \<open>The server's writes as single statements\<close>

text \<open>
  The database of theories Server and System moves by whole handlers. SQLite moves by statements, and
  those of handlers that run in parallel come in any order. \<open>statement\<close> is one write of the DAOs, or one
  transaction: any method that is one statement, with any arguments; Save of a row whose id is in the
  table (rows are never removed, so whoever read the row once may save it); and the two statements of
  Grant one by one. What every sequence of them keeps, every interleaving of handlers keeps.
\<close>

subsection \<open>Grant, statement by statement\<close>

definition grant_save :: "env \<Rightarrow> access_row \<Rightarrow> string \<Rightarrow> db \<Rightarrow> (dao_error + access_row) \<times> db" where
  "grant_save e existing role d =
     (let row = (touch (now e) existing)\<lparr>ac_role := role\<rparr> in
      if fault e ''dao: update access role'' then (Inl ErrIO, d)
      else if live row \<and> conflicts (\<lambda>r. (ac_operator_id r, ac_project_id r))
             (ac_operator_id row, ac_project_id row) (ID row) (t_accesses d)
      then (Inl ErrUnique, d)
      else (Inr row, d\<lparr>t_accesses := tbl_save row (t_accesses d)\<rparr>))"

definition grant_insert :: "env \<Rightarrow> nat \<Rightarrow> nat \<Rightarrow> string \<Rightarrow> db \<Rightarrow> (dao_error + access_row) \<times> db" where
  "grant_insert e operator_id project_id role d =
     (let row = \<lparr>ID = 0, CreatedAt = 0, DeletedAt = None, UpdatedAt = 0,
                 ac_operator_id = operator_id, ac_project_id = project_id,
                 ac_role = or_default role ProjectRoleOperator\<rparr> in
      if fault e ''dao: create access'' then (Inl ErrIO, d)
      else if conflicts (\<lambda>r. (ac_operator_id r, ac_project_id r)) (operator_id, project_id) 0 (t_accesses d)
      then (Inl ErrUnique, d)
      else (let (r, t) = tbl_append (\<lambda>i. stamp_new (now e) i row) (t_accesses d)
            in (Inr r, d\<lparr>t_accesses := t\<rparr>)))"

text \<open>Alone, Grant is its lookup and one of the two.\<close>

lemma access_grant_parts:
  assumes "db_wf d"
  shows "access_grant e i p role d =
    (if fault e ''dao: lookup access'' then (Inl ErrIO, d)
     else
       (case first_live (\<lambda>a. ac_operator_id a = i \<and> ac_project_id a = p) (t_accesses d) of
          None \<Rightarrow> grant_insert e i p role d
        | Some existing \<Rightarrow>
            if ac_role existing \<noteq> role then grant_save e existing role d else (Inr existing, d)))"
proof -
  have "\<not> conflicts (\<lambda>r. (ac_operator_id r, ac_project_id r)) (ac_operator_id a, ac_project_id a) (ID a)
      (t_accesses d)"
    if "first_live (\<lambda>a. ac_operator_id a = i \<and> ac_project_id a = p) (t_accesses d) = Some a" for a
    using first_live_Some [OF that] db_wfD(13) [OF assms] unfolding conflicts_def uniq_live_def by blast
  then show ?thesis
    by (auto simp: access_grant_def grant_save_def grant_insert_def Let_def split: option.splits)
qed

subsection \<open>Statements\<close>

inductive statement :: "db \<Rightarrow> db \<Rightarrow> bool" where
  op_insert: "operator_create e em h a d = (r1, d') \<Longrightarrow> statement d d'"
| op_admin: "operator_update_is_admin e i a d = (r2, d') \<Longrightarrow> statement d d'"
| op_password: "operator_update_password e i h d = (r2, d') \<Longrightarrow> statement d d'"
| op_delete: "operator_delete e i d = (r2, d') \<Longrightarrow> statement d d'"
| session_insert: "session_issue e i ttl ua ip d = (r3, d') \<Longrightarrow> statement d d'"
| session_revoke: "session_revoke_by_token e raw d = (r2, d') \<Longrightarrow> statement d d'"
| access_insert: "grant_insert e i p role d = (r4, d') \<Longrightarrow> statement d d'"
| access_save: "\<exists>x\<in>set (rows (t_accesses d)). ID x = ID ac \<Longrightarrow> grant_save e ac role d = (r4, d') \<Longrightarrow>
    statement d d'"
| access_delete: "access_revoke e i p d = (r2, d') \<Longrightarrow> statement d d'"
| sa_insert: "sa_token_issue e i desc ttl d = (r5, d') \<Longrightarrow> statement d d'"
| sa_revoke: "sa_token_revoke e i d = (r2, d') \<Longrightarrow> statement d d'"
| sa_touch: "statement d (touch_sa_token e i d)"
| pr_insert: "project_create e pr d = (r6, d') \<Longrightarrow> statement d d'"
| pr_save: "\<exists>x\<in>set (rows (t_projects d)). ID x = ID pr \<Longrightarrow> project_update e pr d = (r2, d') \<Longrightarrow> statement d d'"
| pr_delete: "project_delete e i d = (r2, d') \<Longrightarrow> statement d d'"
| si_insert: "site_create e si d = (r7, d') \<Longrightarrow> statement d d'"
| si_save: "\<exists>x\<in>set (rows (t_sites d)). ID x = ID si \<Longrightarrow> site_update e si d = (r2, d') \<Longrightarrow> statement d d'"
| si_delete: "site_delete e i d = (r2, d') \<Longrightarrow> statement d d'"
| si_meta: "site_update_agent_meta e i hn os v cs d = (r2, d') \<Longrightarrow> statement d d'"
| si_status: "site_set_status e i s d = (r2, d') \<Longrightarrow> statement d d'"
| si_stale: "mark_stale_offline e t d = (r8, d') \<Longrightarrow> statement d d'"
| agent_rotate: "site_token_issue e i ttl d = (r9, d') \<Longrightarrow> statement d d'"
| agent_touch: "statement d (touch_agent_token e i d)"
| agent_used: "statement d (touch_agent_used e i d)"
| sv_insert: "service_create e sv d = (r10, d') \<Longrightarrow> statement d d'"
| sv_save: "\<exists>x\<in>set (rows (t_services d)). ID x = ID sv \<Longrightarrow> service_update e sv d = (r2, d') \<Longrightarrow> statement d d'"
| sv_delete: "service_delete e i d = (r2, d') \<Longrightarrow> statement d d'"
| audit: "statement d (audited e cx en d)"

abbreviation statements :: "db \<Rightarrow> db \<Rightarrow> bool" where
  "statements \<equiv> statement\<^sup>*\<^sup>*"

lemma uniq_live_save_row:
  assumes "uniq_live key t" "live r \<longrightarrow> \<not> conflicts key (key r) (ID r) t" "\<exists>x\<in>set (rows t). ID x = ID r"
  shows "uniq_live key (tbl_save r t)"
  unfolding uniq_live_def tbl_save_rows(1) [OF assms(3)]
proof (intro ballI impI)
  let ?g = "\<lambda>x. if ID x = ID r then r else x"
  fix a b
  assume ab: "a \<in> set (map ?g (rows t))" "b \<in> set (map ?g (rows t))" "live a" "live b" "key a = key b"
  have old: "x = r \<or> (x \<in> set (rows t) \<and> ID x \<noteq> ID r)" if "x \<in> set (map ?g (rows t))" for x
    using that by auto
  show "ID a = ID b"
    using old [OF ab(1)] old [OF ab(2)] ab(3-5) assms(1,2)
    unfolding uniq_live_def conflicts_def by metis
qed

lemma grant_wf:
  assumes "db_wf d"
  shows "grant_insert e i p role d = (r, d') \<Longrightarrow> db_wf d'"
    and "\<exists>x\<in>set (rows (t_accesses d)). ID x = ID ac \<Longrightarrow> grant_save e ac role d = (r, d') \<Longrightarrow> db_wf d'"
proof -
  show "grant_insert e i p role d = (r, d') \<Longrightarrow> db_wf d'"
    using assms unfolding grant_insert_def
    by (auto simp: Let_def tbl_append_def stamp_new_def or_default_def split: if_splits
        intro!: db_wf_set_table(3) tbl_wf_snoc [OF db_wfD(4)] uniq_live_snoc [OF db_wfD(13) _ _ db_wfD(4)])
  show "db_wf d'" if "\<exists>x\<in>set (rows (t_accesses d)). ID x = ID ac" "grant_save e ac role d = (r, d')"
  proof -
    let ?a = "(touch (now e) ac)\<lparr>ac_role := role\<rparr>"
    have ex: "\<exists>x\<in>set (rows (t_accesses d)). ID x = ID ?a" using that(1) by simp
    have "d' = d \<or> d' = d\<lparr>t_accesses := tbl_save ?a (t_accesses d)\<rparr> \<and>
        (live ?a \<longrightarrow> \<not> conflicts (\<lambda>r. (ac_operator_id r, ac_project_id r)) (ac_operator_id ?a, ac_project_id ?a)
          (ID ?a) (t_accesses d))"
      using that(2) unfolding grant_save_def by (auto simp: Let_def split: if_splits)
    then show ?thesis
    proof
      assume s: "d' = d\<lparr>t_accesses := tbl_save ?a (t_accesses d)\<rparr> \<and>
        (live ?a \<longrightarrow> \<not> conflicts (\<lambda>r. (ac_operator_id r, ac_project_id r)) (ac_operator_id ?a, ac_project_id ?a)
          (ID ?a) (t_accesses d))"
      show ?thesis unfolding conjunct1 [OF s]
        by (intro db_wf_set_table(3) [OF assms] tbl_wf_save [OF db_wfD(4) [OF assms] ex]
            uniq_live_save_row [OF db_wfD(13) [OF assms] conjunct2 [OF s] ex])
    qed (use assms in simp)
  qed
qed


text \<open>The three tables whose rows the handlers save whole.\<close>

lemma saves_wf:
  assumes "db_wf d"
  shows "\<exists>x\<in>set (rows (t_projects d)). ID x = ID pr \<Longrightarrow> project_update e pr d = (r, d') \<Longrightarrow> db_wf d'"
    and "\<exists>x\<in>set (rows (t_sites d)). ID x = ID si \<Longrightarrow> site_update e si d = (r, d') \<Longrightarrow> db_wf d'"
    and "\<exists>x\<in>set (rows (t_services d)). ID x = ID sv \<Longrightarrow> service_update e sv d = (r, d') \<Longrightarrow> db_wf d'"
proof -
  note wf = db_wfD [OF assms]
  show "db_wf d'" if "\<exists>x\<in>set (rows (t_projects d)). ID x = ID pr" "project_update e pr d = (r, d')"
    using that assms wf(3,12) unfolding project_update_def
    by (auto split: if_splits intro!: db_wf_set_table(2) tbl_wf_save uniq_live_save_row)
  show "db_wf d'" if "\<exists>x\<in>set (rows (t_sites d)). ID x = ID si" "site_update e si d = (r, d')"
    using that assms wf(5,14) unfolding site_update_def
    by (auto split: if_splits intro!: db_wf_set_table(4) tbl_wf_save uniq_live_save_row)
  show "db_wf d'" if "\<exists>x\<in>set (rows (t_services d)). ID x = ID sv" "service_update e sv d = (r, d')"
    using that assms wf(7,17) unfolding service_update_def
    by (auto split: if_splits intro!: db_wf_set_table(5) tbl_wf_save uniq_live_save_row)
qed

lemma inserts_wf:
  assumes "db_wf d"
  shows "project_create e pr d = (r1, d') \<Longrightarrow> db_wf d'"
    and "site_create e si d = (r2, d') \<Longrightarrow> db_wf d'"
    and "service_create e sv d = (r3, d') \<Longrightarrow> db_wf d'"
proof -
  show "db_wf d'" if "project_create e pr d = (r1, d')"
    using that assms by (cases r1) (auto dest: project_create_Inl project_create_wf)
  show "db_wf d'" if "site_create e si d = (r2, d')"
  proof (cases r2)
    case (Inr r)
    have eff: "d' = d\<lparr>t_sites := t_sites d'\<rparr>" "rows (t_sites d') = rows (t_sites d) @ [r]"
      "seq (t_sites d') = Suc (seq (t_sites d))" "ID r = Suc (seq (t_sites d))"
      "\<not> conflicts (\<lambda>r. (si_project_id r, si_name r)) (si_project_id r, si_name r) 0 (t_sites d)"
      using site_create_effect [OF that [unfolded Inr]] by blast+
    show ?thesis
      by (subst eff(1)) (intro db_wf_set_table(4) [OF assms] tbl_wf_snoc [OF db_wfD(5) [OF assms] eff(2-4)]
        uniq_live_snoc [OF db_wfD(14) [OF assms] eff(2,5) db_wfD(5) [OF assms]])
  qed (use that assms in \<open>auto dest: site_create_Inl\<close>)
  show "db_wf d'" if "service_create e sv d = (r3, d')"
  proof (cases r3)
    case (Inr r)
    have eff: "d' = d\<lparr>t_services := t_services d'\<rparr>" "rows (t_services d') = rows (t_services d) @ [r]"
      "seq (t_services d') = Suc (seq (t_services d))" "ID r = Suc (seq (t_services d))"
      "\<not> conflicts (\<lambda>r. (sv_site_id r, sv_name r)) (sv_site_id r, sv_name r) 0 (t_services d)"
      using service_create_effect [OF that [unfolded Inr]] by blast+
    show ?thesis
      by (subst eff(1)) (intro db_wf_set_table(5) [OF assms] tbl_wf_snoc [OF db_wfD(7) [OF assms] eff(2-4)]
        uniq_live_snoc [OF db_wfD(17) [OF assms] eff(2,5) db_wfD(7) [OF assms]])
  qed (use that assms in \<open>auto dest: service_create_Inl\<close>)
qed

text \<open>Rows changed in place, with the keys as they are.\<close>

lemma keyed_update_wf:
  assumes "db_wf d"
  shows "(\<And>r. ID (fp r) = ID r \<and> pr_slug (fp r) = pr_slug r \<and> (live (fp r) \<longrightarrow> live r)) \<Longrightarrow>
      db_wf (d\<lparr>t_projects := update_live P1 fp (t_projects d)\<rparr>)"
    and "(\<And>r. ID (fs r) = ID r \<and> si_project_id (fs r) = si_project_id r \<and> si_name (fs r) = si_name r \<and>
        (live (fs r) \<longrightarrow> live r)) \<Longrightarrow> db_wf (d\<lparr>t_sites := update_live P2 fs (t_sites d)\<rparr>)"
    and "(\<And>r. ID (fv r) = ID r \<and> sv_site_id (fv r) = sv_site_id r \<and> sv_name (fv r) = sv_name r \<and>
        (live (fv r) \<longrightarrow> live r)) \<Longrightarrow> db_wf (d\<lparr>t_services := update_live P3 fv (t_services d)\<rparr>)"
    and "(\<And>r. ID (ft r) = ID r \<and> sa_token_hash (ft r) = sa_token_hash r \<and> (live (ft r) \<longrightarrow> live r)) \<Longrightarrow>
      db_wf (d\<lparr>t_sa_tokens := update_live P4 ft (t_sa_tokens d)\<rparr>)"
    and "(\<And>r. ID (fa r) = ID r \<and> at_site_id (fa r) = at_site_id r \<and> at_token_hash (fa r) = at_token_hash r \<and>
        (live (fa r) \<longrightarrow> live r)) \<Longrightarrow> db_wf (d\<lparr>t_agent_tokens := update_live P5 fa (t_agent_tokens d)\<rparr>)"
proof (goal_cases)
  case 1
  show ?case
    by (intro db_wf_set_table(2) [OF assms] tbl_wf_update uniq_live_update db_wfD(3,12) [OF assms]) (use 1 in auto)
next
  case 2
  show ?case
    by (intro db_wf_set_table(4) [OF assms] tbl_wf_update uniq_live_update db_wfD(5,14) [OF assms]) (use 2 in auto)
next
  case 3
  show ?case
    by (intro db_wf_set_table(5) [OF assms] tbl_wf_update uniq_live_update db_wfD(7,17) [OF assms]) (use 3 in auto)
next
  case 4
  show ?case
    by (intro db_wf_set_table(6) [OF assms] tbl_wf_update uniq_live_update db_wfD(9,18) [OF assms]) (use 4 in auto)
next
  case 5
  show ?case
    by (intro db_wf_set_table(7) [OF assms] tbl_wf_update uniq_live_update db_wfD(6,15,16) [OF assms]) (use 5 in auto)
qed

lemma updates_wf:
  assumes "db_wf d"
  shows "operator_update_is_admin e i a d = (r, d') \<Longrightarrow> db_wf d'"
    and "operator_update_password e i h d = (r, d') \<Longrightarrow> db_wf d'"
    and "operator_delete e i d = (r, d') \<Longrightarrow> db_wf d'"
    and "project_delete e i d = (r, d') \<Longrightarrow> db_wf d'"
    and "site_delete e i d = (r, d') \<Longrightarrow> db_wf d'"
    and "site_update_agent_meta e i hn os v cs d = (r, d') \<Longrightarrow> db_wf d'"
    and "site_set_status e i s d = (r, d') \<Longrightarrow> db_wf d'"
    and "mark_stale_offline e t d = (q, d') \<Longrightarrow> db_wf d'"
    and "service_delete e i d = (r, d') \<Longrightarrow> db_wf d'"
  using assms
  by (auto simp: operator_update_is_admin_def operator_update_password_def operator_delete_def delete_live_def
      Let_def live_def intro!: operators_update_wf split: if_splits)
    (auto simp: project_delete_def site_delete_def site_update_agent_meta_def site_set_status_def
      mark_stale_offline_def service_delete_def delete_live_def live_def touch_def set_agent_meta_def
      intro!: keyed_update_wf split: if_splits)

lemma touches_wf:
  assumes "db_wf d"
  shows "db_wf (touch_sa_token e i d)" "db_wf (touch_agent_token e i d)" "db_wf (touch_agent_used e i d)"
  using assms unfolding touch_sa_token_def touch_agent_token_def touch_agent_used_def
  by (auto simp: live_def touch_def intro!: keyed_update_wf)

lemma statement_wf: "statement d d' \<Longrightarrow> db_wf d \<Longrightarrow> db_wf d'"
proof (induction rule: statement.cases)
  case (session_insert e i ttl ua ip d r3 d')
  then show ?case using session_issue_wf [of d e i ttl ua ip] by simp
next
  case (session_revoke e raw d r2 d')
  then show ?case using session_revoke_by_token_wf [of d e raw] by simp
next
  case (sa_insert e i desc ttl d r5 d')
  then show ?case using sa_token_issue_wf [of d e i desc ttl] by simp
next
  case (agent_rotate e i ttl d r9 d')
  then show ?case using site_token_issue_wf [of d e i ttl] by simp
qed (auto intro: operator_create_wf access_revoke_wf sa_token_revoke_wf grant_wf saves_wf inserts_wf updates_wf
    touches_wf audited_db_wf)

subsection \<open>Every step of the server is a sequence of statements\<close>

lemma stmts_audited: "statements d d1 \<Longrightarrow> statements d (audited e cx en d1)"
  using audit by (rule rtranclp.rtrancl_into_rtrancl [rotated])

lemma one: "statement d d' \<Longrightarrow> statements d d'"
  by (rule r_into_rtranclp)

lemmas writes = op_insert [THEN one] op_admin [THEN one] op_password [THEN one] op_delete [THEN one]
  session_insert [THEN one] session_revoke [THEN one] access_insert [THEN one] access_delete [THEN one]
  sa_insert [THEN one] sa_revoke [THEN one] pr_insert [THEN one] pr_delete [THEN one] si_insert [THEN one]
  si_delete [THEN one] si_meta [THEN one] si_status [THEN one] si_stale [THEN one] agent_rotate [THEN one]
  sv_insert [THEN one] sv_delete [THEN one]

lemma access_grant_statements:
  assumes "db_wf d" "access_grant e i p role d = (r, d')"
  shows "statements d d'"
proof (cases "first_live (\<lambda>a. ac_operator_id a = i \<and> ac_project_id a = p) (t_accesses d)")
  case None
  then show ?thesis
    using assms(2) unfolding access_grant_parts [OF assms(1)] by (auto split: if_splits dest: writes)
next
  case (Some ac)
  then have ex: "\<exists>x\<in>set (rows (t_accesses d)). ID x = ID ac" using first_live_Some by blast
  show ?thesis
    using assms(2) Some one [OF access_save [OF ex]] unfolding access_grant_parts [OF assms(1)]
    by (auto split: if_splits)
qed

lemma project_handler_statements:
  "create_project rm e i b cx w = (r1, w') \<Longrightarrow> statements (wdb w) (wdb w')"
  "delete_project rm e n f cx w = (r2, w') \<Longrightarrow> statements (wdb w) (wdb w')"
  unfolding create_project_def delete_project_def
  by (auto split: option.splits sum.splits if_splits prod.splits bool.splits
      dest: writes intro!: stmts_audited)

lemma site_handler_statements:
  "create_site rm e p i b cx w = (r1, w') \<Longrightarrow> statements (wdb w) (wdb w')"
  "rotate_site_agent_token rm e n cx w = (r2, w') \<Longrightarrow> statements (wdb w) (wdb w')"
  "get_site_install_command rm cfg e n os cx w = (r3, w') \<Longrightarrow> statements (wdb w) (wdb w')"
  "delete_site rm e n f cx w = (r4, w') \<Longrightarrow> statements (wdb w) (wdb w')"
  unfolding create_site_def rotate_site_agent_token_def get_site_install_command_def delete_site_def
  by (auto simp: Let_def split: option.splits sum.splits if_splits prod.splits
      dest: writes intro!: stmts_audited)

lemma service_handler_statements:
  "create_service rm e p i b cx w = (r1, w') \<Longrightarrow> statements (wdb w) (wdb w')"
  "delete_service rm e n cx w = (r2, w') \<Longrightarrow> statements (wdb w) (wdb w')"
  unfolding create_service_def delete_service_def
  by (auto simp: Let_def split: option.splits sum.splits if_splits prod.splits
      dest: writes intro!: stmts_audited)

text \<open>The handlers that save a row they read.\<close>

lemma update_handler_statements:
  assumes "db_wf (wdb w)"
  shows "update_project rm e b mk cx w = (r1, w') \<Longrightarrow> statements (wdb w) (wdb w')"
    and "update_site rm e b2 mk cx w = (r2, w') \<Longrightarrow> statements (wdb w) (wdb w')"
    and "update_service rm e b3 mk cx w = (r3, w') \<Longrightarrow> statements (wdb w) (wdb w')"
proof -
  show "statements (wdb w) (wdb w')" if u: "update_project rm e b mk cx w = (r1, w')"
  proof (cases r1)
    case (Inl st)
    then show ?thesis using u update_project_Inl by fastforce
  next
    case (Inr out)
    from update_project_Inr [OF u [unfolded Inr]] obtain pb cur cur' ch d en where h:
      "cur \<in> set (rows (t_projects (wdb w)))" "project_mask_loop e pb (wdb w) (the mk) cur [] = Inr (cur', ch)"
      "project_update e cur' (wdb w) = (Inr (), d)" "wdb w' = audited e cx en d"
      by (auto simp: Let_def split: if_splits)
    have "ID cur' = ID cur" using project_mask_loop_Inr [OF h(2)] by blast
    then have "statement (wdb w) d" using h(1,3) by (intro pr_save) auto
    then show ?thesis unfolding h(4) by (intro stmts_audited one)
  qed
  show "statements (wdb w) (wdb w')" if u: "update_site rm e b2 mk cx w = (r2, w')"
  proof (cases r2)
    case (Inl st)
    then show ?thesis using u update_site_Inl by fastforce
  next
    case (Inr out)
    from update_site_Inr [OF u [unfolded Inr]] obtain pb p site site' ch sh d en where h:
      "resolve_site e cx (site_pb.sp_name pb) (wdb w) = Inr (p, site)"
      "site_mask_loop pb (the mk) site [] [] = Inr (site', ch, sh)"
      "site_update e site' (wdb w) = (Inr (), d)" "wdb w' = audited e cx en d"
      by auto
    have "site \<in> set (rows (t_sites (wdb w)))" using resolve_site_Inr [OF h(1)] by blast
    then have "statement (wdb w) d" using h(3) site_mask_loop_Inr [OF h(2)] by (intro si_save) auto
    then show ?thesis unfolding h(4) by (intro stmts_audited one)
  qed
  show "statements (wdb w) (wdb w')" if u: "update_service rm e b3 mk cx w = (r3, w')"
  proof (cases r3)
    case (Inl st)
    then show ?thesis using u update_service_Inl by fastforce
  next
    case (Inr out)
    from update_service_Inr [OF u [unfolded Inr]] obtain pb p site svc svc' ch sh d en where h:
      "resolve_service e cx (vp_name pb) (wdb w) = Inr (p, site, svc)"
      "service_mask_loop pb (the mk) svc [] None = Inr (svc', ch, sh)"
      "service_update e svc' (wdb w) = (Inr (), d)" "wdb w' = audited e cx en d"
      by auto
    have "svc \<in> set (rows (t_services (wdb w)))" using resolve_service_Inr [OF h(1)] by blast
    then have "statement (wdb w) d" using h(3) service_mask_loop_Inr [OF h(2)] by (intro sv_save) auto
    then show ?thesis unfolding h(4) by (intro stmts_audited one)
  qed
qed

lemma operator_handler_statements:
  "create_operator e b2 pw cx w = (r1, w') \<Longrightarrow> statements (wdb w) (wdb w')"
  "delete_operator e n cx w = (r2, w') \<Longrightarrow> statements (wdb w) (wdb w')"
  "revoke_project_access e n s cx w = (r2, w') \<Longrightarrow> statements (wdb w) (wdb w')"
  "create_sa_token e n desc ttl cx w = (r4, w') \<Longrightarrow> statements (wdb w) (wdb w')"
  "revoke_sa_token e i cx w = (r2, w') \<Longrightarrow> statements (wdb w) (wdb w')"
  "db_wf (wdb w) \<Longrightarrow> grant_project_access e n s role cx w = (r5, w') \<Longrightarrow> statements (wdb w) (wdb w')"
  unfolding create_operator_def delete_operator_def revoke_project_access_def create_sa_token_def
    revoke_sa_token_def grant_project_access_def
  by (auto simp: Let_def split: option.splits sum.splits if_splits prod.splits
      dest: writes access_grant_statements intro!: stmts_audited)

lemma set_operator_statements:
  "set_is_admin e cx caller target adm w = (r, w') \<Longrightarrow> statements (wdb w) (wdb w')"
  "set_password e cx target pw w = (r, w') \<Longrightarrow> statements (wdb w) (wdb w')"
  unfolding set_is_admin_def set_password_def
  by (auto split: option.splits sum.splits if_splits prod.splits dest: writes intro!: stmts_audited)

lemma update_operator_statements:
  "update_operator e b mk pw cx w = (r, w') \<Longrightarrow> statements (wdb w) (wdb w')"
  unfolding update_operator_def
  by (auto split: option.splits sum.splits if_splits prod.splits dest!: set_operator_statements
      intro: rtranclp_trans)

lemma session_handler_statements:
  "login ttl e em pw cx w = (r1, w') \<Longrightarrow> statements (wdb w) (wdb w')"
  "logout e cx w = (r2, w') \<Longrightarrow> statements (wdb w) (wdb w')"
  unfolding login_def logout_def
  by (auto split: option.splits sum.splits if_splits prod.splits dest: writes)

lemma set_online_statements: "statements d (set_online e i d)"
  using writes(16) [of e i SiteStatusOnline d] by (metis set_online_def surjective_pairing)

lemma agent_handler_statements:
  "bootstrap cfg e h os v cx w = (r1, w') \<Longrightarrow> statements (wdb w) (wdb w')"
  "heartbeat e h os v cs cv cx w = (r2, w') \<Longrightarrow> statements (wdb w) (wdb w')"
  unfolding bootstrap_def heartbeat_def
  by (auto simp: Let_def split: option.splits sum.splits if_splits prod.splits dest!: writes(15)
      intro: rtranclp_trans [OF _ set_online_statements])

lemma dispatch_statements:
  assumes "db_wf (wdb w)" "dispatch cfg rm e q cx w = (r, w')"
  shows "statements (wdb w) (wdb w')"
  using assms(2)
  by (cases q) (auto dest!: reply_eq read_handlers_same project_handler_statements site_handler_statements
      service_handler_statements operator_handler_statements update_operator_statements
      update_handler_statements [OF assms(1)] operator_handler_statements(6) [OF assms(1)]
      session_handler_statements agent_handler_statements)

lemma touched_statements: "touched e d d' \<Longrightarrow> statements d d'"
  using sa_touch [THEN one] agent_used [THEN one] by (auto simp: touched_def sa_touched_def)

lemma step_statements:
  assumes "server_step cfg rm sw w w'" "db_wf (wdb w)"
  shows "statements (wdb w) (wdb w')"
  using assms(1)
proof (cases rule: server_step.cases)
  case (rpc e peer md q res)
  from serve_cases [OF rpc] show ?thesis
  proof (elim disjE exE conjE, goal_cases)
    case (1 cx d)
    then have "db_wf d" using touched_neutral assms(2) by (auto simp: neutral_def)
    then have "statements d (wdb w')" using dispatch_statements [of "w\<lparr>wdb := d\<rparr>" cfg rm e q cx res w'] 1(2) by simp
    then show ?case using touched_statements [OF 1(1)] by simp
  next
    case 2
    then show ?case using touched_statements by blast
  qed
next
  case (tick e res d)
  then show ?thesis
    by (auto simp: sweeper_tick_def Let_def split: sum.splits prod.splits dest!: writes(17))
next
  case (connect e req out d)
  then show ?thesis
    using sa_touch [THEN one] agent_touch [THEN one] unfolding handle_def Route_def site_token_validate_raw_def
    by (auto split: option.splits if_splits prod.splits sum.splits route_error.splits)
next
  case (relay r)
  then show ?thesis by simp
qed

subsection \<open>The agents' tokens over any sequence of statements\<close>

text \<open>
  A row that is live now and has a number given out before was live then, with the same site, hash and
  expiry: a token that was replaced never comes back as such.
\<close>

definition tokens_since :: "db \<Rightarrow> db \<Rightarrow> bool" where
  "tokens_since d d' \<longleftrightarrow> seq (t_agent_tokens d) \<le> seq (t_agent_tokens d') \<and>
     (\<forall>r\<in>set (rows (t_agent_tokens d')). live r \<longrightarrow> ID r \<le> seq (t_agent_tokens d) \<longrightarrow>
        (\<exists>r0\<in>set (rows (t_agent_tokens d)). agent_ident r0 = agent_ident r))"

lemma tokens_since_same: "t_agent_tokens d' = t_agent_tokens d \<Longrightarrow> tokens_since d d'"
  by (auto simp: tokens_since_def)

lemma tokens_since_trans:
  assumes "tokens_since d d1" "tokens_since d1 d2"
  shows "tokens_since d d2"
  unfolding tokens_since_def
proof (intro conjI ballI impI)
  show "seq (t_agent_tokens d) \<le> seq (t_agent_tokens d2)" using assms by (simp add: tokens_since_def)
  fix r assume r: "r \<in> set (rows (t_agent_tokens d2))" "live r" "ID r \<le> seq (t_agent_tokens d)"
  then obtain r1 where r1: "r1 \<in> set (rows (t_agent_tokens d1))" "agent_ident r1 = agent_ident r"
    using assms unfolding tokens_since_def by (meson order_trans)
  then have "live r1" "ID r1 \<le> seq (t_agent_tokens d)" using r(2,3) by (simp_all add: agent_ident_def live_def)
  then show "\<exists>r0\<in>set (rows (t_agent_tokens d)). agent_ident r0 = agent_ident r"
    using assms(1) r1 unfolding tokens_since_def by metis
qed

lemma tokens_since_touch: "tokens_since d (touch_agent_token e i d)" "tokens_since d (touch_agent_used e i d)"
  by (auto simp: tokens_since_def touch_agent_token_def touch_agent_used_def table_simps agent_ident_def touch_def)

lemma tokens_since_issue:
  assumes "site_token_issue e i ttl d = (r, d')"
  shows "tokens_since d d'"
proof (cases r)
  case (Inl x)
  then have "raw_of (site_token_issue e i ttl d) = (Inl x, d')" using assms by (simp add: raw_of_def)
  then show ?thesis using site_token_issue_Inl tokens_since_same by blast
next
  case (Inr p)
  obtain row raw where "p = (row, raw)" by (cases p)
  from site_token_issue_Inr [OF raw_of_Inr [OF assms [unfolded Inr this]]] obtain q where
    q: "rows (t_agent_tokens d') = rows (delete_live (now e) (\<lambda>r. at_site_id r = i) (t_agent_tokens d)) @ [q]"
      "seq (t_agent_tokens d') = Suc (seq (t_agent_tokens d))" "ID q = Suc (seq (t_agent_tokens d))"
    by (auto simp: table_simps)
  have "y \<in> set (rows (t_agent_tokens d))" if "y \<in> set (rows (t_agent_tokens d'))" "live y" "ID y \<le> seq (t_agent_tokens d)" for y
  proof -
    have "y \<noteq> q" using that(3) q(3) by auto
    then have "y \<in> set (rows (delete_live (now e) (\<lambda>r. at_site_id r = i) (t_agent_tokens d)))" using that(1) q(1) by simp
    then show ?thesis using delete_live_survivor that(2) by blast
  qed
  then show ?thesis using q(2) unfolding tokens_since_def by auto
qed

lemma statement_tokens: "statement d d' \<Longrightarrow> tokens_since d d'"
proof (induction rule: statement.cases)
  case (agent_rotate e i ttl d r9 d')
  then show ?case using tokens_since_issue by simp
next
  case (agent_touch d e i)
  then show ?case using tokens_since_touch(1) by simp
next
  case (agent_used d e i)
  then show ?case using tokens_since_touch(2) by simp
qed (auto intro!: tokens_since_same simp: operator_create_def operator_update_is_admin_def operator_update_password_def
    operator_delete_def session_issue_def session_revoke_by_token_def grant_insert_def grant_save_def access_revoke_def
    sa_token_issue_def sa_token_revoke_def touch_sa_token_def project_create_def project_update_def project_delete_def
    site_create_def site_update_def site_delete_def site_update_agent_meta_def site_set_status_def mark_stale_offline_def
    service_create_def service_update_def service_delete_def audited_frame Let_def
    split: if_splits prod.splits sum.splits option.splits)

lemma statements_tokens: "statements d d' \<Longrightarrow> tokens_since d d'"
  by (induction rule: rtranclp_induct) (auto intro: tokens_since_same tokens_since_trans statement_tokens)

text \<open>
  C12. The server's writes are statements, and whatever order the statements of overlapping handlers come
  in, the tables keep what the migrations declare: unique keys, and the unique indexes on live rows.
  What the handlers check themselves is not among it: theory Interleave.
\<close>
theorem statements_keep_indexes:
  assumes "db_wf (wdb w)"
  shows "(server_step cfg rm sw w w' \<longrightarrow> statements (wdb w) (wdb w')) \<and>
    (statements (wdb w) d \<longrightarrow> db_wf d)"
proof (intro conjI impI)
  show "statements (wdb w) (wdb w')" if "server_step cfg rm sw w w'"
    by (rule step_statements [OF that assms])
  assume "statements (wdb w) d"
  then show "db_wf d" by (induction rule: rtranclp_induct) (use assms statement_wf in blast)+
qed

text \<open>A deletion, and a save of the row as it was before.\<close>

theorem statements_keep_indexes_witness:
  "db_wf (snd (site_update ex_env ex_site (snd (site_delete ex_env 1 ex_db))))"
proof -
  let ?d = "snd (site_delete ex_env 1 ex_db)"
  have "statement ex_db ?d" by (rule si_delete [of ex_env 1 ex_db]) (rule surjective_pairing)
  moreover have "\<exists>x\<in>set (rows (t_sites ?d)). ID x = ID ex_site"
    by (simp add: site_delete_def delete_live_simps)
  then have "statement ?d (snd (site_update ex_env ex_site ?d))"
    by (rule si_save) (rule surjective_pairing)
  ultimately have "statements (wdb ex_world) (snd (site_update ex_env ex_site ?d))" by simp
  then show ?thesis using statements_keep_indexes [of ex_world] ex_wf by simp
qed

end
