(* ===== verification/Interleave.thy ===== *)
theory Interleave
  imports System
begin

section \<open>Handlers that overlap (internal/grpcsvc)\<close>

text \<open>
  A handler reads, decides, and then writes, without a transaction around it, and gRPC runs handlers in
  parallel. Here the handlers that decide by what they read are cut in two at their first write: what
  they look up, and what they do with it, in a database that may have changed. A handler alone is the
  two parts in a row; \<open>overlap\<close> is the schedule in which the second handler looks before the first one
  writes.
\<close>

definition phased ::
  "(db \<Rightarrow> 'x rpc) \<Rightarrow> ('x \<Rightarrow> 'r world \<Rightarrow> 'a rpc \<times> 'r world) \<Rightarrow> 'r world \<Rightarrow> 'a rpc \<times> 'r world" where
  "phased look act w = (case look (wdb w) of Inl st \<Rightarrow> (Inl st, w) | Inr x \<Rightarrow> act x w)"

definition overlap ::
  "('r world \<Rightarrow> 'a rpc \<times> 'r world) \<Rightarrow>
   (db \<Rightarrow> 'x rpc) \<Rightarrow> ('x \<Rightarrow> 'r world \<Rightarrow> 'b rpc \<times> 'r world) \<Rightarrow>
   'r world \<Rightarrow> 'a rpc \<times> 'b rpc \<times> 'r world" where
  "overlap h1 look2 act2 w =
     (case h1 w of
        (r1, w1) \<Rightarrow>
          (case look2 (wdb w) of
             Inl st \<Rightarrow> (r1, Inl st, w1)
           | Inr y \<Rightarrow> (case act2 y w1 of (r2, w2) \<Rightarrow> (r1, r2, w2))))"

text \<open>When what the second one saw still holds, overlapping is doing one after the other.\<close>

lemma overlap_sequential:
  assumes "h1 w = (r1, w1)" "look2 (wdb w1) = look2 (wdb w)"
  shows "overlap h1 look2 act2 w = (let (r2, w2) = phased look2 act2 w1 in (r1, r2, w2))"
  using assms by (auto simp: overlap_def phased_def split: sum.splits prod.splits)

subsection \<open>The handlers in two parts\<close>

definition create_service_look ::
  "env \<Rightarrow> string \<Rightarrow> string \<Rightarrow> service_pb option \<Rightarrow> ctx \<Rightarrow> db \<Rightarrow>
     (project_row \<times> site_row \<times> service_pb \<times> port) rpc" where
  "create_service_look e parent service_id body cx d =
     (case resolve_site_from_parent e cx parent d of
        Inl st \<Rightarrow> Inl st
      | Inr (p, site) \<Rightarrow>
          if \<not> is_admin_ctx cx then Inl admin_required
          else
            (case body of
               None \<Rightarrow> Inl (Status InvalidArgument ''service body is required'')
             | Some pb \<Rightarrow>
                 (case validate_slug service_id of
                    Some x \<Rightarrow> Inl (Status InvalidArgument x)
                  | None \<Rightarrow>
                      if vp_target_addr pb = []
                      then Inl (Status InvalidArgument ''service.target_addr is required'')
                      else if vp_target_port pb = 0 \<or> vp_target_port pb > 65535
                      then Inl (Status InvalidArgument ''service.target_port must be 1-65535'')
                      else
                        (case allocate_relay_port e p d of
                           Inl x \<Rightarrow>
                             Inl (if x = ErrPortRangeExhausted
                                  then Status ResourceExhausted ''no relay ports available in project range''
                                  else Status Internal ''port allocation failed'')
                         | Inr q \<Rightarrow> Inr (p, site, pb, q)))))"

definition create_service_act ::
  "'r relay_iface \<Rightarrow> env \<Rightarrow> string \<Rightarrow> ctx \<Rightarrow> project_row \<times> site_row \<times> service_pb \<times> port \<Rightarrow>
     'r world \<Rightarrow> service_pb rpc \<times> 'r world" where
  "create_service_act rm e service_id cx x w =
     (case x of (p, site, pb, relay_port) \<Rightarrow>
        (case service_create e (new_service_row (ID site) service_id pb relay_port) (wdb w) of
           (Inl x, d) \<Rightarrow>
             (Inl (if is_unique_constraint_err x
                   then Status AlreadyExists ''service already exists in site''
                   else Status Internal ''create failed''), w\<lparr>wdb := d\<rparr>)
         | (Inr row, d) \<Rightarrow>
             (Inr (service_to_proto p site row),
              relay_refresh rm e (ID p)
                (audit_w e cx
                  \<lparr>ae_project_id = Some (ID p), ae_action = ''service.create'',
                   ae_target = format_service_name (pr_slug p) (si_name site) (sv_name row),
                   ae_extra =
                     [(''target'', EStr (sv_target_addr row @ '':'' @
                         format_uint (unat (sv_target_port row)))),
                      (''relay_port'', ENat (unat relay_port))]\<rparr>
                  (w\<lparr>wdb := d\<rparr>)))))"

lemma create_service_parts:
  "create_service rm e parent service_id body cx =
     phased (create_service_look e parent service_id body cx) (create_service_act rm e service_id cx)"
  by (rule ext)
    (auto simp: create_service_def phased_def create_service_look_def create_service_act_def
      split: sum.splits prod.splits option.splits)

definition create_project_look ::
  "env \<Rightarrow> string \<Rightarrow> project_pb option \<Rightarrow> ctx \<Rightarrow> db \<Rightarrow> project_pb rpc" where
  "create_project_look e project_id body cx d =
     (case cx_operator cx of
        None \<Rightarrow> Inl not_authenticated
      | Some op \<Rightarrow>
          if \<not> op_is_admin op then Inl admin_required
          else
            (case body of
               None \<Rightarrow> Inl (Status InvalidArgument ''project body is required'')
             | Some pb \<Rightarrow>
                 (case validate_slug project_id of
                    Some x \<Rightarrow> Inl (Status InvalidArgument x)
                  | None \<Rightarrow>
                      if pp_display_name pb = []
                      then Inl (Status InvalidArgument ''project.display_name is required'')
                      else if pp_relay_port_range pb = []
                      then Inl (Status InvalidArgument ''project.relay_port_range is required'')
                      else
                        (case parse_port_range (pp_relay_port_range pb) of
                           Inl _ \<Rightarrow> Inl (Status InvalidArgument ''relay_port_range: %v'')
                         | Inr (minP, maxP) \<Rightarrow>
                             (case overlaps_any e minP maxP 0 d of
                                Inl _ \<Rightarrow> Inl (Status Internal ''overlap check: %v'')
                              | Inr True \<Rightarrow>
                                  Inl (Status FailedPrecondition
                                        ''relay_port_range %q overlaps another project's range'')
                              | Inr False \<Rightarrow> Inr pb)))))"

definition create_project_act ::
  "'r relay_iface \<Rightarrow> env \<Rightarrow> string \<Rightarrow> ctx \<Rightarrow> project_pb \<Rightarrow> 'r world \<Rightarrow> project_pb rpc \<times> 'r world" where
  "create_project_act rm e project_id cx pb w =
     (case project_create e (new_project_row project_id pb) (wdb w) of
        (Inl x, d) \<Rightarrow>
          (Inl (if is_unique_constraint_err x
                then Status AlreadyExists ''project slug already exists''
                else Status Internal ''create failed''), w\<lparr>wdb := d\<rparr>)
      | (Inr row, d) \<Rightarrow>
          (Inr (project_to_proto row),
           relay_add rm e (ID row)
             (audit_w e cx
               \<lparr>ae_project_id = Some (ID row), ae_action = ''project.create'',
                ae_target = format_project_name (pr_slug row),
                ae_extra = [(''display_name'', EStr (pr_name row)),
                  (''relay_port_range'', EStr (pr_relay_port_range row))]\<rparr>
               (w\<lparr>wdb := d\<rparr>))))"

lemma create_project_parts:
  "create_project rm e project_id body cx =
     phased (create_project_look e project_id body cx) (create_project_act rm e project_id cx)"
  by (rule ext)
    (auto simp: create_project_def phased_def create_project_look_def create_project_act_def
      split: sum.splits prod.splits option.splits bool.splits)

definition delete_operator_look :: "env \<Rightarrow> string \<Rightarrow> ctx \<Rightarrow> db \<Rightarrow> operator_row rpc" where
  "delete_operator_look e name cx d =
     (case require_admin cx of
        Inl st \<Rightarrow> Inl st
      | Inr caller \<Rightarrow>
          (case parse_operator_name name of
             Inl x \<Rightarrow> Inl (Status InvalidArgument x)
           | Inr i \<Rightarrow>
               if ID caller = i
               then Inl (Status FailedPrecondition ''cannot delete your own account'')
               else
                 (case operator_find_by_id e i d of
                    Inl x \<Rightarrow>
                      Inl (if is_not_found x then Status NotFound ''operator not found''
                           else Status Internal ''lookup failed'')
                  | Inr target \<Rightarrow>
                      (case (if op_is_admin target then map_sum id Some (count_admins e d)
                             else Inr None) of
                         Inl _ \<Rightarrow> Inl (Status Internal ''count admins failed'')
                       | Inr n \<Rightarrow>
                           if (case n of None \<Rightarrow> False | Some k \<Rightarrow> k \<le> 1)
                           then Inl (Status FailedPrecondition ''cannot delete the last admin'')
                           else Inr target))))"

definition delete_operator_act ::
  "env \<Rightarrow> ctx \<Rightarrow> operator_row \<Rightarrow> 'r world \<Rightarrow> unit rpc \<times> 'r world" where
  "delete_operator_act e cx target w =
     (case operator_delete e (ID target) (wdb w) of
        (Inl _, d) \<Rightarrow> (Inl (Status Internal ''delete failed''), w\<lparr>wdb := d\<rparr>)
      | (Inr _, d) \<Rightarrow>
          (Inr (),
           audit_w e cx
             \<lparr>ae_project_id = None, ae_action = ''operator.delete'',
              ae_target = format_operator_name (ID target),
              ae_extra = [(''email'', EStr (op_email target))]\<rparr>
             (w\<lparr>wdb := d\<rparr>)))"

lemma delete_operator_parts:
  "delete_operator e name cx = phased (delete_operator_look e name cx) (delete_operator_act e cx)"
  by (rule ext)
    (auto simp: delete_operator_def phased_def delete_operator_look_def delete_operator_act_def
      split: sum.splits prod.splits option.splits)

definition update_site_look ::
  "env \<Rightarrow> site_pb option \<Rightarrow> string list option \<Rightarrow> ctx \<Rightarrow> db \<Rightarrow>
     (project_row \<times> site_row \<times> extra \<times> string) rpc" where
  "update_site_look e body update_mask cx d =
     (case body of
        None \<Rightarrow> Inl (Status InvalidArgument ''site body is required'')
      | Some pb \<Rightarrow>
          if update_mask = None \<or> update_mask = Some []
          then Inl (Status InvalidArgument ''update_mask is required'')
          else
            (case resolve_site e cx (site_pb.sp_name pb) d of
               Inl st \<Rightarrow> Inl st
             | Inr (p, site) \<Rightarrow>
                 if \<not> is_admin_ctx cx then Inl admin_required
                 else
                   (case site_mask_loop pb (the update_mask) site [] [] of
                      Inl st \<Rightarrow> Inl st
                    | Inr (site, changed, shown) \<Rightarrow> Inr (p, site, changed, shown))))"

definition update_site_act ::
  "'r relay_iface \<Rightarrow> env \<Rightarrow> ctx \<Rightarrow> project_row \<times> site_row \<times> extra \<times> string \<Rightarrow> 'r world \<Rightarrow>
     site_pb rpc \<times> 'r world" where
  "update_site_act rm e cx x w =
     (case x of (p, site, changed, shown) \<Rightarrow>
        (case site_update e site (wdb w) of
           (Inl _, d) \<Rightarrow> (Inl (Status Internal ''update failed''), w\<lparr>wdb := d\<rparr>)
         | (Inr _, d) \<Rightarrow>
             (let out = site_to_proto p (touch (now e) site) in
              (Inr (if shown \<noteq> [] then out\<lparr>sp_display_name := shown\<rparr> else out),
               relay_refresh rm e (ID p)
                 (audit_w e cx
                   \<lparr>ae_project_id = Some (ID p), ae_action = ''site.update'',
                    ae_target = format_site_name (pr_slug p) (si_name site),
                    ae_extra = changed\<rparr> (w\<lparr>wdb := d\<rparr>))))))"

lemma update_site_parts:
  "update_site rm e body mk cx = phased (update_site_look e body mk cx) (update_site_act rm e cx)"
  by (rule ext)
    (auto simp: update_site_def phased_def update_site_look_def update_site_act_def Let_def
      split: sum.splits prod.splits option.splits)

subsection \<open>Two services on one relay port\<close>

lemma create_service_act_Inr:
  assumes "service_create e (new_service_row (ID site) i pb q) (wdb w) = (Inr row, d)"
  shows "create_service_act rm e i cx (p, site, pb, q) w =
      (Inr (service_to_proto p site row), snd (create_service_act rm e i cx (p, site, pb, q) w)) \<and>
    t_services (wdb (snd (create_service_act rm e i cx (p, site, pb, q) w))) = t_services d \<and>
    t_sites (wdb (snd (create_service_act rm e i cx (p, site, pb, q) w))) = t_sites d"
  using assms by (simp add: create_service_act_def audited_frame)

text \<open>What a look that went through and the handler that went on from it found.\<close>

lemma create_service_looked:
  assumes "fst (create_service rm e parent i body cx w) = Inr out"
    and "resolve_site_from_parent e cx parent (wdb w) = Inr (p, site)"
  shows "\<exists>pb q. create_service_look e parent i body cx (wdb w) = Inr (p, site, pb, q) \<and>
    allocate_relay_port e p (wdb w) = Inr q \<and>
    (\<exists>row d. service_create e (new_service_row (ID site) i pb q) (wdb w) = (Inr row, d))"
proof (cases "create_service_look e parent i body cx (wdb w)")
  case (Inl st)
  then show ?thesis using assms(1) unfolding create_service_parts phased_def by simp
next
  case (Inr x)
  then obtain pb q where x: "x = (p, site, pb, q)" "allocate_relay_port e p (wdb w) = Inr q"
    using assms(2) unfolding create_service_look_def
    by (auto split: sum.splits option.splits if_splits)
  have "\<exists>row d. service_create e (new_service_row (ID site) i pb q) (wdb w) = (Inr row, d)"
    using assms(1) Inr x(1) unfolding create_service_parts phased_def create_service_act_def
    by (auto split: sum.splits prod.splits)
  then show ?thesis using Inr x by blast
qed

lemma allocate_relay_port_same:
  "allocate_relay_port e1 p d = Inr q1 \<Longrightarrow> allocate_relay_port e2 p d = Inr q2 \<Longrightarrow> q1 = q2"
  by (auto simp: allocate_relay_port_def split: sum.splits if_splits option.splits)

text \<open>
  C34. Two CreateService calls can get the same relay port: when the second one looks before the first
  one writes, each being one that would succeed alone, both succeed, and two live services of the
  project hold one port. The allocator reads the ports in use and the insert does not look again; no
  unique index is on the column.
\<close>
theorem overlapping_creates_share_port:
  assumes "fst (create_service rm e1 parent1 i1 body1 cx1 w) = Inr out1"
    and "fst (create_service rm e2 parent2 i2 body2 cx2 w) = Inr out2"
    and "resolve_site_from_parent e1 cx1 parent1 (wdb w) = Inr (p, s1)"
    and "resolve_site_from_parent e2 cx2 parent2 (wdb w) = Inr (p, s2)"
    and "(ID s1, i1) \<noteq> (ID s2, i2)"
  shows "\<exists>o1 o2 w' v1 v2 q.
    overlap (create_service rm e1 parent1 i1 body1 cx1)
      (create_service_look e2 parent2 i2 body2 cx2) (create_service_act rm e2 i2 cx2) w =
      (Inr o1, Inr o2, w') \<and>
    holds_port (wdb w') (ID p) v1 q \<and> holds_port (wdb w') (ID p) v2 q \<and> v1 \<noteq> v2 \<and> \<not> ports_ok (wdb w')"
proof -
  obtain pb1 q row1 d1 where a: "create_service_look e1 parent1 i1 body1 cx1 (wdb w) = Inr (p, s1, pb1, q)"
    "allocate_relay_port e1 p (wdb w) = Inr q"
    "service_create e1 (new_service_row (ID s1) i1 pb1 q) (wdb w) = (Inr row1, d1)"
    using create_service_looked [OF assms(1,3)] by blast
  obtain pb2 q2 row2 d2 where b: "create_service_look e2 parent2 i2 body2 cx2 (wdb w) = Inr (p, s2, pb2, q2)"
    "allocate_relay_port e2 p (wdb w) = Inr q2"
    "service_create e2 (new_service_row (ID s2) i2 pb2 q2) (wdb w) = (Inr row2, d2)"
    using create_service_looked [OF assms(2,4)] by blast
  have q: "q2 = q" using allocate_relay_port_same [OF b(2) a(2)] .
  define w1 where "w1 = snd (create_service_act rm e1 i1 cx1 (p, s1, pb1, q) w)"
  note eff1 = service_create_effect [OF a(3)]
  have w1: "create_service rm e1 parent1 i1 body1 cx1 w = (Inr (service_to_proto p s1 row1), w1)"
    "rows (t_services (wdb w1)) = rows (t_services (wdb w)) @ [row1]"
    "seq (t_services (wdb w1)) = Suc (seq (t_services (wdb w)))" "t_sites (wdb w1) = t_sites (wdb w)"
    using create_service_act_Inr [OF a(3), of rm cx1 p] a(1) eff1
    unfolding create_service_parts phased_def w1_def by (simp_all, metis db.select_convs(5) db.surjective db.update_convs(7))
  have "\<exists>row d. service_create e2 (new_service_row (ID s2) i2 pb2 q) (wdb w1) = (Inr row, d)"
    using b(3) w1(2) eff1 assms(5) q
    by (auto simp: service_create_def Let_def conflicts_def new_service_row_def tbl_append_def split: if_splits)
  then obtain row d where c: "service_create e2 (new_service_row (ID s2) i2 pb2 q) (wdb w1) = (Inr row, d)"
    by blast
  define w2 where "w2 = snd (create_service_act rm e2 i2 cx2 (p, s2, pb2, q) w1)"
  note eff2 = service_create_effect [OF c]
  have w2: "create_service_act rm e2 i2 cx2 (p, s2, pb2, q) w1 = (Inr (service_to_proto p s2 row), w2)"
    "rows (t_services (wdb w2)) = rows (t_services (wdb w)) @ [row1, row]" "t_sites (wdb w2) = t_sites (wdb w)"
    using create_service_act_Inr [OF c, of rm cx2 p] eff2 w1(2,4)
    unfolding w2_def by (simp_all, metis db.select_convs(5) db.surjective db.update_convs(7))
  have "overlap (create_service rm e1 parent1 i1 body1 cx1)
      (create_service_look e2 parent2 i2 body2 cx2) (create_service_act rm e2 i2 cx2) w =
      (Inr (service_to_proto p s1 row1), Inr (service_to_proto p s2 row), w2)"
    using w1(1) b(1) w2(1) q by (simp add: overlap_def)
  moreover have h: "holds_port (wdb w2) (ID p) row1 q" "holds_port (wdb w2) (ID p) row q"
    using resolve_site_from_parent_Inr [OF assms(3)] resolve_site_from_parent_Inr [OF assms(4)] eff1 eff2 w2(2,3)
    by (auto simp: holds_port_def new_service_row_def)
  moreover have "ID row1 \<noteq> ID row" using eff1 eff2 w1(3) by simp
  moreover from this have "\<not> ports_ok (wdb w2)" using h unfolding ports_ok_def by blast
  ultimately show ?thesis by metis
qed

subsection \<open>Two projects on one range\<close>

lemma create_project_looked:
  assumes "fst (create_project rm e i body cx w) = Inr out"
  shows "\<exists>pb. body = Some pb \<and> create_project_look e i body cx (wdb w) = Inr pb \<and>
    (\<exists>row d. project_create e (new_project_row i pb) (wdb w) = (Inr row, d))"
proof (cases "create_project_look e i body cx (wdb w)")
  case (Inl st)
  then show ?thesis using assms(1) unfolding create_project_parts phased_def by simp
next
  case (Inr pb)
  then have "body = Some pb"
    unfolding create_project_look_def by (auto split: sum.splits option.splits if_splits bool.splits)
  moreover have "\<exists>row d. project_create e (new_project_row i pb) (wdb w) = (Inr row, d)"
    using assms(1) Inr unfolding create_project_parts phased_def create_project_act_def
    by (auto split: sum.splits prod.splits)
  ultimately show ?thesis using Inr by blast
qed

lemma create_project_act_Inr:
  assumes "project_create e (new_project_row i pb) (wdb w) = (Inr row, d)"
  shows "create_project_act rm e i cx pb w =
      (Inr (project_to_proto row), snd (create_project_act rm e i cx pb w)) \<and>
    t_projects (wdb (snd (create_project_act rm e i cx pb w))) = t_projects d"
  using assms by (simp add: create_project_act_def audited_frame)

text \<open>
  Two CreateProject calls can get overlapping port ranges: when the second one checks for an overlap
  before the first one inserts, each being one that would succeed alone, both succeed, and the two
  live projects have whatever ranges they asked for, overlapping or equal.
\<close>
theorem overlapping_creates_share_range:
  assumes "fst (create_project rm e1 i1 (Some pb1) cx1 w) = Inr out1"
    and "fst (create_project rm e2 i2 (Some pb2) cx2 w) = Inr out2" and "i1 \<noteq> i2"
  shows "\<exists>o1 o2 w' p q.
    overlap (create_project rm e1 i1 (Some pb1) cx1)
      (create_project_look e2 i2 (Some pb2) cx2) (create_project_act rm e2 i2 cx2) w = (Inr o1, Inr o2, w') \<and>
    p \<in> set (rows (t_projects (wdb w'))) \<and> q \<in> set (rows (t_projects (wdb w'))) \<and> live p \<and> live q \<and>
    ID p \<noteq> ID q \<and> pr_relay_port_range p = pp_relay_port_range pb1 \<and>
    pr_relay_port_range q = pp_relay_port_range pb2"
proof -
  obtain r1 d1 where a: "create_project_look e1 i1 (Some pb1) cx1 (wdb w) = Inr pb1"
    "project_create e1 (new_project_row i1 pb1) (wdb w) = (Inr r1, d1)"
    using create_project_looked [OF assms(1)] by auto
  obtain r2 d2 where b: "create_project_look e2 i2 (Some pb2) cx2 (wdb w) = Inr pb2"
    "project_create e2 (new_project_row i2 pb2) (wdb w) = (Inr r2, d2)"
    using create_project_looked [OF assms(2)] by auto
  define w1 where "w1 = snd (create_project_act rm e1 i1 cx1 pb1 w)"
  note eff1 = project_create_effect [OF a(2)]
  have w1: "create_project rm e1 i1 (Some pb1) cx1 w = (Inr (project_to_proto r1), w1)"
    "rows (t_projects (wdb w1)) = rows (t_projects (wdb w)) @ [r1]"
    "seq (t_projects (wdb w1)) = Suc (seq (t_projects (wdb w)))"
    using create_project_act_Inr [OF a(2), of rm cx1] a(1) eff1
    unfolding create_project_parts phased_def w1_def by simp_all
  have "\<exists>row d. project_create e2 (new_project_row i2 pb2) (wdb w1) = (Inr row, d)"
    using b(2) w1(2) eff1 assms(3)
    by (auto simp: project_create_def Let_def conflicts_def new_project_row_def tbl_append_def split: if_splits)
  then obtain row d where c: "project_create e2 (new_project_row i2 pb2) (wdb w1) = (Inr row, d)" by blast
  define w2 where "w2 = snd (create_project_act rm e2 i2 cx2 pb2 w1)"
  note eff2 = project_create_effect [OF c]
  have w2: "create_project_act rm e2 i2 cx2 pb2 w1 = (Inr (project_to_proto row), w2)"
    "rows (t_projects (wdb w2)) = rows (t_projects (wdb w)) @ [r1, row]"
    using create_project_act_Inr [OF c, of rm cx2] eff2 w1(2) unfolding w2_def by simp_all
  have "overlap (create_project rm e1 i1 (Some pb1) cx1)
      (create_project_look e2 i2 (Some pb2) cx2) (create_project_act rm e2 i2 cx2) w =
      (Inr (project_to_proto r1), Inr (project_to_proto row), w2)"
    using w1(1) b(1) w2(1) by (simp add: overlap_def)
  moreover have "r1 \<in> set (rows (t_projects (wdb w2)))" "row \<in> set (rows (t_projects (wdb w2)))"
    using w2(2) by simp_all
  moreover have "ID r1 \<noteq> ID row" "live r1" "live row"
    "pr_relay_port_range r1 = pp_relay_port_range pb1" "pr_relay_port_range row = pp_relay_port_range pb2"
    using eff1 eff2 w1(3) by (simp_all add: new_project_row_def)
  ultimately show ?thesis by blast
qed

subsection \<open>Two administrators\<close>

lemma delete_operator_looked:
  assumes "fst (delete_operator e name cx w) = Inr u" "parse_operator_name name = Inr i"
  shows "\<exists>op. delete_operator_look e name cx (wdb w) = Inr op \<and> ID op = i \<and> \<not> fault e ''dao: delete operator''"
proof (cases "delete_operator_look e name cx (wdb w)")
  case (Inl st)
  then show ?thesis using assms(1) unfolding delete_operator_parts phased_def by simp
next
  case (Inr op)
  then have "ID op = i" using assms(2) unfolding delete_operator_look_def
    by (auto split: sum.splits option.splits if_splits dest!: operator_find_by_id_Inr)
  moreover have "\<not> fault e ''dao: delete operator''"
    using assms(1) Inr unfolding delete_operator_parts phased_def delete_operator_act_def
    by (auto simp: operator_delete_def)
  ultimately show ?thesis using Inr by blast
qed

lemma delete_operator_act_ok:
  assumes "\<not> fault e ''dao: delete operator''"
  shows "\<exists>w'. delete_operator_act e cx op w = (Inr (), w') \<and>
    t_operators (wdb w') = delete_live (now e) (\<lambda>x. ID x = ID op) (t_operators (wdb w))"
  using assms by (simp add: delete_operator_act_def operator_delete_def audited_frame)

lemma delete_live_live: "x \<in> set (rows (delete_live t P tb)) \<Longrightarrow> live x \<Longrightarrow> x \<in> set (rows tb) \<and> \<not> P x"
  unfolding delete_live_simps by (auto simp: live_def split: if_splits)

lemma delete_live_ids: "ID ` set (rows (delete_live t P tb)) = ID ` set (rows tb)"
proof -
  have "map ID (rows (delete_live t P tb)) = map ID (rows tb)"
    unfolding delete_live_simps by (rule map_ID_update) simp
  then show ?thesis by (metis list.set_map)
qed

text \<open>
  C35. The check for the last administrator does not hold against two administrators who delete each
  other at once: when there are no others and the second call counts before the first one deletes,
  both succeed and no administrator is left.
\<close>
theorem overlapping_deletes_leave_no_admin:
  assumes "fst (delete_operator e1 n1 cx1 w) = Inr u1" and "parse_operator_name n1 = Inr b"
    and "fst (delete_operator e2 n2 cx2 w) = Inr u2" and "parse_operator_name n2 = Inr a"
    and "\<forall>op\<in>set (rows (t_operators (wdb w))). live op \<and> op_is_admin op \<longrightarrow> ID op = a \<or> ID op = b"
  shows "\<exists>w'. overlap (delete_operator e1 n1 cx1) (delete_operator_look e2 n2 cx2)
      (delete_operator_act e2 cx2) w = (Inr (), Inr (), w') \<and> \<not> admins_ok (wdb w')"
proof -
  obtain x where x: "delete_operator_look e1 n1 cx1 (wdb w) = Inr x" "ID x = b" "\<not> fault e1 ''dao: delete operator''"
    using delete_operator_looked [OF assms(1,2)] by blast
  obtain y where y: "delete_operator_look e2 n2 cx2 (wdb w) = Inr y" "ID y = a" "\<not> fault e2 ''dao: delete operator''"
    using delete_operator_looked [OF assms(3,4)] by blast
  obtain w1 where w1: "delete_operator_act e1 cx1 x w = (Inr (), w1)"
    "t_operators (wdb w1) = delete_live (now e1) (\<lambda>x. ID x = b) (t_operators (wdb w))"
    using delete_operator_act_ok [OF x(3)] x(2) by metis
  obtain w2 where w2: "delete_operator_act e2 cx2 y w1 = (Inr (), w2)"
    "t_operators (wdb w2) = delete_live (now e2) (\<lambda>x. ID x = a) (t_operators (wdb w1))"
    using delete_operator_act_ok [OF y(3)] y(2) by metis
  have "delete_operator e1 n1 cx1 w = (Inr (), w1)"
    using x(1) w1(1) unfolding delete_operator_parts phased_def by simp
  then have "overlap (delete_operator e1 n1 cx1) (delete_operator_look e2 n2 cx2)
      (delete_operator_act e2 cx2) w = (Inr (), Inr (), w2)"
    using y(1) w2(1) by (simp add: overlap_def)
  moreover have "\<not> admins_ok (wdb w2)"
    using assms(5) delete_live_live unfolding admins_ok_def w2(2) w1(2) by blast
  ultimately show ?thesis by blast
qed

subsection \<open>An update after a deletion\<close>

text \<open>
  C36. UpdateSite can undo DeleteSite: when it has read the site before the deletion and saves it after,
  both calls succeed and the site is live again, for Save writes the row as it was read and falls back
  to an upsert when no live row matches.
\<close>
theorem overlapping_update_revives_site:
  assumes "db_wf (wdb w)" and "delete_site rm e1 name force cx1 w = (Inr (), w1)"
    and "resolve_site e1 cx1 name (wdb w) = Inr (p, s)"
    and "fst (update_site rm e2 body mk cx2 w) = Inr out"
    and "update_site_look e2 body mk cx2 (wdb w) = Inr (p, s', changed, shown)" and "ID s' = ID s"
  shows "(\<forall>x\<in>set (rows (t_sites (wdb w1))). ID x = ID s \<longrightarrow> \<not> live x) \<and>
    (\<exists>out' w'. overlap (delete_site rm e1 name force cx1) (update_site_look e2 body mk cx2)
      (update_site_act rm e2 cx2) w = (Inr (), Inr out', w') \<and>
      (\<exists>x\<in>set (rows (t_sites (wdb w'))). ID x = ID s \<and> live x))"
proof -
  have w1: "t_sites (wdb w1) = delete_live (now e1) (\<lambda>x. ID x = ID s) (t_sites (wdb w))"
    using assms(2,3) unfolding delete_site_def
    by (auto simp: site_delete_def audited_frame split: sum.splits if_splits)
  obtain s0 where s0: "s0 \<in> set (rows (t_sites (wdb w)))" "live s0" "ID s' = ID s0" "live s'"
    "si_project_id s' = si_project_id s0" "si_name s' = si_name s0"
    using assms(5) unfolding update_site_look_def
    by (auto split: option.splits if_splits sum.splits dest!: resolve_site_Inr site_mask_loop_Inr)
  have "\<exists>d. site_update e2 s' (wdb w) = (Inr (), d)"
    using assms(4,5) unfolding update_site_parts phased_def update_site_act_def
    by (auto split: sum.splits prod.splits)
  then have "\<exists>d. site_update e2 s' (wdb w1) = (Inr (), d)"
    unfolding site_update_def conflicts_def w1 by (fastforce split: if_splits dest: delete_live_live)
  then obtain d where d: "site_update e2 s' (wdb w1) = (Inr (), d)" by blast
  have ids: "\<exists>x\<in>set (rows (t_sites (wdb w1))). ID x = ID (touch (now e2) s')"
  proof -
    have "ID s0 \<in> ID ` set (rows (t_sites (wdb w1)))" using s0(1) unfolding w1 delete_live_ids by (rule imageI)
    then show ?thesis using s0(3) by auto
  qed
  obtain out' w2 where w2: "update_site_act rm e2 cx2 (p, s', changed, shown) w1 = (Inr out', w2)"
    "t_sites (wdb w2) = t_sites d"
    using d by (auto simp: update_site_act_def Let_def audited_frame)
  have "t_sites d = tbl_save (touch (now e2) s') (t_sites (wdb w1))"
    using site_update_effect [OF d] by simp
  then have "touch (now e2) s' \<in> set (rows (t_sites (wdb w2)))"
    using tbl_save_rows(1) [OF ids] ids w2(2) by (auto simp: image_iff)
  moreover have "live (touch (now e2) s')" "ID (touch (now e2) s') = ID s" using s0(4) assms(6) by simp_all
  moreover have "overlap (delete_site rm e1 name force cx1) (update_site_look e2 body mk cx2)
      (update_site_act rm e2 cx2) w = (Inr (), Inr out', w2)"
    using assms(2,5) w2(1) by (simp add: overlap_def)
  moreover have "\<forall>x\<in>set (rows (t_sites (wdb w1))). ID x = ID s \<longrightarrow> \<not> live x"
    using delete_live_live unfolding w1 by blast
  ultimately show ?thesis by blast
qed

subsection \<open>On the example\<close>

definition ex_cx :: "operator_row \<Rightarrow> ctx" where
  "ex_cx op = (raw_ctx None)\<lparr>cx_operator := Some op\<rparr>"

lemma ex_cx_simps [simp]:
  "cx_operator (ex_cx op) = Some op" "is_admin_ctx (ex_cx op) = op_is_admin op"
  "require_admin (ex_cx op) = (if op_is_admin op then Inr op else Inl admin_required)"
  by (simp_all add: ex_cx_def is_admin_ctx_def require_admin_def)

definition ex_service_body :: service_pb where
  "ex_service_body = \<lparr>vp_name = [], vp_service_id = [], vp_display_name = [], vp_target_addr = ''h'',
     vp_target_port = 80, vp_proto = PROTO_UNSPECIFIED, vp_relay_port = 0, vp_create_time = 0, vp_update_time = 0\<rparr>"

lemma ex_site_parent:
  "resolve_site_from_parent ex_env (ex_cx ex_admin) ''projects/acme/sites/hq'' ex_db = Inr (ex_project, ex_site)"
proof -
  have "parse_site_parent ''projects/acme/sites/hq'' = Inr \<lparr>sn_project = ''acme'', sn_site = ''hq''\<rparr>"
    by code_simp
  then show ?thesis
    by (simp add: resolve_site_from_parent_def project_find_by_slug_def site_find_by_name_def first_live_def)
qed

lemma ex_create_service:
  assumes "validate_slug i = None" "i \<noteq> ''ssh''"
  shows "\<exists>out. fst (create_service noop_relay ex_env ''projects/acme/sites/hq'' i (Some ex_service_body)
    (ex_cx ex_admin) ex_world) = Inr out"
proof -
  have "used_relay_ports 1 ex_db = [7001]"
    by (simp add: used_relay_ports_def select_live_def)
  then have "\<exists>q. allocate_relay_port ex_env ex_project ex_db = Inr q"
    by (simp add: allocate_relay_port_def alloc_loop.simps)
  then show ?thesis
    using assms by (auto simp: create_service_def ex_site_parent ex_service_body_def service_create_def
        Let_def conflicts_def new_service_row_def split: prod.splits)
qed

theorem overlapping_creates_share_port_witness:
  "\<exists>o1 o2 w'. overlap
      (create_service noop_relay ex_env ''projects/acme/sites/hq'' ''web'' (Some ex_service_body) (ex_cx ex_admin))
      (create_service_look ex_env ''projects/acme/sites/hq'' ''db'' (Some ex_service_body) (ex_cx ex_admin))
      (create_service_act noop_relay ex_env ''db'' (ex_cx ex_admin)) ex_world = (Inr o1, Inr o2, w') \<and>
    \<not> ports_ok (wdb w')"
proof -
  have "validate_slug ''web'' = None" "validate_slug ''db'' = None" by code_simp+
  then obtain o1 o2 where
    "fst (create_service noop_relay ex_env ''projects/acme/sites/hq'' ''web'' (Some ex_service_body)
      (ex_cx ex_admin) ex_world) = Inr o1"
    "fst (create_service noop_relay ex_env ''projects/acme/sites/hq'' ''db'' (Some ex_service_body)
      (ex_cx ex_admin) ex_world) = Inr o2"
    using ex_create_service [of "''web''"] ex_create_service [of "''db''"] by auto
  from overlapping_creates_share_port [OF this, of ex_project ex_site ex_site] show ?thesis
    using ex_site_parent by auto
qed

definition ex_project_body :: "string \<Rightarrow> project_pb" where
  "ex_project_body rng = \<lparr>pp_name = [], pp_project_id = [], pp_create_time = 0, pp_update_time = 0,
     pp_display_name = ''P'', pp_relay_port_range = rng, pp_status = PROJECT_STATUS_UNSPECIFIED,
     pp_default_mode = SITE_MODE_UNSPECIFIED, pp_backend = BACKEND_UNSPECIFIED\<rparr>"

lemma ex_create_project:
  assumes "validate_slug i = None" "i \<noteq> ''acme''" "parse_port_range r = Inr (lo, hi)" "7010 < lo"
  shows "\<exists>out. fst (create_project noop_relay ex_env i (Some (ex_project_body r)) (ex_cx ex_admin) ex_world) = Inr out"
proof -
  have "r \<noteq> []" using assms(3) by (auto simp: parse_port_range_def)
  moreover have "\<not> lo \<le> 7010" using assms(4) by (simp add: not_le)
  then have "overlaps_any ex_env lo hi 0 ex_db = Inr False"
    by (simp add: overlaps_any_def select_live_def)
  ultimately show ?thesis
    using assms by (auto simp: create_project_def ex_project_body_def project_create_def Let_def conflicts_def
        new_project_row_def split: prod.splits)
qed

definition ex_range_a :: string where "ex_range_a = format_uint 8000 @ [dash] @ format_uint 8010"
definition ex_range_b :: string where "ex_range_b = format_uint 8005 @ [dash] @ format_uint 8020"

lemma parse_ex_ranges:
  "parse_port_range ex_range_a = Inr (8000, 8010)" "parse_port_range ex_range_b = Inr (8005, 8020)"
  using parse_format_range [of 8000 8010] parse_format_range [of 8005 8020]
  by (simp_all add: ex_range_a_def ex_range_b_def)

theorem overlapping_creates_share_range_witness:
  "\<exists>o1 o2 w' p q. overlap
      (create_project noop_relay ex_env ''blue'' (Some (ex_project_body ex_range_a)) (ex_cx ex_admin))
      (create_project_look ex_env ''green'' (Some (ex_project_body ex_range_b)) (ex_cx ex_admin))
      (create_project_act noop_relay ex_env ''green'' (ex_cx ex_admin)) ex_world = (Inr o1, Inr o2, w') \<and>
    p \<in> set (rows (t_projects (wdb w'))) \<and> q \<in> set (rows (t_projects (wdb w'))) \<and> live p \<and> live q \<and>
    \<not> ranges_apart p q"
proof -
  have "validate_slug ''blue'' = None" "validate_slug ''green'' = None" by code_simp+
  moreover have r: "parse_port_range ex_range_a = Inr (8000, 8010)" "parse_port_range ex_range_b = Inr (8005, 8020)"
    by (rule parse_ex_ranges)+
  ultimately obtain o1 o2 where
    "fst (create_project noop_relay ex_env ''blue'' (Some (ex_project_body ex_range_a)) (ex_cx ex_admin) ex_world) = Inr o1"
    "fst (create_project noop_relay ex_env ''green'' (Some (ex_project_body ex_range_b)) (ex_cx ex_admin) ex_world) = Inr o2"
    using ex_create_project [of "''blue''"] ex_create_project [of "''green''"] by fastforce
  from overlapping_creates_share_range [OF this] obtain o1 o2 w' p q where
    h: "overlap (create_project noop_relay ex_env ''blue'' (Some (ex_project_body ex_range_a)) (ex_cx ex_admin))
      (create_project_look ex_env ''green'' (Some (ex_project_body ex_range_b)) (ex_cx ex_admin))
      (create_project_act noop_relay ex_env ''green'' (ex_cx ex_admin)) ex_world = (Inr o1, Inr o2, w')"
    "p \<in> set (rows (t_projects (wdb w')))" "q \<in> set (rows (t_projects (wdb w')))" "live p" "live q"
    "pr_relay_port_range p = ex_range_a" "pr_relay_port_range q = ex_range_b"
    by (auto simp: ex_project_body_def)
  have "\<not> ranges_apart p q" using h(6,7) r by (simp add: ranges_apart_def project_range_def)
  then show ?thesis using h by blast
qed

text \<open>The plain operator made an administrator.\<close>

definition ex_second :: operator_row where
  "ex_second = ex_user\<lparr>op_is_admin := True\<rparr>"

definition ex_two_admins :: "unit world" where
  "ex_two_admins = ex_world\<lparr>wdb := ex_db\<lparr>t_operators := \<lparr>rows = [ex_admin, ex_second], seq = 2\<rparr>\<rparr>\<rparr>"

lemma ex_second_simps [simp]: "ID ex_second = 2" "live ex_second" "op_is_admin ex_second"
  by (simp_all add: ex_second_def ex_user_def live_def)

lemma ex_two_admins_simps [simp]: "rows (t_operators (wdb ex_two_admins)) = [ex_admin, ex_second]"
  by (simp add: ex_two_admins_def)

theorem overlapping_deletes_leave_no_admin_witness:
  "\<exists>w'. overlap (delete_operator ex_env (format_operator_name 2) (ex_cx ex_admin))
      (delete_operator_look ex_env (format_operator_name 1) (ex_cx ex_second))
      (delete_operator_act ex_env (ex_cx ex_second)) ex_two_admins = (Inr (), Inr (), w') \<and> \<not> admins_ok (wdb w')"
proof (rule overlapping_deletes_leave_no_admin)
  have n: "parse_operator_name (format_operator_name k) = Inr k" if "k < 3" for k
    using that by (simp add: operator_name_roundtrip_aux)
  show "parse_operator_name (format_operator_name 2) = Inr 2" "parse_operator_name (format_operator_name 1) = Inr 1"
    using n by simp_all
  have "fst (delete_operator ex_env (format_operator_name i) (ex_cx op) ex_two_admins) = Inr ()"
    if "(op, i) = (ex_admin, 2) \<or> (op, i) = (ex_second, 1)" for op i
    using that n [of 1] n [of 2]
    by (auto simp: delete_operator_def operator_find_by_id_def first_live_def operator_delete_def
        count_admins_def count_live_def select_live_def)
  then show "fst (delete_operator ex_env (format_operator_name 2) (ex_cx ex_admin) ex_two_admins) = Inr ()"
    "fst (delete_operator ex_env (format_operator_name 1) (ex_cx ex_second) ex_two_admins) = Inr ()"
    by simp_all
  show "\<forall>op\<in>set (rows (t_operators (wdb ex_two_admins))). live op \<and> op_is_admin op \<longrightarrow> ID op = 1 \<or> ID op = 2"
    by simp
qed

definition ex_site_body :: site_pb where
  "ex_site_body = site_pb.sp_name_update (\<lambda>_. ''projects/acme/sites/hq'') (site_to_proto ex_project ex_site)"

theorem overlapping_update_revives_site_witness:
  "\<exists>out w'. overlap (delete_site noop_relay ex_env ''projects/acme/sites/hq'' True (ex_cx ex_admin))
      (update_site_look ex_env (Some ex_site_body) (Some [''display_name'']) (ex_cx ex_admin))
      (update_site_act noop_relay ex_env (ex_cx ex_admin)) ex_world = (Inr (), Inr out, w') \<and>
    (\<exists>x\<in>set (rows (t_sites (wdb w'))). live x)"
proof -
  have "parse_site_name ''projects/acme/sites/hq'' = Inr \<lparr>sn_project = ''acme'', sn_site = ''hq''\<rparr>"
    "parse_project_parent (''projects/'' @ ''acme'') = Inr ''acme''" by code_simp+
  then have s: "resolve_site ex_env (ex_cx ex_admin) ''projects/acme/sites/hq'' (wdb ex_world) = Inr (ex_project, ex_site)"
    by (simp add: resolve_site_def resolve_project_def project_find_by_slug_def site_find_by_name_def first_live_def)
  have b: "site_pb.sp_name ex_site_body = ''projects/acme/sites/hq''" by (simp add: ex_site_body_def)
  obtain w1 where d: "delete_site noop_relay ex_env ''projects/acme/sites/hq'' True (ex_cx ex_admin) ex_world = (Inr (), w1)"
    using s by (auto simp: delete_site_def site_delete_def)
  obtain ch sh where l: "update_site_look ex_env (Some ex_site_body) (Some [''display_name'']) (ex_cx ex_admin)
      (wdb ex_world) = Inr (ex_project, ex_site, ch, sh)"
    using s by (simp add: update_site_look_def b)
  have "\<exists>out. fst (update_site noop_relay ex_env (Some ex_site_body) (Some [''display_name'']) (ex_cx ex_admin)
      ex_world) = Inr out"
    unfolding update_site_parts phased_def l update_site_act_def
    by (simp add: site_update_def conflicts_def Let_def)
  then obtain out where u: "fst (update_site noop_relay ex_env (Some ex_site_body) (Some [''display_name''])
      (ex_cx ex_admin) ex_world) = Inr out" by blast
  from overlapping_update_revives_site [OF _ d s u l refl] show ?thesis using ex_wf by auto
qed

end
