(* ===== verification/Metrics.thy ===== *)
theory Metrics
  imports Deploy Supervisor
begin

section \<open>Metrics (internal/metrics, internal/auth/metrics_interceptor.go)\<close>

text \<open>
  The collectors as what they hold: a counter vector is a map from label values to counts, in which a
  series exists from its first use until it is deleted; a gauge vector likewise; a histogram is the list of
  what was observed. A nil receiver is \<open>None\<close>, and every method leaves it alone. Below the methods, the
  places that call them: the outermost interceptor, the sweeper, the relay manager's OnStart and
  OnExit hooks and its RemoveProject.
\<close>

type_synonym 'k counter = "'k \<Rightarrow> nat option"

definition inc :: "'k \<Rightarrow> 'k counter \<Rightarrow> 'k counter" where
  "inc k c = c(k \<mapsto> (case c k of None \<Rightarrow> 1 | Some n \<Rightarrow> Suc n))"

definition count :: "'k counter \<Rightarrow> 'k \<Rightarrow> nat" where
  "count c k = (case c k of None \<Rightarrow> 0 | Some n \<Rightarrow> n)"

lemma count_inc [simp]: "count (inc k c) j = count c j + (if j = k then 1 else 0)"
  by (simp add: count_def inc_def split: option.splits)

lemma count_empty [simp]: "count (\<lambda>_. None) k = 0"
  by (simp add: count_def)

subsection \<open>ServerMetrics\<close>

record server_metrics =
  sm_requests :: "(string \<times> string) counter"
  sm_latency :: "string \<Rightarrow> duration list"
  sm_flipped :: nat
  sm_restarts :: "string counter"
  sm_alive :: "string counter"

definition NewServer :: server_metrics where
  "NewServer = \<lparr>sm_requests = (\<lambda>_. None), sm_latency = (\<lambda>_. []), sm_flipped = 0,
     sm_restarts = (\<lambda>_. None), sm_alive = (\<lambda>_. None)\<rparr>"

definition ObserveRequest ::
  "string \<Rightarrow> string \<Rightarrow> duration \<Rightarrow> server_metrics option \<Rightarrow> server_metrics option" where
  "ObserveRequest full_method cd latency m =
     (case m of
        None \<Rightarrow> None
      | Some m \<Rightarrow>
          Some (m\<lparr>sm_requests := inc (full_method, cd) (sm_requests m),
                  sm_latency := (sm_latency m)(full_method := sm_latency m full_method @ [latency])\<rparr>))"

definition IncSweeperFlipped :: "int \<Rightarrow> server_metrics option \<Rightarrow> server_metrics option" where
  "IncSweeperFlipped n m =
     (case m of
        None \<Rightarrow> None
      | Some m \<Rightarrow> if n \<le> 0 then Some m else Some (m\<lparr>sm_flipped := sm_flipped m + nat n\<rparr>))"

definition IncSupervisorRestarts :: "string \<Rightarrow> server_metrics option \<Rightarrow> server_metrics option" where
  "IncSupervisorRestarts project_id m =
     (case m of None \<Rightarrow> None | Some m \<Rightarrow> Some (m\<lparr>sm_restarts := inc project_id (sm_restarts m)\<rparr>))"

definition SetSupervisorAlive :: "string \<Rightarrow> bool \<Rightarrow> server_metrics option \<Rightarrow> server_metrics option" where
  "SetSupervisorAlive project_id alive m =
     (case m of
        None \<Rightarrow> None
      | Some m \<Rightarrow> Some (m\<lparr>sm_alive := (sm_alive m)(project_id \<mapsto> (if alive then 1 else 0))\<rparr>))"

definition DeleteSupervisor :: "string \<Rightarrow> server_metrics option \<Rightarrow> server_metrics option" where
  "DeleteSupervisor project_id m =
     (case m of
        None \<Rightarrow> None
      | Some m \<Rightarrow>
          Some (m\<lparr>sm_alive := (sm_alive m)(project_id := None),
                  sm_restarts := (sm_restarts m)(project_id := None)\<rparr>))"

subsection \<open>Who calls them\<close>

text \<open>status.Code(err).String().\<close>

fun result_code :: "'a rpc \<Rightarrow> string" where
  "result_code (Inl st) = code_string (st_code st)"
| "result_code (Inr x) = ''OK''"

text \<open>The interceptor around the rest of the chain; \<open>latency\<close> is what the clock measured.\<close>

definition MetricsInterceptor ::
  "string \<Rightarrow> duration \<Rightarrow> ('w \<Rightarrow> 'a rpc \<times> 'w) \<Rightarrow> server_metrics option \<times> 'w \<Rightarrow>
     'a rpc \<times> server_metrics option \<times> 'w" where
  "MetricsInterceptor full_method latency handler mw =
     (case mw of (m, w) \<Rightarrow>
        (case handler w of
           (res, w) \<Rightarrow> (res, ObserveRequest full_method (result_code res) latency m, w)))"

text \<open>A tick of the sweeper with its counter.\<close>

definition metered_tick ::
  "sweeper_config \<Rightarrow> env \<Rightarrow> db \<Rightarrow> server_metrics option \<Rightarrow> db \<times> server_metrics option" where
  "metered_tick cfg e d m =
     (case mark_stale_offline e (now e - sw_offline_after cfg) d of
        (Inl _, d) \<Rightarrow> (d, m)
      | (Inr n, d) \<Rightarrow> (d, if n > 0 then IncSweeperFlipped (int n) m else m))"

text \<open>The hooks spawn gives a supervisor, and the last statement of RemoveProject.\<close>

datatype sup_event = Act string sup_action | Removed string

fun observe_sup :: "sup_event \<Rightarrow> server_metrics option \<Rightarrow> server_metrics option" where
  "observe_sup (Act pid OnStart) m = SetSupervisorAlive pid True m"
| "observe_sup (Act pid (OnExit t err)) m = SetSupervisorAlive pid False (IncSupervisorRestarts pid m)"
| "observe_sup (Act pid (Waiting b)) m = m"
| "observe_sup (Act pid Returned) m = m"
| "observe_sup (Removed pid) m = DeleteSupervisor pid m"

fun observe_all :: "sup_event list \<Rightarrow> server_metrics option \<Rightarrow> server_metrics option" where
  "observe_all [] m = m"
| "observe_all (ev # evs) m = observe_all evs (observe_sup ev m)"

lemma observe_all_append: "observe_all (xs @ ys) m = observe_all ys (observe_all xs m)"
  by (induction xs arbitrary: m) simp_all

lemma observe_nil [simp]: "observe_sup ev None = None"
  by (cases "(ev, None :: server_metrics option)" rule: observe_sup.cases) (simp_all add: SetSupervisorAlive_def IncSupervisorRestarts_def DeleteSupervisor_def)

subsection \<open>AgentMetrics and AuthProxyMetrics\<close>

record agent_metrics =
  am_bootstrap :: "string counter"
  am_heartbeat :: "string counter"
  am_alive :: bool

definition NewAgent :: agent_metrics where
  "NewAgent = \<lparr>am_bootstrap = (\<lambda>_. None), am_heartbeat = (\<lambda>_. None), am_alive = False\<rparr>"

definition ObserveBootstrap :: "string \<Rightarrow> agent_metrics option \<Rightarrow> agent_metrics option" where
  "ObserveBootstrap result m =
     (case m of None \<Rightarrow> None | Some m \<Rightarrow> Some (m\<lparr>am_bootstrap := inc result (am_bootstrap m)\<rparr>))"

definition ObserveHeartbeat :: "string \<Rightarrow> agent_metrics option \<Rightarrow> agent_metrics option" where
  "ObserveHeartbeat result m =
     (case m of None \<Rightarrow> None | Some m \<Rightarrow> Some (m\<lparr>am_heartbeat := inc result (am_heartbeat m)\<rparr>))"

definition agent_SetSupervisorAlive :: "bool \<Rightarrow> agent_metrics option \<Rightarrow> agent_metrics option" where
  "agent_SetSupervisorAlive alive m =
     (case m of None \<Rightarrow> None | Some m \<Rightarrow> Some (m\<lparr>am_alive := alive\<rparr>))"

record proxy_metrics =
  pm_connects :: "string counter"
  pm_latency :: "string \<Rightarrow> duration list"

definition NewAuthProxy :: proxy_metrics where
  "NewAuthProxy = \<lparr>pm_connects = (\<lambda>_. None), pm_latency = (\<lambda>_. [])\<rparr>"

definition ObserveConnect :: "string \<Rightarrow> duration \<Rightarrow> proxy_metrics option \<Rightarrow> proxy_metrics option" where
  "ObserveConnect st latency m =
     (case m of
        None \<Rightarrow> None
      | Some m \<Rightarrow>
          Some (m\<lparr>pm_connects := inc st (pm_connects m),
                  pm_latency := (pm_latency m)(st := pm_latency m st @ [latency])\<rparr>))"

subsection \<open>Requests are counted, and only counted\<close>

text \<open>Calls off the wire, each with its environment and the latency measured, through the whole chain.\<close>

record wire_call =
  wc_env :: env
  wc_peer :: "string option"
  wc_md :: "metadata option"
  wc_request :: request
  wc_latency :: duration

definition serve_call ::
  "server_config \<Rightarrow> 'r relay_iface \<Rightarrow> wire_call \<Rightarrow> 'r world \<Rightarrow> response rpc \<times> 'r world" where
  "serve_call cfg rm c = serve cfg rm (wc_env c) (wc_peer c) (wc_md c) (wc_request c)"

fun serve_calls ::
  "server_config \<Rightarrow> 'r relay_iface \<Rightarrow> wire_call list \<Rightarrow> 'r world \<Rightarrow> response rpc list \<times> 'r world" where
  "serve_calls cfg rm [] w = ([], w)"
| "serve_calls cfg rm (c # cs) w =
     (let (r, w) = serve_call cfg rm c w; (rs, w) = serve_calls cfg rm cs w in (r # rs, w))"

fun metered_calls ::
  "server_config \<Rightarrow> 'r relay_iface \<Rightarrow> wire_call list \<Rightarrow> server_metrics option \<times> 'r world \<Rightarrow>
     response rpc list \<times> server_metrics option \<times> 'r world" where
  "metered_calls cfg rm [] mw = ([], mw)"
| "metered_calls cfg rm (c # cs) mw =
     (let (r, mw) = MetricsInterceptor (method_of (wc_request c)) (wc_latency c) (serve_call cfg rm c) mw;
          (rs, mw) = metered_calls cfg rm cs mw
      in (r # rs, mw))"

theorem requests_counted:
  "case serve_calls cfg rm cs w of (rs, w') \<Rightarrow>
     metered_calls cfg rm cs (None, w) = (rs, None, w') \<and>
     (\<exists>m'. metered_calls cfg rm cs (Some m, w) = (rs, Some m', w') \<and>
        (\<forall>f k. count (sm_requests m') (f, k) = count (sm_requests m) (f, k) +
           length (filter (\<lambda>(c, r). method_of (wc_request c) = f \<and> result_code r = k) (zip cs rs))) \<and>
        (\<forall>f. sm_latency m' f =
           sm_latency m f @ map wc_latency (filter (\<lambda>c. method_of (wc_request c) = f) cs)) \<and>
        sm_restarts m' = sm_restarts m \<and> sm_alive m' = sm_alive m \<and> sm_flipped m' = sm_flipped m)"
proof (induction cs arbitrary: w m)
  case (Cons c cs)
  obtain r w1 where s: "serve_call cfg rm c w = (r, w1)" by fastforce
  obtain rs w2 where ss: "serve_calls cfg rm cs w1 = (rs, w2)" by fastforce
  define m1 where "m1 = m\<lparr>sm_requests := inc (method_of (wc_request c), result_code r) (sm_requests m),
    sm_latency := (sm_latency m)(method_of (wc_request c) :=
      sm_latency m (method_of (wc_request c)) @ [wc_latency c])\<rparr>"
  from Cons [of w1 m1] ss obtain m' where ih: "metered_calls cfg rm cs (None, w1) = (rs, None, w2)"
    "metered_calls cfg rm cs (Some m1, w1) = (rs, Some m', w2)"
    "\<forall>f k. count (sm_requests m') (f, k) = count (sm_requests m1) (f, k) +
       length (filter (\<lambda>(c, r). method_of (wc_request c) = f \<and> result_code r = k) (zip cs rs))"
    "\<forall>f. sm_latency m' f =
       sm_latency m1 f @ map wc_latency (filter (\<lambda>c. method_of (wc_request c) = f) cs)"
    "sm_restarts m' = sm_restarts m1" "sm_alive m' = sm_alive m1" "sm_flipped m' = sm_flipped m1"
    by auto
  have "metered_calls cfg rm (c # cs) (None, w) = (r # rs, None, w2)"
    "metered_calls cfg rm (c # cs) (Some m, w) = (r # rs, Some m', w2)"
    using s ih(1,2) by (simp_all add: MetricsInterceptor_def ObserveRequest_def m1_def)
  then show ?case using s ss ih(3-7) by (auto simp: m1_def)
qed simp

subsection \<open>The series of a project\<close>

text \<open>What touches the gauge of a project.\<close>

fun touches :: "string \<Rightarrow> sup_event \<Rightarrow> bool" where
  "touches pid (Act q OnStart) = (q = pid)"
| "touches pid (Act q (OnExit t err)) = (q = pid)"
| "touches pid (Act q (Waiting b)) = False"
| "touches pid (Act q Returned) = False"
| "touches pid (Removed q) = (q = pid)"

fun gauge_value :: "sup_event \<Rightarrow> nat option" where
  "gauge_value (Act q OnStart) = Some 1"
| "gauge_value (Act q a) = Some 0"
| "gauge_value (Removed q) = None"

lemma observe_alive:
  "\<exists>m'. observe_sup ev (Some m) = Some m' \<and>
     sm_alive m' pid = (if touches pid ev then gauge_value ev else sm_alive m pid)"
  by (cases "(ev, Some m)" rule: observe_sup.cases)
    (auto simp: SetSupervisorAlive_def IncSupervisorRestarts_def DeleteSupervisor_def)

lemma observe_all_alive:
  "\<exists>m'. observe_all evs (Some m) = Some m' \<and>
     sm_alive m' pid =
       (if filter (touches pid) evs = [] then sm_alive m pid else gauge_value (last (filter (touches pid) evs)))"
proof (induction evs arbitrary: m)
  case (Cons ev evs)
  obtain m1 where m1: "observe_sup ev (Some m) = Some m1"
    "sm_alive m1 pid = (if touches pid ev then gauge_value ev else sm_alive m pid)"
    using observe_alive by blast
  obtain m' where "observe_all evs (Some m1) = Some m'"
    "sm_alive m' pid =
       (if filter (touches pid) evs = [] then sm_alive m1 pid else gauge_value (last (filter (touches pid) evs)))"
    using Cons by blast
  then show ?case using m1 by auto
qed simp

lemma run_loop_ends:
  "filter (touches pid) (map (Act pid) (run_loop b rs)) \<noteq> [] \<Longrightarrow>
     \<exists>t x. last (filter (touches pid) (map (Act pid) (run_loop b rs))) = Act pid (OnExit t x)"
proof (induction b rs rule: run_loop.induct)
  case (3 b r rs)
  let ?rest = "filter (touches pid) (map (Act pid) (run_loop (double_backoff (reset_backoff r b)) rs))"
  show ?case
  proof (cases "cr_cancelled r \<or> cr_cancelled_wait r \<or> ?rest = []")
    case True
    then show ?thesis by (auto simp: Let_def)
  next
    case False
    then show ?thesis using "3.IH" by (auto simp: Let_def)
  qed
qed simp_all

text \<open>
  The gauge of a project says what its last supervisor did, and a run of a supervisor leaves it at
  zero. RemoveProject deletes the series when it has cancelled the supervisor, without waiting: an exit
  that is reported after that brings both series back, alive 0 and one restart, for a project that is
  gone.
\<close>
theorem supervisor_series:
  "case observe_all evs (Some m) of
     None \<Rightarrow> False
   | Some m1 \<Rightarrow>
       (sm_alive m1 pid = (if filter (touches pid) evs = [] then sm_alive m pid
                           else gauge_value (last (filter (touches pid) evs)))) \<and>
       (case observe_all (map (Act pid) (Run (Some r # rs))) (Some m1) of
          None \<Rightarrow> False | Some m2 \<Rightarrow> sm_alive m2 pid = Some 0) \<and>
       (case observe_all [Removed pid, Act pid (OnExit t err)] (Some m1) of
          None \<Rightarrow> False | Some m2 \<Rightarrow> sm_alive m2 pid = Some 0 \<and> sm_restarts m2 pid = Some 1)"
proof -
  obtain m1 where m1: "observe_all evs (Some m) = Some m1"
    "sm_alive m1 pid =
       (if filter (touches pid) evs = [] then sm_alive m pid else gauge_value (last (filter (touches pid) evs)))"
    using observe_all_alive by blast
  let ?run = "map (Act pid) (Run (Some r # rs))"
  have "filter (touches pid) ?run \<noteq> []" by (simp add: Run_def)
  moreover from this obtain t' x where "last (filter (touches pid) ?run) = Act pid (OnExit t' x)"
    using run_loop_ends unfolding Run_def by blast
  moreover obtain m2 where m2: "observe_all ?run (Some m1) = Some m2"
    "sm_alive m2 pid =
       (if filter (touches pid) ?run = [] then sm_alive m1 pid else gauge_value (last (filter (touches pid) ?run)))"
    using observe_all_alive by blast
  ultimately have "sm_alive m2 pid = Some 0" by simp
  then show ?thesis
    using m1 m2(1) by (simp add: DeleteSupervisor_def SetSupervisorAlive_def IncSupervisorRestarts_def inc_def)
qed

end
