(* ===== verification/Frontends.thy ===== *)
theory Frontends
  imports Metrics AgentRuntime OperatorCli Router
begin

section \<open>Listeners, services and handlers around the components\<close>

text \<open>
  What stands between the processes' mains and the components: the auth proxy's Serve and the accept loop
  of \<open>quicktun forward\<close>, the commands that start the proxy and the agent, the agent as a Windows service,
  the /healthz, web UI, install script and panic handlers of the gateway, and the webhook. The network,
  the file server and the service control manager are events and arguments.
\<close>

subsection \<open>Accept loops (authproxy/server.go, cmd_forward.go)\<close>

text \<open>
  What Accept returns: a connection (with the request read from it, the environment of its handler and
  the time it took), or an error, with whether the context has ended by then.
\<close>

datatype accepted = Conn env "connect_request option" duration | AcceptFails bool

text \<open>The label of a connection: the status written, or 000 where no request could be read.\<close>

definition connect_label :: "nat \<Rightarrow> string" where
  "connect_label st = (if st > 0 then format_uint st else ''000'')"

text \<open>
  The loop: the answers in the order of the connections, the database and the metrics, and whether the
  loop returned. Handlers are taken in the order of their connections.
\<close>

fun serve_loop ::
  "accepted list \<Rightarrow> db \<times> proxy_metrics option \<Rightarrow>
     (nat \<times> string option) list \<times> (db \<times> proxy_metrics option) \<times> bool" where
  "serve_loop [] s = ([], s, False)"
| "serve_loop (Conn e req t # evs) (d, m) =
     (let (out, d) = handle e req d;
          (outs, s, returned) = serve_loop evs (d, ObserveConnect (connect_label (fst out)) t m)
      in (out # outs, s, returned))"
| "serve_loop (AcceptFails done # evs) s = (if done then ([], s, True) else serve_loop evs s)"

definition Serve ::
  "bool \<Rightarrow> accepted list \<Rightarrow> db \<times> proxy_metrics option \<Rightarrow>
     (err + bool) \<times> (nat \<times> string option) list \<times> (db \<times> proxy_metrics option)" where
  "Serve listens evs s =
     (if \<not> listens then (Inl ''authproxy: listen %s: %w'', [], s)
      else (let (outs, s, returned) = serve_loop evs s in (Inr returned, outs, s)))"

text \<open>
  Every accepted connection is answered and counted, once, under its status; a failing Accept only ends
  the loop when the context has ended; and whatever connects, the configuration stays as it is.
\<close>

fun connections :: "accepted list \<Rightarrow> nat" where
  "connections [] = 0"
| "connections (Conn e req t # evs) = Suc (connections evs)"
| "connections (AcceptFails done # evs) = (if done then 0 else connections evs)"

lemma handle_status: "fst (fst (handle e req d)) \<in> {0, 200, 401, 405, 500, 502}"
  unfolding handle_def by (auto split: option.splits prod.splits sum.splits route_error.splits)

lemma connect_label_inj:
  "a \<in> {0, 200, 401, 405, 500, 502} \<Longrightarrow> b \<in> {0, 200, 401, 405, 500, 502} \<Longrightarrow>
     connect_label a = connect_label b \<longleftrightarrow> a = b"
proof -
  have "dec_value ''000'' = 0" by (simp add: dec_value_def digit_val_def)
  then have "format_uint n \<noteq> ''000'' \<and> ''000'' \<noteq> format_uint n" if "0 < n" for n
    using that dec_value_format [of n] by (metis less_numeral_extra(3))
  moreover have "format_uint a = format_uint b \<Longrightarrow> a = b" for a b
    using format_uint_inj by blast
  moreover assume "a \<in> {0, 200, 401, 405, 500, 502}" "b \<in> {0, 200, 401, 405, 500, 502}"
  ultimately show ?thesis by (auto simp: connect_label_def)
qed

lemma served_config_same: "serve_loop evs (d, m) = (outs, (d', m'), returned) \<Longrightarrow> config_same d d'"
proof (induction evs "(d, m)" arbitrary: d m outs returned rule: serve_loop.induct)
  case (2 e req t evs d m)
  obtain out d1 where h: "handle e req d = (out, d1)" by fastforce
  show ?case
    using "2.hyps" [OF h [symmetric] refl] "2.prems" h config_same_trans [OF config_same_handle [OF h]]
    by (auto split: prod.splits)
qed (auto split: if_splits)

theorem connections_answered_and_counted:
  "case Serve True evs (d, Some m) of
     (res, outs, (d', mo)) \<Rightarrow>
       length outs = connections evs \<and> config_same d d' \<and>
       (res = Inr True \<longleftrightarrow> AcceptFails True \<in> set evs) \<and>
       (case mo of
          None \<Rightarrow> False
        | Some m' \<Rightarrow>
            list_all (\<lambda>st. count (pm_connects m') (connect_label st) = count (pm_connects m) (connect_label st) +
              length (filter (\<lambda>out. fst out = st) outs)) [0, 200, 401, 405, 500, 502])"
proof -
  have "\<exists>outs d' m' returned. serve_loop evs (d, Some m) = (outs, (d', Some m'), returned) \<and>
      length outs = connections evs \<and> config_same d d' \<and> (returned \<longleftrightarrow> AcceptFails True \<in> set evs) \<and>
      (\<forall>st\<in>{0, 200, 401, 405, 500, 502}. count (pm_connects m') (connect_label st) =
         count (pm_connects m) (connect_label st) + length (filter (\<lambda>out. fst out = st) outs))"
  proof (induction evs arbitrary: d m)
    case (Cons ev evs)
    show ?case
    proof (cases ev)
      case (Conn e req t)
      obtain out d1 where h: "handle e req d = (out, d1)" by fastforce
      let ?l = "connect_label (fst out)"
      define m1 where "m1 = m\<lparr>pm_connects := inc ?l (pm_connects m),
        pm_latency := (pm_latency m)(?l := pm_latency m ?l @ [t])\<rparr>"
      obtain outs d' m' returned where ih: "serve_loop evs (d1, Some m1) = (outs, (d', Some m'), returned)"
        "length outs = connections evs" "config_same d1 d'" "returned \<longleftrightarrow> AcceptFails True \<in> set evs"
        "\<forall>st\<in>{0, 200, 401, 405, 500, 502}. count (pm_connects m') (connect_label st) =
           count (pm_connects m1) (connect_label st) + length (filter (\<lambda>out. fst out = st) outs)"
        using Cons by blast
      have st: "fst out \<in> {0, 200, 401, 405, 500, 502}" using handle_status [of e req d] h by simp
      have "count (pm_connects m1) (connect_label st) =
          count (pm_connects m) (connect_label st) + (if fst out = st then 1 else 0)"
        if "st \<in> {0, 200, 401, 405, 500, 502}" for st
        using connect_label_inj [OF that st] by (auto simp: m1_def)
      then show ?thesis
        using Conn h ih config_same_trans [OF config_same_handle [OF h] ih(3)]
        by (simp add: ObserveConnect_def m1_def)
    qed (use Cons in \<open>auto simp: config_same_refl\<close>)
  qed (auto intro: exI [of _ False])
  then show ?thesis by (auto simp: Serve_def)
qed

subsection \<open>forward, per connection\<close>

datatype forward_end = Tunnelled | ForwardFails string

text \<open>\<open>resp\<close>: the status of the response read from the proxy, if one could be read.\<close>

definition forward_conn :: "bool \<Rightarrow> bool \<Rightarrow> nat option \<Rightarrow> forward_end" where
  "forward_conn dialled written resp =
     (if \<not> dialled then ForwardFails ''forward: dial auth-proxy %s: %v''
      else if \<not> written then ForwardFails ''forward: write CONNECT: %v''
      else
        (case resp of
           None \<Rightarrow> ForwardFails ''forward: read CONNECT response: %v''
         | Some st \<Rightarrow> if st \<noteq> 200 then ForwardFails ''forward: auth-proxy rejected (%d)'' else Tunnelled))"

text \<open>The accept loop of forward: it goes on after a failing Accept until a signal closed the listener.\<close>

datatype local_accept = Local bool bool "nat option" | LocalFails bool

fun forward_loop :: "local_accept list \<Rightarrow> forward_end list \<times> bool" where
  "forward_loop [] = ([], False)"
| "forward_loop (Local dialled written resp # evs) =
     (let (outs, returned) = forward_loop evs in (forward_conn dialled written resp # outs, returned))"
| "forward_loop (LocalFails stopped # evs) = (if stopped then ([], True) else forward_loop evs)"

subsection \<open>The proxy's command (quicktun-authproxy/cmd_run.go)\<close>

text \<open>The two HTTP listeners beside the proxy, each started when its address is not empty.\<close>

datatype side_listener = HealthListener string | MetricsListener string

definition side_listeners :: "proxy_conf \<Rightarrow> side_listener list" where
  "side_listeners cfg =
     (if ap_health_listen_addr cfg \<noteq> [] then [HealthListener (ap_health_listen_addr cfg)] else []) @
     (if ap_metrics_listen_addr cfg \<noteq> [] then [MetricsListener (ap_metrics_listen_addr cfg)] else [])"

definition proxy_newRunCmd ::
  "string \<Rightarrow> err + proxy_conf \<Rightarrow> env \<Rightarrow> bool \<Rightarrow> accepted list \<Rightarrow> db \<Rightarrow>
     (err + bool) \<times> side_listener list \<times> (nat \<times> string option) list \<times> db" where
  "proxy_newRunCmd cfg_path parsed e listens evs d =
     (if cfg_path = [] then (Inl ''--config is required'', [], [], d)
      else
        (case LoadConfig parsed of
           Inl x \<Rightarrow> (Inl x, [], [], d)
         | Inr cfg \<Rightarrow>
             if fault e ''init logger'' then (Inl ''init logger: %w'', [], [], d)
             else if fault e ''open db'' then (Inl ''open db: %w'', [], [], d)
             else
               (case Serve listens evs (d, Some NewAuthProxy) of
                  (Inl x, outs, (d, m)) \<Rightarrow> (Inl ''authproxy: %w'', side_listeners cfg, outs, d)
                | (Inr returned, outs, (d, m)) \<Rightarrow> (Inr returned, side_listeners cfg, outs, d))))"

lemma proxy_runs_with_health:
  "proxy_newRunCmd cfg_path parsed e listens evs d = (Inr returned, ls, outs, d') \<Longrightarrow>
     cfg_path \<noteq> [] \<and> (\<exists>a. HealthListener a \<in> set ls) \<and> config_same d d'"
proof -
  assume a: "proxy_newRunCmd cfg_path parsed e listens evs d = (Inr returned, ls, outs, d')"
  obtain res out2 d2 m2 where s: "Serve listens evs (d, Some NewAuthProxy) = (res, out2, (d2, m2))"
    by (metis prod.exhaust)
  have l: "listens" using a s by (auto simp: proxy_newRunCmd_def Serve_def split: if_splits sum.splits)
  obtain cfg where c: "LoadConfig parsed = Inr cfg"
    using a by (auto simp: proxy_newRunCmd_def split: if_splits sum.splits)
  then have "ap_health_listen_addr cfg \<noteq> []"
    by (auto simp: LoadConfig_def Let_def proxy_applyDefaults_def or_default_def split: sum.splits option.splits if_splits)
  moreover have "ls = side_listeners cfg" "d' = d2" "cfg_path \<noteq> []"
    using a s c by (auto simp: proxy_newRunCmd_def split: if_splits sum.splits)
  moreover have "config_same d d2"
    using served_config_same s l by (auto simp: Serve_def split: prod.splits)
  ultimately show ?thesis by (auto simp: side_listeners_def)
qed

subsection \<open>The agent's command and the agent as a Windows service (quicktun-agent)\<close>

text \<open>Close, deferred by both: the supervisor goes, and then the connection.\<close>

definition agent_Close :: "runtime \<Rightarrow> runtime" where
  "agent_Close r = stopSupervisor r"

text \<open>What the process leaves: the outcome, \<open>None\<close> when Run goes on, and the runtime, once there was one.\<close>

definition agent_newRunCmd ::
  "string \<Rightarrow> err + agent_conf \<Rightarrow> env \<Rightarrow> (string \<Rightarrow> string option) \<Rightarrow> (nat \<Rightarrow> boot_attempt) \<Rightarrow> string \<Rightarrow>
   agent_event list \<Rightarrow> (err + unit) option \<times> runtime option" where
  "agent_newRunCmd cfg_path parsed e files boots local evs =
     (if cfg_path = [] then (Some (Inl ''--config is required''), None)
      else
        (case Load parsed of
           Inl x \<Rightarrow> (Some (Inl x), None)
         | Inr cfg \<Rightarrow>
             if fault e ''init logger'' then (Some (Inl ''init logger: %w''), None)
             else
               (case NewRuntime e files of
                  Inl x \<Rightarrow> (Some (Inl x), None)
                | Inr r \<Rightarrow>
                    (case agent_run cfg e boots local evs r of
                       (None, r) \<Rightarrow> (None, Some r)
                     | (Some (Inl _), r) \<Rightarrow> (Some (Inl ''agent: %w''), Some (agent_Close r))
                     | (Some (Inr _), r) \<Rightarrow> (Some (Inr ()), Some (agent_Close r))))))"

lemma agent_command_stops_client:
  "agent_newRunCmd cfg_path parsed e files boots local evs = (Some out, Some r) \<Longrightarrow> rt_sup r = None"
  by (auto simp: agent_newRunCmd_def agent_Close_def stopSupervisor_def split: if_splits sum.splits option.splits prod.splits)

text \<open>
  Execute: what the service control manager sends, and what it is told. An interrogation is answered
  with the status the manager passed along.
\<close>

datatype svc_state = StartPending | SvcRunning | StopPending | Stopped

datatype svc_report = Report svc_state | Echo svc_state

datatype svc_event = SvcStop | SvcShutdown | SvcInterrogate svc_state | SvcOther | RunEnds "err option"

text \<open>After a stop request nothing is read but the end of Run.\<close>

fun await_run :: "svc_event list \<Rightarrow> bool" where
  "await_run [] = False"
| "await_run (RunEnds x # evs) = True"
| "await_run (ev # evs) = await_run evs"

definition svc_stop :: "svc_event list \<Rightarrow> svc_report list \<times> (bool \<times> nat) option" where
  "svc_stop evs =
     (if await_run evs then ([Report StopPending, Report Stopped], Some (False, 0))
      else ([Report StopPending], None))"

fun execute_loop :: "svc_event list \<Rightarrow> svc_report list \<times> (bool \<times> nat) option" where
  "execute_loop [] = ([], None)"
| "execute_loop (SvcStop # evs) = svc_stop evs"
| "execute_loop (SvcShutdown # evs) = svc_stop evs"
| "execute_loop (SvcInterrogate st # evs) = (let (rs, out) = execute_loop evs in (Echo st # rs, out))"
| "execute_loop (SvcOther # evs) = execute_loop evs"
| "execute_loop (RunEnds (Some x) # evs) = ([Report Stopped], Some (True, 1))"
| "execute_loop (RunEnds None # evs) = ([Report Stopped], Some (False, 0))"

definition Execute :: "err option \<Rightarrow> svc_event list \<Rightarrow> svc_report list \<times> (bool \<times> nat) option" where
  "Execute new_err evs =
     (case new_err of
        Some x \<Rightarrow> ([Report StartPending], Some (False, 1))
      | None \<Rightarrow>
          (let (rs, out) = execute_loop evs in (Report StartPending # Report SvcRunning # rs, out)))"

lemma execute_loop_reports:
  "case execute_loop evs of (rs, out) \<Rightarrow>
     (case out of
        None \<Rightarrow> Report Stopped \<notin> set rs
      | Some oc \<Rightarrow> rs \<noteq> [] \<and> last rs = Report Stopped \<and> Report Stopped \<notin> set (butlast rs))"
proof (induction evs rule: execute_loop.induct)
  case (4 st evs)
  obtain rs out where "execute_loop evs = (rs, out)" by fastforce
  then show ?case using 4 by (cases out) simp_all
qed (simp_all add: svc_stop_def)

text \<open>
  The service tells the manager that it starts and runs, and Stopped exactly when it returns, as its last
  word; it is a failure exactly when Run failed by itself, not when it was asked to stop.
\<close>
lemma service_reports:
  "case Execute None evs of (rs, out) \<Rightarrow>
     take 2 rs = [Report StartPending, Report SvcRunning] \<and> (out \<noteq> None \<longleftrightarrow> last rs = Report Stopped) \<and>
     Report Stopped \<notin> set (butlast rs)"
proof -
  obtain rs out where x: "execute_loop evs = (rs, out)" by fastforce
  show ?thesis
  proof (cases out)
    case None
    then have "Report Stopped \<notin> set rs" using execute_loop_reports [of evs] x by simp
    then have "last (Report StartPending # Report SvcRunning # rs) \<noteq> Report Stopped"
      "Report Stopped \<notin> set (butlast (Report StartPending # Report SvcRunning # rs))"
      by (auto dest: in_set_butlastD) (metis last_in_set)
    then show ?thesis using x None by (simp add: Execute_def)
  next
    case (Some oc)
    then have "last rs = Report Stopped" "Report Stopped \<notin> set (butlast rs)" "rs \<noteq> []"
      using execute_loop_reports [of evs] x by (cases oc; auto)+
    then show ?thesis using x Some by (simp add: Execute_def)
  qed
qed

text \<open>service-run: the handler runs under the service control manager, or in a shell.\<close>

datatype svc_runner = SvcRun | DebugRun

definition newServiceRunCmd ::
  "string \<Rightarrow> err + agent_conf \<Rightarrow> env \<Rightarrow> err + bool \<Rightarrow> err + agent_conf \<times> svc_runner" where
  "newServiceRunCmd cfg_path parsed e interactive =
     (if cfg_path = [] then Inl ''--config is required''
      else
        (case Load parsed of
           Inl x \<Rightarrow> Inl x
         | Inr cfg \<Rightarrow>
             if fault e ''init logger'' then Inl ''init logger: %w''
             else
               (case interactive of
                  Inl _ \<Rightarrow> Inl ''svc.IsAnInteractiveSession: %w''
                | Inr b \<Rightarrow> Inr (cfg, if b then DebugRun else SvcRun))))"

subsection \<open>HTTP handlers (internal/health, server/webui, server/installscripts, server.go)\<close>

record health_answer =
  ha_code :: nat
  ha_status :: string
  ha_reasons :: "string list option"

definition health_Handler :: "bool \<times> string list \<Rightarrow> health_answer" where
  "health_Handler checked =
     (case checked of
        (ok, reasons) \<Rightarrow>
          if ok then \<lparr>ha_code = 200, ha_status = ''ok'', ha_reasons = None\<rparr>
          else \<lparr>ha_code = 503, ha_status = ''degraded'', ha_reasons = Some reasons\<rparr>)"

text \<open>The check of the server and the proxy: the database handle, and a ping.\<close>

definition db_check :: "err option \<Rightarrow> err option \<Rightarrow> bool \<times> string list" where
  "db_check handle_err ping_err =
     (case handle_err of
        Some x \<Rightarrow> (False, [''db: '' @ x])
      | None \<Rightarrow> (case ping_err of Some x \<Rightarrow> (False, [''db ping: '' @ x]) | None \<Rightarrow> (True, [])))"

text \<open>
  The single-page application. io/fs wants a path of non-empty elements other than \<open>.\<close> and \<open>..\<close>, and
  answers another one with an error that is not ErrNotExist. A request handed to the file server is the
  path it is handed.
\<close>

definition valid_path :: "string \<Rightarrow> bool" where
  "valid_path name \<longleftrightarrow>
     name = ''.'' \<or> list_all (\<lambda>el. el \<noteq> [] \<and> el \<noteq> ''.'' \<and> el \<noteq> ''..'') (split_on (CHR ''/'') name)"

datatype web_answer = ServeFile string | WebError nat | NotBuilt

definition webui_Handler :: "(string \<Rightarrow> bool) \<Rightarrow> string \<Rightarrow> web_answer" where
  "webui_Handler files path =
     (if \<not> files ''index.html'' then NotBuilt
      else
        (let p = (if has_prefix ''/'' path then drop 1 path else path);
             p = (if p = [] then ''index.html'' else p)
         in if \<not> valid_path p then WebError 500
            else if files p then ServeFile path
            else ServeFile ''/''))"

lemma valid_path_trailing_slash: "\<not> valid_path (p @ ''/'')"
proof -
  have "\<exists>y ys. split_on (CHR ''/'') (p @ ''/'') = y # ys \<and> [] \<in> set ys"
    by (induction p) auto
  then have "[] \<in> set (split_on (CHR ''/'') (p @ ''/''))"
    by fastforce
  moreover have "p @ ''/'' \<noteq> ''.''" by (cases p) auto
  ultimately show ?thesis by (force simp: valid_path_def list_all_iff)
qed

text \<open>
  A client-side route gets the application, unless it is written with a slash at its end: that one is
  answered 500.
\<close>
lemma webui_routes:
  assumes "files ''index.html''"
  shows "valid_path p \<Longrightarrow> \<not> files p \<Longrightarrow> p \<noteq> [] \<Longrightarrow> webui_Handler files (''/'' @ p) = ServeFile ''/''"
    and "webui_Handler files (''/'' @ q @ ''/'') = WebError 500"
  using assms valid_path_trailing_slash [of q] by (auto simp: webui_Handler_def has_prefix_def Let_def)

text \<open>The install scripts below /install/: the content type the handler sets, and the file asked for.\<close>

definition has_suffix :: "string \<Rightarrow> string \<Rightarrow> bool" where
  "has_suffix s t \<longleftrightarrow> has_prefix (rev s) (rev t)"

definition installscripts_Handler :: "string \<Rightarrow> (string option \<times> string) option" where
  "installscripts_Handler path =
     (if \<not> has_prefix ''/install/'' path then None
      else
        (let rest = drop (length ''/install/'') path in
         Some (if has_suffix ''.sh'' rest then Some ''text/x-shellscript; charset=utf-8'' else None, rest)))"

text \<open>
  The gateway's mux, on the cleaned paths it looks up: the longest pattern wins, and the root of a
  subtree without its slash is redirected to it.
\<close>

datatype http_route = HealthRoute | MetricsRoute | InstallRoute | ApiRoute | WebRoute | Redirect string

definition rootMux :: "string \<Rightarrow> http_route" where
  "rootMux path =
     (if path = ''/healthz'' then HealthRoute
      else if path = ''/metrics'' then MetricsRoute
      else if path = ''/install'' then Redirect ''/install/''
      else if has_prefix ''/install/'' path then InstallRoute
      else if path = ''/v1'' then Redirect ''/v1/''
      else if has_prefix ''/v1/'' path then ApiRoute
      else WebRoute)"

text \<open>No path is taken from the API by the application's fallback, and no other path reaches the API.\<close>
lemma rootMux_api: "rootMux path = ApiRoute \<longleftrightarrow> has_prefix ''/v1/'' path"
proof
  assume "has_prefix ''/v1/'' path"
  then obtain r where "path = ''/v1/'' @ r"
    by (metis append_take_drop_id has_prefix_def)
  then show "rootMux path = ApiRoute" by (simp add: rootMux_def has_prefix_def)
qed (auto simp: rootMux_def split: if_splits)

text \<open>A handler that panics (\<open>None\<close>) is answered 500 by the one around it.\<close>

definition recoverHandler :: "('q \<Rightarrow> (nat \<times> string) option) \<Rightarrow> 'q \<Rightarrow> nat \<times> string" where
  "recoverHandler h q = (case h q of None \<Rightarrow> (500, ''internal error'') | Some a \<Rightarrow> a)"

subsection \<open>The webhook (notify/webhook.go)\<close>

datatype notifier = NoopNotifier | Webhook string duration

definition NewWebhook :: "string \<Rightarrow> duration \<Rightarrow> notifier" where
  "NewWebhook url timeout = Webhook url (if timeout \<le> 0 then 5 * second else timeout)"

definition NewNotifier :: "string \<Rightarrow> duration \<Rightarrow> notifier" where
  "NewNotifier url timeout = (if url = [] then NoopNotifier else NewWebhook url timeout)"

text \<open>What a POST met: it could not be built or sent, or was answered with a status.\<close>

record post_world =
  po_marshals :: bool
  po_builds :: bool
  po_answer :: "nat option"

definition Notify :: "notifier \<Rightarrow> post_world \<Rightarrow> err option" where
  "Notify n w =
     (case n of
        NoopNotifier \<Rightarrow> None
      | Webhook url timeout \<Rightarrow>
          if \<not> po_marshals w then Some ''notify: marshal: %w''
          else if \<not> po_builds w then Some ''notify: build request: %w''
          else (case po_answer w of
                  None \<Rightarrow> Some ''notify: do: %w''
                | Some st \<Rightarrow> if st \<ge> 400 then Some ''notify: HTTP %d'' else None))"

text \<open>The event of an alert, by its fields; the message's format is not substituted.\<close>

record event =
  ev_type :: string
  ev_subject :: string
  ev_message :: string
  ev_time :: time
  ev_project_id :: string
  ev_crash_count :: nat
  ev_window :: duration

definition alert_event :: "crash_event \<Rightarrow> event" where
  "alert_event a =
     \<lparr>ev_type = ''supervisor_crash_loop'', ev_subject = ''project='' @ ce_project_id a,
      ev_message = ''rathole-server for project %s crashed %d times in %s'', ev_time = ce_time a,
      ev_project_id = ce_project_id a, ev_crash_count = ce_crash_count a, ev_window = ce_window a\<rparr>"

lemma notify_delivers:
  "Notify (NewNotifier url timeout) w = None \<longleftrightarrow>
     url = [] \<or> po_marshals w \<and> po_builds w \<and> (case po_answer w of None \<Rightarrow> False | Some st \<Rightarrow> st < 400)"
  by (auto simp: Notify_def NewNotifier_def NewWebhook_def split: option.splits)

subsection \<open>serve and migrate (migration.go, dao/db.go, cmd_migrate.go, cmd_serve.go)\<close>

text \<open>
  golang-migrate is an argument: what opening the source and the database gives, and how its Up (Down)
  ends. Applying nothing is no error.
\<close>

datatype migrator = NoSource | NoConnection | Migrator migrated
and migrated = Applied | NoChange | MigrateFails

definition newMigrator :: "migrator \<Rightarrow> err + migrated" where
  "newMigrator mig =
     (case mig of
        NoSource \<Rightarrow> Inl ''migration: load source: %w''
      | NoConnection \<Rightarrow> Inl ''migration: connect %q: %w''
      | Migrator outcome \<Rightarrow> Inr outcome)"

definition Up :: "migrator \<Rightarrow> err option" where
  "Up mig =
     (case newMigrator mig of
        Inl x \<Rightarrow> Some x
      | Inr outcome \<Rightarrow> if outcome = MigrateFails then Some ''migration: up: %w'' else None)"

definition Down :: "migrator \<Rightarrow> err option" where
  "Down mig =
     (case newMigrator mig of
        Inl x \<Rightarrow> Some x
      | Inr outcome \<Rightarrow> if outcome = MigrateFails then Some ''migration: down: %w'' else None)"

definition Open :: "env \<Rightarrow> err option" where
  "Open e = (if fault e ''open db'' then Some ''dao: open %q: %w'' else None)"

definition migrateCmd :: "err + server_file \<Rightarrow> migrator \<Rightarrow> err + string" where
  "migrateCmd parsed mig =
     (case server_Load parsed of
        Inl x \<Rightarrow> Inl (''migrate: load config: '' @ x)
      | Inr cfg \<Rightarrow>
          if sc_driver cfg \<noteq> ''sqlite''
          then Inl ''migrate: only sqlite driver supported in Phase 1, got %q''
          else
            (case Up mig of
               Some x \<Rightarrow> Inl (''migrate: '' @ x)
             | None \<Rightarrow> Inr ''migrations applied''))"

text \<open>
  The server's process, with New's part in it: the relay manager it builds, the notifier it wires, and
  the outcome of Run.
\<close>

definition serve_notifier :: "server_conf \<Rightarrow> notifier" where
  "serve_notifier c =
     NewNotifier (sc_webhook_url c) (if sc_webhook_timeout c \<le> 0 then 5 * second else sc_webhook_timeout c)"

definition serveCmd ::
  "err + server_file \<Rightarrow> migrator \<Rightarrow> env \<Rightarrow> db \<Rightarrow> run_world \<Rightarrow> (relay_state \<Rightarrow> relay_state) \<Rightarrow>
   (string \<Rightarrow> string option) \<Rightarrow> (err + unit) \<times> relay_state option" where
  "serveCmd parsed mig e d rw serving files =
     (case server_Load parsed of
        Inl x \<Rightarrow> (Inl (''serve: '' @ x), None)
      | Inr cfg \<Rightarrow>
          if fault e ''init logger'' then (Inl ''serve: %w'', None)
          else
            (case Up mig of
               Some x \<Rightarrow> (Inl (''serve: migrate: '' @ x), None)
             | None \<Rightarrow>
                 (case Open e of
                    Some x \<Rightarrow> (Inl (''serve: '' @ x), None)
                  | None \<Rightarrow>
                      (case server_run (serve_relay cfg) e d rw serving (NewManager files) of
                         (Inl x, r) \<Rightarrow> (Inl (''serve: '' @ x), Some r)
                       | (Inr _, r) \<Rightarrow> (Inr (), Some r)))))"

text \<open>
  A command that loads the configuration never gets to the driver check of migrate: validation has made
  it. And the server only runs on a migrated database and a valid configuration.
\<close>
lemma migrate_succeeds:
  "migrateCmd parsed mig = Inr msg \<longleftrightarrow>
     msg = ''migrations applied'' \<and> (\<exists>cfg. server_Load parsed = Inr cfg) \<and> Up mig = None"
  by (auto simp: migrateCmd_def dest: server_Load_Inr split: sum.splits option.splits)

lemma serve_needs_migrations:
  "serveCmd parsed mig e d rw serving files = (res, Some r) \<Longrightarrow>
     Up mig = None \<and> Open e = None \<and> (\<exists>cfg. server_Load parsed = Inr cfg \<and> Validate cfg = None)"
  by (auto simp: serveCmd_def server_Load_def Let_def split: sum.splits option.splits if_splits prod.splits)

end
