(* ===== verification/AgentServer.thy ===== *)
theory AgentServer
  imports AgentRuntime AdminCli CliServer Metrics
begin

section \<open>The agent against the server (internal/agent, internal/server)\<close>

text \<open>
  The agent's RPCs with what they send and count, its retries and its loop over them, and the whole
  with \<open>serve\<close> as the other side: whatever happened before, one tick that reaches the server brings the agent
  to the configuration the server has for its site; and a token the server has just issued lets the agent in,
  there and at the proxy. Then the bridge's connections and its accept loop.
\<close>

subsection \<open>Calls (runtime.go)\<close>

text \<open>
  What the agent knows of its host: os.Hostname (empty when it fails), runtime.GOOS, and AgentVersion, which
  the linker sets. A call is what becomes of a request in the world of the server, answered or
  not, and whether the agent's context had ended when it failed, or ended during the wait after it.
\<close>

record agent_host =
  ah_hostname :: string
  ah_os :: string
  ah_version :: string

record 'w agent_call =
  ca_send :: "request \<Rightarrow> 'w \<Rightarrow> (rpc_failure + response) \<times> 'w"
  ca_cancelled :: bool
  ca_cancelled_wait :: bool

definition agent_hostname :: "agent_conf \<Rightarrow> agent_host \<Rightarrow> string" where
  "agent_hostname cfg h =
     (if ac_hostname_override cfg \<noteq> [] then ac_hostname_override cfg else ah_hostname h)"

definition bootstrap_request :: "agent_conf \<Rightarrow> agent_host \<Rightarrow> request" where
  "bootstrap_request cfg h = BootstrapRequest (agent_hostname cfg h) (ah_os h) (ah_version h)"

text \<open>gRPC decodes an answer as the method's response type; no other answer comes.\<close>

fun as_bootstrap :: "rpc_failure + response \<Rightarrow> rpc_failure + bootstrap_response" where
  "as_bootstrap (Inr (BootstrapR b)) = Inr b"
| "as_bootstrap (Inl x) = Inl x"
| "as_bootstrap _ = Inl (Unreachable ''grpc: error while unmarshaling'')"

fun as_heartbeat :: "rpc_failure + response \<Rightarrow> rpc_failure + heartbeat_response" where
  "as_heartbeat (Inr (HeartbeatR r)) = Inr r"
| "as_heartbeat (Inl x) = Inl x"
| "as_heartbeat _ = Inl (Unreachable ''grpc: error while unmarshaling'')"

definition agent_heartbeat ::
  "agent_conf \<Rightarrow> agent_host \<Rightarrow> 'w agent_call \<Rightarrow> runtime \<Rightarrow> agent_metrics option \<Rightarrow> 'w \<Rightarrow>
   (rpc_failure + heartbeat_response) \<times> agent_metrics option \<times> 'w" where
  "agent_heartbeat cfg h call r m w =
     (case ca_send call
             (HeartbeatRequest (agent_hostname cfg h) (ah_os h) (ah_version h) [] (rt_cur_version r)) w of
        (res, w) \<Rightarrow>
          (case as_heartbeat res of
             Inr resp \<Rightarrow> (Inr resp, ObserveHeartbeat ''ok'' m, w)
           | Inl x \<Rightarrow> (Inl x, ObserveHeartbeat ''err'' m, w)))"

text \<open>bootstrapWithRetry from an attempt on; \<open>calls n\<close> is the n-th call.\<close>

function wire_bootstrap ::
  "agent_conf \<Rightarrow> agent_host \<Rightarrow> (nat \<Rightarrow> 'w agent_call) \<Rightarrow> nat \<Rightarrow> duration \<Rightarrow> rpc_failure option \<Rightarrow>
   agent_metrics option \<Rightarrow> 'w \<Rightarrow>
   ((boot_error + bootstrap_response) \<times> duration list) \<times> agent_metrics option \<times> 'w" where
  "wire_bootstrap cfg h calls attempt backoff lastErr m w =
     (if maxBootstrapAttempts < attempt then ((Inl (GaveUp lastErr), []), m, w)
      else
        (case ca_send (calls attempt) (bootstrap_request cfg h) w of
           (res, w) \<Rightarrow>
             (case as_bootstrap res of
                Inr resp \<Rightarrow> ((Inr resp, []), ObserveBootstrap ''ok'' m, w)
              | Inl x \<Rightarrow>
                  (let m = ObserveBootstrap ''err'' m in
                   if is_unauthenticated x then ((Inl (TokenRejected x), []), m, w)
                   else if ca_cancelled (calls attempt) then ((Inl ContextDone, []), m, w)
                   else if ca_cancelled_wait (calls attempt) then ((Inl ContextDone, [backoff]), m, w)
                   else
                     (let ((r, ws), mw) =
                            wire_bootstrap cfg h calls (Suc attempt) (double_retry backoff) (Some x) m w
                      in ((r, backoff # ws), mw))))))"
  by pat_completeness auto
termination
  by (relation "measure (\<lambda>(cfg, h, calls, attempt, rest). Suc maxBootstrapAttempts - attempt)") auto

declare wire_bootstrap.simps [simp del]

definition agent_bootstrap ::
  "agent_conf \<Rightarrow> agent_host \<Rightarrow> (nat \<Rightarrow> 'w agent_call) \<Rightarrow> agent_metrics option \<Rightarrow> 'w \<Rightarrow>
   (boot_error + bootstrap_response) \<times> agent_metrics option \<times> 'w" where
  "agent_bootstrap cfg h calls m w =
     (case wire_bootstrap cfg h calls 1 defaultBootstrapRetry None m w of ((r, ws), mw) \<Rightarrow> (r, mw))"

subsection \<open>The loop\<close>

text \<open>
  What the select receives, the context's end or a tick with its calls and the \<open>env\<close> of the agent's own
  file, and what the rest of the world does in between.
\<close>

datatype 'w wire_event =
    WireDone
  | WireTick "'w agent_call" "nat \<Rightarrow> 'w agent_call" env
  | Others "'w \<Rightarrow> 'w"

fun wire_loop ::
  "agent_conf \<Rightarrow> agent_host \<Rightarrow> 'w wire_event list \<Rightarrow> runtime \<Rightarrow> agent_metrics option \<Rightarrow> 'w \<Rightarrow>
   (boot_error + unit) option \<times> runtime \<times> agent_metrics option \<times> 'w" where
  "wire_loop cfg h [] r m w = (None, r, m, w)"
| "wire_loop cfg h (WireDone # evs) r m w = (Some (Inr ()), stopSupervisor r, m, w)"
| "wire_loop cfg h (Others f # evs) r m w = wire_loop cfg h evs r m (f w)"
| "wire_loop cfg h (WireTick hb calls e # evs) r m w =
     (case agent_heartbeat cfg h hb r m w of
        (Inl x, m, w) \<Rightarrow>
          if ca_cancelled hb then (Some (Inr ()), stopSupervisor r, m, w) else wire_loop cfg h evs r m w
      | (Inr resp, m, w) \<Rightarrow>
          if hr_should_rebootstrap resp
          then (case agent_bootstrap cfg h calls m w of
                  (Inl x, m, w) \<Rightarrow> (Some (Inl x), r, m, w)
                | (Inr boot, m, w) \<Rightarrow> wire_loop cfg h evs (snd (applyBootstrap cfg e boot r)) m w)
          else wire_loop cfg h evs r m w)"

subsection \<open>The loops over answers are these loops\<close>

text \<open>The world after the first calls, and what the n-th call meets there.\<close>

primrec after_calls :: "agent_conf \<Rightarrow> agent_host \<Rightarrow> (nat \<Rightarrow> 'w agent_call) \<Rightarrow> 'w \<Rightarrow> nat \<Rightarrow> 'w" where
  "after_calls cfg h calls w 0 = w"
| "after_calls cfg h calls w (Suc n) =
     snd (ca_send (calls (Suc n)) (bootstrap_request cfg h) (after_calls cfg h calls w n))"

definition met_by :: "agent_conf \<Rightarrow> agent_host \<Rightarrow> (nat \<Rightarrow> 'w agent_call) \<Rightarrow> 'w \<Rightarrow> nat \<Rightarrow> boot_attempt" where
  "met_by cfg h calls w n =
     \<lparr>ba_result = as_bootstrap (fst (ca_send (calls n) (bootstrap_request cfg h) (after_calls cfg h calls w (n - 1)))),
      ba_cancelled = ca_cancelled (calls n), ba_cancelled_wait = ca_cancelled_wait (calls n)\<rparr>"

lemma wire_bootstrap_loop:
  "fst (wire_bootstrap cfg h calls (Suc k) b x m (after_calls cfg h calls w k)) =
     bootstrap_loop (met_by cfg h calls w) (Suc k) b x"
proof (induction "maxBootstrapAttempts - k" arbitrary: k b x m)
  case 0
  then show ?case by (simp add: wire_bootstrap.simps [of cfg h calls "Suc k"] bootstrap_loop.simps)
next
  case (Suc n)
  obtain res w1 where s: "ca_send (calls (Suc k)) (bootstrap_request cfg h) (after_calls cfg h calls w k) = (res, w1)"
    by fastforce
  have "n = maxBootstrapAttempts - Suc k" using Suc.hyps(2) by simp
  from Suc.hyps(1) [OF this] have ih:
    "fst (wire_bootstrap cfg h calls (Suc (Suc k)) b' x' m' w1) = bootstrap_loop (met_by cfg h calls w) (Suc (Suc k)) b' x'"
    for b' x' m' by (simp add: s)
  have w: "met_by cfg h calls w (Suc k) = \<lparr>ba_result = as_bootstrap res,
      ba_cancelled = ca_cancelled (calls (Suc k)), ba_cancelled_wait = ca_cancelled_wait (calls (Suc k))\<rparr>"
    using s by (simp add: met_by_def)
  note step = wire_bootstrap.simps [of cfg h calls "Suc k"] bootstrap_loop.simps [of _ "Suc k"] s w
  show ?case
  proof (cases "as_bootstrap res")
    case (Inl y)
    obtain r1 ws1 mw where i: "wire_bootstrap cfg h calls (Suc (Suc k)) (double_retry b) (Some y)
        (ObserveBootstrap ''err'' m) w1 = ((r1, ws1), mw)"
      by (metis prod.exhaust)
    then have "bootstrap_loop (met_by cfg h calls w) (Suc (Suc k)) (double_retry b) (Some y) = (r1, ws1)"
      using ih [of "double_retry b" "Some y" "ObserveBootstrap ''err'' m"] by simp
    then show ?thesis unfolding step using Inl i by (simp add: Let_def)
  next
    case (Inr boot)
    then show ?thesis unfolding step by simp
  qed
qed

text \<open>So what is proved of the retries holds of the agent's calls.\<close>

lemma agent_bootstrap_answer:
  "fst (agent_bootstrap cfg h calls m w) = fst (bootstrapWithRetry (met_by cfg h calls w))"
  using wire_bootstrap_loop [of cfg h calls 0 defaultBootstrapRetry None m w]
  by (cases "wire_bootstrap cfg h calls 1 defaultBootstrapRetry None m w")
    (auto simp: agent_bootstrap_def bootstrapWithRetry_def split: prod.splits)

lemma wire_loop_answers:
  "\<exists>ticks. wire_loop cfg h evs r m w = (out, r', m', w') \<longrightarrow> agent_loop cfg ticks r = (out, r')"
proof (induction cfg h evs r m w rule: wire_loop.induct)
  case (2 cfg h evs r m w)
  show ?case by (rule exI [of _ "[CtxDone]"]) simp
next
  case (4 cfg h hb calls e evs r m w)
  obtain res m1 w1 where hb: "agent_heartbeat cfg h hb r m w = (res, m1, w1)" by (metis prod.exhaust)
  obtain b m2 w2 where bs: "agent_bootstrap cfg h calls m1 w1 = (b, m2, w2)" by (metis prod.exhaust)
  have fb: "fst (bootstrapWithRetry (met_by cfg h calls w1)) = b"
    using agent_bootstrap_answer [of cfg h calls m1 w1] bs by simp
  let ?t = "Tick res (ca_cancelled hb) (met_by cfg h calls w1) e"
  show ?case
  proof (cases res)
    case (Inl x)
    show ?thesis
    proof (cases "ca_cancelled hb")
      case True
      then show ?thesis using hb Inl by (intro exI [of _ "[?t]"]) simp
    next
      case False
      with "4.IH"(1) [OF hb [symmetric] Inl refl False] obtain ticks where
        "wire_loop cfg h evs r m1 w1 = (out, r', m', w') \<longrightarrow> agent_loop cfg ticks r = (out, r')" by blast
      then show ?thesis using hb Inl False by (intro exI [of _ "?t # ticks"]) simp
    qed
  next
    case (Inr resp)
    show ?thesis
    proof (cases "hr_should_rebootstrap resp")
      case True
      show ?thesis
      proof (cases b)
        case (Inl x)
        then show ?thesis using hb Inr True bs fb by (intro exI [of _ "[?t]"]) simp
      next
        case (Inr boot)
        with "4.IH"(2) [OF hb [symmetric] \<open>res = Inr resp\<close> refl True bs [symmetric] Inr refl] obtain ticks where
          "wire_loop cfg h evs (snd (applyBootstrap cfg e boot r)) m2 w2 = (out, r', m', w') \<longrightarrow>
             agent_loop cfg ticks (snd (applyBootstrap cfg e boot r)) = (out, r')" by blast
        then show ?thesis using hb \<open>res = Inr resp\<close> True bs fb Inr by (intro exI [of _ "?t # ticks"]) simp
      qed
    next
      case False
      with "4.IH"(3) [OF hb [symmetric] Inr refl False] obtain ticks where
        "wire_loop cfg h evs r m1 w1 = (out, r', m', w') \<longrightarrow> agent_loop cfg ticks r = (out, r')" by blast
      then show ?thesis using hb Inr False by (intro exI [of _ "?t # ticks"]) simp
    qed
  qed
qed (auto intro: exI [of _ "[]"])

text \<open>Every call is counted, a failed one before the wait that follows it.\<close>

lemma wire_bootstrap_counted:
  assumes "wire_bootstrap cfg h calls n b x (Some m) w = ((Inr boot, ws), mo, w')"
  shows "\<exists>m'. mo = Some m' \<and> count (am_bootstrap m') ''ok'' = Suc (count (am_bootstrap m) ''ok'') \<and>
    count (am_bootstrap m') ''err'' = count (am_bootstrap m) ''err'' + length ws \<and> am_heartbeat m' = am_heartbeat m"
  using assms
proof (induction cfg h calls n b x "Some m" w arbitrary: m ws rule: wire_bootstrap.induct)
  case (1 cfg h calls n b x w)
  obtain res w1 where s: "ca_send (calls n) (bootstrap_request cfg h) w = (res, w1)" by fastforce
  note run = "1.prems" [unfolded wire_bootstrap.simps [of cfg h calls n]]
  show ?case
  proof (cases "as_bootstrap res")
    case (Inl y)
    define m1 where "m1 = m\<lparr>am_bootstrap := inc ''err'' (am_bootstrap m)\<rparr>"
    have o: "ObserveBootstrap ''err'' (Some m) = Some m1" by (simp add: ObserveBootstrap_def m1_def)
    obtain ws1 where rec: "wire_bootstrap cfg h calls (Suc n) (double_retry b) (Some y) (Some m1) w1 =
        ((Inr boot, ws1), mo, w')" "ws = b # ws1"
      using run s Inl o by (auto simp: Let_def split: if_splits prod.splits)
    have c: "\<not> maxBootstrapAttempts < n" "\<not> is_unauthenticated y" "\<not> ca_cancelled (calls n)"
        "\<not> ca_cancelled_wait (calls n)"
      using run s Inl by (auto simp: Let_def split: if_splits)
    from "1.hyps" [OF c(1) s [symmetric] Inl o [symmetric] c(2-4) rec(1)] rec(2) show ?thesis
      by (auto simp: m1_def)
  next
    case (Inr y)
    then show ?thesis using run s by (auto simp: ObserveBootstrap_def split: if_splits)
  qed
qed

subsection \<open>Over the server\<close>

text \<open>The connection New dials: every call carries the token; \<open>peer\<close> is what the server sees.\<close>

definition over_server ::
  "server_config \<Rightarrow> 'r relay_iface \<Rightarrow> env \<Rightarrow> string option \<Rightarrow> agent_conf \<Rightarrow> 'r world agent_call" where
  "over_server cfg rm e peer acfg =
     \<lparr>ca_send = (\<lambda>q w.
        (case serve cfg rm e peer (Some (GetRequestMetadata (ac_token acfg))) q w of
           (Inl st, w) \<Rightarrow> (Inl (Answered st), w)
         | (Inr r, w) \<Rightarrow> (Inr r, w))),
      ca_cancelled = False, ca_cancelled_wait = False\<rparr>"

text \<open>The token is, at time \<open>t\<close>, one of site \<open>i\<close>, which is live and in an active project.\<close>

definition site_served :: "time \<Rightarrow> string \<Rightarrow> nat \<Rightarrow> db \<Rightarrow> bool" where
  "site_served t tok i d \<longleftrightarrow> agent_owner t tok d = Some i \<and>
     (\<exists>s\<in>set (rows (t_sites d)). live s \<and> ID s = i \<and>
       (\<exists>p\<in>set (rows (t_projects d)). live p \<and> ID p = si_project_id s \<and> pr_status p = ProjectStatusActive))"

lemma site_servedE:
  assumes "site_served t tok i d" and "server_ok d"
  obtains s p lo hi where "agent_owner t tok d = Some (ID s)" "s \<in> set (rows (t_sites d))" "live s" "ID s = i"
    "p \<in> set (rows (t_projects d))" "live p" "ID p = si_project_id s" "pr_status p = ProjectStatusActive"
    "parse_port_range (pr_relay_port_range p) = Inr (lo, hi)"
proof -
  obtain s p where s: "s \<in> set (rows (t_sites d))" "live s" "ID s = i" "p \<in> set (rows (t_projects d))"
    "live p" "ID p = si_project_id s" "pr_status p = ProjectStatusActive"
    using assms(1) by (auto simp: site_served_def)
  have "is_ok (parse_port_range (pr_relay_port_range p))" using server_ok_means [OF assms(2)] s(4,5) by blast
  then obtain lo hi where "parse_port_range (pr_relay_port_range p) = Inr (lo, hi)"
    by (cases "parse_port_range (pr_relay_port_range p)") auto
  with s assms(1) show thesis by (intro that [of s p lo hi]) (simp_all add: site_served_def)
qed

lemma find_map_comp: "map_option f (find (\<lambda>x. Q (f x)) xs) = find Q (map f xs)"
  by (induction xs) simp_all

lemma same_idents:
  assumes "map site_ident (rows t') = map site_ident (rows t)" and "s' \<in> set (rows t')"
  shows "\<exists>s\<in>set (rows t). site_ident s = site_ident s' \<and> live s = live s' \<and> ID s = ID s' \<and> si_name s = si_name s' \<and>
    si_project_id s = si_project_id s'"
proof -
  have "site_ident s' \<in> site_ident ` set (rows t)" using assms by (metis image_eqI set_map)
  then show ?thesis by (force simp: site_ident_def live_def)
qed

lemma agent_owner_ident:
  "agent_owner t tok d = map_option (\<lambda>(_, _, i, _, _). i)
     (find (\<lambda>(_, del, _, h, x). del = None \<and> h = hash_token tok \<and> not_expired t x) (map agent_ident (rows (t_agent_tokens d))))"
  unfolding find_map_comp [symmetric]
  by (simp add: agent_owner_def agent_token_lookup_def first_live_def live_def agent_ident_def option.map_comp comp_def)

lemma site_served_config_same:
  assumes "config_same d d'" and "site_served t tok i d"
  shows "site_served t tok i d'"
proof -
  obtain s p where s: "s \<in> set (rows (t_sites d))" "live s" "ID s = i" "p \<in> set (rows (t_projects d))" "live p"
    "ID p = si_project_id s" "pr_status p = ProjectStatusActive"
    using assms(2) by (auto simp: site_served_def)
  have "site_ident s \<in> site_ident ` set (rows (t_sites d'))"
    using assms(1) s(1) by (metis config_same_def image_eqI set_map)
  then obtain s' where "s' \<in> set (rows (t_sites d'))" "site_ident s' = site_ident s" by force
  then have "\<exists>s\<in>set (rows (t_sites d')). live s \<and> ID s = i \<and>
      (\<exists>p\<in>set (rows (t_projects d')). live p \<and> ID p = si_project_id s \<and> pr_status p = ProjectStatusActive)"
    using assms(1) s by (intro bexI [of _ s']) (auto simp: site_ident_def live_def config_same_def)
  then show ?thesis using assms by (simp add: site_served_def agent_owner_ident config_same_def)
qed

lemma serve_agent:
  assumes "\<forall>s. \<not> fault e s" and "agent_owner (now e) tok (wdb w) = Some (ID s)" and "tok \<noteq> []" "list_all solid tok"
    and "tbl_wf (t_sites (wdb w))" and "s \<in> set (rows (t_sites (wdb w)))" and "live s" and "is_agent_request q"
  shows "\<exists>i. serve cfg rm e peer (Some (GetRequestMetadata tok)) q w =
    dispatch cfg rm e q (agent_ctx peer s (raw_ctx (Some (GetRequestMetadata tok))))
      (w\<lparr>wdb := touch_agent_used e i (wdb w)\<rparr>)"
proof -
  let ?cx = "raw_ctx (Some (GetRequestMetadata tok))"
  let ?cx1 = "?cx\<lparr>cx_source_ip := extract_source_ip peer ?cx\<rparr>"
  obtain t where t: "first_live (\<lambda>r. at_token_hash r = hash_token tok \<and> not_expired (now e) (at_expires_at r))
      (t_agent_tokens (wdb w)) = Some t" "at_site_id t = ID s"
    using assms(2) by (auto simp: agent_owner_def agent_token_lookup_def)
  have b: "extract_bearer ?cx1 = tok" using bearer_metadata [OF assms(3,4)] by simp
  have p: "has_prefix agent_service_prefix (method_of q)" using assms(8) by (simp add: is_agent_request_def)
  have "serve cfg rm e peer (Some (GetRequestMetadata tok)) q w =
      agent_interceptor e (method_of q) (dispatch cfg rm e q) ?cx1 w"
    by (simp add: serve_def server_chain_agent [OF p])
  also have "\<dots> = dispatch cfg rm e q (agent_ctx peer s ?cx) (w\<lparr>wdb := touch_agent_used e (ID t) (wdb w)\<rparr>)"
    using assms(1,3) t b p first_live_ID [OF assms(5-7)] by (simp add: agent_interceptor_def agent_ctx_def)
  finally show ?thesis by blast
qed

text \<open>
  C24. A freshly issued agent token opens both doors until it expires, whatever lifetime it was given. With
  the metadata the agent sends, the server runs the handler of every agent RPC with the principal of the live
  site the token was issued to and of that site's project; with the request its bridge sends, the auth proxy
  dials the control port of the site's active project: the two halves of the agent present, and the two
  servers read, the same string.
\<close>
theorem issued_token_opens_both_doors:
  assumes "db_wf d" and "site_token_issue e0 (ID s) ttl d = (Inr (row, raw), wdb w)" and "\<forall>s. \<not> fault e s"
    and "ttl \<le> 0 \<or> now e < now e0 + ttl"
    and "s \<in> set (rows (t_sites d))" and "live s" and "p \<in> set (rows (t_projects d))" and "live p"
    and "ID p = si_project_id s" and "pr_status p = ProjectStatusActive"
    and "parse_port_range (pr_relay_port_range p) = Inr (lo, hi)" and "bg_bearer_token b = raw" and "raw \<noteq> []"
    and "is_agent_request q"
  shows "(\<exists>i. serve cfg rm e peer (Some (GetRequestMetadata raw)) q w =
      dispatch cfg rm e q (agent_ctx peer s (raw_ctx (Some (GetRequestMetadata raw))))
        (w\<lparr>wdb := touch_agent_used e i (wdb w)\<rparr>)) \<and>
    (\<exists>d2. handle e (Some (bridge_request b)) (wdb w) =
      ((200, Some (loopback @ [colon] @ format_uint (unat lo))), d2))"
proof
  have solid: "list_all solid raw"
    using assms(2) b64_encode_solid
    by (auto simp: site_token_issue_def issue_token_def Let_def split: sum.splits option.splits if_splits prod.splits)
  have own: "agent_owner (now e) raw (wdb w) = Some (ID s)"
    using agent_issue_fresh [OF assms(1) raw_of_Inr [OF assms(2)]] assms(4) by auto
  have eff: "wdb w = d\<lparr>t_agent_tokens := t_agent_tokens (wdb w)\<rparr>"
    using site_token_issue_Inr [OF raw_of_Inr [OF assms(2)]] by blast
  have same: "t_sites (wdb w) = t_sites d" "t_projects (wdb w) = t_projects d"
    using arg_cong [OF eff, of t_sites] arg_cong [OF eff, of t_projects] by simp_all
  show "\<exists>d2. handle e (Some (bridge_request b)) (wdb w) = ((200, Some (loopback @ [colon] @ format_uint (unat lo))), d2)"
    by (rule handle_agent [OF assms(3) own assms(13), unfolded same])
      (use assms db_wfD(3,5) [OF assms(1)] in \<open>simp_all add: bridge_request_def Let_def\<close>)
  show "\<exists>i. serve cfg rm e peer (Some (GetRequestMetadata raw)) q w =
      dispatch cfg rm e q (agent_ctx peer s (raw_ctx (Some (GetRequestMetadata raw))))
        (w\<lparr>wdb := touch_agent_used e i (wdb w)\<rparr>)"
    by (rule serve_agent [OF assms(3) own assms(13) solid, unfolded same])
      (use assms db_wfD(5) [OF assms(1)] in simp_all)
qed

text \<open>A token of one hour, as the install command issues it, half an hour later.\<close>

theorem issued_token_opens_both_doors_witness:
  "\<exists>row raw d' i. site_token_issue ex_env 1 (3600 * second) ex_db = (Inr (row, raw), d') \<and>
     serve ex_cfg noop_relay (ex_env\<lparr>now := 1000 + 1800 * second\<rparr>) None (Some (GetRequestMetadata raw))
       (HeartbeatRequest [] [] [] [] []) \<lparr>wdb = d', wrelay = ()\<rparr> =
     dispatch ex_cfg noop_relay (ex_env\<lparr>now := 1000 + 1800 * second\<rparr>) (HeartbeatRequest [] [] [] [] [])
       (agent_ctx None ex_site (raw_ctx (Some (GetRequestMetadata raw))))
       \<lparr>wdb = touch_agent_used (ex_env\<lparr>now := 1000 + 1800 * second\<rparr>) i d', wrelay = ()\<rparr>"
proof -
  let ?e = "ex_env\<lparr>now := 1000 + 1800 * second\<rparr>"
  obtain row raw d' where i: "site_token_issue ex_env 1 (3600 * second) ex_db = (Inr (row, raw), d')"
    using ex_issues(1) by blast
  have ne: "raw \<noteq> []"
    using i length_b64_encode [of "replicate 32 CHR ''r''"]
    by (auto simp: site_token_issue_def issue_token_def tokenBytes_def Let_def split: sum.splits prod.splits if_splits)
  let ?w = "\<lparr>wdb = d', wrelay = ()\<rparr>"
  have iss: "site_token_issue ex_env (ID ex_site) (3600 * second) ex_db = (Inr (row, raw), wdb ?w)" using i by simp
  from issued_token_opens_both_doors [OF ex_wf iss, of ?e ex_project 7000 7010 "ex_bridge raw" "HeartbeatRequest [] [] [] [] []"
      ex_cfg noop_relay None] ne
  show ?thesis using i by (auto simp: second_def is_agent_request_cases)
qed

text \<open>
  What an agent's call leaves behind: no configuration changed, no session, nothing of the relay manager's.
\<close>

definition quiet :: "'r world \<Rightarrow> 'r world \<Rightarrow> bool" where
  "quiet w w' \<longleftrightarrow> config_same (wdb w) (wdb w') \<and> t_sessions (wdb w') = t_sessions (wdb w) \<and>
     wrelay w' = wrelay w \<and> server_ok (wdb w')"

lemma quiet_trans: "quiet w w1 \<Longrightarrow> quiet w1 w2 \<Longrightarrow> quiet w w2"
  by (auto simp: quiet_def intro: config_same_trans)

lemma quietD: "quiet w w' \<Longrightarrow> config_same (wdb w) (wdb w')" "quiet w w' \<Longrightarrow> server_ok (wdb w')"
  by (simp_all add: quiet_def)

lemma quiet_served_services: "quiet w w' \<Longrightarrow> served_services i (wdb w') = served_services i (wdb w)"
  by (simp add: quiet_def served_services_def config_same_def)

text \<open>An agent's call of a served site: the handler runs for that site, and finds what it needs.\<close>

lemma agent_called:
  assumes "\<forall>s. \<not> fault e s" and "site_served (now e) tok i (wdb w)" and "tok \<noteq> []" "list_all solid tok"
    and "server_ok (wdb w)" and "is_agent_request q"
  obtains cx d p s lo hi where
    "serve cfg rm e peer (Some (GetRequestMetadata tok)) q w = dispatch cfg rm e q cx (w\<lparr>wdb := d\<rparr>)"
    "cx_agent cx = Some \<lparr>ap_site_id = i, ap_project_id = ID p\<rparr>"
    "config_same (wdb w) d \<and> t_sessions d = t_sessions (wdb w)"
    "project_find_by_id e (ID p) d = Inr p" "pr_status p = ProjectStatusActive"
    "site_find_by_id e i d = Inr s" "s \<in> set (rows (t_sites (wdb w))) \<and> live s \<and> ID s = i" "parse_port_range (pr_relay_port_range p) = Inr (lo, hi)"
proof -
  from site_servedE [OF assms(2,5)] obtain s p lo hi where own: "agent_owner (now e) tok (wdb w) = Some (ID s)"
    and s: "s \<in> set (rows (t_sites (wdb w)))" "live s" "ID s = i" "p \<in> set (rows (t_projects (wdb w)))"
    "live p" "ID p = si_project_id s" "pr_status p = ProjectStatusActive"
    and range: "parse_port_range (pr_relay_port_range p) = Inr (lo, hi)" .
  note wf = db_wfD [OF server_okD(3) [OF assms(5)]]
  obtain k where k: "serve cfg rm e peer (Some (GetRequestMetadata tok)) q w =
      dispatch cfg rm e q (agent_ctx peer s (raw_ctx (Some (GetRequestMetadata tok))))
        (w\<lparr>wdb := touch_agent_used e k (wdb w)\<rparr>)"
    using serve_agent [OF assms(1) own assms(3,4) wf(5) s(1,2) assms(6)] by blast
  have found: "project_find_by_id e (ID p) (touch_agent_used e k (wdb w)) = Inr p"
    "site_find_by_id e i (touch_agent_used e k (wdb w)) = Inr s"
    using first_live_ID [OF wf(3) s(4,5)] first_live_ID [OF wf(5) s(1,2)] s(3) assms(1)
    by (simp_all add: project_find_by_id_def site_find_by_id_def touch_agent_used_def)
  show thesis
    by (rule that [OF k _ _ found(1) s(7) found(2) _ range])
      (simp_all add: agent_ctx_def s(1-3,6) config_same_touches(3), simp add: touch_agent_used_def)
qed

lemma heartbeat_served:
  assumes "\<forall>s. \<not> fault e s" and "site_served (now e) tok i (wdb w)" and "tok \<noteq> []" "list_all solid tok"
    and "server_ok (wdb w)"
  shows "\<exists>r w'. serve cfg rm e peer (Some (GetRequestMetadata tok)) (HeartbeatRequest h os v cs cv) w =
      (Inr (HeartbeatR r), w') \<and>
    hr_should_rebootstrap r = (cv \<noteq> compute_config_version (served_services i (wdb w))) \<and>
    quiet w w'"
proof -
  let ?q = "HeartbeatRequest h os v cs cv"
  have "is_agent_request ?q" by (simp add: is_agent_request_cases)
  from agent_called [OF assms this] obtain cx d p s lo hi where
    k: "serve cfg rm e peer (Some (GetRequestMetadata tok)) ?q w = dispatch cfg rm e ?q cx (w\<lparr>wdb := d\<rparr>)"
    and x: "cx_agent cx = Some \<lparr>ap_site_id = i, ap_project_id = ID p\<rparr>"
      "config_same (wdb w) d \<and> t_sessions d = t_sessions (wdb w)"
      "project_find_by_id e (ID p) d = Inr p" "pr_status p = ProjectStatusActive" .
  obtain r w' where hb: "heartbeat e h os v cs cv cx (w\<lparr>wdb := d\<rparr>) = (Inr r, w')"
    using assms(1) x
    by (simp add: heartbeat_def site_update_agent_meta_def service_list_by_site_def cursor_of_def Let_def)
  have sv: "serve cfg rm e peer (Some (GetRequestMetadata tok)) ?q w = (Inr (HeartbeatR r), w')"
    using k hb by (simp add: reply_def)
  have "t_sessions (wdb w') = t_sessions d" using arg_cong [OF agent_handlers_frame(2) [OF hb], of t_sessions] by simp
  then have q: "quiet w w'"
    using agent_handlers_inert(2) [OF hb] x(2) serve_keeps [OF assms(5) sv] config_same_trans [of "wdb w" d "wdb w'"]
    by (simp add: quiet_def inert_def)
  have "served_services i d = served_services i (wdb w)" using x(2) by (simp add: served_services_def config_same_def)
  then show ?thesis using sv heartbeat_Inr [OF hb] x q by auto
qed

lemma bootstrap_served:
  assumes "\<forall>s. \<not> fault e s" and "site_served (now e) tok i (wdb w)" and "tok \<noteq> []" "list_all solid tok"
    and "server_ok (wdb w)"
  shows "\<exists>b w'. serve cfg rm e peer (Some (GetRequestMetadata tok)) (BootstrapRequest h os v) w =
      (Inr (BootstrapR b), w') \<and> br_tunnels b = tunnels_of (served_services i (wdb w)) \<and>
    (\<exists>s\<in>set (rows (t_sites (wdb w))). live s \<and> ID s = i \<and> br_site_slug b = si_name s) \<and>
    br_config_version b = compute_config_version (served_services i (wdb w)) \<and>
    quiet w w'"
proof -
  let ?q = "BootstrapRequest h os v"
  have "is_agent_request ?q" by (simp add: is_agent_request_cases)
  from agent_called [OF assms this] obtain cx d p s lo hi where
    k: "serve cfg rm e peer (Some (GetRequestMetadata tok)) ?q w = dispatch cfg rm e ?q cx (w\<lparr>wdb := d\<rparr>)"
    and x: "cx_agent cx = Some \<lparr>ap_site_id = i, ap_project_id = ID p\<rparr>"
      "config_same (wdb w) d \<and> t_sessions d = t_sessions (wdb w)"
      "project_find_by_id e (ID p) d = Inr p" "pr_status p = ProjectStatusActive"
      "site_find_by_id e i d = Inr s" "s \<in> set (rows (t_sites (wdb w))) \<and> live s \<and> ID s = i" "parse_port_range (pr_relay_port_range p) = Inr (lo, hi)" .
  obtain b w' where bs: "bootstrap (agent_service_config cfg) e h os v cx (w\<lparr>wdb := d\<rparr>) = (Inr b, w')"
    using assms(1) x
    by (simp add: bootstrap_def site_update_agent_meta_def service_list_by_site_def cursor_of_def Let_def)
  have sv: "serve cfg rm e peer (Some (GetRequestMetadata tok)) ?q w = (Inr (BootstrapR b), w')"
    using k bs by (simp add: reply_def)
  have "t_sessions (wdb w') = t_sessions d" using arg_cong [OF agent_handlers_frame(1) [OF bs], of t_sessions] by simp
  then have q: "quiet w w'"
    using agent_handlers_inert(1) [OF bs] x(2) serve_keeps [OF assms(5) sv] config_same_trans [of "wdb w" d "wdb w'"]
    by (simp add: quiet_def inert_def)
  have "served_services i d = served_services i (wdb w)" using x(2) by (simp add: served_services_def config_same_def)
  then show ?thesis using sv bootstrap_Inr [OF bs] x q by auto
qed

text \<open>The loop goes on where it was; the bridge is set once.\<close>

lemma wire_loop_append:
  "wire_loop acfg h evs r m w = (None, r1, m1, w1) \<Longrightarrow>
     wire_loop acfg h (evs @ evs') r m w = wire_loop acfg h evs' r1 m1 w1"
  by (induction acfg h evs r m w rule: wire_loop.induct)
    (auto split: sum.splits prod.splits if_splits)

lemma applyBootstrap_bridge: "rt_bridge (snd (applyBootstrap cfg e boot r)) = rt_bridge r"
  by (auto simp: applyBootstrap_def Let_def startSupervisor_def stopSupervisor_def split: sum.splits)

lemma wire_loop_bridge: "wire_loop acfg h evs r m w = (out, r1, m1, w1) \<Longrightarrow> rt_bridge r1 = rt_bridge r"
  by (induction acfg h evs r m w rule: wire_loop.induct)
    (auto simp: stopSupervisor_def applyBootstrap_bridge split: sum.splits prod.splits if_splits)

text \<open>One call of each kind, over the server.\<close>

lemma agent_heartbeat_served:
  assumes "\<forall>s. \<not> fault e s" and "site_served (now e) (ac_token acfg) i (wdb w)"
    and "ac_token acfg \<noteq> []" "list_all solid (ac_token acfg)" and "server_ok (wdb w)"
  shows "\<exists>resp w'. agent_heartbeat acfg h (over_server cfg rm e peer acfg) r m w =
      (Inr resp, ObserveHeartbeat ''ok'' m, w') \<and>
    hr_should_rebootstrap resp = (rt_cur_version r \<noteq> compute_config_version (served_services i (wdb w))) \<and>
    quiet w w'"
proof -
  from heartbeat_served [OF assms, of cfg rm peer "agent_hostname acfg h" "ah_os h" "ah_version h" "[]" "rt_cur_version r"]
  obtain resp w' where "serve cfg rm e peer (Some (GetRequestMetadata (ac_token acfg)))
      (HeartbeatRequest (agent_hostname acfg h) (ah_os h) (ah_version h) [] (rt_cur_version r)) w =
        (Inr (HeartbeatR resp), w')"
    "hr_should_rebootstrap resp = (rt_cur_version r \<noteq> compute_config_version (served_services i (wdb w)))"
    "quiet w w'" by blast
  then show ?thesis by (simp add: agent_heartbeat_def over_server_def)
qed

lemma agent_bootstrap_served:
  assumes "\<forall>s. \<not> fault e s" and "site_served (now e) (ac_token acfg) i (wdb w)"
    and "ac_token acfg \<noteq> []" "list_all solid (ac_token acfg)" and "server_ok (wdb w)"
  shows "\<exists>boot w'. agent_bootstrap acfg h (\<lambda>n. over_server cfg rm e peer acfg) m w =
      (Inr boot, ObserveBootstrap ''ok'' m, w') \<and> br_tunnels boot = tunnels_of (served_services i (wdb w)) \<and>
    (\<exists>s\<in>set (rows (t_sites (wdb w))). live s \<and> ID s = i \<and> br_site_slug boot = si_name s) \<and>
    br_config_version boot = compute_config_version (served_services i (wdb w)) \<and>
    quiet w w'"
proof -
  from bootstrap_served [OF assms, of cfg rm peer "agent_hostname acfg h" "ah_os h" "ah_version h"]
  obtain boot w' where "serve cfg rm e peer (Some (GetRequestMetadata (ac_token acfg)))
      (bootstrap_request acfg h) w = (Inr (BootstrapR boot), w')"
    "br_tunnels boot = tunnels_of (served_services i (wdb w))"
    "br_config_version boot = compute_config_version (served_services i (wdb w))"
    "\<exists>s\<in>set (rows (t_sites (wdb w))). live s \<and> ID s = i \<and> br_site_slug boot = si_name s"
    "quiet w w'" unfolding bootstrap_request_def by blast
  then show ?thesis
    by (simp add: agent_bootstrap_def wire_bootstrap.simps over_server_def maxBootstrapAttempts_def)
qed

text \<open>A tick that reaches a server that serves the site.\<close>

lemma tick_follows:
  assumes "server_ok (wdb w)" and "\<forall>s. \<not> fault e1 s" and "\<forall>s. \<not> fault e2 s" and "\<not> fault e3 ''agent: write config''"
    and "site_served (now e1) (ac_token acfg) i (wdb w)" and "site_served (now e2) (ac_token acfg) i (wdb w)"
    and "ac_token acfg \<noteq> []" and "list_all solid (ac_token acfg)" and "rt_bridge r = Some b" and "bg_local_addr b \<noteq> []"
  shows "\<exists>r2 m2 w2. wire_loop acfg h
      [WireTick (over_server cfg rm e1 peer acfg) (\<lambda>n. over_server cfg rm e2 peer acfg) e3] r m w = (None, r2, m2, w2) \<and>
    quiet w w2 \<and> rt_cur_version r2 = compute_config_version (served_services i (wdb w)) \<and>
    (rt_cur_version r = rt_cur_version r2 \<longrightarrow> r2 = r) \<and>
    (rt_cur_version r \<noteq> rt_cur_version r2 \<longrightarrow>
      (\<exists>boot toml. br_tunnels boot = tunnels_of (served_services i (wdb w)) \<and>
        (\<exists>s\<in>set (rows (t_sites (wdb w))). live s \<and> ID s = i \<and> br_site_slug boot = si_name s) \<and>
        RenderRatholeClient (Some boot) (ac_token acfg) (bg_local_addr b) = Inr toml \<and>
        rt_files r2 (client_config_path acfg) = Some toml \<and>
        (ac_rathole_binary acfg \<noteq> [] \<longrightarrow>
          rt_sup r2 = Some (ac_rathole_args acfg @ [client_config_path acfg]))))"
proof -
  obtain resp w2 where hb: "agent_heartbeat acfg h (over_server cfg rm e1 peer acfg) r m w =
      (Inr resp, ObserveHeartbeat ''ok'' m, w2)"
    "hr_should_rebootstrap resp = (rt_cur_version r \<noteq> compute_config_version (served_services i (wdb w)))" "quiet w w2"
    using agent_heartbeat_served [OF assms(2,5,7,8,1)] by blast
  show ?thesis
  proof (cases "hr_should_rebootstrap resp")
    case True
    have same: "map site_ident (rows (t_sites (wdb w2))) = map site_ident (rows (t_sites (wdb w)))"
      using quietD(1) [OF hb(3)] by (simp add: config_same_def)
    obtain boot w3 where bs: "agent_bootstrap acfg h (\<lambda>n. over_server cfg rm e2 peer acfg) (ObserveHeartbeat ''ok'' m) w2 =
        (Inr boot, ObserveBootstrap ''ok'' (ObserveHeartbeat ''ok'' m), w3)"
      "br_tunnels boot = tunnels_of (served_services i (wdb w))"
      "\<exists>s\<in>set (rows (t_sites (wdb w2))). live s \<and> ID s = i \<and> br_site_slug boot = si_name s"
      "br_config_version boot = compute_config_version (served_services i (wdb w))" "quiet w2 w3"
      using agent_bootstrap_served [OF assms(3) site_served_config_same [OF quietD(1) [OF hb(3)] assms(6)] assms(7,8)
          quietD(2) [OF hb(3)]] quiet_served_services [OF hb(3)] by metis
    have slug: "\<exists>s\<in>set (rows (t_sites (wdb w))). live s \<and> ID s = i \<and> br_site_slug boot = si_name s"
      using bs(3) same_idents [OF same] by fastforce
    obtain r2 where ap: "applyBootstrap acfg e3 boot r = (Inr (), r2)"
      using applyBootstrap_ok [OF assms(9,10,7,4)] by blast
    have "wire_loop acfg h [WireTick (over_server cfg rm e1 peer acfg) (\<lambda>n. over_server cfg rm e2 peer acfg) e3] r m w =
        (None, r2, ObserveBootstrap ''ok'' (ObserveHeartbeat ''ok'' m), w3)"
      using hb(1) True bs(1) ap by simp
    moreover have "quiet w w3" using quiet_trans hb(3) bs(5) by blast
    ultimately show ?thesis
      using applyBootstrap_Inr [OF ap] bs(2,4) hb(2) True slug assms(9) by (auto simp: remote_addr_def)
  next
    case False
    then show ?thesis using hb by auto
  qed
qed

text \<open>
  C13. The agent follows the server. Whatever has happened to the two, failed calls, rebootstraps, and any
  changes by others: as soon as one tick reaches a server that serves the site, the agent is at the
  configuration version of the services the server has for it. If it already was, the tick changed nothing
  about it; if not, the file it runs rathole-client on is the rendering of exactly those services'
  tunnels, with the client restarted. The tick itself changes no configuration of the server.
\<close>
theorem agent_follows_server:
  assumes "wire_loop acfg h evs r m w = (None, r1, m1, w1)" and "server_ok (wdb w1)"
    and "\<forall>s. \<not> fault e1 s" and "\<forall>s. \<not> fault e2 s" and "\<not> fault e3 ''agent: write config''"
    and "site_served (now e1) (ac_token acfg) i (wdb w1)" and "site_served (now e2) (ac_token acfg) i (wdb w1)"
    and "ac_token acfg \<noteq> []" and "list_all solid (ac_token acfg)"
    and "rt_bridge r = Some b" and "bg_local_addr b \<noteq> []"
  shows "\<exists>r2 m2 w2. wire_loop acfg h (evs @
      [WireTick (over_server cfg rm e1 peer acfg) (\<lambda>n. over_server cfg rm e2 peer acfg) e3]) r m w = (None, r2, m2, w2) \<and>
    config_same (wdb w1) (wdb w2) \<and> server_ok (wdb w2) \<and>
    rt_cur_version r2 = compute_config_version (served_services i (wdb w2)) \<and>
    (rt_cur_version r1 = rt_cur_version r2 \<longrightarrow> r2 = r1) \<and>
    (rt_cur_version r1 \<noteq> rt_cur_version r2 \<longrightarrow>
      (\<exists>boot toml. br_tunnels boot = tunnels_of (served_services i (wdb w2)) \<and>
        RenderRatholeClient (Some boot) (ac_token acfg) (bg_local_addr b) = Inr toml \<and>
        rt_files r2 (client_config_path acfg) = Some toml \<and>
        (ac_rathole_binary acfg \<noteq> [] \<longrightarrow>
          rt_sup r2 = Some (ac_rathole_args acfg @ [client_config_path acfg]))))"
proof -
  have br: "rt_bridge r1 = Some b" using wire_loop_bridge [OF assms(1)] assms(10) by simp
  from tick_follows [OF assms(2-9) br assms(11), of h cfg rm peer m1] obtain r2 m2 w2 where
    "wire_loop acfg h [WireTick (over_server cfg rm e1 peer acfg) (\<lambda>n. over_server cfg rm e2 peer acfg) e3] r1 m1 w1 =
      (None, r2, m2, w2)" and q: "quiet w1 w2"
    and "rt_cur_version r2 = compute_config_version (served_services i (wdb w1))"
    "rt_cur_version r1 = rt_cur_version r2 \<longrightarrow> r2 = r1"
    "rt_cur_version r1 \<noteq> rt_cur_version r2 \<longrightarrow>
      (\<exists>boot toml. br_tunnels boot = tunnels_of (served_services i (wdb w1)) \<and>
        RenderRatholeClient (Some boot) (ac_token acfg) (bg_local_addr b) = Inr toml \<and>
        rt_files r2 (client_config_path acfg) = Some toml \<and>
        (ac_rathole_binary acfg \<noteq> [] \<longrightarrow> rt_sup r2 = Some (ac_rathole_args acfg @ [client_config_path acfg])))"
    by blast
  then show ?thesis
    using quietD [OF q] unfolding wire_loop_append [OF assms(1)]
    by (intro exI [of _ r2] exI [of _ m2] exI [of _ w2] conjI)
      (simp_all del: wire_loop.simps add: quiet_served_services [OF q])
qed

text \<open>The example agent: a tick that reaches nobody, then one that reaches the server.\<close>

definition unreachable_call :: "'w agent_call" where
  "unreachable_call = \<lparr>ca_send = (\<lambda>q w. (Inl (Unreachable ''connection refused''), w)),
     ca_cancelled = False, ca_cancelled_wait = False\<rparr>"

definition ex_host :: agent_host where
  "ex_host = \<lparr>ah_hostname = ''bastion'', ah_os = ''linux'', ah_version = ''dev''\<rparr>"

lemma ex_site_served: "site_served t ''agent'' 1 ex_db"
  by (simp add: site_served_def ex_agent_owner)

theorem agent_follows_server_witness:
  "\<exists>r2 m2 w2. wire_loop ex_conf ex_host [WireTick unreachable_call (\<lambda>n. unreachable_call) ex_env,
       WireTick (over_server ex_cfg noop_relay ex_env None ex_conf)
         (\<lambda>n. over_server ex_cfg noop_relay ex_env None ex_conf) ex_env]
       ex_runtime None \<lparr>wdb = ex_db, wrelay = ()\<rparr> = (None, r2, m2, w2) \<and>
     rt_cur_version r2 = compute_config_version (served_services 1 (wdb w2)) \<and> config_same ex_db (wdb w2)"
proof -
  let ?w = "\<lparr>wdb = ex_db, wrelay = ()\<rparr>"
  have "wire_loop ex_conf ex_host [WireTick unreachable_call (\<lambda>n. unreachable_call) ex_env] ex_runtime None ?w =
      (None, ex_runtime, None, ?w)"
    by (simp add: agent_heartbeat_def unreachable_call_def ObserveHeartbeat_def)
  from agent_follows_server [OF this, of ex_env ex_env ex_env 1 "ex_bridge ''agent''" ex_cfg noop_relay None]
  show ?thesis using ex_server_ok ex_solid ex_site_served by auto
qed

subsection \<open>The bridge (bridge.go)\<close>

text \<open>
  handle: whether the dial and the writing of the request went through, and the proxy, which answers with
  a status or not at all. What is left is whether bytes are then copied.
\<close>

definition bridge_handle ::
  "bridge \<Rightarrow> bool \<Rightarrow> bool \<Rightarrow> (connect_request \<Rightarrow> 'd \<Rightarrow> nat option \<times> 'd) \<Rightarrow> 'd \<Rightarrow> bool \<times> 'd" where
  "bridge_handle b dialled written proxy d =
     (if \<not> dialled then (False, d)
      else if \<not> written then (False, d)
      else
        (case proxy (bridge_request b) d of
           (None, d) \<Rightarrow> (False, d)
         | (Some st, d) \<Rightarrow> (st = 200, d)))"

text \<open>serve: Accept gives a connection, or fails, with whether the context has ended by then.\<close>

datatype 'd bridge_event =
    BridgeConn bool bool "connect_request \<Rightarrow> 'd \<Rightarrow> nat option \<times> 'd"
  | BridgeAcceptFails bool

fun bridge_serve :: "bridge \<Rightarrow> 'd bridge_event list \<Rightarrow> 'd \<Rightarrow> bool list \<times> 'd \<times> bool" where
  "bridge_serve b [] d = ([], d, False)"
| "bridge_serve b (BridgeConn dialled written proxy # evs) d =
     (let (ok, d) = bridge_handle b dialled written proxy d; (oks, d, returned) = bridge_serve b evs d
      in (ok # oks, d, returned))"
| "bridge_serve b (BridgeAcceptFails done # evs) d =
     (if done then ([], d, True) else bridge_serve b evs d)"

text \<open>The auth proxy as the other end: it answers every request it has read.\<close>

definition proxy_at :: "env \<Rightarrow> connect_request \<Rightarrow> db \<Rightarrow> nat option \<times> db" where
  "proxy_at e rq d = (case handle e (Some rq) d of ((st, backend), d) \<Rightarrow> (Some st, d))"

lemma bridge_handle_served:
  assumes "server_ok d" and "site_served (now e) (bg_bearer_token b) i d" and "bg_bearer_token b \<noteq> []"
    and "\<forall>s. \<not> fault e s"
  shows "\<exists>d'. bridge_handle b True True (proxy_at e) d = (True, d') \<and> config_same d d' \<and> server_ok d'"
proof -
  from site_servedE [OF assms(2,1)] obtain s p lo hi where
    own: "agent_owner (now e) (bg_bearer_token b) d = Some (ID s)"
    and s: "s \<in> set (rows (t_sites d))" "live s" "ID s = i" "p \<in> set (rows (t_projects d))"
    "live p" "ID p = si_project_id s" "pr_status p = ProjectStatusActive"
    and range: "parse_port_range (pr_relay_port_range p) = Inr (lo, hi)" .
  note wf = db_wfD [OF server_okD(3) [OF assms(1)]]
  obtain d' where h: "handle e (Some (bridge_request b)) d =
      ((200, Some (loopback @ [colon] @ format_uint (unat lo))), d')"
    using handle_agent [OF assms(4) own assms(3) wf(5,3) s(1,2,4-7) range, of "bridge_request b"]
    by (auto simp: bridge_request_def Let_def)
  then show ?thesis
    using config_same_handle [OF h] handle_keeps [OF assms(1) h] by (simp add: bridge_handle_def proxy_at_def)
qed

text \<open>
  While the site is served, every connection of the rathole client that reaches the proxy is let
  through, however many there are.
\<close>
theorem bridge_lets_client_through:
  assumes "server_ok d" and "\<forall>e\<in>set es. site_served (now e) (bg_bearer_token b) i d \<and> (\<forall>s. \<not> fault e s)"
    and "bg_bearer_token b \<noteq> []"
  shows "\<exists>d'. bridge_serve b (map (\<lambda>e. BridgeConn True True (proxy_at e)) es) d =
    (replicate (length es) True, d', False) \<and> config_same d d'"
  using assms(1,2)
proof (induction es arbitrary: d)
  case (Cons e es)
  obtain d1 where h: "bridge_handle b True True (proxy_at e) d = (True, d1)" "config_same d d1" "server_ok d1"
    using bridge_handle_served [OF Cons.prems(1) _ assms(3), of e i] Cons.prems(2) by auto
  have "\<forall>e\<in>set es. site_served (now e) (bg_bearer_token b) i d1 \<and> (\<forall>s. \<not> fault e s)"
    using site_served_config_same [OF h(2)] Cons.prems(2) by simp
  from Cons.IH [OF h(3) this] h show ?case using config_same_trans [OF h(2)] by auto
qed simp

text \<open>
  close() without the context's end, as when Run returns an error: Accept fails from then on, and the
  goroutine never leaves its loop.
\<close>
lemma closed_bridge_spins: "bridge_serve b (replicate n (BridgeAcceptFails False)) d = ([], d, False)"
  by (induction n) simp_all

end
