(* ===== verification/ChildIO.thy ===== *)
theory ChildIO
  imports Supervisor
begin

section \<open>One run of a child (internal/supervisor/supervisor.go)\<close>

text \<open>
  runOnce in its steps: the pipes, exec, the process id that Pid reads, the callbacks, the two pipe goroutines and
  the goroutine that ends the child with its context. \<open>Supervisor\<close> has the loop around it, and at the end of
  this theory the two are one loop in time, with the moment at which its context ends. What a line
  of output becomes is decided by bufio.Scanner, with a buffer of at most one megabyte.
\<close>

subsection \<open>pipe\<close>

definition max_line :: nat where "max_line = 1024 * 1024"

definition line_feed :: char where "line_feed = CHR 0x0A"

text \<open>ScanLines drops one carriage return at the end of a line.\<close>

definition drop_cr :: "string \<Rightarrow> string" where
  "drop_cr l = (if l \<noteq> [] \<and> last l = CHR 0x0D then butlast l else l)"

text \<open>
  The lines handed to OnLog, and whether the reader got to the end of the output: it gives up at a line
  that fills the buffer without a newline in it.
\<close>

function sup_pipe :: "string \<Rightarrow> string list \<times> bool" where
  "sup_pipe s =
     (if s = [] then ([], True)
      else
        (let l = takeWhile (\<lambda>c. c \<noteq> line_feed) s; rest = dropWhile (\<lambda>c. c \<noteq> line_feed) s in
         if max_line \<le> length l then ([], False)
         else
           (case rest of
              [] \<Rightarrow> ([drop_cr l], True)
            | _ # t \<Rightarrow> (let (ls, ok) = sup_pipe t in (drop_cr l # ls, ok)))))"
  by pat_completeness auto
termination
proof (relation "measure length")
  fix s l rest :: string and c t
  assume "rest = dropWhile (\<lambda>c. c \<noteq> line_feed) s" "rest = c # t"
  then have "Suc (length t) = length (dropWhile (\<lambda>c. c \<noteq> line_feed) s)" by (metis length_Cons)
  also have "\<dots> \<le> length s" by (rule length_dropWhile_le)
  finally show "(t, s) \<in> measure length" by simp
qed simp

declare sup_pipe.simps [simp del]

subsection \<open>runOnce\<close>

record spec =
  sp_binary :: string
  sp_args :: "string list"
  sp_env :: "string list"

text \<open>The supervisor's mutable part: the process id of the running child.\<close>

type_synonym cmd = "nat option"

definition Pid :: "cmd \<Rightarrow> nat" where
  "Pid c = (case c of None \<Rightarrow> 0 | Some pid \<Rightarrow> pid)"

text \<open>
  What a run meets: errors of the pipes and of exec, or a process id, at what time; its output, and how much of
  it had been read when Wait closed the pipes; when its context ends, and when it would exit by itself, or how
  long after the signal; and what Wait reports.
\<close>

record child_io =
  ci_stdout_pipe :: "err option"
  ci_stderr_pipe :: "err option"
  ci_exec :: "err + nat"
  ci_start :: time
  ci_stdout :: string
  ci_stdout_read :: nat
  ci_stderr :: string
  ci_stderr_read :: nat
  ci_own_exit :: "time option"
  ci_ctx_done :: "time option"
  ci_after_term :: "duration option"
  ci_wait :: "err option"

datatype child_act =
    Exec string "string list" "string list option"
  | Started nat
  | TermSignal time
  | Kill time
  | Exited time

definition grace :: duration where "grace = 5 * second"

text \<open>
  The end of a child: by itself, or, when the context ends before, signalled, and killed five seconds
  after if it is still there, which it cannot refuse. \<open>None\<close> is a child that runs on.
\<close>

definition child_end :: "child_io \<Rightarrow> (child_act list \<times> time) option" where
  "child_end io =
     (let own = map_option (\<lambda>t. ([], t)) (ci_own_exit io) in
      case ci_ctx_done io of
        None \<Rightarrow> own
      | Some done \<Rightarrow>
          (let c = max done (ci_start io) in
           if (case ci_own_exit io of None \<Rightarrow> False | Some t \<Rightarrow> t \<le> c) then own
           else
             (case ci_after_term io of
                Some x \<Rightarrow>
                  if x < grace then Some ([TermSignal c], c + x)
                  else Some ([TermSignal c, Kill (c + grace)], c + grace)
              | None \<Rightarrow> Some ([TermSignal c, Kill (c + grace)], c + grace))))"

definition ctx_done_by :: "child_io \<Rightarrow> time \<Rightarrow> bool" where
  "ctx_done_by io t = (case ci_ctx_done io of None \<Rightarrow> False | Some c \<Rightarrow> c \<le> t)"

definition child_env :: "string list \<Rightarrow> spec \<Rightarrow> string list option" where
  "child_env environ sp = (if sp_env sp = [] then None else Some (environ @ sp_env sp))"

text \<open>
  runOnce: its error, what it did, the lines of the two streams, and the process id before and after;
  \<open>None\<close> while the child runs on.
\<close>

definition run_once ::
  "spec \<Rightarrow> string list \<Rightarrow> child_io \<Rightarrow> cmd \<Rightarrow>
     ((err option \<times> child_act list \<times> string list \<times> string list) \<times> cmd) option" where
  "run_once sp environ io c =
     (case ci_stdout_pipe io of
        Some x \<Rightarrow> Some ((Some x, [], [], []), c)
      | None \<Rightarrow>
          (case ci_stderr_pipe io of
             Some x \<Rightarrow> Some ((Some x, [], [], []), c)
           | None \<Rightarrow>
               (let ex = Exec (sp_binary sp) (sp_args sp) (child_env environ sp) in
                case ci_exec io of
                  Inl x \<Rightarrow> Some ((Some x, [ex], [], []), c)
                | Inr pid \<Rightarrow>
                    (case child_end io of
                       None \<Rightarrow> None
                     | Some (acts, t) \<Rightarrow>
                         Some ((if ctx_done_by io t then None else ci_wait io,
                                ex # Started pid # acts @ [Exited t],
                                fst (sup_pipe (take (ci_stdout_read io) (ci_stdout io))),
                                fst (sup_pipe (take (ci_stderr_read io) (ci_stderr io)))),
                               None)))))"

text \<open>The process id while the child runs.\<close>

definition running_cmd :: "child_io \<Rightarrow> cmd \<Rightarrow> cmd" where
  "running_cmd io c =
     (case (ci_stdout_pipe io, ci_stderr_pipe io, ci_exec io) of (None, None, Inr pid) \<Rightarrow> Some pid | _ \<Rightarrow> c)"

subsection \<open>What is logged\<close>

lemma takeWhile_line:
  assumes "line_feed \<notin> set l"
  shows "takeWhile (\<lambda>c. c \<noteq> line_feed) (l @ line_feed # s) = l" "dropWhile (\<lambda>c. c \<noteq> line_feed) (l @ line_feed # s) = line_feed # s"
  using assms by (induction l) auto

text \<open>
  Lines of less than a megabyte are handed on one by one, in order, and after the first longer one
  nothing is read any more, whatever the child goes on to write.
\<close>
theorem sup_pipe_lines:
  assumes "\<forall>l\<in>set ls. line_feed \<notin> set l \<and> length l < max_line"
  shows "sup_pipe (concat (map (\<lambda>l. l @ [line_feed]) ls)) = (map drop_cr ls, True)"
    and "line_feed \<notin> set big \<Longrightarrow> max_line \<le> length big \<Longrightarrow>
      sup_pipe (concat (map (\<lambda>l. l @ [line_feed]) ls) @ big @ s) = (map drop_cr ls, False)"
proof -
  have step: "sup_pipe (l @ line_feed # s) = (drop_cr l # fst (sup_pipe s), snd (sup_pipe s))"
    if "line_feed \<notin> set l" "length l < max_line" for l s
    using that takeWhile_line [OF that(1)] by (subst sup_pipe.simps) (simp add: Let_def split: prod.splits)
  show "sup_pipe (concat (map (\<lambda>l. l @ [line_feed]) ls)) = (map drop_cr ls, True)"
    using assms by (induction ls) (simp_all add: step sup_pipe.simps [of "[]"])
  assume big: "line_feed \<notin> set big" "max_line \<le> length big"
  have "takeWhile (\<lambda>c. c \<noteq> line_feed) (big @ s) = big @ takeWhile (\<lambda>c. c \<noteq> line_feed) s"
    using big(1) by (intro takeWhile_append2) auto
  moreover have "big \<noteq> []" using big(2) by (auto simp: max_line_def)
  ultimately have "sup_pipe (big @ s) = ([], False)" using big(2) by (subst sup_pipe.simps) (simp add: Let_def)
  then show "sup_pipe (concat (map (\<lambda>l. l @ [line_feed]) ls) @ big @ s) = (map drop_cr ls, False)"
    using assms by (induction ls) (simp_all add: step)
qed

lemma child_end_stderr: "child_end (io\<lparr>ci_stderr := x, ci_stderr_read := n\<rparr>) = child_end io"
  by (simp add: child_end_def Let_def split: option.splits)

text \<open>Wait closes the pipes: a child that prints why it fails and exits at once may have nothing logged.\<close>

lemma last_words_can_be_lost:
  "child_end io = Some (acts, t) \<Longrightarrow> ci_stdout_pipe io = None \<Longrightarrow> ci_stderr_pipe io = None \<Longrightarrow> ci_exec io = Inr pid \<Longrightarrow>
     \<exists>err acts' out. run_once sp environ (io\<lparr>ci_stderr := msg, ci_stderr_read := 0\<rparr>) c = Some ((err, acts', out, []), None)"
  using child_end_stderr [where io = io and x = msg and n = 0] by (simp add: run_once_def sup_pipe.simps [of "[]"] Let_def)

subsection \<open>A cancelled child is gone\<close>

lemma child_end_cancelled:
  assumes "ci_ctx_done io = Some d" and "\<forall>x. ci_after_term io = Some x \<longrightarrow> 0 \<le> x"
  shows "\<exists>acts t. child_end io = Some (acts, t) \<and> t \<le> max d (ci_start io) + grace \<and>
    ((\<exists>k. Kill k \<in> set acts) \<longrightarrow>
      TermSignal (max d (ci_start io)) \<in> set acts \<and> t = max d (ci_start io) + grace \<and>
      \<not> (\<exists>x. ci_after_term io = Some x \<and> x < grace))"
proof -
  let ?c = "max d (ci_start io)"
  have g: "0 \<le> grace" by (simp add: grace_def second_def)
  show ?thesis
  proof (cases "\<exists>t. ci_own_exit io = Some t \<and> t \<le> ?c")
    case True
    then obtain t where t: "ci_own_exit io = Some t" "t \<le> ?c" by blast
    then have "child_end io = Some ([], t)" using assms(1) by (simp add: child_end_def Let_def)
    then show ?thesis using t(2) g by auto
  next
    case False
    then have own: "(case ci_own_exit io of None \<Rightarrow> False | Some t \<Rightarrow> t \<le> ?c) = False"
      by (simp split: option.splits)
    then have e: "child_end io = (case ci_after_term io of
        Some x \<Rightarrow> if x < grace then Some ([TermSignal ?c], ?c + x) else Some ([TermSignal ?c, Kill (?c + grace)], ?c + grace)
      | None \<Rightarrow> Some ([TermSignal ?c, Kill (?c + grace)], ?c + grace))"
      unfolding child_end_def assms(1) by (simp only: Let_def option.case if_False)
    show ?thesis
    proof (cases "ci_after_term io")
      case None
      then show ?thesis unfolding e by simp
    next
      case (Some x)
      then show ?thesis using assms(2) unfolding e by (cases "x < grace") simp_all
    qed
  qed
qed

text \<open>
  Once its context has ended a run is over within the five seconds of grace, whatever the child does, with no
  error if the child had been started, and with the process id cleared; it is killed only if the signal did
  not end it in time.
\<close>
theorem cancelled_child_gone:
  assumes "ci_ctx_done io = Some d" and "ci_stdout_pipe io = None" and "ci_stderr_pipe io = None"
    and "ci_exec io = Inr pid" and "\<forall>x. ci_after_term io = Some x \<longrightarrow> 0 \<le> x"
  shows "\<exists>err acts t out serr. run_once sp environ io c = Some ((err, acts @ [Exited t], out, serr), None) \<and>
    t \<le> max d (ci_start io) + grace \<and> (d \<le> t \<longrightarrow> err = None) \<and>
    ((\<exists>k. Kill k \<in> set acts) \<longrightarrow>
      TermSignal (max d (ci_start io)) \<in> set acts \<and> t = max d (ci_start io) + grace \<and>
      \<not> (\<exists>x. ci_after_term io = Some x \<and> x < grace))"
proof -
  obtain acts t where e: "child_end io = Some (acts, t)" "t \<le> max d (ci_start io) + grace"
    "(\<exists>k. Kill k \<in> set acts) \<longrightarrow> TermSignal (max d (ci_start io)) \<in> set acts \<and>
      t = max d (ci_start io) + grace \<and> \<not> (\<exists>x. ci_after_term io = Some x \<and> x < grace)"
    using child_end_cancelled [OF assms(1,5)] by blast
  let ?acts = "Exec (sp_binary sp) (sp_args sp) (child_env environ sp) # Started pid # acts"
  have "\<exists>out serr. run_once sp environ io c =
      Some ((if d \<le> t then None else ci_wait io, ?acts @ [Exited t], out, serr), None)"
    using assms(1-4) e(1) by (simp add: run_once_def ctx_done_by_def Let_def)
  then obtain out serr where r: "run_once sp environ io c =
      Some ((if d \<le> t then None else ci_wait io, ?acts @ [Exited t], out, serr), None)" by blast
  show ?thesis
    using e(2,3) by (intro exI [of _ "if d \<le> t then None else ci_wait io"] exI [of _ ?acts] exI [of _ t]
        exI [of _ out] exI [of _ serr] conjI r) auto
qed

text \<open>The runs \<open>Supervisor.Run\<close> is given are these.\<close>

theorem run_once_is_runOnce:
  assumes "run_once sp environ io c = Some ((err, acts, out, serr), c')"
  shows "err = runOnce \<lparr>cr_launched = (\<exists>pid. Started pid \<in> set acts), cr_start = ci_start io, cr_exit = t,
      cr_err = (case ci_stdout_pipe io of Some x \<Rightarrow> Some x | None \<Rightarrow>
        (case ci_stderr_pipe io of Some x \<Rightarrow> Some x | None \<Rightarrow>
          (case ci_exec io of Inl x \<Rightarrow> Some x | Inr _ \<Rightarrow> ci_wait io))),
      cr_cancelled = (\<exists>t. Exited t \<in> set acts \<and> ctx_done_by io t), cr_cancelled_wait = w\<rparr>"
  using assms
  by (cases "ci_stdout_pipe io"; cases "ci_stderr_pipe io"; cases "ci_exec io")
    (auto simp: run_once_def runOnce_def child_end_def Let_def split: option.splits if_splits)

subsection \<open>The loop in time\<close>

text \<open>
  Run around runOnce, with a clock: \<open>done\<close> is when the context ends, if it does, and each child comes with how long
  it would live if nobody signalled it. A run is over when its child has exited, or at once when there is none; a
  wait is over when the time has passed or the context has ended. A child that runs on is the last thing seen.
\<close>

datatype sup_step = Ran time "child_act list" time "err option" | Waits time duration | ReturnsAt time

definition ended :: "time option \<Rightarrow> time \<Rightarrow> bool" where
  "ended done t = (case done of None \<Rightarrow> False | Some d \<Rightarrow> d \<le> t)"

definition child_at :: "time option \<Rightarrow> time \<Rightarrow> duration option \<times> child_io \<Rightarrow> child_io" where
  "child_at done t x =
     (snd x)\<lparr>ci_start := t, ci_ctx_done := done, ci_own_exit := map_option (\<lambda>l. t + l) (fst x)\<rparr>"

fun exit_time :: "time \<Rightarrow> child_act list \<Rightarrow> time" where
  "exit_time t [] = t"
| "exit_time t [Exited u] = u"
| "exit_time t (a # as) = exit_time t as"

fun timed_loop ::
  "spec \<Rightarrow> string list \<Rightarrow> time option \<Rightarrow> duration \<Rightarrow> time \<Rightarrow> (duration option \<times> child_io) list \<Rightarrow> cmd \<Rightarrow> sup_step list" where
  "timed_loop sp environ done backoff t [] c = []"
| "timed_loop sp environ done backoff t (x # xs) c =
     (if ended done t then [ReturnsAt t]
      else
        (case run_once sp environ (child_at done t x) c of
           None \<Rightarrow> []
         | Some ((err, acts, out, serr), c1) \<Rightarrow>
             (let e = exit_time t acts in
              Ran t acts e err #
              (if ended done e then [ReturnsAt e]
               else
                 (let b = (if e - t > 60 * second then second else backoff) in
                  Waits e b #
                  (case done of
                     Some d \<Rightarrow>
                       if d \<le> e + b then [ReturnsAt d]
                       else timed_loop sp environ done (double_backoff b) (e + b) xs c1
                   | None \<Rightarrow> timed_loop sp environ done (double_backoff b) (e + b) xs c1))))))"

definition timed_Run :: "spec \<Rightarrow> string list \<Rightarrow> time option \<Rightarrow> time \<Rightarrow> (duration option \<times> child_io) list \<Rightarrow> sup_step list" where
  "timed_Run sp environ done t xs = timed_loop sp environ done second t xs None"

lemma exit_time_snoc [simp]: "exit_time t (as @ [Exited u]) = u"
  by (induction t as rule: exit_time.induct) auto

text \<open>What a run of a child that starts before the context ends comes to.\<close>

lemma run_once_at:
  assumes "run_once sp environ (child_at (Some d) t x) c = Some ((err, acts, out, serr), c1)" and "t < d"
    and "\<forall>l. fst x = Some l \<longrightarrow> 0 \<le> l" and "\<forall>y. ci_after_term (snd x) = Some y \<longrightarrow> 0 \<le> y"
  shows "t \<le> exit_time t acts \<and> exit_time t acts \<le> d + grace \<and>
    (d \<le> exit_time t acts \<longrightarrow> err = None) \<and> (d < exit_time t acts \<longrightarrow> TermSignal d \<in> set acts) \<and>
    (\<forall>k. Kill k \<in> set acts \<longrightarrow> k = d + grace \<and> TermSignal d \<in> set acts)"
proof (cases "\<exists>u. Exited u \<in> set acts")
  case False
  then have "exit_time t acts = t" "\<forall>k. Kill k \<notin> set acts"
    using assms(1) by (auto simp: run_once_def Let_def split: option.splits sum.splits)
  then show ?thesis using assms(2) by (simp add: grace_def second_def)
next
  case True
  let ?io = "child_at (Some d) t x"
  have g: "0 < grace" by (simp add: grace_def second_def)
  obtain pid as u where r: "child_end ?io = Some (as, u)"
    "acts = [Exec (sp_binary sp) (sp_args sp) (child_env environ sp), Started pid] @ as @ [Exited u]"
    "err = (if d \<le> u then None else ci_wait ?io)"
    using assms(1) True
    by (auto simp: run_once_def ctx_done_by_def child_at_def Let_def split: option.splits sum.splits)
  have e: "exit_time t acts = u" using exit_time_snoc [of t "[Exec (sp_binary sp) (sp_args sp) (child_env environ sp), Started pid] @ as"] r(2)
    by simp
  have "t \<le> u \<and> u \<le> d + grace \<and> (d < u \<longrightarrow> TermSignal d \<in> set as) \<and>
      (\<forall>k. Kill k \<in> set as \<longrightarrow> k = d + grace \<and> TermSignal d \<in> set as)"
    using r(1) assms(2-4) g
    by (cases "fst x"; cases "ci_after_term (snd x)") (auto simp: child_end_def child_at_def Let_def max_def split: if_splits)
  then show ?thesis unfolding e using r(2,3) by auto
qed

lemma run_once_ends: "\<exists>r. run_once sp environ (child_at (Some d) t x) c = Some r"
  by (auto simp: run_once_def child_end_def child_at_def Let_def split: option.splits sum.splits)

text \<open>Nothing starts once the context has ended, and what is killed was asked first.\<close>

fun before :: "time \<Rightarrow> sup_step \<Rightarrow> bool" where
  "before d (Ran t acts e err) = (t < d \<and> (\<forall>k. Kill k \<in> set acts \<longrightarrow> k = d + grace \<and> TermSignal d \<in> set acts))"
| "before d (Waits t b) = (t < d)"
| "before d (ReturnsAt t) = False"

lemma timed_loop_stops:
  assumes "\<forall>x\<in>set xs. (\<forall>l. fst x = Some l \<longrightarrow> 0 \<le> l) \<and> (\<forall>y. ci_after_term (snd x) = Some y \<longrightarrow> 0 \<le> y)"
    and "second \<le> backoff" and "max 0 (d - t) < int (length xs) * second"
  shows "\<exists>as u. timed_loop sp environ (Some d) backoff t xs c = as @ [ReturnsAt u] \<and>
    max d t \<le> u \<and> u \<le> max d t + grace \<and> (\<forall>s\<in>set as. before d s) \<and>
    (max d t < u \<longrightarrow> (\<exists>start acts. as \<noteq> [] \<and> last as = Ran start acts u None \<and> TermSignal d \<in> set acts))"
  using assms
proof (induction xs arbitrary: backoff t c)
  case Nil
  then show ?case by simp
next
  case (Cons x xs)
  have g: "0 < grace" by (simp add: grace_def second_def)
  show ?case
  proof (cases "d \<le> t")
    case True
    then show ?thesis using g by (intro exI [of _ "[]"] exI [of _ t]) (simp add: ended_def)
  next
    case False
    obtain err acts out serr c1 where r: "run_once sp environ (child_at (Some d) t x) c = Some ((err, acts, out, serr), c1)"
      using run_once_ends [of sp environ d t x c] by (metis surj_pair)
    define e where "e = exit_time t acts"
    have o: "t \<le> e" "e \<le> d + grace" "d \<le> e \<Longrightarrow> err = None" "d < e \<Longrightarrow> TermSignal d \<in> set acts"
      "before d (Ran t acts e err)"
      using run_once_at [OF r] False Cons.prems(1) unfolding e_def by auto
    show ?thesis
    proof (cases "d \<le> e")
      case True
      then have "timed_loop sp environ (Some d) backoff t (x # xs) c = [Ran t acts e err] @ [ReturnsAt e]"
        using r False by (simp add: ended_def e_def Let_def)
      then show ?thesis using o True False by (intro exI [of _ "[Ran t acts e err]"] exI [of _ e]) auto
    next
      case early: False
      define b where "b = (if e - t > 60 * second then second else backoff)"
      have b: "second \<le> b" using Cons.prems(2) by (simp add: b_def)
      have l: "timed_loop sp environ (Some d) backoff t (x # xs) c = [Ran t acts e err, Waits e b] @
          (if d \<le> e + b then [ReturnsAt d] else timed_loop sp environ (Some d) (double_backoff b) (e + b) xs c1)"
        using r False early unfolding b_def by (simp add: ended_def e_def Let_def)
      have w: "before d (Waits e b)" using early by simp
      show ?thesis
      proof (cases "d \<le> e + b")
        case True
        then show ?thesis
          using l o(5) w g False by (intro exI [of _ "[Ran t acts e err, Waits e b]"] exI [of _ d]) simp
      next
        case later: False
        have s: "0 < second" by (simp add: second_def)
        have "d - t < int (length xs) * second + second" using Cons.prems(3) by (simp add: algebra_simps)
        then have "max 0 (d - (e + b)) < int (length xs) * second" using later o(1) b s by linarith
        from Cons.IH [OF _ _ this, of "double_backoff b" c1] obtain as u where
          n: "timed_loop sp environ (Some d) (double_backoff b) (e + b) xs c1 = as @ [ReturnsAt u]"
            "d \<le> u" "u \<le> d + grace" "\<forall>s\<in>set as. before d s"
            "d < u \<longrightarrow> (\<exists>start acts. as \<noteq> [] \<and> last as = Ran start acts u None \<and> TermSignal d \<in> set acts)"
          using Cons.prems(1) double_backoff_bounds [OF b] later by (auto simp: max_def)
        then show ?thesis
          using l later o(5) w False
          by (intro exI [of _ "[Ran t acts e err, Waits e b] @ as"] exI [of _ u]) auto
      qed
    qed
  qed
qed

text \<open>
  C25. Cancelling the context ends the supervisor, and at once: with enough children to come, one for each second
  until the context ends, Run returns, not before the context has ended, and no later than the five seconds
  of grace after it (or after it was called, if that was later). It returns later than that very moment only
  if a child was running then, which it has sent SIGTERM at that moment, and then it returns when that child
  has exited, with no error; whatever it kills it kills five seconds after the signal. It starts no child and
  begins no wait once the context has ended.
\<close>
theorem supervisor_stops_on_cancel:
  assumes "\<forall>x\<in>set xs. (\<forall>l. fst x = Some l \<longrightarrow> 0 \<le> l) \<and> (\<forall>y. ci_after_term (snd x) = Some y \<longrightarrow> 0 \<le> y)"
    and "max 0 (d - t) < int (length xs) * second"
  shows "\<exists>as u. timed_Run sp environ (Some d) t xs = as @ [ReturnsAt u] \<and>
    max d t \<le> u \<and> u \<le> max d t + 5 * second \<and> (\<forall>s\<in>set as. before d s) \<and>
    (max d t < u \<longrightarrow> (\<exists>start acts. as \<noteq> [] \<and> last as = Ran start acts u None \<and> TermSignal d \<in> set acts))"
  using timed_loop_stops [OF assms(1) order_refl assms(2), of sp environ None] by (simp add: timed_Run_def grace_def)

text \<open>
  A child that exits after half a second and is started again after the wait; the second one ignores the
  signal that comes at the end of the third second, and is killed at the end of the eighth.
\<close>

definition ex_stubborn :: child_io where
  "ex_stubborn = \<lparr>ci_stdout_pipe = None, ci_stderr_pipe = None, ci_exec = Inr 42, ci_start = 0, ci_stdout = [],
     ci_stdout_read = 0, ci_stderr = [], ci_stderr_read = 0, ci_own_exit = None, ci_ctx_done = None,
     ci_after_term = None, ci_wait = Some ''exit status 1''\<rparr>"

definition ex_children :: "(duration option \<times> child_io) list" where
  "ex_children = (Some 500000000, ex_stubborn) # replicate 3 (None, ex_stubborn)"

definition ex_spec :: spec where
  "ex_spec = \<lparr>sp_binary = ''rathole'', sp_args = [''--client'', ''/cfg/client.toml''], sp_env = []\<rparr>"

theorem supervisor_stops_on_cancel_witness:
  "\<exists>as u. timed_Run ex_spec [] (Some (3 * second)) 0 ex_children = as @ [ReturnsAt u] \<and> u = 8 * second \<and>
     length as = 3"
proof -
  have run: "timed_Run ex_spec [] (Some (3 * second)) 0 ex_children =
      [Ran 0 [Exec (sp_binary ex_spec) (sp_args ex_spec) (child_env [] ex_spec), Started 42, Exited 500000000] 500000000 (Some ''exit status 1''),
       Waits 500000000 second,
       Ran 1500000000 [Exec (sp_binary ex_spec) (sp_args ex_spec) (child_env [] ex_spec), Started 42, TermSignal (3 * second),
         Kill (8 * second), Exited (8 * second)] (8 * second) None,
       ReturnsAt (8 * second)]"
    by (simp add: timed_Run_def ex_children_def ex_stubborn_def run_once_def child_end_def child_at_def ended_def
        ctx_done_by_def grace_def second_def Let_def eval_nat_numeral)
  have "\<forall>x\<in>set ex_children. (\<forall>l. fst x = Some l \<longrightarrow> 0 \<le> l) \<and> (\<forall>y. ci_after_term (snd x) = Some y \<longrightarrow> 0 \<le> y)"
    "max 0 (3 * second - 0) < int (length ex_children) * second"
    by (auto simp: ex_children_def ex_stubborn_def second_def)
  from supervisor_stops_on_cancel [OF this, of ex_spec "[]"] show ?thesis using run by auto
qed

text \<open>The loop in time is the loop of theory Supervisor on the runs it meets.\<close>

fun actions_of :: "sup_step \<Rightarrow> sup_action list" where
  "actions_of (Ran t acts e err) = (if \<exists>pid. Started pid \<in> set acts then [OnStart] else []) @ [OnExit e err]"
| "actions_of (Waits t b) = [Waiting b]"
| "actions_of (ReturnsAt t) = [Returned]"

lemma run_once_child_run:
  assumes "run_once sp environ (child_at done t x) c = Some ((err, acts, out, serr), c1)" and "\<not> ended done t"
  shows "\<exists>y. err = runOnce \<lparr>cr_launched = (\<exists>pid. Started pid \<in> set acts), cr_start = t, cr_exit = exit_time t acts,
    cr_err = y, cr_cancelled = ended done (exit_time t acts), cr_cancelled_wait = w\<rparr>"
proof (cases "\<exists>pid. Started pid \<in> set acts")
  case False
  then show ?thesis by (simp add: runOnce_def)
next
  case True
  then obtain pid as u where "acts = [Exec (sp_binary sp) (sp_args sp) (child_env environ sp), Started pid] @ as @ [Exited u]"
    "err = (if ended done u then None else ci_wait (snd x))"
    using assms(1) by (auto simp: run_once_def ctx_done_by_def ended_def child_at_def Let_def split: option.splits sum.splits)
  moreover from this have "exit_time t acts = u"
    using exit_time_snoc [of t "[Exec (sp_binary sp) (sp_args sp) (child_env environ sp), Started pid] @ as"] by simp
  ultimately show ?thesis using True by (intro exI [of _ "ci_wait (snd x)"]) (simp add: runOnce_def)
qed

theorem timed_Run_is_Run:
  "\<exists>rs. concat (map actions_of (timed_Run sp environ done t xs)) = Run rs"
proof -
  have "\<exists>rs. concat (map actions_of (timed_loop sp environ done backoff t xs c)) = run_loop backoff rs" for backoff c
  proof (induction xs arbitrary: backoff t c)
    case Nil
    then show ?case by (intro exI [of _ "[]"]) simp
  next
    case (Cons x xs)
    show ?case
    proof (cases "ended done t")
      case True
      then show ?thesis by (intro exI [of _ "[None]"]) simp
    next
      case False
      show ?thesis
      proof (cases "run_once sp environ (child_at done t x) c")
        case None
        then show ?thesis using False by (intro exI [of _ "[]"]) simp
      next
        case (Some res)
        obtain err acts out serr c1 where res: "res = ((err, acts, out, serr), c1)" by (cases res) auto
        define e where "e = exit_time t acts"
        define b where "b = (if e - t > 60 * second then second else backoff)"
        define w where "w = ended done (e + b)"
        obtain y where y: "err = runOnce \<lparr>cr_launched = (\<exists>pid. Started pid \<in> set acts), cr_start = t, cr_exit = e,
            cr_err = y, cr_cancelled = ended done e, cr_cancelled_wait = w\<rparr>" (is "err = runOnce ?r")
          using run_once_child_run [OF Some [unfolded res] False] unfolding e_def by blast
        obtain rs where rs: "concat (map actions_of (timed_loop sp environ done (double_backoff b) (e + b) xs c1)) =
            run_loop (double_backoff b) rs"
          using Cons.IH by blast
        have "reset_backoff \<lparr>cr_launched = l, cr_start = t, cr_exit = e, cr_err = y, cr_cancelled = u, cr_cancelled_wait = v\<rparr> backoff = b"
          for l u v by (simp add: reset_backoff_def b_def)
        moreover have "timed_loop sp environ done backoff t (x # xs) c = Ran t acts e err #
            (if ended done e then [ReturnsAt e] else Waits e b #
              (case done of
                 Some d \<Rightarrow> if d \<le> e + b then [ReturnsAt d] else timed_loop sp environ done (double_backoff b) (e + b) xs c1
               | None \<Rightarrow> timed_loop sp environ done (double_backoff b) (e + b) xs c1))"
          using Some res False unfolding e_def b_def by (simp add: Let_def)
        ultimately have "concat (map actions_of (timed_loop sp environ done backoff t (x # xs) c)) = run_loop backoff (Some ?r # rs)"
          using y rs by (cases "done") (simp_all add: w_def ended_def Let_def)
        then show ?thesis by blast
      qed
    qed
  qed
  then show ?thesis by (simp add: timed_Run_def Run_def)
qed

end
