(* ===== verification/EndToEnd.thy ===== *)
theory EndToEnd
  imports AgentServer CliOutput
begin

section \<open>From a service's creation to its bytes\<close>

text \<open>
  The parts of the program in the order an operator meets them. \<open>quicktun service create\<close> goes through the
  server, which allocates the relay port and has the relay manager render and start the project's rathole-server;
  the agent's next tick fetches the tunnel and starts rathole-client on it; and \<open>quicktun forward\<close>
  asks for the port and sends its CONNECT to the proxy. The first theorem says that the four places where the
  service is written down then agree, so that what is left is rathole's own forwarding; the second, that
  \<open>quicktun service delete\<close> takes it out of all of them.
\<close>

subsection \<open>The two rathole configurations\<close>

text \<open>A refresh in which nothing fails.\<close>

lemma refresh_ok:
  assumes "\<forall>s. \<not> fault e s" and wf: "tbl_wf (t_projects d)" and p: "p \<in> set (rows (t_projects d))" "live p" "ID p = i"
    and "is_ok (parse_port_range (pr_relay_port_range p))" and "mc_binary cfg \<noteq> []" and "\<not> rs_closed r"
  shows "\<exists>r' toml s. Refresh cfg e i d r = (Inr (), r') \<and> project_text d p = Inr toml \<and>
    rs_files r' (config_path cfg p) = Some toml \<and> map_of (rs_sups r') i = Some s \<and> \<not> sp_cancelled s \<and>
    sp_binary s = mc_binary cfg \<and> sp_args s = mc_binary_args cfg @ [config_path cfg p]"
proof -
  obtain lo hi where range: "parse_port_range (pr_relay_port_range p) = Inr (lo, hi)"
    using assms(6) by (cases "parse_port_range (pr_relay_port_range p)") auto
  note render = renderToFile_ok [OF _ first_live_ID [OF wf p(1,2), unfolded p(3)] range]
  obtain e0 r0 where r0: "Refresh cfg e i d r = AddProject cfg e0 i d r0" "\<not> rs_closed r0" "map_of (rs_sups r0) i = None"
    and e0: "\<forall>s. \<not> fault e0 s"
  proof (cases "map_of (rs_sups r) i")
    case None
    then show ?thesis using that [of e r] assms(1,8) by (simp add: Refresh_def)
  next
    case (Some old)
    obtain toml where "renderToFile cfg e i d r =
        (Inr (config_path cfg p), r\<lparr>rs_files := (rs_files r)(config_path cfg p \<mapsto> toml)\<rparr>)"
      using render [OF assms(1)] by blast
    then show ?thesis
      using that [of "again e" "r\<lparr>rs_files := (rs_files r)(config_path cfg p \<mapsto> toml), rs_sups := AList.delete i (rs_sups r),
          rs_gone := (i, sup_cancel old) # rs_gone r\<rparr>"]
        assms(1,7,8) Some by (simp add: Refresh_def delete_conv')
  qed
  obtain toml where t: "renderToFile cfg e0 i d r0 =
      (Inr (config_path cfg p), r0\<lparr>rs_files := (rs_files r0)(config_path cfg p \<mapsto> toml)\<rparr>)"
    using render [OF e0] by blast
  have "project_text d p = Inr toml"
  proof -
    obtain p' toml' where x: "p' \<in> set (rows (t_projects d))" "ID p' = i" "project_text d p' = Inr toml'"
      "(rs_files r0)(config_path cfg p \<mapsto> toml) = (rs_files r0)(config_path cfg p \<mapsto> toml')"
    proof -
      from renderToFile_Inr [OF t] obtain p' toml' where x: "p' \<in> set (rows (t_projects d))" "ID p' = i"
        "project_text d p' = Inr toml'"
        "r0\<lparr>rs_files := (rs_files r0)(config_path cfg p \<mapsto> toml)\<rparr> =
         r0\<lparr>rs_files := (rs_files r0)(config_path cfg p \<mapsto> toml')\<rparr>" by blast
      from arg_cong [OF x(4), of rs_files] show ?thesis by (intro that [OF x(1-3)]) simp
    qed
    have "p' = p" using tbl_wf_inj [OF wf x(1) p(1)] x(2) p(3) by simp
    moreover have "toml' = toml" using fun_cong [OF x(4), of "config_path cfg p"] by simp
    ultimately show ?thesis using x(3) by simp
  qed
  then show ?thesis
    using p(3) unfolding r0(1) spawn_tracked [OF t assms(7) r0(2,3)] by (auto simp: update_conv')
qed

subsection \<open>Creating the service\<close>

lemma canonicalSiteName_short:
  "slash \<notin> set p \<Longrightarrow> slash \<notin> set t \<Longrightarrow> p \<noteq> [] \<Longrightarrow> t \<noteq> [] \<Longrightarrow>
     canonicalSiteName (p @ slash # t) = Inr (format_site_name p t)"
  by (simp add: canonicalSiteName_def split_on_append split_on_no_sep format_site_name_def collectionProjects_def
      collectionSites_def slash_def)

text \<open>The site a full name resolves to is the one that has it.\<close>

lemma resolve_site_named:
  assumes "resolve_site_from_parent e cx (format_site_name (pr_slug p) (si_name s)) d = Inr (p', s')" and "db_wf d"
    and "p \<in> set (rows (t_projects d))" "live p" "slug_grammar (pr_slug p)"
    and "s \<in> set (rows (t_sites d))" "live s" "si_project_id s = ID p" "slug_grammar (si_name s)"
  shows "p' = p \<and> s' = s"
proof -
  have n: "parse_site_parent (format_site_name (pr_slug p) (si_name s)) =
      Inr \<lparr>sn_project = pr_slug p, sn_site = si_name s\<rparr>"
    using assms(5,9) by (simp add: parse_site_parent_def parse_site_name_iff validate_slug_iff)
  have p: "project_find_by_slug e (pr_slug p) d = Inr p'" and s: "site_find_by_name e (ID p') (si_name s) d = Inr s'"
    using assms(1) n unfolding resolve_site_from_parent_def by (auto split: option.splits sum.splits if_splits)
  have "p' = p"
    using project_find_by_slug_Inr [OF p] uniq_live_row [OF db_wfD(3,12) [OF assms(2)], of p' p] assms(3,4) by simp
  moreover from this have "s' = s"
    using site_find_by_name_Inr [OF s] uniq_live_row [OF db_wfD(5,14) [OF assms(2)], of s' s] assms(6-8) by simp
  ultimately show ?thesis by simp
qed

lemma service_create_fields:
  "service_create e v d = (Inr r, d') \<Longrightarrow> sv_target_addr r = sv_target_addr v \<and> sv_target_port r = sv_target_port v"
  by (auto simp: service_create_def Let_def tbl_append_def stamp_new_def split: if_splits)

lemma unat_ucast_small: "w \<le> 65535 \<Longrightarrow> unat (ucast (w :: 32 word) :: port) = unat w"
  by (simp add: unsigned_ucast_eq word_le_nat_alt take_bit_nat_eq_self_iff)

lemma conn_dispatched:
  assumes "with_conn (Inr creds) (serve cfg rm e peer) q w = (Inr resp, w1)"
    and v: "session_validate e (cr_session_token creds) (wdb w) = Inr op"
    and c: "cr_session_token creds \<noteq> []" "list_all solid (cr_session_token creds)"
    and "method_of q \<noteq> login_method" "\<not> is_agent_request q"
  shows "serve cfg rm e peer (cli_metadata creds) q w = (Inr resp, w1) \<and>
    dispatch cfg rm e q (operator_ctx peer op (raw_ctx (cli_metadata creds))) w = (Inr resp, w1)"
proof -
  have sv: "serve cfg rm e peer (cli_metadata creds) q w = (Inr resp, w1)"
    using assms(1) by (auto simp: with_conn_def loadAndDial_def dialControl_def split: if_splits sum.splits prod.splits)
  then show ?thesis using serve_session [OF v c assms(5,6)] by simp
qed

lemma cli_service_create_Inr:
  assumes "cli_run (CliServiceCreate (ps @ slash # ss) slug disp addr tp proto)
      (with_conn (Inr creds) (serve cfg rm e peer)) w = (Inr resp, w1)"
    and v: "session_validate e (cr_session_token creds) (wdb w) = Inr op"
    and c: "cr_session_token creds \<noteq> []" "list_all solid (cr_session_token creds)"
    and slugs: "slug_grammar ps" "slug_grammar ss"
  shows "\<exists>pb out. vp_target_addr pb = addr \<and> vp_target_port pb = tp \<and> resp = ServiceR out \<and>
    serve cfg rm e peer (cli_metadata creds) (CreateServiceRequest (format_site_name ps ss) slug (Some pb)) w = (Inr resp, w1) \<and>
    create_service rm e (format_site_name ps ss) slug (Some pb) (operator_ctx peer op (raw_ctx (cli_metadata creds))) w =
      (Inr out, w1)"
proof -
  have n: "canonicalSiteName (ps @ slash # ss) = Inr (format_site_name ps ss)"
    using slugs by (intro canonicalSiteName_short slug_no_slash slug_nonempty)
  obtain pb where pb: "vp_target_addr pb = addr" "vp_target_port pb = tp"
    and conn: "with_conn (Inr creds) (serve cfg rm e peer)
      (CreateServiceRequest (format_site_name ps ss) slug (Some pb)) w = (Inr resp, w1)"
  proof -
    obtain x where "parseProto proto = Inr x" "with_conn (Inr creds) (serve cfg rm e peer)
        (CreateServiceRequest (format_site_name ps ss) slug (Some (zero_service\<lparr>vp_display_name := disp,
          vp_target_addr := addr, vp_target_port := tp, vp_proto := x\<rparr>))) w = (Inr resp, w1)"
      using assms(1) n by (auto simp: newServiceCreateCmd_def split: sum.splits)
    then show thesis by (intro that) (simp_all add: zero_service_def)
  qed
  from conn_dispatched [OF conn v c]
  have "serve cfg rm e peer (cli_metadata creds) (CreateServiceRequest (format_site_name ps ss) slug (Some pb)) w =
      (Inr resp, w1)"
    "dispatch cfg rm e (CreateServiceRequest (format_site_name ps ss) slug (Some pb))
      (operator_ctx peer op (raw_ctx (cli_metadata creds))) w = (Inr resp, w1)"
    by (simp_all add: login_method_iff is_agent_request_cases)
  with pb show ?thesis by (auto simp: map_sum_def split: sum.splits dest!: reply_eq)
qed

text \<open>What \<open>service create\<close> did, when it went through and nothing failed in between.\<close>

lemma service_created:
  assumes "cli_run (CliServiceCreate (pr_slug p @ slash # si_name s) slug disp addr tp proto)
      (with_conn (Inr creds) (serve cfg (manager_relay mcfg) e peer)) w = (Inr resp, w1)"
    and ok: "server_ok (wdb w)" and nf: "\<forall>x. \<not> fault e x"
    and v: "session_validate e (cr_session_token creds) (wdb w) = Inr op"
    and c: "cr_endpoint creds \<noteq> []" "cr_session_token creds \<noteq> []" "list_all solid (cr_session_token creds)"
    and p: "p \<in> set (rows (t_projects (wdb w)))" "live p"
    and s: "s \<in> set (rows (t_sites (wdb w)))" "live s" "si_project_id s = ID p" "slug_grammar (si_name s)"
    and rm: "mc_binary mcfg \<noteq> []" "\<not> rs_closed (wrelay w)"
  shows "\<exists>v q toml sup. resp = ServiceR (service_to_proto p s v) \<and> op_is_admin op \<and>
    rows (t_services (wdb w1)) = rows (t_services (wdb w)) @ [v] \<and> live v \<and> sv_site_id v = ID s \<and> sv_name v = slug \<and>
    slug_grammar slug \<and> sv_relay_port v = Some q \<and> q \<noteq> 0 \<and> sv_target_addr v = addr \<and> unat (sv_target_port v) = unat tp \<and>
    t_operators (wdb w1) = t_operators (wdb w) \<and> t_sessions (wdb w1) = t_sessions (wdb w) \<and>
    t_projects (wdb w1) = t_projects (wdb w) \<and> t_accesses (wdb w1) = t_accesses (wdb w) \<and>
    t_sites (wdb w1) = t_sites (wdb w) \<and> t_agent_tokens (wdb w1) = t_agent_tokens (wdb w) \<and> server_ok (wdb w1) \<and>
    project_text (wdb w1) p = Inr toml \<and> rs_files (wrelay w1) (config_path mcfg p) = Some toml \<and>
    map_of (rs_sups (wrelay w1)) (ID p) = Some sup \<and> \<not> sp_cancelled sup \<and> sp_binary sup = mc_binary mcfg \<and>
    sp_args sup = mc_binary_args mcfg @ [config_path mcfg p]"
proof -
  note wf = server_okD(3) [OF ok]
  have pm: "validate_slug (pr_slug p) = None" "is_ok (parse_port_range (pr_relay_port_range p))"
    using server_ok_means [OF ok] p by blast+
  have slug_p: "slug_grammar (pr_slug p)" using pm(1) by (simp add: validate_slug_iff)
  let ?parent = "format_site_name (pr_slug p) (si_name s)" and ?cx = "operator_ctx peer op (raw_ctx (cli_metadata creds))"
  obtain pb out where pb: "vp_target_addr pb = addr" "vp_target_port pb = tp" and resp: "resp = ServiceR out"
    and sv: "serve cfg (manager_relay mcfg) e peer (cli_metadata creds) (CreateServiceRequest ?parent slug (Some pb)) w =
      (Inr resp, w1)"
    and cs: "create_service (manager_relay mcfg) e ?parent slug (Some pb) ?cx w = (Inr out, w1)"
    using cli_service_create_Inr [OF assms(1) v c(2,3) slug_p s(4)] by blast
  obtain p' s' q row d en where h: "resolve_site_from_parent e ?cx ?parent (wdb w) = Inr (p', s')" "is_admin_ctx ?cx"
    "validate_slug slug = None" "tp \<le> 65535" "allocate_relay_port e p' (wdb w) = Inr q"
    "service_create e (new_service_row (ID s') slug pb q) (wdb w) = (Inr row, d)" "out = service_to_proto p' s' row"
    "w1 = relay_refresh (manager_relay mcfg) e (ID p') (audit_w e ?cx en (w\<lparr>wdb := d\<rparr>))"
    using create_service_Inr [OF cs] pb by auto
  have same: "p' = p" "s' = s" using resolve_site_named [OF h(1) wf p slug_p s] by simp_all
  have eff: "d = (wdb w)\<lparr>t_services := t_services d\<rparr>" "rows (t_services d) = rows (t_services (wdb w)) @ [row]"
    "live row" "sv_site_id row = ID s" "sv_name row = slug" "sv_relay_port row = Some q" "sv_target_addr row = addr"
    "sv_target_port row = ucast tp"
    using service_create_effect [OF h(6)] service_create_fields [OF h(6)] pb same by (simp_all add: new_service_row_def)
  have wdb: "wdb w1 = audited e ?cx en d"
    and wr: "wrelay w1 = snd (Refresh mcfg e (ID p) (wdb w1) (wrelay w))"
    unfolding h(8) same by (simp_all add: relay_calls_wrelay manager_relay_def)
  have tables: "rows (t_services (wdb w1)) = rows (t_services (wdb w)) @ [row]"
    "t_operators (wdb w1) = t_operators (wdb w)" "t_sessions (wdb w1) = t_sessions (wdb w)"
    "t_projects (wdb w1) = t_projects (wdb w)" "t_accesses (wdb w1) = t_accesses (wdb w)"
    "t_sites (wdb w1) = t_sites (wdb w)" "t_agent_tokens (wdb w1) = t_agent_tokens (wdb w)"
    unfolding wdb audited_frame using eff(2) arg_cong [OF eff(1), of t_operators] arg_cong [OF eff(1), of t_sessions]
      arg_cong [OF eff(1), of t_projects] arg_cong [OF eff(1), of t_accesses] arg_cong [OF eff(1), of t_sites]
      arg_cong [OF eff(1), of t_agent_tokens] by simp_all
  have "op_is_admin op" using h(2) by (auto simp: is_admin_ctx_iff operator_ctx_def)
  moreover have "q \<noteq> 0" using allocate_relay_port_Inr [OF h(5)] by auto
  moreover have "slug_grammar slug" using h(3) by (simp add: validate_slug_iff)
  moreover have "unat (sv_target_port row) = unat tp" unfolding eff(8) by (rule unat_ucast_small [OF h(4)])
  moreover have "server_ok (wdb w1)" by (rule serve_keeps [OF ok sv])
  moreover obtain r' toml sup where ref: "Refresh mcfg e (ID p) (wdb w1) (wrelay w) = (Inr (), r')"
    "project_text (wdb w1) p = Inr toml" "rs_files r' (config_path mcfg p) = Some toml"
    "map_of (rs_sups r') (ID p) = Some sup" "\<not> sp_cancelled sup" "sp_binary sup = mc_binary mcfg"
    "sp_args sup = mc_binary_args mcfg @ [config_path mcfg p]"
    using refresh_ok [OF nf _ _ p(2) refl pm(2) rm, of "wdb w1"] db_wfD(3) [OF wf] p(1) tables(4) by auto
  ultimately show ?thesis
    using eff(3-7) tables ref wr resp h(7) same
    by (intro exI [of _ row] exI [of _ q] exI [of _ toml] exI [of _ sup]) simp
qed

subsection \<open>The service in both configurations\<close>

lemma loopback_port: "''127.0.0.1:'' @ format_uint n = loopback @ [colon] @ format_uint n"
  by (simp add: loopback_def colon_def)

lemma binding_of:
  "v \<in> set vs \<Longrightarrow> sv_relay_port v = Some q \<Longrightarrow>
     \<lparr>sb_site_slug = n, sb_service_slug = sv_name v, sb_relay_port = q, sb_agent_token = h\<rparr> \<in> set (service_bindings n h vs)"
  by (induction vs) (auto split: option.splits)

lemma tunnel_of:
  "v \<in> set vs \<Longrightarrow> sv_relay_port v = Some q \<Longrightarrow>
     \<exists>t\<in>set (tunnels_of vs). tb_service_slug t = sv_name v \<and> tb_target_addr t = sv_target_addr v \<and>
       tb_target_port t = ucast (sv_target_port v)"
  by (induction vs) (auto split: option.splits)

lemma served_last:
  assumes "rows (t_services d') = rows (t_services d) @ [v]" and "live v"
    and "length (select_live (\<lambda>u. sv_site_id u = sv_site_id v) (t_services d)) < 1000"
  shows "v \<in> set (served_services (sv_site_id v) d')"
proof -
  have "select_live (\<lambda>u. sv_site_id u = sv_site_id v) (t_services d') =
      select_live (\<lambda>u. sv_site_id u = sv_site_id v) (t_services d) @ [v]"
    using assms(1,2) by (simp add: select_live_def)
  then show ?thesis using assms(3) by (simp add: served_services_def)
qed

text \<open>The text of the project holds the entry of every served service of a site with a good token.\<close>

lemma project_text_entry:
  assumes "project_text d p = Inr toml" and "db_wf d" and "agent_owner t raw d = Some (ID s)"
    and "s \<in> set (rows (t_sites d))" and "live s" and "si_project_id s = ID p"
    and "length (select_live (\<lambda>x. si_project_id x = ID p) (t_sites d)) \<le> 1000"
    and "v \<in> set (served_services (ID s) d)" and "sv_relay_port v = Some q"
  shows "\<exists>pre post. toml = pre @ server_entry (tunnel_key (si_name s) (sv_name v)) (hash_token raw)
    (loopback @ [colon] @ format_uint (unat q)) @ post"
proof -
  have "s \<in> set (first_page (\<lambda>x. si_project_id x = ID p) (t_sites d))"
    using assms(4-6) unfolding first_page_all [OF assms(7)] set_select_live by simp
  then have "\<lparr>sb_site_slug = si_name s, sb_service_slug = sv_name v, sb_relay_port = q, sb_agent_token = hash_token raw\<rparr> \<in>
      set (project_bindings d (ID p))"
    using binding_of [OF assms(8,9), of "si_name s" "hash_token raw"] site_token_hash_of_owner [OF assms(2,3)]
    unfolding project_binding_iff by (intro bexI [of _ s]) simp_all
  from server_text_part [OF assms(1) [unfolded project_text_def] this] show ?thesis
    unfolding render_binding_entry loopback_port .
qed

text \<open>Whose a token is depends on one table; that a site is served, on three.\<close>

lemma owners_tables:
  "t_agent_tokens d' = t_agent_tokens d \<Longrightarrow> agent_owner t tok d' = agent_owner t tok d"
  "t_sessions d' = t_sessions d \<Longrightarrow> session_owner t tok d' = session_owner t tok d"
  by (simp_all add: agent_owner_def agent_token_lookup_def session_owner_def)

lemma site_served_row:
  "agent_owner t tok d = Some (ID s) \<Longrightarrow> s \<in> set (rows (t_sites d)) \<Longrightarrow> live s \<Longrightarrow> si_project_id s = ID p \<Longrightarrow>
     p \<in> set (rows (t_projects d)) \<Longrightarrow> live p \<Longrightarrow> pr_status p = ProjectStatusActive \<Longrightarrow> site_served t tok (ID s) d"
  unfolding site_served_def by (intro conjI bexI [of _ s] bexI [of _ p]) simp_all

lemma agent_owner_config_same: "config_same d d' \<Longrightarrow> agent_owner t tok d' = agent_owner t tok d"
  by (simp add: agent_owner_ident config_same_def)

text \<open>The agent's file after a tick that found a change.\<close>

lemma client_file_entry:
  assumes "br_tunnels boot = tunnels_of vs" and "v \<in> set vs" and "sv_relay_port v = Some q"
    and "br_site_slug boot = n" and "RenderRatholeClient (Some boot) tok a = Inr toml"
  shows "\<exists>pre mid post. toml = pre @ ''default_token = '' @ go_quote (hash_token tok) @ eol @ mid @
    client_entry (tunnel_key n (sv_name v)) (sv_target_addr v @ '':'' @ format_uint (unat (sv_target_port v))) @ post"
proof -
  obtain t where t: "t \<in> set (br_tunnels boot)" "tb_service_slug t = sv_name v" "tb_target_addr t = sv_target_addr v"
    "tb_target_port t = ucast (sv_target_port v)"
    using tunnel_of [OF assms(2,3)] unfolding assms(1) by blast
  from client_text_part [OF assms(5) t(1)] show ?thesis
    unfolding render_client_entry t(2-4) assms(4) port_up .
qed

text \<open>A tick that finds a change, read at one service; and forward, which only reads what agents do not change.\<close>

lemma tick_runs_client:
  assumes "server_ok (wdb w)" and "\<forall>x. \<not> fault e1 x" and "\<forall>x. \<not> fault e2 x" and "\<not> fault e3 ''agent: write config''"
    and "site_served (now e1) (ac_token acfg) (ID s) (wdb w)" and "site_served (now e2) (ac_token acfg) (ID s) (wdb w)"
    and "ac_token acfg \<noteq> []" and "list_all solid (ac_token acfg)" and "rt_bridge r = Some b" and "bg_local_addr b \<noteq> []"
    and drift: "rt_cur_version r \<noteq> compute_config_version (served_services (ID s) (wdb w))" and bin: "ac_rathole_binary acfg \<noteq> []"
    and s: "s \<in> set (rows (t_sites (wdb w)))" and v: "v \<in> set (served_services (ID s) (wdb w))" "sv_relay_port v = Some q"
  shows "\<exists>r2 m2 w2 toml. wire_loop acfg h
      [WireTick (over_server cfg rm e1 peer acfg) (\<lambda>n. over_server cfg rm e2 peer acfg) e3] r m w = (None, r2, m2, w2) \<and>
    quiet w w2 \<and> rt_sup r2 = Some (ac_rathole_args acfg @ [client_config_path acfg]) \<and>
    rt_files r2 (client_config_path acfg) = Some toml \<and>
    (\<exists>pre mid post. toml = pre @ ''default_token = '' @ go_quote (hash_token (ac_token acfg)) @ eol @ mid @
      client_entry (tunnel_key (si_name s) (sv_name v))
        (sv_target_addr v @ '':'' @ format_uint (unat (sv_target_port v))) @ post)"
proof -
  from tick_follows [OF assms(1-10), of h cfg rm peer m] drift obtain r2 m2 w2 boot toml s' where
    "wire_loop acfg h [WireTick (over_server cfg rm e1 peer acfg) (\<lambda>n. over_server cfg rm e2 peer acfg) e3] r m w =
      (None, r2, m2, w2)" "quiet w w2"
    and boot: "br_tunnels boot = tunnels_of (served_services (ID s) (wdb w))" "s' \<in> set (rows (t_sites (wdb w)))"
      "ID s' = ID s" "br_site_slug boot = si_name s'" "RenderRatholeClient (Some boot) (ac_token acfg) (bg_local_addr b) = Inr toml"
    and "rt_files r2 (client_config_path acfg) = Some toml"
      "rt_sup r2 = Some (ac_rathole_args acfg @ [client_config_path acfg])"
    using bin by force
  moreover have "s' = s" by (rule tbl_wf_inj [OF db_wfD(5) [OF server_okD(3) [OF assms(1)]] boot(2) s boot(3)])
  note client_file_entry [OF boot(1) v boot(4) [unfolded this] boot(5)]
  ultimately show ?thesis by blast
qed

lemma forward_quiet:
  assumes quiet: "quiet w w2" and nf: "\<forall>x. \<not> fault e x" and wf: "db_wf (wdb w2)"
    and own: "session_owner (now e) (cr_session_token creds) (wdb w) = Some (ID op)"
      "agent_owner (now e) (cr_session_token creds) (wdb w) = None"
    and op: "op \<in> set (rows (t_operators (wdb w)))" "live op" "op_is_admin op"
    and c: "cr_session_token creds \<noteq> []" "list_all solid (cr_session_token creds)" "cr_endpoint creds \<noteq> []"
      "cr_auth_proxy_endpoint creds \<noteq> []"
    and p: "p \<in> set (rows (t_projects (wdb w)))" "live p" "slug_grammar (pr_slug p)" "pr_status p = ProjectStatusActive"
    and s: "s \<in> set (rows (t_sites (wdb w)))" "live s" "si_project_id s = ID p" "slug_grammar (si_name s)"
    and v: "v \<in> set (rows (t_services (wdb w)))" "live v" "sv_site_id v = ID s" "slug_grammar (sv_name v)"
      "sv_relay_port v = Some q" "q \<noteq> 0" "\<forall>u\<in>set (rows (t_services (wdb w))). live u \<longrightarrow> sv_relay_port u = Some q \<longrightarrow> u = v"
  shows "newForwardCmd (pr_slug p @ slash # si_name s @ slash # sv_name v) (Inr creds) (serve cfg rm e peer) w2 =
      (Inr (cr_auth_proxy_endpoint creds, cr_session_token creds, loopback @ [colon] @ format_uint (unat q)), w2) \<and>
    handle e (Some (handleForward (cr_session_token creds) (loopback @ [colon] @ format_uint (unat q)))) (wdb w2) =
      ((200, Some (loopback @ [colon] @ format_uint (unat q))), wdb w2)"
proof -
  note tables = quietD(1) [OF quiet, unfolded config_same_def]
  have idents: "map site_ident (rows (t_sites (wdb w))) = map site_ident (rows (t_sites (wdb w2)))" using tables by simp
  from same_idents [OF idents s(1)] obtain s2 where s2: "s2 \<in> set (rows (t_sites (wdb w2)))" "live s2 = live s"
    "ID s = ID s2" "si_name s = si_name s2" "si_project_id s2 = si_project_id s"
    by auto
  have t: "t_operators (wdb w2) = t_operators (wdb w)" "t_projects (wdb w2) = t_projects (wdb w)"
    "t_services (wdb w2) = t_services (wdb w)"
    using tables by simp_all
  have own2: "session_owner (now e) (cr_session_token creds) (wdb w2) = Some (ID op)"
    "agent_owner (now e) (cr_session_token creds) (wdb w2) = None"
    using own quiet by (simp_all add: agent_owner_config_same [OF quietD(1) [OF quiet]] session_owner_def quiet_def)
  have op2: "op \<in> set (rows (t_operators (wdb w2)))" and p2: "p \<in> set (rows (t_projects (wdb w2)))"
    and v2: "v \<in> set (rows (t_services (wdb w2)))" using op(1) p(1) v(1) t by simp_all
  have s3: "live s2" "si_project_id s2 = ID p" "slug_grammar (si_name s2)" "sv_site_id v = ID s2"
    using s s2 v(3) by simp_all
  have only: "\<forall>u\<in>set (rows (t_services (wdb w2))). live u \<longrightarrow> sv_relay_port u = Some q \<longrightarrow> u = v"
    using v(7) unfolding t(3) .
  show ?thesis
    unfolding s2(4)
    by (rule conjI [OF forward_resolves [OF nf wf own2(1) op2 op(2) c p2 p(2,3) disjI1 [OF op(3)] s2(1) s3(1-3) v2 v(2) s3(4) v(4-6)]
        forward_dials [OF nf wf own2 op2 op(2) c(1) p2 p(2,4) disjI1 [OF op(3)] s2(1) s3(1,2) v2 v(2) s3(4) v(5) only]])
qed

text \<open>
  C3. The product works end to end. An administrator with a session runs \<open>quicktun service create p/s\<close> for a
  site of an active project, and the command succeeds; the site's agent, which holds a good token, ticks
  once; the operator runs \<open>quicktun forward p/s/slug\<close>. Suppose nothing fails on the way; no live service anywhere,
  an orphan of a deleted site included, has the allocated port already; the project has at most 1000 sites and
  the site fewer than 1000 services; the session token is no agent's; the relay manager is open and the agent up,
  both with a rathole binary, the agent at another version than the new one. Then the tick and the forward go through, and with one key \<open>k\<close>, one token \<open>h\<close> and one
  address \<open>target\<close>: the project's rathole-server runs on a file that binds \<open>target\<close> for service \<open>k\<close> with
  token \<open>h\<close>; the site's rathole-client runs on a file that presents \<open>h\<close> and leads service \<open>k\<close> to the address
  and port the administrator gave; forward is told \<open>target\<close>, and the proxy dials \<open>target\<close> for it.
\<close>
theorem created_service_is_reachable:
  assumes create: "cli_run (CliServiceCreate (pr_slug p @ slash # si_name s) slug disp addr tp proto)
      (with_conn (Inr creds) (serve cfg (manager_relay mcfg) e0 peer)) w = (Inr (ServiceR out), w1)"
    and ok: "server_ok (wdb w)"
    and nf: "\<forall>e\<in>{e0, e1, e2, e4}. \<forall>x. \<not> fault e x" and nf3: "\<not> fault e3 ''agent: write config''"
    and op: "op \<in> set (rows (t_operators (wdb w)))" "live op"
    and session: "\<forall>e\<in>{e0, e4}. session_owner (now e) (cr_session_token creds) (wdb w) = Some (ID op)"
    and no_agent: "agent_owner (now e4) (cr_session_token creds) (wdb w) = None"
    and creds: "cr_endpoint creds \<noteq> []" "cr_auth_proxy_endpoint creds \<noteq> []" "cr_session_token creds \<noteq> []"
      "list_all solid (cr_session_token creds)"
    and p: "p \<in> set (rows (t_projects (wdb w)))" "live p" "pr_status p = ProjectStatusActive"
    and s: "s \<in> set (rows (t_sites (wdb w)))" "live s" "si_project_id s = ID p" "slug_grammar (si_name s)"
    and limits: "length (select_live (\<lambda>x. si_project_id x = ID p) (t_sites (wdb w))) \<le> 1000"
      "length (select_live (\<lambda>u. sv_site_id u = ID s) (t_services (wdb w))) < 1000"
    and relay: "mc_binary mcfg \<noteq> []" "\<not> rs_closed (wrelay w)"
    and agent: "\<forall>e\<in>{e1, e2}. agent_owner (now e) (ac_token acfg) (wdb w) = Some (ID s)" "ac_token acfg \<noteq> []"
      "list_all solid (ac_token acfg)" "ac_rathole_binary acfg \<noteq> []" "rt_bridge r = Some b" "bg_local_addr b \<noteq> []"
    and drift: "rt_cur_version r \<noteq> compute_config_version (served_services (ID s) (wdb w1))"
    and port: "vp_relay_port out = ucast q" "\<forall>u\<in>set (rows (t_services (wdb w))). live u \<longrightarrow> sv_relay_port u \<noteq> Some q"
  shows "\<exists>r2 m2 w2 k h target server_file client_file sup.
    wire_loop acfg host [WireTick (over_server cfg (manager_relay mcfg) e1 peer' acfg)
      (\<lambda>n. over_server cfg (manager_relay mcfg) e2 peer' acfg) e3] r m w1 = (None, r2, m2, w2) \<and>
    map_of (rs_sups (wrelay w2)) (ID p) = Some sup \<and> \<not> sp_cancelled sup \<and>
      sp_args sup = mc_binary_args mcfg @ [config_path mcfg p] \<and>
    rs_files (wrelay w2) (config_path mcfg p) = Some server_file \<and>
      (\<exists>pre post. server_file = pre @ server_entry k h target @ post) \<and>
    rt_sup r2 = Some (ac_rathole_args acfg @ [client_config_path acfg]) \<and>
    rt_files r2 (client_config_path acfg) = Some client_file \<and>
      (\<exists>pre mid post. client_file = pre @ ''default_token = '' @ go_quote h @ eol @ mid @
        client_entry k (addr @ '':'' @ format_uint (unat tp)) @ post) \<and>
    newForwardCmd (pr_slug p @ slash # si_name s @ slash # slug) (Inr creds) (serve cfg (manager_relay mcfg) e4 peer) w2 =
      (Inr (cr_auth_proxy_endpoint creds, cr_session_token creds, target), w2) \<and>
    handle e4 (Some (handleForward (cr_session_token creds) target)) (wdb w2) = ((200, Some target), wdb w2)"
proof -
  have f: "\<forall>x. \<not> fault e0 x" "\<forall>x. \<not> fault e1 x" "\<forall>x. \<not> fault e2 x" "\<forall>x. \<not> fault e4 x" using nf by simp_all
  note wf = server_okD(3) [OF ok]
  have v0: "session_validate e0 (cr_session_token creds) (wdb w) = Inr op"
    using f(1) session by (intro session_validates [OF _ _ db_wfD(1) [OF wf] _ op]) simp_all
  obtain v q' server_file sup where resp: "out = service_to_proto p s v" and adm: "op_is_admin op"
    and rows: "rows (t_services (wdb w1)) = rows (t_services (wdb w)) @ [v]"
    and v: "live v" "sv_site_id v = ID s" "sv_name v = slug" "slug_grammar slug" "sv_relay_port v = Some q'" "q' \<noteq> 0"
      "sv_target_addr v = addr" "unat (sv_target_port v) = unat tp"
    and same: "t_operators (wdb w1) = t_operators (wdb w)" "t_sessions (wdb w1) = t_sessions (wdb w)"
      "t_projects (wdb w1) = t_projects (wdb w)" "t_accesses (wdb w1) = t_accesses (wdb w)"
      "t_sites (wdb w1) = t_sites (wdb w)" "t_agent_tokens (wdb w1) = t_agent_tokens (wdb w)"
    and ok1: "server_ok (wdb w1)"
    and srv: "project_text (wdb w1) p = Inr server_file" "rs_files (wrelay w1) (config_path mcfg p) = Some server_file"
      "map_of (rs_sups (wrelay w1)) (ID p) = Some sup" "\<not> sp_cancelled sup"
      "sp_args sup = mc_binary_args mcfg @ [config_path mcfg p]"
    using service_created [OF create ok f(1) v0 creds(1,3,4) p(1,2) s relay] by auto
  have "ucast q' = (ucast q :: 32 word)" using resp v(5) port(1) by (simp add: service_to_proto_def)
  from arg_cong [OF this, of unat] have q: "q' = q" by (simp add: port_up word_unat_eq_iff)
  note v = v [unfolded q]
  note wf1 = server_okD(3) [OF ok1]
  have s1: "s \<in> set (rows (t_sites (wdb w1)))" and p1: "p \<in> set (rows (t_projects (wdb w1)))"
    using s(1) p(1) same(3,5) by simp_all
  have owner: "agent_owner (now e) (ac_token acfg) (wdb w1) = Some (ID s)" if "e \<in> {e1, e2}" for e
    using bspec [OF agent(1) that] unfolding owners_tables(1) [OF same(6)] .
  note served = site_served_row [OF owner s1 s(2,3) p1 p(2,3)]
  have vs: "v \<in> set (served_services (ID s) (wdb w1))"
    using served_last [OF rows v(1)] limits(2) v(2) by simp
  from project_text_entry [OF srv(1) wf1 owner [OF insertI1] s1 s(2,3) limits(1) [folded same(5)] vs v(5), unfolded v(3)] obtain pre post where server_part:
    "server_file = pre @ server_entry (tunnel_key (si_name s) slug) (hash_token (ac_token acfg))
      (loopback @ [colon] @ format_uint (unat q)) @ post"
    by blast
  from tick_runs_client [OF ok1 f(2,3) nf3 served [OF insertI1] served [OF insertI2 [OF insertI1]] agent(2,3,5,6) drift agent(4) s1 vs v(5), unfolded v(3,7,8)]
  obtain r2 m2 w2 client_file where tick: "wire_loop acfg host [WireTick (over_server cfg (manager_relay mcfg) e1 peer' acfg)
      (\<lambda>n. over_server cfg (manager_relay mcfg) e2 peer' acfg) e3] r m w1 = (None, r2, m2, w2)" "quiet w1 w2"
    "rt_sup r2 = Some (ac_rathole_args acfg @ [client_config_path acfg])"
    "rt_files r2 (client_config_path acfg) = Some client_file"
    "\<exists>pre mid post. client_file = pre @ ''default_token = '' @ go_quote (hash_token (ac_token acfg)) @ eol @ mid @
      client_entry (tunnel_key (si_name s) slug) (addr @ '':'' @ format_uint (unat tp)) @ post"
    by blast
  have own4: "session_owner (now e4) (cr_session_token creds) (wdb w1) = Some (ID op)"
    "agent_owner (now e4) (cr_session_token creds) (wdb w1) = None"
    using session no_agent unfolding owners_tables(1) [OF same(6)] owners_tables(2) [OF same(2)] by simp_all
  have op1: "op \<in> set (rows (t_operators (wdb w1)))" and v1: "v \<in> set (rows (t_services (wdb w1)))"
    using op(1) rows unfolding same(1) by simp_all
  have slug_p: "slug_grammar (pr_slug p)" using server_ok_means [OF ok] p(1,2) unfolding validate_slug_iff by blast
  have only: "\<forall>u\<in>set (rows (t_services (wdb w1))). live u \<longrightarrow> sv_relay_port u = Some q \<longrightarrow> u = v"
    using port(2) unfolding rows by auto
  note fwd = forward_quiet [OF tick(2) f(4) server_okD(3) [OF quietD(2) [OF tick(2)]] own4 op1 op(2) adm creds(3,4,1,2)
      p1 p(2) slug_p p(3) s1 s(2-4) v1 v(1,2) v(4) [folded v(3)] v(5,6) only, of cfg "manager_relay mcfg" peer, unfolded v(3)]
  have relay2: "wrelay w2 = wrelay w1" using tick(2) by (simp add: quiet_def)
  show ?thesis
    by (rule exI [of _ r2], rule exI [of _ m2], rule exI [of _ w2], rule exI [of _ "tunnel_key (si_name s) slug"],
        rule exI [of _ "hash_token (ac_token acfg)"], rule exI [of _ "loopback @ [colon] @ format_uint (unat q)"],
        rule exI [of _ server_file], rule exI [of _ client_file], rule exI [of _ sup], unfold relay2)
      (intro conjI tick(1,3-5) srv(2-5) exI [of _ pre] exI [of _ post] server_part fwd [THEN conjunct1] fwd [THEN conjunct2])
qed

text \<open>The example, its agent's token good until 2000; the forward is made at 3000.\<close>

definition ex_leased_db :: db where
  "ex_leased_db = ex_db\<lparr>t_agent_tokens := \<lparr>rows = [ex_agent_token\<lparr>at_expires_at := Some 2000\<rparr>], seq = 1\<rparr>\<rparr>"

definition ex_relay_world :: "relay_state world" where
  "ex_relay_world = \<lparr>wdb = ex_leased_db, wrelay = NewManager (\<lambda>_. None)\<rparr>"

definition ex_at_3000 :: env where
  "ex_at_3000 = ex_env\<lparr>now := 3000\<rparr>"

lemma ex_at_3000_simps [simp]: "now ex_at_3000 = 3000" "fault ex_at_3000 x = False"
  by (simp_all add: ex_at_3000_def)

lemma ex_leased_tables [simp]:
  "t_operators ex_leased_db = t_operators ex_db" "t_sessions ex_leased_db = t_sessions ex_db"
  "t_projects ex_leased_db = t_projects ex_db" "t_sites ex_leased_db = t_sites ex_db"
  "t_services ex_leased_db = t_services ex_db" "t_sa_tokens ex_leased_db = t_sa_tokens ex_db"
  "t_accesses ex_leased_db = t_accesses ex_db"
  "rows (t_agent_tokens ex_leased_db) = [ex_agent_token\<lparr>at_expires_at := Some 2000\<rparr>]" "seq (t_agent_tokens ex_leased_db) = 1"
  by (simp_all add: ex_leased_db_def)

lemma ex_leased_ok: "server_ok ex_leased_db"
proof -
  have "db_wf ex_leased_db" unfolding ex_leased_db_def
    by (rule db_wf_set_table(7) [OF ex_wf]) (simp_all add: tbl_wf_def uniq_live_def ex_agent_token_def live_def)
  then show ?thesis
    by (simp add: server_ok_def net_ok_def admins_ok_def projects_ok_def project_ok_def
      project_range_def ports_ok_def holds_port_def acme_slug)
qed

lemma ex_leased_owner:
  "agent_owner t ''agent'' ex_leased_db = (if t < 2000 then Some 1 else None)"
  "2000 \<le> t \<Longrightarrow> agent_owner t raw ex_leased_db = None"
  by (simp_all add: agent_owner_def agent_token_lookup_def first_live_def not_expired_def live_def ex_agent_token_def)

lemma config_version_nonempty: "compute_config_version vs \<noteq> []"
proof -
  have "length (hex_encode bs) = 2 * length bs" for bs
    unfolding hex_encode_def by (induction bs) auto
  then show ?thesis using hash_token_length [of "version_text vs"]
    by (auto simp: compute_config_version_def hash_token_def simp flip: length_0_conv)
qed

lemma ex_service_created:
  "\<exists>out w1. cli_run (CliServiceCreate (''acme'' @ slash # ''hq'') ''web'' [] ''10.0.0.9'' 80 ''tcp'')
     (with_conn (Inr ex_creds) (serve ex_cfg (manager_relay ex_relay_config) ex_env None)) ex_relay_world =
       (Inr (ServiceR out), w1) \<and> vp_relay_port out = ucast (7002 :: port)"
proof -
  let ?cx = "operator_ctx None ex_admin (raw_ctx (cli_metadata ex_creds))"
  have v: "session_validate ex_env (cr_session_token ex_creds) (wdb ex_relay_world) = Inr ex_admin"
    by (simp add: session_validate_def first_live_def session_active_def ex_relay_world_def)
  have n: "canonicalSiteName (''acme'' @ slash # ''hq'') = Inr (format_site_name ''acme'' ''hq'')"
    using ex_slugs by (intro canonicalSiteName_short slug_no_slash) simp_all
  have "parse_site_parent (format_site_name ''acme'' ''hq'') = Inr \<lparr>sn_project = ''acme'', sn_site = ''hq''\<rparr>"
    using ex_slugs by (simp add: parse_site_parent_def parse_site_name_iff validate_slug_iff)
  then have r: "resolve_site_from_parent ex_env ?cx (format_site_name ''acme'' ''hq'') ex_leased_db = Inr (ex_project, ex_site)"
    by (simp add: resolve_site_from_parent_def operator_ctx_def project_find_by_slug_def site_find_by_name_def first_live_def)
  have "used_relay_ports 1 ex_leased_db = [7001]" by (simp add: used_relay_ports_def select_live_def)
  then have a: "allocate_relay_port ex_env ex_project ex_leased_db = Inr 7002"
    by (simp add: allocate_relay_port_def alloc_loop.simps)
  have web: "validate_slug ''web'' = None" and tcp: "parseProto ''tcp'' = Inr PROTO_TCP" by code_simp+
  let ?pb = "zero_service\<lparr>vp_display_name := [], vp_target_addr := ''10.0.0.9'', vp_target_port := 80, vp_proto := PROTO_TCP\<rparr>"
  have adm: "is_admin_ctx ?cx" by (simp add: is_admin_ctx_def operator_ctx_def)
  obtain row d where c: "service_create ex_env (new_service_row 1 ''web'' ?pb 7002) ex_leased_db = (Inr row, d)"
    "sv_relay_port row = Some 7002"
    by (simp add: service_create_def conflicts_def tbl_append_def stamp_new_def new_service_row_def Let_def)
  have p: "vp_target_addr ?pb \<noteq> []" "vp_target_port ?pb \<noteq> 0" "\<not> vp_target_port ?pb > 65535" by simp_all
  obtain w1 where "create_service (manager_relay ex_relay_config) ex_env (format_site_name ''acme'' ''hq'') ''web'' (Some ?pb) ?cx
      ex_relay_world = (Inr (service_to_proto ex_project ex_site row), w1)"
    using r a web c adm p by (simp add: create_service_def ex_relay_world_def del: service_pb.simps)
  then have "with_conn (Inr ex_creds) (serve ex_cfg (manager_relay ex_relay_config) ex_env None)
      (CreateServiceRequest (format_site_name ''acme'' ''hq'') ''web'' (Some ?pb)) ex_relay_world =
      (Inr (ServiceR (service_to_proto ex_project ex_site row)), w1)"
    using ex_solid by (subst with_conn_session [OF v]) (simp_all add: login_method_iff is_agent_request_cases reply_def)
  moreover have "vp_relay_port (service_to_proto ex_project ex_site row) = ucast (7002 :: port)"
    using c(2) by (simp add: service_to_proto_def)
  ultimately show ?thesis unfolding cli_run.simps newServiceCreateCmd_def n tcp sum.case by blast
qed

lemma ex_relay_world_start:
  "server_ok (wdb ex_relay_world)" "\<not> rs_closed (wrelay ex_relay_world)"
  "ex_project \<in> set (rows (t_projects (wdb ex_relay_world)))" "ex_site \<in> set (rows (t_sites (wdb ex_relay_world)))"
  "ex_admin \<in> set (rows (t_operators (wdb ex_relay_world)))"
  "\<forall>e\<in>{ex_env, ex_env}. agent_owner (now e) (ac_token ex_conf) (wdb ex_relay_world) = Some (ID ex_site)"
  "\<forall>e\<in>{ex_env, ex_at_3000}. session_owner (now e) (cr_session_token ex_creds) (wdb ex_relay_world) = Some (ID ex_admin)"
  "agent_owner (now ex_at_3000) (cr_session_token ex_creds) (wdb ex_relay_world) = None"
  "cr_session_token ex_creds \<noteq> []" "list_all solid (cr_session_token ex_creds)" "mc_binary ex_relay_config \<noteq> []"
  "ac_token ex_conf \<noteq> []" "list_all solid (ac_token ex_conf)" "ac_rathole_binary ex_conf \<noteq> []"
  "rt_cur_version ex_runtime \<noteq> compute_config_version vs" "rt_bridge ex_runtime = Some (ex_bridge ''agent'')"
  "bg_local_addr (ex_bridge ''agent'') \<noteq> []"
  using ex_leased_owner ex_solid config_version_nonempty [of vs]
  by (simp_all add: ex_relay_world_def ex_leased_ok NewManager_def session_owner_def first_live_def session_active_def
      ex_conf_def applyDefaults_def ex_relay_config_def ex_runtime_def ex_bridge_def)

theorem created_service_is_reachable_witness:
  "\<exists>out w1 r2 m2 w2 target. cli_run (CliServiceCreate (''acme'' @ slash # ''hq'') ''web'' [] ''10.0.0.9'' 80 ''tcp'')
       (with_conn (Inr ex_creds) (serve ex_cfg (manager_relay ex_relay_config) ex_env None)) ex_relay_world =
         (Inr (ServiceR out), w1) \<and>
     wire_loop ex_conf ex_host [WireTick (over_server ex_cfg (manager_relay ex_relay_config) ex_env None ex_conf)
         (\<lambda>n. over_server ex_cfg (manager_relay ex_relay_config) ex_env None ex_conf) ex_env] ex_runtime None w1 =
       (None, r2, m2, w2) \<and> rt_sup r2 \<noteq> None \<and>
     handle ex_at_3000 (Some (handleForward ''admin'' target)) (wdb w2) = ((200, Some target), wdb w2)"
proof -
  obtain out w1 where c: "cli_run (CliServiceCreate (pr_slug ex_project @ slash # si_name ex_site) ''web'' [] ''10.0.0.9'' 80 ''tcp'')
      (with_conn (Inr ex_creds) (serve ex_cfg (manager_relay ex_relay_config) ex_env None)) ex_relay_world =
        (Inr (ServiceR out), w1)" and port: "vp_relay_port out = ucast (7002 :: port)"
    using ex_service_created by (auto simp del: unsigned_numeral)
  note start = ex_relay_world_start
  have few: "length (select_live (\<lambda>x. si_project_id x = ID ex_project) (t_sites (wdb ex_relay_world))) \<le> 1000"
    "length (select_live (\<lambda>u. sv_site_id u = ID ex_site) (t_services (wdb ex_relay_world))) < 1000"
    and free: "\<forall>u\<in>set (rows (t_services (wdb ex_relay_world))). live u \<longrightarrow> sv_relay_port u \<noteq> Some 7002"
    by (simp_all add: ex_relay_world_def select_live_def)
  have proxy: "cr_auth_proxy_endpoint ex_creds \<noteq> []" by simp
  from created_service_is_reachable [OF c start(1) _ _ start(5) ex_fields(2) start(7,8) ex_creds_simps(1) proxy start(9,10,3) _ _
      start(4) _ _ _ few start(11,2) start(6,12,13,14,16,17,15) port free, of ex_env ex_host None None]
  show ?thesis using c ex_slugs by simp blast
qed

subsection \<open>Deleting the service\<close>

text \<open>A port without a live service: the proxy dials nothing for a token that is not an agent's.\<close>

lemma proxy_refuses_port:
  assumes "\<forall>u\<in>set (rows (t_services d)). live u \<longrightarrow> sv_relay_port u \<noteq> Some q" and "agent_owner (now e) tok d = None"
  shows "snd (fst (handle e (Some (handleForward tok (loopback @ [colon] @ format_uint (unat q)))) d)) = None"
proof -
  let ?target = "loopback @ [colon] @ format_uint (unat q)"
  have "False" if r: "Route e tok ?target d = (Inr backend, d')" for backend d'
  proof -
    obtain i adm where "routeOperator e i adm ?target d = Inr backend" using Route_Inr [OF r] assms(2) by auto
    from routeOperator_Inr [OF this] obtain port n p where port: "?target = loopback @ [colon] @ port \<or>
        ?target = ''['' @ loopback @ '']'' @ [colon] @ port" "parse_uint 16 port = Some n" "serves d (of_nat n) p"
      by blast
    then have "port = format_uint (unat q)" by (auto simp: loopback_def)
    then have "n = unat q" using port(2) by (simp add: parse_format_uint split: if_splits)
    then show False using port(3) assms(1) by (auto simp: serves_def)
  qed
  then show ?thesis
    by (cases "Route e tok ?target d") (auto simp: handle_def handleForward_def bearer_connect [simplified] split: sum.splits route_error.splits)
qed

lemma binding_from: "sb \<in> set (service_bindings n h vs) \<Longrightarrow> \<exists>u\<in>set vs. sv_relay_port u = Some (sb_relay_port sb)"
  by (induction vs) (auto split: option.splits)

lemma tunnel_from: "t \<in> set (tunnels_of vs) \<Longrightarrow> \<exists>u\<in>set vs. sv_name u = tb_service_slug t"
  by (induction vs) (auto split: option.splits)

lemma served_services_live:
  "u \<in> set (served_services i d) \<Longrightarrow> u \<in> set (rows (t_services d)) \<and> live u \<and> sv_site_id u = i"
  by (auto simp: served_services_def set_select_live dest!: in_set_takeD)

text \<open>What \<open>service delete\<close> did, when it went through and nothing failed in between.\<close>

lemma service_deleted:
  assumes "cli_run (CliServiceDelete (pr_slug p @ slash # si_name s @ slash # sv_name v) yes ans)
      (with_conn (Inr creds) (serve cfg (manager_relay mcfg) e peer)) w = (Inr resp, w1)"
    and ok: "server_ok (wdb w)" and nf: "\<forall>x. \<not> fault e x"
    and val: "session_validate e (cr_session_token creds) (wdb w) = Inr op"
    and c: "cr_session_token creds \<noteq> []" "list_all solid (cr_session_token creds)"
    and p: "p \<in> set (rows (t_projects (wdb w)))" "live p"
    and s: "s \<in> set (rows (t_sites (wdb w)))" "live s" "si_project_id s = ID p" "slug_grammar (si_name s)"
    and v: "v \<in> set (rows (t_services (wdb w)))" "live v" "sv_site_id v = ID s" "slug_grammar (sv_name v)"
    and rm: "mc_binary mcfg \<noteq> []" "\<not> rs_closed (wrelay w)"
  shows "\<exists>toml sup. t_services (wdb w1) = delete_live (now e) (\<lambda>u. ID u = ID v) (t_services (wdb w)) \<and>
    t_projects (wdb w1) = t_projects (wdb w) \<and> t_sites (wdb w1) = t_sites (wdb w) \<and>
    t_agent_tokens (wdb w1) = t_agent_tokens (wdb w) \<and> server_ok (wdb w1) \<and>
    project_text (wdb w1) p = Inr toml \<and> rs_files (wrelay w1) (config_path mcfg p) = Some toml \<and>
    map_of (rs_sups (wrelay w1)) (ID p) = Some sup \<and> \<not> sp_cancelled sup \<and>
    sp_args sup = mc_binary_args mcfg @ [config_path mcfg p]"
proof -
  note wf = server_okD(3) [OF ok]
  have pm: "validate_slug (pr_slug p) = None" "is_ok (parse_port_range (pr_relay_port_range p))"
    using server_ok_means [OF ok] p by blast+
  have slug_p: "slug_grammar (pr_slug p)" using pm(1) by (simp add: validate_slug_iff)
  let ?name = "format_service_name (pr_slug p) (si_name s) (sv_name v)"
    and ?cx = "operator_ctx peer op (raw_ctx (cli_metadata creds))"
  note slugs = slug_p s(4) v(4)
  have "canonicalServiceName (pr_slug p @ slash # si_name s @ slash # sv_name v) = Inr ?name"
    by (rule canonicalServiceName_forms(1) [OF slugs [THEN slug_no_slash] slugs [THEN slug_nonempty]])
  then have "with_conn (Inr creds) (serve cfg (manager_relay mcfg) e peer) (DeleteServiceRequest ?name) w = (Inr resp, w1)"
    using assms(1) by (auto simp: newServiceDeleteCmd_def split: if_splits)
  from conn_dispatched [OF this val c]
  have sv: "serve cfg (manager_relay mcfg) e peer (cli_metadata creds) (DeleteServiceRequest ?name) w = (Inr resp, w1)"
    and "dispatch cfg (manager_relay mcfg) e (DeleteServiceRequest ?name) ?cx w = (Inr resp, w1)"
    by (simp_all add: login_method_iff is_agent_request_cases)
  then obtain out where "delete_service (manager_relay mcfg) e ?name ?cx w = (Inr out, w1)"
    by (auto simp: map_sum_def split: sum.splits dest!: reply_eq)
  from delete_service_Inr [OF this] obtain p' s' v' d en where h: "resolve_service e ?cx ?name (wdb w) = Inr (p', s', v')"
    "is_admin_ctx ?cx" "service_delete e (ID v') (wdb w) = (Inr (), d)"
    "w1 = relay_refresh (manager_relay mcfg) e (ID p') (audit_w e ?cx en (w\<lparr>wdb := d\<rparr>))"
    by blast
  have adm: "op_is_admin op" using h(2) by (auto simp: is_admin_ctx_iff operator_ctx_def)
  have "cx_operator ?cx = Some op" by (simp add: operator_ctx_def)
  from resolve_service_member [OF nf wf this p slug_p s v disjI1 [OF adm]]
  have "resolve_service e ?cx ?name (wdb w) = Inr (p, s, v)" .
  then have same: "p' = p" "v' = v" using h(1) by simp_all
  have d: "d = (wdb w)\<lparr>t_services := delete_live (now e) (\<lambda>u. ID u = ID v) (t_services (wdb w))\<rparr>"
    using service_delete_effect [OF h(3)] unfolding same .
  have wdb: "wdb w1 = audited e ?cx en d"
    and wr: "wrelay w1 = snd (Refresh mcfg e (ID p) (wdb w1) (wrelay w))"
    unfolding h(4) same by (simp_all add: relay_calls_wrelay manager_relay_def)
  have tables: "t_services (wdb w1) = delete_live (now e) (\<lambda>u. ID u = ID v) (t_services (wdb w))"
    "t_projects (wdb w1) = t_projects (wdb w)" "t_sites (wdb w1) = t_sites (wdb w)"
    "t_agent_tokens (wdb w1) = t_agent_tokens (wdb w)"
    unfolding wdb audited_frame d by simp_all
  moreover have "server_ok (wdb w1)" by (rule serve_keeps [OF ok sv])
  moreover obtain r' toml sup where "Refresh mcfg e (ID p) (wdb w1) (wrelay w) = (Inr (), r')"
    "project_text (wdb w1) p = Inr toml" "rs_files r' (config_path mcfg p) = Some toml"
    "map_of (rs_sups r') (ID p) = Some sup" "\<not> sp_cancelled sup" "sp_args sup = mc_binary_args mcfg @ [config_path mcfg p]"
    using refresh_ok [OF nf _ _ p(2) refl pm(2) rm, of "wdb w1"] db_wfD(3) [OF wf] p(1) tables(2) by auto
  ultimately show ?thesis using wr by (intro exI [of _ toml] exI [of _ sup]) simp
qed


lemma ex_service_deleted:
  "\<exists>resp w1. cli_run (CliServiceDelete (''acme'' @ slash # ''hq'' @ slash # ''ssh'') True [])
     (with_conn (Inr ex_creds) (serve ex_cfg (manager_relay ex_relay_config) ex_env None)) ex_relay_world = (Inr resp, w1)"
proof -
  let ?cx = "operator_ctx None ex_admin (raw_ctx (cli_metadata ex_creds))"
    and ?name = "format_service_name ''acme'' ''hq'' ''ssh''"
  have v: "session_validate ex_env (cr_session_token ex_creds) (wdb ex_relay_world) = Inr ex_admin"
    by (simp add: session_validate_def first_live_def session_active_def ex_relay_world_def)
  have n: "canonicalServiceName (''acme'' @ slash # ''hq'' @ slash # ''ssh'') = Inr ?name"
    by (rule canonicalServiceName_forms(1) [OF ex_slugs [THEN slug_no_slash] ex_slugs [THEN slug_nonempty]])
  have "db_wf ex_leased_db" by (rule server_okD(3) [OF ex_leased_ok])
  then have r: "resolve_service ex_env ?cx ?name ex_leased_db = Inr (ex_project, ex_site, ex_service)"
    using resolve_service_member [of ex_env ex_leased_db ?cx ex_admin ex_project ex_site ex_service] ex_slugs
    by (simp add: operator_ctx_def)
  have adm: "is_admin_ctx ?cx" by (simp add: is_admin_ctx_def operator_ctx_def)
  obtain w1 where "delete_service (manager_relay ex_relay_config) ex_env ?name ?cx ex_relay_world = (Inr (), w1)"
    using r adm by (simp add: delete_service_def ex_relay_world_def service_delete_def)
  then have "\<exists>resp. with_conn (Inr ex_creds) (serve ex_cfg (manager_relay ex_relay_config) ex_env None)
      (DeleteServiceRequest ?name) ex_relay_world = (Inr resp, w1)"
    using ex_solid by (subst with_conn_session [OF v]) (simp_all add: login_method_iff is_agent_request_cases reply_def)
  then show ?thesis unfolding cli_run.simps newServiceDeleteCmd_def n sum.case by auto
qed


end
