(* ===== verification/Spec2Isabelle.thy ===== *)
theory Spec2Isabelle
  imports Tunnel System TokenSpec AdminCli AgentRuntime CliOutput Deploy RelaySeq Statements Interleave Frontends AgentServer
    ChildIO EndToEnd
begin

text \<open>
  quicktun: a verification library for the Go sources under src/ of the repository.

  The program. quicktun gives operators access to services behind customer bastions. A control plane
  (cmd/quicktun-server, internal/server) keeps operators, projects, sites, services and tokens in a
  SQLite database and serves gRPC; per active project it supervises a rathole-server process
  (internal/relay). On a bastion an agent (cmd/quicktun-agent, internal/agent) bootstraps with the
  site's token, renders a rathole-client configuration and supervises the client. An auth proxy
  (cmd/quicktun-authproxy, internal/authproxy) lets a CONNECT through to a relay port when its bearer
  token allows it. The operator's client (cmd/quicktun) sends the RPCs and forwards local ports. The
  parts meet in the database (server, proxy, administrative commands), in the RPCs, in the two rathole
  configurations, whose keys and tokens have to agree, and in the tokens themselves.

  The theories, in the order of their imports:
  \<^item> QtPrelude: status values, Go's strings and strconv functions, decimal numbers, the collections
    \<open>table_simps\<close>, \<open>frame_simps\<close>, \<open>wf_intros\<close>. Resource: internal/resource (slugs, resource names,
    port ranges). Token: internal/auth/token.go with SHA-256, hex and base64 written out.
  \<^item> Store: tables with AUTOINCREMENT keys and soft deletion, the statements the DAOs use, the locale
    \<open>keyset_pager\<close> (a client that follows page tokens sees every row once). Schema: internal/model,
    the rows and the database, and the invariant \<open>db_wf\<close> (keys, unique indexes).
  \<^item> DaoProject, DaoSite, DaoService, DaoOperator, DaoAudit: internal/dao and internal/audit, one
    function per method. Credentials: the locale \<open>credential_store\<close> and its extension
    \<open>revocable_store\<close>, interpreted on sessions, agent tokens and service-account tokens. TokenSpec:
    the maps from tokens to owners those tables refine.
  \<^item> Auth: internal/auth's interceptors and their chain in internal/server, over the locale
    \<open>token_authority\<close>. RelayIface: the interface the services have of the relay manager as a record
    of functions, with the locale \<open>relay_manager\<close> as its contract, the wire enumerations, the access
    check.
  \<^item> ProjectService, SiteService, ServiceService, AgentService, AuthService, OperatorService,
    AdminService: internal/grpcsvc, one function per RPC in the order of the source's checks.
  \<^item> Relay: internal/relay (which interprets \<open>relay_manager\<close>); its state has the supervisors in the map and
    those that left it, whose contexts were cancelled. Sweeper: internal/sweeper. Supervisor:
    internal/supervisor and internal/notify (one run of a child in its steps, and the loop in time:
    ChildIO). Tunnel: internal/agent/render.go, and the agreement of the texts of the two rathole
    configurations. Router: internal/authproxy.
  \<^item> Server: requests, their dispatch, a call off the wire, \<open>server_step\<close> and \<open>reachable\<close>. System: the
    server's invariant \<open>server_ok\<close> and what each request keeps. Deploy: the configuration files,
    Server.Run, the gateway's errors.
  \<^item> AgentRuntime: internal/agent/config.go, runtime.go, bridge.go. AdminCli: the server's
    administrative commands and \<open>deployed\<close>, the steps of an installation. OperatorCli: cmd/quicktun and
    internal/clicred, with what the network and the deadline of each request do to its answer. CliServer:
    its commands against the server and the proxy. CliOutput: what the commands print.
  \<^item> AgentServer: the agent's calls and loop over the server's \<open>serve\<close>, and its bridge over the
    proxy. RelayConc: internal/relay/manager.go with its calls as threads that interleave; RelaySeq: Relay's
    functions are the runs of one thread. Statements: every write of the server as a single SQL
    statement, in any order. Interleave: handlers cut at their first write and overlapped.
    EndToEnd: a service from its creation on the command line to the address the proxy dials, through
    server, relay manager and agent, and its end by the same way.
  \<^item> Metrics: internal/metrics, its interceptor and hooks. Frontends: the accept loops, the commands
    that start the processes (cmd/quicktun-*), the Windows service loop, migrations, the gateway's routes
    and handlers (internal/health, server/webui, server/installscripts), the webhook (internal/notify).
  \<^item> Example: the database the witnesses use.

  How state and operations correspond. A table is a record of its rows and the largest key given out;
  a row is a record with the columns of its Go struct; \<open>db\<close> is the record of the tables. A function that
  reads returns its result; one that writes returns the result and the state after it, unchanged where
  the source returns before its statement. Errors are values: \<open>dao_error\<close>, \<open>status\<close> (a gRPC code and the
  format string of the message, whose arguments are not substituted), format strings elsewhere. The
  \<open>env\<close> of a call holds the clock, the random bytes, bcrypt, and \<open>fault\<close>, which says of each statement
  and file operation whether it fails; theorems hold for every \<open>env\<close> unless they say otherwise. Ports are
  16-bit words in the database and 32-bit words on the wire, ids and ttl seconds wrap where Go's do.

  What the lemmas show. Per table: keys stay unique and increasing, the unique indexes hold, and what a
  statement leaves alone. Per token kind: who owns a token when. Per RPC: who may call it, what it
  changes, that its failures change nothing. Across parts: an installation's invariant from the empty
  database on, that only administrators change the configuration, that both doors (gRPC and proxy)
  open for exactly the tokens they should, that an agent comes to run what the server serves, that
  forward reaches the service, that a service created on the command line is one tick of the agent later
  written down alike in both rathole files and reached through the proxy, that a deleted one is gone from
  all of them, and that the retrying and restarting loops end or stay bounded. Under
  concurrency: which invariants every interleaving keeps (keys and unique indexes, one child per
  project, no deadlock in the relay manager), and which checks of the handlers do not hold when calls
  overlap.

  Bounds and fuel. AllocateRelayPort and bootstrapWithRetry are functions with a measure (the ports
  left, the attempts left), so they end for every input. \<open>crawl\<close>, a client that follows page tokens, has
  fuel; the theorems need one more than there are rows, and the crawl then ends by itself. Loops over
  events (Sweeper.Run, Supervisor.Run, the agent's loop) are functions of the list of events, of any
  length; the loop of Supervisor.Run in time is a function of the children it may start, of which one for each
  second until its context ends is enough for it to return.

  Simplifications. In Server and System calls run one after the other, a handler being one step, and
  so in the theorems about \<open>reachable\<close> and \<open>deployed\<close>. What that leaves out is in Statements (whatever
  the order of the statements, \<open>db_wf\<close> holds) and Interleave (port ranges, relay ports, the last
  administrator and deletions do not survive every overlap). RelayConc takes a database for a version
  number and a rendering for the version it read. The theorems about commands have the plain server at the
  other end of the client's connection, which is the network on which every answer comes within its deadline;
  the one about failing commands has any network. filepath.Join is concatenation, as for the clean paths the program uses. %q is
  written for ASCII strings. time is in nanoseconds without bound. bcrypt and yaml are parameters with
  the laws of their documentation where a theorem uses one (a hash accepts its password; what is
  marshalled is read back). A theorem about tokens issued later says so where two tokens would have to
  have the same SHA-256.

  Not modelled, and why: sockets, HTTP parsing and the copying of bytes (I/O), the content of the web UI
  and the install scripts (static files), the Prometheus registry and the logger (third-party objects),
  golang-migrate and gorm beyond the statements (third-party; the indexes the migrations create are in
  \<open>db_wf\<close>), platform process attributes, the alignment of the client's tables and the encoding of its JSON, the
  cobra roots.
\<close>

text \<open>
  In every world the server can reach from one that satisfies its invariant, whatever calls,
  ticks and connections there were and in whatever order: live projects have different valid slugs
  and relay port ranges apart from each other, no two services of a project share a relay port, and
  some administrator is left.
\<close>
theorem reachable_invariant:
  assumes "reachable cfg rm sw w0 w" and "server_ok (wdb w0)"
  shows "(\<forall>p\<in>set (rows (t_projects (wdb w))). \<forall>q\<in>set (rows (t_projects (wdb w))).
      live p \<longrightarrow> live q \<longrightarrow> p \<noteq> q \<longrightarrow> pr_slug p \<noteq> pr_slug q \<and> ranges_apart p q) \<and>
    (\<forall>p\<in>set (rows (t_projects (wdb w))). live p \<longrightarrow>
      validate_slug (pr_slug p) = None \<and> is_ok (parse_port_range (pr_relay_port_range p))) \<and>
    (\<forall>k q u v. holds_port (wdb w) k u q \<longrightarrow> holds_port (wdb w) k v q \<longrightarrow> u = v) \<and>
    (\<exists>op\<in>set (rows (t_operators (wdb w))). live op \<and> op_is_admin op)"
  by (rule server_ok_means [OF reachable_keeps [OF assms]])

text \<open>
  C1. What an installation can come to: from the empty database and one \<open>admin create-operator
  --admin\<close>, whatever calls, ticks, connections and administrative commands follow, in whatever order,
  one after the other (project ranges given on the command line being free), live projects have different valid slugs and
  relay port ranges apart from each other, no two services of a project share a relay port, and some
  administrator is left.
\<close>
theorem fresh_install_invariant:
  assumes "adminCreateOperator e em pw True db_empty = (Inr op, wdb w0)" and "deployed cfg rm sw w0 w"
  shows "(\<forall>p\<in>set (rows (t_projects (wdb w))). \<forall>q\<in>set (rows (t_projects (wdb w))).
      live p \<longrightarrow> live q \<longrightarrow> p \<noteq> q \<longrightarrow> pr_slug p \<noteq> pr_slug q \<and> ranges_apart p q) \<and>
    (\<forall>p\<in>set (rows (t_projects (wdb w))). live p \<longrightarrow>
      validate_slug (pr_slug p) = None \<and> is_ok (parse_port_range (pr_relay_port_range p))) \<and>
    (\<forall>k q u v. holds_port (wdb w) k u q \<longrightarrow> holds_port (wdb w) k v q \<longrightarrow> u = v) \<and>
    (\<exists>op\<in>set (rows (t_operators (wdb w))). live op \<and> op_is_admin op)"
  using first_admin [OF assms(1)] deployed_keeps [OF assms(2)] by (intro server_ok_means) blast

text \<open>The first administrator, then a site command.\<close>

theorem fresh_install_invariant_witness:
  "\<exists>op d. adminCreateOperator ex_env ''root'' ''pw'' True db_empty = (Inr op, d) \<and>
     (\<exists>x\<in>set (rows (t_operators (admin_run ex_env (SiteCreateCmd ''acme'' ''hq'' ''HQ'') d))).
        live x \<and> op_is_admin x)"
proof -
  obtain op d where a: "adminCreateOperator ex_env ''root'' ''pw'' True db_empty = (Inr op, d)"
    using ex_first_admin by blast
  let ?w = "\<lparr>wdb = d, wrelay = ()\<rparr>" and ?cmd = "SiteCreateCmd ''acme'' ''hq'' ''HQ''"
  have "deployed ex_cfg noop_relay ex_sw ?w (?w\<lparr>wdb := admin_run ex_env ?cmd (wdb ?w)\<rparr>)"
    by (rule deployed.admin [OF deployed.start]) (simp add: checked_def)
  from fresh_install_invariant [OF _ this, of ex_env "''root''" "''pw''" op] a show ?thesis by auto
qed

text \<open>
  C2. Only administrators change the configuration: a step of the server that changes any operator,
  project, grant, service, set of sites or token is an RPC whose bearer token is, at that moment, a
  credential of a live administrator. Ticks, the proxy, agents, anonymous and ordinary callers
  change sessions, audit rows, agent-reported site state and last-used times at most.
\<close>
theorem only_admins_change_config:
  assumes "server_step cfg rm sw w w'" and "\<not> config_same (wdb w) (wdb w')"
  shows "\<exists>e peer md q res op. serve cfg rm e peer md q w = (res, w') \<and>
    extract_bearer (raw_ctx md) \<noteq> [] \<and> bearer_of (now e) (extract_bearer (raw_ctx md)) (wdb w) op \<and>
    op_is_admin op"
  using assms(1)
proof (cases rule: server_step.cases)
  case (rpc e peer md q res)
  from serve_cases [OF rpc] show ?thesis
  proof (elim disjE exE conjE, goal_cases)
    case (1 cx d)
    have "is_admin_ctx cx"
    proof (rule ccontr)
      assume "\<not> is_admin_ctx cx"
      from dispatch_nonadmin [OF this 1(2) [symmetric]] have "config_same d (wdb w')" by (simp add: inert_def)
      then show False using config_same_trans [OF touched_config_same [OF 1(1)]] assms(2) by blast
    qed
    then obtain op where "cx_operator cx = Some op" "op_is_admin op" unfolding is_admin_ctx_iff by blast
    then show ?case using rpc 1(3) by blast
  next
    case 2
    then show ?case using touched_config_same assms(2) by blast
  qed
next
  case (tick e res d)
  then show ?thesis using config_same_tick [of "wdb w" sw e] assms(2) by simp
next
  case (connect e req out d)
  then show ?thesis using config_same_handle assms(2) by fastforce
next
  case (relay r)
  then show ?thesis using assms(2) by simp
qed

text \<open>
  C10. A failed RPC has no effect: when the caller sees an error, the configuration and the relay
  manager are as they were, whatever the error and wherever it happened. UpdateOperator is the one
  exception, as it commits the role before it looks at the password.
\<close>
theorem failed_rpc_changes_nothing:
  assumes "serve cfg rm e peer md q w = (Inl st, w')"
    and "\<forall>b mk pw. q \<noteq> UpdateOperatorRequest b mk pw"
  shows "config_same (wdb w) (wdb w') \<and> wrelay w' = wrelay w"
  using serve_settled [OF assms(1)] assms(2) by (auto simp: settled_def inert_def split: request.splits)

text \<open>Calls of the example's administrator.\<close>

definition ex_caller :: ctx where
  "ex_caller = operator_ctx None ex_admin (raw_ctx (Some (ex_md ''admin'')))"

lemma ex_caller_simps [simp]: "cx_operator ex_caller = Some ex_admin" "require_admin ex_caller = Inr ex_admin"
  by (simp_all add: ex_caller_def operator_ctx_def require_admin_def)

lemma ex_admin_bearer: "extract_bearer (raw_ctx (Some (ex_md ''admin''))) = ''admin''"
  by (rule ex_bearer) (simp, rule ex_solid)

lemma ex_admin_call:
  assumes "method_of q \<noteq> login_method" "\<not> is_agent_request q" "wdb w = ex_db"
  shows "serve cfg rm ex_env None (Some (ex_md ''admin'')) q w = dispatch cfg rm ex_env q ex_caller w"
proof -
  have v: "session_validate ex_env ''admin'' ex_db = Inr ex_admin"
    by (simp add: session_validate_def first_live_def session_active_def)
  have b: "extract_bearer ((raw_ctx (Some (ex_md ''admin'')))\<lparr>cx_source_ip := ip\<rparr>) = ''admin''" for ip
    using ex_admin_bearer by (simp add: extract_bearer_def)
  have "\<not> has_prefix agent_service_prefix (method_of q)" using assms(2) by (simp add: is_agent_request_def)
  then show ?thesis
    using assms(1,3) unfolding serve_def server_chain_operator [OF \<open>\<not> has_prefix _ _\<close>]
    by (simp add: unary_interceptor_def b v server_validators_def ex_caller_def operator_ctx_def
        WithRawToken_def WithOperator_def ex_admin_bearer Let_def)
qed

lemma ex_revoke_call:
  "serve cfg rm ex_env None (Some (ex_md ''admin'')) (RevokeServiceAccountTokenRequest i) ex_world =
     reply (\<lambda>_. EmptyResponse) (revoke_sa_token ex_env i ex_caller ex_world)"
  by (simp add: ex_admin_call login_method_iff is_agent_request_cases)

lemma ex_revoke_changes:
  "\<exists>res w'. serve cfg rm ex_env None (Some (ex_md ''admin'')) (RevokeServiceAccountTokenRequest 1) ex_world = (res, w') \<and>
     \<not> config_same ex_db (wdb w')"
  unfolding ex_revoke_call
  by (simp add: revoke_sa_token_def reply_def sa_token_find_by_id_def first_live_def sa_token_revoke_def
      config_same_def frame_simps update_live_simps sa_ident_def ex_sa_token_def live_def)

theorem reachable_invariant_witness:
  "\<exists>op\<in>set (rows (t_operators (snd (sweeper_tick ex_sw ex_env ex_db)))). live op \<and> op_is_admin op"
proof -
  obtain res d where t: "sweeper_tick ex_sw ex_env (wdb ex_world) = (res, d)" by fastforce
  have "reachable ex_cfg noop_relay ex_sw ex_world (ex_world\<lparr>wdb := d\<rparr>)"
    by (rule reachable.step [OF reachable.start server_step.tick [OF t]])
  from reachable_invariant [OF this] ex_server_ok t show ?thesis by simp
qed

theorem only_admins_change_config_witness:
  "\<exists>(e :: env) md op. bearer_of (now e) (extract_bearer (raw_ctx md)) ex_db op \<and> op_is_admin op"
proof -
  let ?cfg = ex_cfg and ?rm = noop_relay
  from ex_revoke_changes [of ?cfg ?rm] obtain res w' where
    s: "serve ?cfg ?rm ex_env None (Some (ex_md ''admin'')) (RevokeServiceAccountTokenRequest 1) ex_world = (res, w')"
    and c: "\<not> config_same (wdb ex_world) (wdb w')"
    by auto
  from only_admins_change_config [OF server_step.rpc [OF s] c] show ?thesis by auto
qed

theorem failed_rpc_changes_nothing_witness:
  "\<exists>st w'. serve ex_cfg noop_relay ex_env None (Some (ex_md ''admin'')) (RevokeServiceAccountTokenRequest 0) ex_world = (Inl st, w') \<and>
     config_same ex_db (wdb w')"
proof -
  obtain st w' where s: "serve ex_cfg noop_relay ex_env None (Some (ex_md ''admin''))
      (RevokeServiceAccountTokenRequest 0) ex_world = (Inl st, w')"
    unfolding ex_revoke_call by (simp add: revoke_sa_token_def reply_def)
  then show ?thesis using failed_rpc_changes_nothing [OF s] by simp
qed

text \<open>
  C9. Rotating a site's agent token shuts out every token the site had, for good. Let \<open>old\<close> be a token that no
  other site's live token has the hash of: the one just replaced, or one replaced before. Then, in whatever
  state any statements of the server since, of whichever handlers and in whatever order, have brought the
  database to, an agent RPC with \<open>old\<close> is refused with Unauthenticated or Internal and changes nothing, unless a
  token issued since has the very same hash (its row's number is one given out from the rotation on; the new
  token's own is the first). And the new token is the site's.
\<close>
theorem rotated_token_rejected:
  assumes "db_wf (wdb w)" and "resolve_site e cx name (wdb w) = Inr (p, site)"
    and "rotate_site_agent_token rm e name cx w = (Inr out, w')"
    and "\<forall>r\<in>set (rows (t_agent_tokens (wdb w))). live r \<longrightarrow> at_token_hash r = hash_token old \<longrightarrow> at_site_id r = ID site"
    and "statements (wdb w') (wdb w2)"
    and "is_agent_request q" and "extract_bearer (raw_ctx md) = old"
    and "serve cfg rm e2 peer md q w2 = (res, w3)"
  shows "((\<exists>c msg. res = Inl (Status c msg) \<and> c \<in> {Unauthenticated, Internal}) \<and> w3 = w2 \<or>
      (\<exists>r\<in>set (rows (t_agent_tokens (wdb w2))). live r \<and> at_token_hash r = hash_token old \<and>
         seq (t_agent_tokens (wdb w)) < ID r)) \<and>
    agent_owner t2 (tr_token out) (wdb w') = Some (ID site)"
proof -
  from rotate_site_agent_token_Inr [OF assms(3)] assms(2) obtain row d en where
    i: "site_token_issue e (ID site) 0 (wdb w) = (Inr (row, tr_token out), d)" "wdb w' = audited e cx en d"
    by auto
  have tokens: "t_agent_tokens (wdb w') = t_agent_tokens d" using i(2) by (simp add: frame_simps)
  have "agent_owner t2 (tr_token out) (wdb w') = Some (ID site)"
    using agent_issue_fresh [OF assms(1) raw_of_Inr [OF i(1)], of t2] tokens
    by (simp add: agent_owner_def agent_token_lookup_def)
  moreover have "\<exists>r\<in>set (rows (t_agent_tokens (wdb w2))). live r \<and> at_token_hash r = hash_token old \<and>
      seq (t_agent_tokens (wdb w)) < ID r" if own: "agent_owner (now e2) old (wdb w2) = Some j" for j
  proof -
    obtain r where "agent_token_lookup (now e2) old (wdb w2) = Some r" using own by (auto simp: agent_owner_def)
    from agent_token_lookup_Some [OF this]
    have r: "r \<in> set (rows (t_agent_tokens (wdb w2)))" "live r" "at_token_hash r = hash_token old" by simp_all
    have "seq (t_agent_tokens (wdb w)) < ID r"
    proof (rule ccontr)
      assume "\<not> seq (t_agent_tokens (wdb w)) < ID r"
      then have before: "ID r \<le> seq (t_agent_tokens (wdb w))" by simp
      have "ID r \<le> seq (t_agent_tokens (wdb w'))"
        using before tokens_since_issue [OF i(1)] tokens by (simp add: tokens_since_def)
      then obtain r1 where r1: "r1 \<in> set (rows (t_agent_tokens (wdb w')))" "agent_ident r1 = agent_ident r"
        using statements_tokens [OF assms(5)] r(1,2) unfolding tokens_since_def by blast
      then have r1': "live r1" "at_token_hash r1 = hash_token old" "ID r1 \<le> seq (t_agent_tokens (wdb w))"
        using r before by (simp_all add: agent_ident_def live_def)
      have "r1 \<in> set (rows (delete_live (now e) (\<lambda>x. at_site_id x = ID site) (t_agent_tokens (wdb w))))"
        using site_token_issue_Inr [OF raw_of_Inr [OF i(1)]] r1(1) r1'(3) tokens by (auto simp: table_simps)
      then have "r1 \<in> set (rows (t_agent_tokens (wdb w)))" "at_site_id r1 \<noteq> ID site"
        using delete_live_survivor r1'(1) by blast+
      then show False using assms(4) r1' by blast
    qed
    then show ?thesis using r by blast
  qed
  ultimately show ?thesis
    using server_chain_agent_cases [OF assms(6) [unfolded is_agent_request_def] assms(8) [unfolded serve_def]]
      assms(7) by blast
qed

text \<open>
  The example site's token is rotated, another agent's call touches a last-used time, and then the old token
  is tried.
\<close>

theorem rotated_token_rejected_witness:
  "\<exists>out w' res w3. rotate_site_agent_token noop_relay ex_env (format_site_name ''acme'' ''hq'') ex_caller ex_world = (Inr out, w') \<and>
     serve ex_cfg noop_relay ex_env None (Some (ex_md ''agent'')) (HeartbeatRequest [] [] [] [] [])
       (w'\<lparr>wdb := touch_agent_used ex_env 2 (wdb w')\<rparr>) = (res, w3) \<and>
     (\<not> is_ok res \<or> (\<exists>r\<in>set (rows (t_agent_tokens (touch_agent_used ex_env 2 (wdb w')))). 1 < ID r \<and> at_token_hash r = hash_token ''agent''))"
proof -
  let ?name = "format_site_name ''acme'' ''hq''" and ?md = "Some (ex_md ''agent'')"
  have slugs: "validate_slug ''acme'' = None" "validate_slug ''hq'' = None" by code_simp+
  have site: "resolve_site ex_env ex_caller ?name (wdb ex_world) = Inr (ex_project, ex_site)"
  proof -
    have "parse_site_name ?name = Inr \<lparr>sn_project = ''acme'', sn_site = ''hq''\<rparr>"
      using slugs by (simp add: parse_site_name_iff)
    moreover have "parse_project_parent (''projects/'' @ ''acme'') = Inr ''acme''"
      using parse_acme by (simp add: parse_project_parent_def)
    ultimately show ?thesis
      by (simp add: resolve_site_def resolve_project_def project_find_by_slug_def site_find_by_name_def
          first_live_def)
  qed
  obtain out w' where r: "rotate_site_agent_token noop_relay ex_env ?name ex_caller ex_world = (Inr out, w')"
    using ex_issues(1) [of 0] site by (auto simp: rotate_site_agent_token_def is_admin_ctx_iff)
  let ?q = "HeartbeatRequest [] [] [] [] []" and ?w2 = "w'\<lparr>wdb := touch_agent_used ex_env 2 (wdb w')\<rparr>"
  have b: "extract_bearer (raw_ctx ?md) = ''agent''" by (rule ex_bearer) (simp, rule ex_solid)
  obtain res w3 where s: "serve ex_cfg noop_relay ex_env None ?md ?q ?w2 = (res, w3)" by fastforce
  have later: "statements (wdb w') (wdb ?w2)" using agent_used [of "wdb w'" ex_env 2] by simp
  have wf: "db_wf (wdb ex_world)" "is_agent_request ?q" by (simp_all add: ex_wf is_agent_request_cases)
  have own: "\<forall>r\<in>set (rows (t_agent_tokens (wdb ex_world))). live r \<longrightarrow> at_token_hash r = hash_token ''agent'' \<longrightarrow> at_site_id r = ID ex_site"
    by simp
  from rotated_token_rejected [OF wf(1) site r own later wf(2) b s, of 0]
  have "\<not> is_ok res \<or> (\<exists>r\<in>set (rows (t_agent_tokens (wdb ?w2))). live r \<and> at_token_hash r = hash_token ''agent'' \<and>
      seq (t_agent_tokens (wdb ex_world)) < ID r)"
    by auto
  then show ?thesis using r s by (intro exI [of _ out] exI [of _ w'] exI [of _ res] exI [of _ w3]) auto
qed

lemma unat_ucast_port: "unat (ucast (q :: port) :: 32 word) = unat q"
proof -
  have "unat q < 2 ^ LENGTH(16)" by (rule unsigned_less)
  then show ?thesis by (simp add: unsigned_ucast_eq take_bit_nat_eq_self_iff)
qed

text \<open>
  C23. CreateService in full: on failure nothing changes; on success the answer carries the port the
  new service holds, which lies in the project's range above its first port (kept for the control
  channel), and which no service of the project held.
\<close>
theorem create_service_outcome:
  "case create_service rm e parent i body cx w of
     (Inl st, w') \<Rightarrow> w' = w
   | (Inr out, w') \<Rightarrow> (\<exists>p site lo hi q v.
       resolve_site_from_parent e cx parent (wdb w) = Inr (p, site) \<and>
       parse_port_range (pr_relay_port_range p) = Inr (lo, hi) \<and> lo < q \<and> q \<le> hi \<and>
       (\<nexists>u. holds_port (wdb w) (ID p) u q) \<and> holds_port (wdb w') (ID p) v q \<and>
       sv_name v = i \<and> sv_site_id v = ID site \<and> unat (vp_relay_port out) = unat q)"
proof (cases "create_service rm e parent i body cx w")
  case (Pair r w')
  show ?thesis
  proof (cases r)
    case (Inl st)
    then show ?thesis using Pair create_service_Inl by fastforce
  next
    case (Inr out)
    from create_service_Inr [OF Pair [unfolded Inr]] obtain p site pb q row d en where
      h: "resolve_site_from_parent e cx parent (wdb w) = Inr (p, site)"
        "allocate_relay_port e p (wdb w) = Inr q"
        "service_create e (new_service_row (ID site) i pb q) (wdb w) = (Inr row, d)"
        "out = service_to_proto p site row" "wdb w' = audited e cx en d"
      by auto
    have wdb: "wdb w' = audited e cx en d" by (rule h(5))
    obtain lo hi where r: "q \<notin> set (used_relay_ports (ID p) (wdb w))"
      "parse_port_range (pr_relay_port_range p) = Inr (lo, hi)" "unat lo < unat q" "unat q \<le> unat hi"
      using allocate_relay_port_Inr [OF h(2)] by blast
    have eff: "d = (wdb w)\<lparr>t_services := t_services d\<rparr>" "rows (t_services d) = rows (t_services (wdb w)) @ [row]"
      "live row" "sv_site_id row = ID site" "sv_name row = i" "sv_relay_port row = Some q"
      using service_create_effect [OF h(3)] by (simp_all add: new_service_row_def)
    have site: "site \<in> set (rows (t_sites (wdb w)))" "live site" "si_project_id site = ID p"
      using resolve_site_from_parent_Inr [OF h(1)] by blast+
    have "t_sites d = t_sites (wdb w)" by (subst eff(1)) simp
    then have "holds_port (wdb w') (ID p) row q"
      unfolding holds_port_def wdb using eff(2-6) site by (auto simp: frame_simps)
    moreover have "unat (vp_relay_port out) = unat q"
      using h(4) eff(6) by (simp add: service_to_proto_def unat_ucast_port)
    ultimately show ?thesis
      using Pair Inr h(1) r eff(4,5) unfolding used_relay_ports_holds by (auto simp: word_less_nat_alt word_le_nat_alt)
  qed
qed

end
